(* ===== verification/Prelude.thy ===== *)
theory Prelude
  imports Main "HOL-Library.AList"
begin

text \<open>
  Shared vocabulary of the development: the result type of operations that may raise, the
  relational operations of the SQL statements the stores issue (select, update in place,
  delete, count) with their laws, Python's insertion-ordered dictionaries as association
  lists, and the collections of simplification rules the component theories extend.

  Conventions. A Python exception is the left injection of a sum, a returned value the right
  one. A table is the list of its rows in insertion order; a statement without ORDER BY is
  only used where its result does not depend on the order or where the order is stated in
  the definition's comment. Instants and durations are integers in microseconds, the
  resolution of PostgreSQL's timestamps.
\<close>

named_theorems table_simps \<open>laws of the table operations\<close>
named_theorems text_simps \<open>laws of the Python string operations\<close>
named_theorems inv_intros \<open>preservation of invariants by single operations\<close>

section \<open>Results and exceptions\<close>

type_synonym time = int

abbreviation sec :: time where
  "sec \<equiv> 1000000"

definition is_ok :: "'e + 'a \<Rightarrow> bool" where
  "is_ok r = (case r of Inl _ \<Rightarrow> False | Inr _ \<Rightarrow> True)"

lemma is_ok_simps [simp]: "is_ok (Inr x)" "\<not> is_ok (Inl e)"
  by (simp_all add: is_ok_def)

lemma in_map_filter: "x \<in> set (List.map_filter f xs) \<longleftrightarrow> (\<exists>a \<in> set xs. f a = Some x)"
  by (induction xs) (auto simp: List.map_filter_simps split: option.splits)

section \<open>Tables\<close>

definition tselect :: "('r \<Rightarrow> bool) \<Rightarrow> 'r list \<Rightarrow> 'r option" where
  "tselect p t = find p t"

definition tupdate :: "('r \<Rightarrow> bool) \<Rightarrow> ('r \<Rightarrow> 'r) \<Rightarrow> 'r list \<Rightarrow> 'r list" where
  "tupdate p f t = map (\<lambda>r. if p r then f r else r) t"

definition tdelete :: "('r \<Rightarrow> bool) \<Rightarrow> 'r list \<Rightarrow> 'r list" where
  "tdelete p t = filter (\<lambda>r. \<not> p r) t"

definition tcount :: "('r \<Rightarrow> bool) \<Rightarrow> 'r list \<Rightarrow> nat" where
  "tcount p t = length (filter p t)"

lemma tselect_Some: "tselect p t = Some r \<Longrightarrow> r \<in> set t \<and> p r"
  by (auto simp: tselect_def find_Some_iff)

lemma tselect_None [table_simps]: "tselect p t = None \<longleftrightarrow> (\<forall>r \<in> set t. \<not> p r)"
  by (auto simp: tselect_def find_None_iff)

lemma tselect_append [table_simps]:
  "tselect p (t @ u) = (case tselect p t of Some r \<Rightarrow> Some r | None \<Rightarrow> tselect p u)"
  by (induction t) (auto simp: tselect_def)

lemma tselect_Cons [table_simps]:
  "tselect p (r # t) = (if p r then Some r else tselect p t)" "tselect p [] = None"
  by (auto simp: tselect_def)

lemma set_tupdate: "set (tupdate p f t) = {if p r then f r else r | r. r \<in> set t}"
  by (auto simp: tupdate_def)

lemma ball_tupdate [table_simps]:
  "(\<forall>r \<in> set (tupdate p f t). P r) \<longleftrightarrow> (\<forall>r \<in> set t. P (if p r then f r else r))"
  "(\<exists>r \<in> set (tupdate p f t). P r) \<longleftrightarrow> (\<exists>r \<in> set t. P (if p r then f r else r))"
  by (auto simp: tupdate_def)

lemma image_tupdate:
  assumes "\<And>r. g (f r) = g r"
  shows "g ` set (tupdate p f t) = g ` set t"
  unfolding tupdate_def set_map image_image using assms by (intro image_cong) simp_all

lemma set_tdelete [table_simps]: "set (tdelete p t) = {r \<in> set t. \<not> p r}"
  by (auto simp: tdelete_def)

lemma tcount_0 [table_simps]: "tcount p t = 0 \<longleftrightarrow> (\<forall>r \<in> set t. \<not> p r)"
  by (auto simp: tcount_def filter_empty_conv)

lemma tcount_pos [table_simps]: "0 < tcount p t \<longleftrightarrow> (\<exists>r \<in> set t. p r)"
  by (auto simp: tcount_def filter_empty_conv)

lemma tcount_append [table_simps]: "tcount p (t @ u) = tcount p t + tcount p u"
  by (simp add: tcount_def)

lemma tcount_Cons [table_simps]:
  "tcount p (r # t) = (if p r then Suc (tcount p t) else tcount p t)" "tcount p [] = 0"
  by (simp_all add: tcount_def)

text \<open>An update that leaves a projection alone leaves its column alone.\<close>

lemma map_tupdate:
  assumes "\<And>r. g (f r) = g r"
  shows "map g (tupdate p f t) = map g t"
  using assms by (simp add: tupdate_def)

lemma tupdate_none: "(\<And>r. r \<in> set t \<Longrightarrow> \<not> p r) \<Longrightarrow> tupdate p f t = t"
  by (simp add: tupdate_def map_idI)

lemma tselect_tupdate:
  assumes "\<And>r. q (f r) = q r"
  shows "tselect q (tupdate p f t) =
    map_option (\<lambda>r. if p r then f r else r) (tselect q t)"
  using assms by (induction t) (auto simp: tselect_def tupdate_def)

lemma tselect_tdelete:
  assumes "\<And>r. q r \<Longrightarrow> \<not> p r"
  shows "tselect q (tdelete p t) = tselect q t"
  using assms by (induction t) (auto simp: tselect_def tdelete_def)

text \<open>A column without repetitions identifies its row.\<close>

lemma distinct_col_eq:
  assumes "distinct (map key t)" "r \<in> set t" "s \<in> set t" "key r = key s"
  shows "r = s"
  using assms by (metis inj_onD distinct_map)

lemma tselect_key:
  assumes "distinct (map key t)" "r \<in> set t" "key r = k"
  shows "tselect (\<lambda>r. key r = k) t = Some r"
  using assms by (induction t) (auto simp: tselect_def)

lemma distinct_map_tdelete: "distinct (map key t) \<Longrightarrow> distinct (map key (tdelete p t))"
  by (simp add: tdelete_def distinct_map_filter)

text \<open>An update of the row with one key keeps a column free of repetitions when the new value
  is in no other row.\<close>

lemma distinct_tupdate:
  assumes "distinct (map key t)" "distinct (map g t)"
    and "\<And>r s. r \<in> set t \<Longrightarrow> s \<in> set t \<Longrightarrow> key r = k \<Longrightarrow> key s \<noteq> k \<Longrightarrow> g s \<noteq> g (f r)"
  shows "distinct (map g (tupdate (\<lambda>r. key r = k) f t))"
proof -
  let ?h = "\<lambda>r. g (if key r = k then f r else r)"
  have "inj_on ?h (set t)"
  proof (rule inj_onI)
    fix r s assume a: "r \<in> set t" "s \<in> set t" "?h r = ?h s"
    show "r = s"
    proof (cases "key r = k \<longleftrightarrow> key s = k")
      case True
      then show ?thesis using a assms(1,2) by (auto simp: distinct_map split: if_splits dest: inj_onD)
    next
      case False
      then show ?thesis using a assms(3) [of r s] assms(3) [of s r] by (auto split: if_splits)
    qed
  qed
  then show ?thesis using assms(1) by (simp add: tupdate_def comp_def distinct_map)
qed

section \<open>Dictionaries\<close>

text \<open>
  A Python dict keeps its keys in the order of their first insertion: an assignment to a key
  that is present changes the value in place, one to a new key appends. This is
  \<open>AList.update\<close>.
\<close>

type_synonym ('k, 'v) pydict = "('k \<times> 'v) list"

abbreviation dget :: "('k, 'v) pydict \<Rightarrow> 'k \<Rightarrow> 'v option" where
  "dget \<equiv> map_of"

abbreviation dset :: "'k \<Rightarrow> 'v \<Rightarrow> ('k, 'v) pydict \<Rightarrow> ('k, 'v) pydict" where
  "dset \<equiv> AList.update"

abbreviation ddel :: "'k \<Rightarrow> ('k, 'v) pydict \<Rightarrow> ('k, 'v) pydict" where
  "ddel \<equiv> AList.delete"

abbreviation dkeys :: "('k, 'v) pydict \<Rightarrow> 'k list" where
  "dkeys d \<equiv> map fst d"

lemma dget_dset [simp]: "dget (dset k v d) k' = (if k' = k then Some v else dget d k')"
  by (simp add: update_conv')

lemma dget_ddel [simp]: "dget (ddel k d) k' = (if k' = k then None else dget d k')"
  by (simp add: delete_conv')

lemma distinct_dset: "distinct (dkeys d) \<Longrightarrow> distinct (dkeys (dset k v d))"
  by (rule distinct_update)

lemma set_dkeys_dset: "set (dkeys (dset k v d)) = insert k (set (dkeys d))"
  by (induction d) auto

text \<open>Folding assignments into a dict: the last assignment to a key wins.\<close>

lemma dget_fold_dset:
  "dget (fold (\<lambda>x. dset (f x) (g x)) xs d) k =
     (case find (\<lambda>x. f x = k) (rev xs) of Some x \<Rightarrow> Some (g x) | None \<Rightarrow> dget d k)"
proof (induction xs rule: rev_induct)
  case Nil
  show ?case by simp
next
  case (snoc x xs)
  then show ?case by auto
qed

lemma set_dkeys_fold_dset:
  "set (dkeys (fold (\<lambda>x. dset (f x) (g x)) xs d)) = f ` set xs \<union> set (dkeys d)"
proof (induction xs arbitrary: d)
  case Nil
  then show ?case by simp
next
  case (Cons x xs)
  have "set (dkeys (fold (\<lambda>x. dset (f x) (g x)) xs (dset (f x) (g x) d)))
      = f ` set xs \<union> insert (f x) (set (dkeys d))"
    by (simp only: Cons.IH set_dkeys_dset)
  then show ?case by simp
qed

lemma distinct_fold_dset:
  "distinct (dkeys d) \<Longrightarrow> distinct (dkeys (fold (\<lambda>x. dset (f x) (g x)) xs d))"
proof (induction xs arbitrary: d)
  case Nil
  then show ?case by simp
next
  case (Cons x xs)
  have "distinct (dkeys (dset (f x) (g x) d))" by (rule distinct_dset) (rule Cons.prems)
  then show ?case using Cons.IH by simp
qed

section \<open>Stores\<close>

lemma list_all_True [simp]: "list_all (\<lambda>_. True) xs"
  by (simp add: list_all_iff)

text \<open>
  The contract of a store: its operations, or those of them that are allowed, keep an
  invariant. Then every sequence of allowed operations does.
\<close>

locale op_store =
  fixes step :: "'op \<Rightarrow> 's \<Rightarrow> 's"
    and allowed :: "'op \<Rightarrow> bool"
    and inv :: "'s \<Rightarrow> bool"
  assumes preserved: "allowed op \<Longrightarrow> inv s \<Longrightarrow> inv (step op s)"
begin

lemma run: "inv s \<Longrightarrow> list_all allowed ops \<Longrightarrow> inv (fold step ops s)"
  by (induction ops arbitrary: s) (auto simp: preserved)

end

end
