(* ===== verification/PyText.thy ===== *)
theory PyText
  imports Prelude
begin

text \<open>
  Python's string operations as the sources use them. A Python \<open>str\<close> is modelled by the
  list of the bytes of its UTF-8 encoding, which is injective and turns concatenation into
  concatenation; the literals of the sources that lie outside ASCII (the box-drawing
  connectors, the dash) are written out as their bytes. Case conversion and white space are
  Python's on the ASCII range.
\<close>

section \<open>White space, case, splitting and joining\<close>

definition is_ws :: "char \<Rightarrow> bool" where
  "is_ws c = (let n = (of_char c :: nat) in 9 \<le> n \<and> n \<le> 13 \<or> 28 \<le> n \<and> n \<le> 32)"

definition lstrip :: "string \<Rightarrow> string" where
  "lstrip s = dropWhile is_ws s"

definition rstrip :: "string \<Rightarrow> string" where
  "rstrip s = rev (dropWhile is_ws (rev s))"

definition strip :: "string \<Rightarrow> string" where
  "strip s = rstrip (lstrip s)"

definition char_lower :: "char \<Rightarrow> char" where
  "char_lower c =
     (let n = (of_char c :: nat) in if 65 \<le> n \<and> n \<le> 90 then char_of (n + 32) else c)"

definition lower :: "string \<Rightarrow> string" where
  "lower s = map char_lower s"

text \<open>\<open>s.split(c)\<close> for a one-character separator: never empty, keeps empty pieces.\<close>

fun split_on :: "char \<Rightarrow> string \<Rightarrow> string list" where
  "split_on c [] = [[]]"
| "split_on c (x # xs) =
     (if x = c then [] # split_on c xs
      else (case split_on c xs of [] \<Rightarrow> [[x]] | y # ys \<Rightarrow> (x # y) # ys))"

text \<open>\<open>sep.join(xs)\<close>.\<close>

fun join :: "string \<Rightarrow> string list \<Rightarrow> string" where
  "join sep [] = []"
| "join sep [x] = x"
| "join sep (x # y # ys) = x @ sep @ join sep (y # ys)"

definition startswith :: "string \<Rightarrow> string \<Rightarrow> bool" where
  "startswith s p = (take (length p) s = p)"

text \<open>\<open>s.split(c, 1)\<close> and \<open>s.rsplit(c, 1)\<close> where the separator occurs: the two pieces.\<close>

fun split1 :: "char \<Rightarrow> string \<Rightarrow> (string \<times> string) option" where
  "split1 c [] = None"
| "split1 c (x # xs) =
     (if x = c then Some ([], xs)
      else map_option (\<lambda>(a, b). (x # a, b)) (split1 c xs))"

definition rsplit1 :: "char \<Rightarrow> string \<Rightarrow> (string \<times> string) option" where
  "rsplit1 c s = map_option (\<lambda>(a, b). (rev b, rev a)) (split1 c (rev s))"

lemma split_on_ne [simp]: "split_on c s \<noteq> []"
  by (induction s) (auto split: list.splits)

lemma join_Cons [text_simps]: "join sep (x # xs) = (if xs = [] then x else x @ sep @ join sep xs)"
  by (cases xs) auto

text \<open>Splitting and joining on the same character are inverse to each other.\<close>

lemma join_split_on [text_simps]: "join [c] (split_on c s) = s"
proof (induction s)
  case Nil
  then show ?case by simp
next
  case (Cons x xs)
  obtain y ys where s: "split_on c xs = y # ys"
    by (cases "split_on c xs") auto
  show ?case using Cons s by (cases ys) (auto simp: join_Cons)
qed

lemma split_on_no_sep [text_simps]: "c \<notin> set s \<Longrightarrow> split_on c s = [s]"
  by (induction s) auto

lemma split_on_append [text_simps]:
  "c \<notin> set s \<Longrightarrow> split_on c (s @ c # t) = s # split_on c t"
  by (induction s) auto

lemma split_on_join [text_simps]:
  "xs \<noteq> [] \<Longrightarrow> (\<And>x. x \<in> set xs \<Longrightarrow> c \<notin> set x) \<Longrightarrow> split_on c (join [c] xs) = xs"
proof (induction xs)
  case Nil
  then show ?case by simp
next
  case (Cons x xs)
  then show ?case
    by (cases xs) (auto simp: join_Cons split_on_no_sep split_on_append)
qed

lemma split_on_pieces: "p \<in> set (split_on c s) \<Longrightarrow> c \<notin> set p"
  by (induction s arbitrary: p) (auto split: list.splits if_splits)

lemma split1_append [text_simps]: "c \<notin> set s \<Longrightarrow> split1 c (s @ c # t) = Some (s, t)"
  by (induction s) auto

lemma split1_None [text_simps]: "split1 c s = None \<longleftrightarrow> c \<notin> set s"
  by (induction s) auto

lemma split1_Some: "split1 c s = Some (a, b) \<Longrightarrow> s = a @ c # b \<and> c \<notin> set a"
  by (induction s arbitrary: a) (auto split: if_splits)

lemma rsplit1_append [text_simps]:
  assumes "c \<notin> set t"
  shows "rsplit1 c (s @ c # t) = Some (s, t)"
proof -
  have "split1 c (rev t @ c # rev s) = Some (rev t, rev s)"
    using assms by (simp add: split1_append)
  then show ?thesis by (simp add: rsplit1_def)
qed

lemma rsplit1_Some:
  assumes "rsplit1 c s = Some (a, b)"
  shows "s = a @ c # b \<and> c \<notin> set b"
proof -
  from assms have "split1 c (rev s) = Some (rev b, rev a)"
    by (auto simp: rsplit1_def)
  then have h: "rev s = rev b @ c # rev a" "c \<notin> set b"
    by (auto dest: split1_Some)
  then have "rev (rev s) = rev (rev b @ c # rev a)" by simp
  with h(2) show ?thesis by simp
qed

section \<open>Stripping\<close>

lemma dropWhile_hd: "dropWhile P s = [] \<or> \<not> P (hd (dropWhile P s))"
  by (induction s) auto

lemma dropWhile_id: "s = [] \<or> \<not> P (hd s) \<Longrightarrow> dropWhile P s = s"
  by (cases s) auto

lemma strip_no_ws [text_simps]:
  assumes "s \<noteq> []" "\<not> is_ws (hd s)" "\<not> is_ws (last s)"
  shows "strip s = s"
  using assms by (simp add: strip_def lstrip_def rstrip_def dropWhile_id hd_rev)

lemma strip_Nil [text_simps]: "strip [] = []"
  by (simp add: strip_def lstrip_def rstrip_def)

lemma strip_all_ws: "(\<And>c. c \<in> set s \<Longrightarrow> \<not> is_ws c) \<Longrightarrow> strip s = s"
  by (cases "s = []") (auto simp: text_simps)

lemma rstrip_last: "rstrip s = [] \<or> \<not> is_ws (last (rstrip s))"
  using dropWhile_hd [of is_ws "rev s"] by (auto simp: rstrip_def last_rev)

lemma rstrip_prefix: "\<exists>t. s = rstrip s @ t"
proof -
  have "rev s = takeWhile is_ws (rev s) @ dropWhile is_ws (rev s)" by simp
  then have "s = rev (dropWhile is_ws (rev s)) @ rev (takeWhile is_ws (rev s))"
    by (metis rev_append rev_rev_ident)
  then show ?thesis unfolding rstrip_def by blast
qed

lemma strip_idem [text_simps]: "strip (strip s) = strip s"
proof (cases "strip s = []")
  case True
  then show ?thesis by (simp add: text_simps)
next
  case False
  obtain t where t: "lstrip s = strip s @ t"
    using rstrip_prefix [of "lstrip s"] by (auto simp: strip_def)
  have "hd (strip s) = hd (lstrip s)" using t False by (metis hd_append2)
  moreover have "lstrip s \<noteq> []" using t False by auto
  then have "\<not> is_ws (hd (lstrip s))"
    using dropWhile_hd [of is_ws s] by (auto simp: lstrip_def)
  moreover have "\<not> is_ws (last (strip s))"
    using rstrip_last [of "lstrip s"] False by (auto simp: strip_def)
  ultimately show ?thesis using False by (simp add: strip_no_ws)
qed

section \<open>Decimal numbers\<close>

definition is_digit :: "char \<Rightarrow> bool" where
  "is_digit c = (let n = (of_char c :: nat) in 48 \<le> n \<and> n \<le> 57)"

definition digit_val :: "char \<Rightarrow> nat" where
  "digit_val c = (of_char c :: nat) - 48"

definition digit_char :: "nat \<Rightarrow> char" where
  "digit_char n = char_of (n + 48)"

fun show_nat :: "nat \<Rightarrow> string" where
  "show_nat n = (if n < 10 then [digit_char n] else show_nat (n div 10) @ [digit_char (n mod 10)])"

declare show_nat.simps [simp del]

definition show_int :: "int \<Rightarrow> string" where
  "show_int i = (if i < 0 then ''-'' @ show_nat (nat (- i)) else show_nat (nat i))"

text \<open>
  The digits of an \<open>int\<close> literal: groups of digits separated by single underscores, which
  \<open>int()\<close> accepts; the flag says that the character before was a digit.
\<close>

fun read_digits :: "nat \<Rightarrow> bool \<Rightarrow> string \<Rightarrow> nat option" where
  "read_digits acc d [] = (if d then Some acc else None)"
| "read_digits acc d (c # cs) =
     (if is_digit c then read_digits (10 * acc + digit_val c) True cs
      else if c = CHR ''_'' \<and> d then read_digits acc False cs
      else None)"

text \<open>\<open>int(s)\<close>: surrounding white space and one sign are allowed; None is the ValueError.\<close>

definition py_int :: "string \<Rightarrow> int option" where
  "py_int s =
     (case strip s of
        [] \<Rightarrow> None
      | c # cs \<Rightarrow>
          (if c = CHR ''-'' then map_option (\<lambda>n. - int n) (read_digits 0 False cs)
           else if c = CHR ''+'' then map_option int (read_digits 0 False cs)
           else map_option int (read_digits 0 False (c # cs))))"

lemma digit_char_code: "n < 10 \<Longrightarrow> (of_char (digit_char n) :: nat) = n + 48"
  by (simp add: digit_char_def)

lemma is_digit_digit_char [simp]: "n < 10 \<Longrightarrow> is_digit (digit_char n)"
  by (simp add: is_digit_def digit_char_code)

lemma digit_val_digit_char [simp]: "n < 10 \<Longrightarrow> digit_val (digit_char n) = n"
  by (simp add: digit_val_def digit_char_code)

lemma show_nat_digits: "\<forall>c \<in> set (show_nat n). is_digit c"
proof (induction n rule: show_nat.induct)
  case (1 n)
  then show ?case by (subst show_nat.simps) auto
qed

lemma show_nat_ne [simp]: "show_nat n \<noteq> []"
  by (subst show_nat.simps) auto

lemma read_digits_append_digit:
  assumes "n < 10" "s \<noteq> []" "\<forall>c \<in> set s. is_digit c"
  shows "read_digits acc d (s @ [digit_char n]) =
    map_option (\<lambda>m. 10 * m + n) (read_digits acc d s)"
  using assms
proof (induction s arbitrary: acc d)
  case Nil
  then show ?case by simp
next
  case (Cons c s)
  show ?case
  proof (cases "s = []")
    case True
    with Cons.prems show ?thesis by simp
  next
    case False
    with Cons show ?thesis by simp
  qed
qed

lemma read_show_nat: "read_digits 0 d (show_nat n) = Some n"
proof (induction n rule: show_nat.induct)
  case (1 n)
  show ?case
  proof (cases "n < 10")
    case True
    then show ?thesis by (subst show_nat.simps) simp
  next
    case False
    have "read_digits 0 d (show_nat (n div 10) @ [digit_char (n mod 10)])
        = map_option (\<lambda>m. 10 * m + n mod 10) (read_digits 0 d (show_nat (n div 10)))"
      by (rule read_digits_append_digit) (simp_all add: show_nat_digits)
    also have "\<dots> = Some n" using "1" [OF False] by simp
    finally show ?thesis using False by (subst show_nat.simps) simp
  qed
qed

lemma digit_not_ws: "is_digit c \<Longrightarrow> \<not> is_ws c"
  by (auto simp: is_digit_def is_ws_def Let_def)

lemma digit_not_sign: "is_digit c \<Longrightarrow> c \<noteq> CHR ''-'' \<and> c \<noteq> CHR ''+'' \<and> c \<noteq> CHR '':'' \<and> c \<noteq> CHR ''.''"
  by (auto simp: is_digit_def)

lemma strip_show_nat [text_simps]: "strip (show_nat n) = show_nat n"
  using show_nat_digits [of n] by (intro strip_all_ws) (auto dest: digit_not_ws)

lemma show_int_chars: "c \<in> set (show_int i) \<Longrightarrow> is_digit c \<or> c = CHR ''-''"
  using show_nat_digits by (auto simp: show_int_def split: if_splits)

lemma strip_show_int [text_simps]: "strip (show_int i) = show_int i"
proof (rule strip_all_ws)
  fix c
  assume "c \<in> set (show_int i)"
  then have "is_digit c \<or> c = CHR ''-''" by (rule show_int_chars)
  then show "\<not> is_ws c" by (auto simp: is_ws_def dest: digit_not_ws)
qed

text \<open>Reading back what was printed: \<open>int(str(i)) == i\<close>.\<close>

lemma py_int_show_int [text_simps]: "py_int (show_int i) = Some i"
proof (cases "i < 0")
  case True
  then have "strip (show_int i) = CHR ''-'' # show_nat (nat (- i))"
    by (simp only: strip_show_int) (simp add: show_int_def)
  then show ?thesis using True by (simp add: py_int_def read_show_nat)
next
  case False
  then have s: "strip (show_int i) = show_nat (nat i)"
    by (simp only: strip_show_int) (simp add: show_int_def)
  obtain c cs where c: "show_nat (nat i) = c # cs" by (cases "show_nat (nat i)") auto
  then have "is_digit c" using show_nat_digits [of "nat i"] by simp
  then have "c \<noteq> CHR ''-''" "c \<noteq> CHR ''+''" by (auto dest: digit_not_sign)
  then show ?thesis using False s c read_show_nat [of False "nat i"] by (simp add: py_int_def)
qed

lemma show_nat_inject: "show_nat m = show_nat n \<longleftrightarrow> m = n"
  by (metis option.inject read_show_nat)

lemma show_int_inject: "show_int i = show_int j \<longleftrightarrow> i = j"
  by (metis option.inject py_int_show_int)

section \<open>Characters\<close>

text \<open>A string holds the UTF-8 bytes; the characters of a str are its code points, each a first
  byte with its continuation bytes.\<close>

definition continuation :: "char \<Rightarrow> bool" where
  "continuation c \<longleftrightarrow> (let n = (of_char c :: nat) in 128 \<le> n \<and> n < 192)"

function py_chars :: "string \<Rightarrow> string list" where
  "py_chars [] = []"
| "py_chars (c # cs) = (c # takeWhile continuation cs) # py_chars (dropWhile continuation cs)"
  by pat_completeness auto
termination by (relation "measure length") (auto simp: le_imp_less_Suc length_dropWhile_le)

lemma concat_py_chars [simp]: "concat (py_chars s) = s"
  by (induction s rule: py_chars.induct) simp_all

section \<open>Paths\<close>

text \<open>\<open>Path(p).name\<close>: the last component; empty components and dots do not count.\<close>

definition path_name :: "string \<Rightarrow> string" where
  "path_name p = (let parts = filter (\<lambda>c. c \<noteq> [] \<and> c \<noteq> ''.'') (split_on (CHR ''/'') p)
     in if parts = [] then [] else last parts)"

text \<open>\<open>str(Path(p))\<close> and \<open>str(Path(p) / q)\<close> of \<open>PurePosixPath\<close>.\<close>

definition path_str :: "string \<Rightarrow> string" where
  "path_str p =
     (let root = (if startswith p ''//'' \<and> \<not> startswith p ''///'' then ''//'' else if startswith p ''/'' then ''/'' else []);
          s = root @ join ''/'' (filter (\<lambda>c. c \<noteq> [] \<and> c \<noteq> ''.'') (split_on (CHR ''/'') p))
      in if s = [] then ''.'' else s)"

definition path_join :: "string \<Rightarrow> string \<Rightarrow> string" where
  "path_join p q = (if startswith q ''/'' \<or> p = [] then path_str q else path_str (p @ ''/'' @ q))"

end
