(* ===== verification/TreeBuilder.thy ===== *)
theory TreeBuilder
  imports PyText
begin

text \<open>
  The tree renderer of \<open>src/mcp/tree_builder.py\<close>: the node type and its renderer, and the
  block renderer for flat lists of rows. The connectors are the UTF-8 bytes of the
  box-drawing characters of the source.
\<close>

definition tee :: string where  \<comment> \<open>non-last child\<close>
  "tee = [CHR 0xE2, CHR 0x94, CHR 0x9C, CHR 0xE2, CHR 0x94, CHR 0x80]"

definition elbow :: string where  \<comment> \<open>last child\<close>
  "elbow = [CHR 0xE2, CHR 0x94, CHR 0x94, CHR 0xE2, CHR 0x94, CHR 0x80]"

definition pipe :: string where  \<comment> \<open>vertical line and three spaces\<close>
  "pipe = [CHR 0xE2, CHR 0x94, CHR 0x82] @ ''   ''"

definition blank :: string where
  "blank = ''    ''"

datatype TreeNode = TreeNode (label: string) (is_root: bool) (children: "TreeNode list")

text \<open>
  \<open>add\<close> appends a child to the node and hands it back; in the model the enlarged parent is
  the result, and a plain string becomes a leaf that is not a root.
\<close>

definition leaf :: "string \<Rightarrow> TreeNode" where
  "leaf s = TreeNode s False []"

definition add :: "TreeNode \<Rightarrow> TreeNode \<Rightarrow> TreeNode" where
  "add node child = TreeNode (label node) (is_root node) (children node @ [child])"

text \<open>
  \<open>_render_into\<close> with the lines it appends as its result. The loop over the children
  compares the index with the last one; the recursion on the list of children does the same
  with the rest of the list.
\<close>

fun render_into :: "string \<Rightarrow> bool \<Rightarrow> TreeNode \<Rightarrow> string list"
  and render_children :: "string \<Rightarrow> TreeNode list \<Rightarrow> string list" where
  "render_into prefix is_last (TreeNode lbl root cs) =
     (if root then lbl # render_children [] cs
      else (prefix @ (if is_last then elbow else tee) @ '' '' @ lbl)
           # render_children (prefix @ (if is_last then blank else pipe)) cs)"
| "render_children prefix [] = []"
| "render_children prefix (c # cs) =
     render_into prefix (cs = []) c @ render_children prefix cs"

definition render :: "TreeNode \<Rightarrow> string" where
  "render t = join [CHR 0x0A] (render_into [] True t)"

definition render_list_block :: "string list \<Rightarrow> string \<Rightarrow> string list" where
  "render_list_block rows prefix =
     (if rows = [] then []
      else (let last_idx = length rows - 1
            in map (\<lambda>(i, row). prefix @ (if i = last_idx then elbow else tee) @ '' '' @ row)
                 (enumerate 0 rows)))"

section \<open>Facts\<close>

fun nodes :: "TreeNode \<Rightarrow> nat" where
  "nodes (TreeNode lbl root cs) = Suc (sum_list (map nodes cs))"

fun preorder :: "TreeNode \<Rightarrow> string list" where
  "preorder (TreeNode lbl root cs) = lbl # concat (map preorder cs)"

text \<open>The reference description: every node in preorder with the \<open>is_last\<close> flags of its
  ancestors and of itself, starting below the nearest root node.\<close>

fun flagged :: "bool list \<Rightarrow> bool \<Rightarrow> TreeNode \<Rightarrow> (bool list \<times> string) list"
  and flagged_children :: "bool list \<Rightarrow> TreeNode list \<Rightarrow> (bool list \<times> string) list" where
  "flagged fs l (TreeNode lbl root cs) =
     (if root then ([], lbl) # flagged_children [] cs
      else (fs @ [l], lbl) # flagged_children (fs @ [l]) cs)"
| "flagged_children fs [] = []"
| "flagged_children fs (c # cs) = flagged fs (cs = []) c @ flagged_children fs cs"

definition indent :: "bool list \<Rightarrow> string" where
  "indent fs = concat (map (\<lambda>l. if l then blank else pipe) fs)"

definition line_of :: "bool list \<times> string \<Rightarrow> string" where
  "line_of e = (if fst e = [] then snd e
     else indent (butlast (fst e)) @ (if last (fst e) then elbow else tee) @ '' '' @ snd e)"

lemma indent_snoc: "indent (fs @ [l]) = indent fs @ (if l then blank else pipe)"
  by (simp add: indent_def)

lemma indent_Nil: "indent [] = []"
  by (simp add: indent_def)

lemma render_flagged:
  "render_into (indent fs) l t = map line_of (flagged fs l t)"
  "render_children (indent fs) cs = map line_of (flagged_children fs cs)"
proof (induction fs l t and fs cs rule: flagged_flagged_children.induct)
  case (1 fs l lbl root cs)
  then show ?case
    by (simp add: line_of_def indent_Nil [symmetric] indent_snoc [symmetric] del: indent_Nil)
next
  case (2 fs)
  then show ?case by simp
next
  case (3 fs c cs)
  then show ?case by simp
qed

lemma flagged_preorder:
  "map snd (flagged fs l t) = preorder t"
  "map snd (flagged_children fs cs) = concat (map preorder cs)"
  by (induction fs l t and fs cs rule: flagged_flagged_children.induct) auto

lemma length_preorder: "length (preorder t) = nodes t"
  by (induction t rule: preorder.induct) (simp add: length_concat comp_def cong: map_cong)

text \<open>
  C15. The renderer prints every node exactly once, in preorder, and each line is determined
  by the path to its node alone: four columns per proper ancestor below the root (a vertical
  line where that ancestor has later siblings, blanks where it is the last child), then the
  connector of the node's own position, then its label.
\<close>
theorem render_into_lines:
  "render_into [] True t = map line_of (flagged [] True t) \<and>
   map snd (flagged [] True t) = preorder t \<and>
   length (render_into [] True t) = nodes t"
proof -
  have r: "render_into [] True t = map line_of (flagged [] True t)"
    using render_flagged(1) [of "[]" True t] by (simp add: indent_Nil)
  have p: "map snd (flagged [] True t) = preorder t" by (rule flagged_preorder(1))
  have "length (render_into [] True t) = length (map snd (flagged [] True t))"
    by (simp add: r)
  then show ?thesis using r p by (simp add: length_preorder del: length_map)
qed

lemma list_block_snoc:
  "render_list_block (rows @ [r]) prefix =
     map (\<lambda>row. prefix @ tee @ '' '' @ row) rows @ [prefix @ elbow @ '' '' @ r]"
proof -
  have "map (\<lambda>(i, row). prefix @ (if i = length rows then elbow else tee) @ '' '' @ row)
          (zip [0..<length rows] rows) = map (\<lambda>row. prefix @ tee @ '' '' @ row) rows"
    by (rule nth_equalityI) simp_all
  then show ?thesis
    by (simp add: render_list_block_def enumerate_append_eq enumerate_eq_zip Let_def)
qed

lemma render_children_leaves_snoc:
  "render_children prefix (map leaf (rows @ [r])) =
     map (\<lambda>row. prefix @ tee @ '' '' @ row) rows @ [prefix @ elbow @ '' '' @ r]"
  by (induction rows) (auto simp: leaf_def)

text \<open>
  The two renderers agree: the rows of a flat block are printed exactly as the children
  of a node with the same continuation prefix would be, so a tool may switch between them.
\<close>
theorem render_list_block_children:
  "render_list_block rows prefix = render_children prefix (map leaf rows) \<and>
   render_into [] True (foldl add (TreeNode h True []) (map leaf rows)) = h # render_list_block rows []"
proof -
  have eq: "render_list_block rows p = render_children p (map leaf rows)" for p
  proof (cases rows rule: rev_cases)
    case Nil
    then show ?thesis by (simp add: render_list_block_def)
  next
    case (snoc rs r)
    then show ?thesis by (simp only: list_block_snoc render_children_leaves_snoc)
  qed
  have "foldl add (TreeNode h True cs) xs = TreeNode h True (cs @ xs)" for cs xs
    by (induction xs arbitrary: cs) (auto simp: add_def)
  then show ?thesis by (simp add: eq)
qed

end
