(* ===== verification/Versions.thy ===== *)
theory Versions
  imports PyText
begin

text \<open>
  Version handling shared by the indexer and the MCP tools: the constants and
  \<open>valid_domain_operators\<close> of \<open>src/constants.py\<close>, the range registry of
  \<open>src/indexer/version_registry.py\<close>, the manifest finder dispatch and version resolution of
  \<open>src/indexer/registry.py\<close>, and the branch test of \<open>src/indexer/scanner.py\<close>.
\<close>

section \<open>Constants\<close>

definition LEGACY_ERA_MAX_MAJOR :: int where
  "LEGACY_ERA_MAX_MAJOR = 9"

definition RELATIONAL_TTYPES :: "string list" where
  "RELATIONAL_TTYPES = [''many2one'', ''one2many'', ''many2many'']"

definition MAGIC_FIELDS :: "(string, string \<times> string option) pydict" where
  "MAGIC_FIELDS =
     [(''id'', (''integer'', None)),
      (''display_name'', (''char'', None)),
      (''create_uid'', (''many2one'', Some ''res.users'')),
      (''create_date'', (''datetime'', None)),
      (''write_uid'', (''many2one'', Some ''res.users'')),
      (''write_date'', (''datetime'', None))]"

definition DOMAIN_OPERATORS_BASE :: "string list" where
  "DOMAIN_OPERATORS_BASE =
     [''='', ''!='', ''<'', ''<='', ''>'', ''>='', ''=?'',
      ''=like'', ''=ilike'', ''like'', ''not like'', ''ilike'', ''not ilike'',
      ''in'', ''not in'', ''child_of'']"

section \<open>Operators of an Odoo version\<close>

text \<open>\<open>int(str(v).split('.')[0])\<close>; None where the conversion raises.\<close>

definition major_of :: "string \<Rightarrow> int option" where
  "major_of v = py_int (hd (split_on (CHR ''.'') v))"

definition valid_domain_operators :: "string \<Rightarrow> string list" where
  "valid_domain_operators v =
     (let major = (case major_of v of None \<Rightarrow> 99 | Some m \<Rightarrow> m)
      in DOMAIN_OPERATORS_BASE
         @ (if major \<ge> 9 then [''parent_of''] else [])
         @ (if major \<ge> 17 then [''any'', ''not any''] else [])
         @ (if major \<ge> 19 then [''any!'', ''not any!'', ''not =like'', ''not =ilike''] else []))"

lemma set_guard_mono: "(b \<Longrightarrow> b') \<Longrightarrow> set (if b then xs else []) \<subseteq> set (if b' then xs else [])"
  by auto

text \<open>
  The operator sets grow with the major version: an operator valid in one version is
  valid in every later one, and a version whose major cannot be read accepts every operator
  that any version accepts, so it never flags a false positive.
\<close>
theorem valid_domain_operators_mono:
  assumes "major_of v = Some m" "major_of w = Some n \<and> m \<le> n \<or> major_of w = None"
  shows "set (valid_domain_operators v) \<subseteq> set (valid_domain_operators w)"
proof -
  let ?n = "case major_of w of None \<Rightarrow> 99 | Some m \<Rightarrow> m"
  have "k \<le> m \<Longrightarrow> k \<le> ?n" if "k \<le> 19" for k
    using assms(2) that by auto
  then show ?thesis
    unfolding valid_domain_operators_def Let_def assms(1) option.case set_append
    by (intro Un_mono set_guard_mono order_refl) simp_all
qed

theorem valid_domain_operators_mono_witness:
  "''parent_of'' \<in> set (valid_domain_operators ''17.0'') \<and>
   set (valid_domain_operators ''16.0'') \<subseteq> set (valid_domain_operators ''17.0'') \<and>
   set (valid_domain_operators ''17.0'') \<subseteq> set (valid_domain_operators ''saas'')"
proof -
  have m: "major_of ''16.0'' = Some 16" "major_of ''17.0'' = Some 17" "major_of ''saas'' = None"
    by code_simp+
  have "set (valid_domain_operators ''16.0'') \<subseteq> set (valid_domain_operators ''17.0'')"
    using valid_domain_operators_mono [of "''16.0''" 16 "''17.0''" 17] m by simp
  moreover have "set (valid_domain_operators ''17.0'') \<subseteq> set (valid_domain_operators ''saas'')"
    using valid_domain_operators_mono [of "''17.0''" 17 "''saas''" 17] m by simp
  moreover have "''parent_of'' \<in> set (valid_domain_operators ''17.0'')"
    by (simp add: valid_domain_operators_def m)
  ultimately show ?thesis by blast
qed

section \<open>The version registry\<close>

type_synonym 'h entry = "int \<times> int option \<times> 'h"

text \<open>The constructor sorts the entries by their lower bound (a stable sort).\<close>

definition VersionRegistry :: "'h entry list \<Rightarrow> 'h entry list" where
  "VersionRegistry entries = sort_key fst entries"

fun resolve :: "'h entry list \<Rightarrow> int \<Rightarrow> 'h option \<Rightarrow> 'h option" where
  "resolve [] major dflt = dflt"
| "resolve ((min_major, max_major, handler) # es) major dflt =
     (if major < min_major then resolve es major dflt
      else if (case max_major of None \<Rightarrow> False | Some mx \<Rightarrow> major > mx) then resolve es major dflt
      else Some handler)"

definition resolve_version :: "'h entry list \<Rightarrow> string \<Rightarrow> 'h option \<Rightarrow> 'h option" where
  "resolve_version es v dflt =
     (case major_of v of None \<Rightarrow> dflt | Some major \<Rightarrow> resolve es major dflt)"

definition covers :: "'h entry \<Rightarrow> int \<Rightarrow> bool" where
  "covers e major \<longleftrightarrow>
     fst e \<le> major \<and> (case fst (snd e) of None \<Rightarrow> True | Some mx \<Rightarrow> major \<le> mx)"

lemma resolve_find:
  "resolve es major dflt =
     (case find (\<lambda>e. covers e major) es of Some e \<Rightarrow> Some (snd (snd e)) | None \<Rightarrow> dflt)"
  by (induction es major dflt rule: resolve.induct) (auto simp: covers_def split: option.splits)

lemma find_filter_hd: "find P xs = (case filter P xs of [] \<Rightarrow> None | x # _ \<Rightarrow> Some x)"
  by (induction xs) auto

lemma sort_key_min:
  assumes "distinct (map f xs)" "x \<in> set xs" "\<And>y. y \<in> set xs \<Longrightarrow> f x \<le> f y"
  shows "\<exists>ys. sort_key f xs = x # ys"
proof (cases "sort_key f xs")
  case Nil
  then show ?thesis using assms(2) by (metis length_0_conv length_pos_if_in_set length_sort less_irrefl)
next
  case (Cons z ys)
  have s: "sorted (map f (z # ys))" using sorted_sort_key [of f xs] Cons by simp
  have "x \<in> set (z # ys)" using assms(2) Cons by (metis set_sort)
  then have "f z \<le> f x" using s by auto
  moreover have "z \<in> set xs" using Cons by (metis list.set_intros(1) set_sort)
  ultimately have "f z = f x" using assms(3) by (simp add: order_antisym)
  then have "z = x" using assms(1,2) \<open>z \<in> set xs\<close> by (metis distinct_map inj_onD)
  then show ?thesis using Cons by simp
qed

text \<open>
  Resolution in a registry whose entries have different lower bounds: whatever order the
  entries were given in, the handler found is that of the covering entry with the least lower
  bound, and the default is returned exactly when no entry covers the version.
\<close>
theorem registry_resolve:
  assumes "distinct (map fst entries)"
  shows "(resolve (VersionRegistry entries) major dflt = dflt \<and> (\<forall>e \<in> set entries. \<not> covers e major))
    \<or> (\<exists>e \<in> set entries. covers e major \<and> (\<forall>e' \<in> set entries. covers e' major \<longrightarrow> fst e \<le> fst e') \<and>
          resolve (VersionRegistry entries) major dflt = Some (snd (snd e)))"
proof -
  define cs where "cs = filter (\<lambda>e. covers e major) entries"
  have f: "filter (\<lambda>e. covers e major) (VersionRegistry entries) = sort_key fst cs"
    by (simp add: VersionRegistry_def cs_def filter_sort)
  show ?thesis
  proof (cases "cs = []")
    case True
    then have "resolve (VersionRegistry entries) major dflt = dflt"
      by (simp add: resolve_find find_filter_hd f)
    then show ?thesis using True by (auto simp: cs_def filter_empty_conv)
  next
    case False
    then obtain e where e: "e \<in> set cs" "\<And>y. y \<in> set cs \<Longrightarrow> fst e \<le> fst y"
      by (metis arg_min_if_finite(1) finite_set set_empty arg_min_least)
    have "distinct (map fst cs)" using assms by (simp add: cs_def distinct_map_filter)
    then obtain ys where "sort_key fst cs = e # ys" using sort_key_min e by metis
    then have "resolve (VersionRegistry entries) major dflt = Some (snd (snd e))"
      by (simp add: resolve_find find_filter_hd f)
    then show ?thesis using e by (auto simp: cs_def)
  qed
qed

theorem registry_resolve_witness:
  "distinct (map fst [(17::int, None, ''new''), (8, Some (9::int), ''old''), (10, Some 16, ''mid'')]) \<and>
   resolve (VersionRegistry [(17, None, ''new''), (8, Some 9, ''old''), (10, Some 16, ''mid'')]) 12 None
     = Some ''mid''"
proof -
  let ?es = "[(17::int, None, ''new''), (8, Some (9::int), ''old''), (10, Some 16, ''mid'')]"
  have d: "distinct (map fst ?es)" by simp
  have "resolve (VersionRegistry ?es) 12 None = Some ''mid''"
    using registry_resolve [OF d, of 12 None] by (auto simp: covers_def)
  then show ?thesis using d by blast
qed

section \<open>Manifest finders, branches and manifest versions\<close>

datatype finder = ModernManifestFinder | LegacyManifestFinder

definition get_manifest_finder :: "string \<Rightarrow> finder" where
  "get_manifest_finder v =
     (case major_of v of
        None \<Rightarrow> ModernManifestFinder
      | Some major \<Rightarrow> (if major \<le> LEGACY_ERA_MAX_MAJOR then LegacyManifestFinder
                        else ModernManifestFinder))"

definition manifest_name :: "finder \<Rightarrow> string" where
  "manifest_name f = (case f of ModernManifestFinder \<Rightarrow> ''__manifest__.py''
                              | LegacyManifestFinder \<Rightarrow> ''__openerp__.py'')"

text \<open>
  One step of the regular expressions below: a maximal run of at least one digit, and the
  rest. The pieces that follow such a run never start with a digit, so the greedy match is
  the only one.
\<close>

definition digits1 :: "string \<Rightarrow> (string \<times> string) option" where
  "digits1 s = (let d = takeWhile is_digit s in if d = [] then None else Some (d, dropWhile is_digit s))"

definition char1 :: "char \<Rightarrow> string \<Rightarrow> string option" where
  "char1 c s = (case s of [] \<Rightarrow> None | x # xs \<Rightarrow> if x = c then Some xs else None)"

text \<open>
  \<open>re.match(r'^\d+\.\d+$', branch)\<close>. The dollar sign of Python's \<open>re\<close> also matches before
  a final newline.
\<close>

definition is_odoo_version_branch :: "string \<Rightarrow> bool" where
  "is_odoo_version_branch branch =
     (case digits1 branch of
        None \<Rightarrow> False
      | Some (_, r) \<Rightarrow>
          (case char1 (CHR ''.'') r of
             None \<Rightarrow> False
           | Some r' \<Rightarrow>
               (case digits1 r' of
                  None \<Rightarrow> False
                | Some (_, q) \<Rightarrow> q = [] \<or> q = [CHR 0x0A])))"

text \<open>The group of \<open>re.match(r'^(\d+\.0)\.\d+\.\d+', manifest_version)\<close>.\<close>

definition long_version_prefix :: "string \<Rightarrow> string option" where
  "long_version_prefix s =
     Option.bind (digits1 s) (\<lambda>(major, r).
     Option.bind (char1 (CHR ''.'') r) (\<lambda>r.
     Option.bind (char1 (CHR ''0'') r) (\<lambda>r.
     Option.bind (char1 (CHR ''.'') r) (\<lambda>r.
     Option.bind (digits1 r) (\<lambda>(_, r).
     Option.bind (char1 (CHR ''.'') r) (\<lambda>r.
     Option.bind (digits1 r) (\<lambda>_. Some (major @ ''.0'')))))))) "

text \<open>
  \<open>branch\<close> is what \<open>get_git_branch\<close> reads from git: None when the path is no repository.
\<close>

definition resolve_odoo_version :: "string \<Rightarrow> string option \<Rightarrow> string" where
  "resolve_odoo_version manifest_version branch =
     (case long_version_prefix manifest_version of
        Some v \<Rightarrow> v
      | None \<Rightarrow>
          (case branch of
             None \<Rightarrow> ''unknown''
           | Some b \<Rightarrow> (if b \<noteq> [] \<and> is_odoo_version_branch b then b else ''unknown'')))"

lemma digits1_append:
  assumes "d \<noteq> []" "\<forall>c \<in> set d. is_digit c" "r = [] \<or> \<not> is_digit (hd r)"
  shows "digits1 (d @ r) = Some (d, r)"
proof -
  have "takeWhile is_digit (d @ r) = d @ takeWhile is_digit r"
    using assms(2) by (simp add: takeWhile_append2)
  moreover have "takeWhile is_digit r = []" using assms(3) by (cases r) auto
  moreover have "dropWhile is_digit (d @ r) = r"
    using assms(2,3) by (simp add: dropWhile_append2) (cases r; auto)
  ultimately show ?thesis using assms(1) by (simp add: digits1_def)
qed

lemma major_of_show_nat: "major_of (show_nat m @ CHR ''.'' # r) = Some (int m)"
proof -
  have "CHR ''.'' \<notin> set (show_nat m)"
    using show_nat_digits [of m] by (auto dest: digit_not_sign)
  then have "hd (split_on (CHR ''.'') (show_nat m @ CHR ''.'' # r)) = show_nat m"
    by (simp add: text_simps)
  moreover have "show_nat m = show_int (int m)" by (simp add: show_int_def)
  ultimately show ?thesis by (simp add: major_of_def text_simps)
qed

text \<open>
  The printed form of a version is understood by every reader of it: for any major and
  any further digits, the branch test accepts \<open>major.minor\<close>, a manifest version
  \<open>major.0.x.y...\<close> resolves to \<open>major.0\<close> whatever branch the repository is on, and the
  finder dispatch reads the major back: the legacy manifest name exactly up to version 9.
\<close>
theorem version_roundtrip:
  "is_odoo_version_branch (show_nat m @ ''.'' @ show_nat n) \<and>
   resolve_odoo_version (show_nat m @ ''.0.'' @ show_nat x @ ''.'' @ show_nat y @ CHR ''.'' # rest) br
     = show_nat m @ ''.0'' \<and>
   major_of (show_nat m @ ''.0'') = Some (int m) \<and>
   (manifest_name (get_manifest_finder (show_nat m @ ''.0'')) =
     (if m \<le> 9 then ''__openerp__.py'' else ''__manifest__.py''))"
proof (intro conjI)
  have dot: "\<not> is_digit (CHR ''.'')" by (simp add: is_digit_def)
  have d: "digits1 (show_nat k @ CHR ''.'' # r) = Some (show_nat k, CHR ''.'' # r)" for k r
    using dot show_nat_digits by (intro digits1_append) auto
  have e: "digits1 (show_nat k) = Some (show_nat k, [])" for k
    using digits1_append [of "show_nat k" "[]"] show_nat_digits by simp
  show "is_odoo_version_branch (show_nat m @ ''.'' @ show_nat n)"
    by (simp add: is_odoo_version_branch_def d e char1_def)
  show "resolve_odoo_version (show_nat m @ ''.0.'' @ show_nat x @ ''.'' @ show_nat y @ CHR ''.'' # rest) br
     = show_nat m @ ''.0''"
    by (simp add: resolve_odoo_version_def long_version_prefix_def d char1_def)
  show mj: "major_of (show_nat m @ ''.0'') = Some (int m)"
    using major_of_show_nat [of m "''0''"] by simp
  show "manifest_name (get_manifest_finder (show_nat m @ ''.0'')) =
     (if m \<le> 9 then ''__openerp__.py'' else ''__manifest__.py'')"
    by (simp add: get_manifest_finder_def mj LEGACY_ERA_MAX_MAJOR_def manifest_name_def)
qed

end
