(* ===== verification/Hints.thy ===== *)
theory Hints
  imports TreeBuilder
begin

text \<open>
  The next-step footer registry of \<open>src/mcp/hints.py\<close>: the templates of the seventeen
  drill-down tools, the renderer of \<open>str.format_map\<close> templates with a dictionary that
  returns the empty string for missing keys, and the footer line.
\<close>

definition TERMINAL_TOOLS :: "string list" where
  "TERMINAL_TOOLS = [''lint_check'', ''cli_help'', ''api_version_diff'']"

definition NEXT_STEP_HINTS :: "(string, string list) pydict" where
  "NEXT_STEP_HINTS =
    [(''model_inspect'',
       [''impact_analysis(entity_type='model', entity_name='{name}', odoo_version='{ver}') for change blast radius'',
        ''find_examples(query='{name}', odoo_version='{ver}') for real-world usage'']),
     (''entity_lookup'',
       [''find_examples(query='{name} xpath', odoo_version='{ver}') for inheritance patterns'',
        ''find_override_point(model='{model}', method='{name}', odoo_version='{ver}') for hook spot'']),
     (''module_inspect'',
       [''find_examples(query='OWL {name}', odoo_version='{ver}') for component patterns'',
        ''find_examples(query='JS {name}', odoo_version='{ver}') for patch patterns'']),
     (''describe_module'',
       [''model_inspect(model='{name}', method='fields', odoo_version='{ver}') for declared fields'',
        ''model_inspect(model='{name}', method='views', odoo_version='{ver}') for module views'']),
     (''check_module_exists'',
       [''describe_module(name='{name}', odoo_version='{ver}') for full overview'']),
     (''find_override_point'',
       [''find_examples(query='{name} override', odoo_version='{ver}') for prior art'',
        ''model_inspect(model='{model}', method='method', odoo_version='{ver}') for chain'']),
     (''impact_analysis'',
       [''find_deprecated_usage(pattern='{name}', odoo_version='{ver}') to widen search'',
        ''find_examples(query='{name} migration', odoo_version='{ver}') for refactor prior art'']),
     (''find_examples'',
       [''suggest_pattern(query='{name}', odoo_version='{ver}') for curated patterns'',
        ''model_inspect(model='{model}', method='method', odoo_version='{ver}') for the canonical implementation'']),
     (''find_deprecated_usage'',
       [''impact_analysis(pattern='{name}', odoo_version='{ver}') for blast radius'',
        ''api_version_diff(symbol='{name}', from_version='{from_ver}', to_version='{to_ver}') for migration delta'']),
     (''lookup_core_api'',
       [''find_examples(query='{name} usage', odoo_version='{ver}') for in-the-wild patterns'',
        ''suggest_pattern(query='{name}', odoo_version='{ver}') for curated examples'']),
     (''suggest_pattern'',
       [''find_examples(query='{name}', odoo_version='{ver}') for real-world variants'',
        ''model_inspect(model='{model}', method='method', odoo_version='{ver}') when pattern targets a method'']),
     (''resolve_stylesheet'',
       [''find_style_override(selector_or_variable='<a CSS selector or $variable>', odoo_version='{ver}') to trace a specific override'',
        ''describe_module(name='{name}', odoo_version='{ver}') for full module overview'']),
     (''find_style_override'',
       [''resolve_stylesheet(module='{module}', odoo_version='{ver}') to list all stylesheets in the matched module'',
        ''describe_module(name='{module}', odoo_version='{ver}') for module context'']),
     (''resolve_orm_chain'',
       [''entity_lookup(kind='field', model='{model}', field='{field}', odoo_version='{ver}') for terminal field detail'',
        ''model_inspect(model='{model}', method='fields', odoo_version='{ver}') to list valid fields at the broken step'']),
     (''validate_domain'',
       [''resolve_orm_chain(model='{name}', dotted_path='<a.b.c>', odoo_version='{ver}') to debug one path'',
        ''model_inspect(model='{name}', method='fields', odoo_version='{ver}') to list valid fields'']),
     (''validate_depends'',
       [''resolve_orm_chain(model='{name}', dotted_path='<dependency path>', odoo_version='{ver}') to debug one dependency'',
        ''model_inspect(model='{name}', method='fields', odoo_version='{ver}') to list valid fields'']),
     (''validate_relation'',
       [''entity_lookup(kind='field', model='{name}', field='{field}', odoo_version='{ver}') for field detail'',
        ''model_inspect(model='{name}', method='fields', odoo_version='{ver}') to list relational fields''])]"

text \<open>
  \<open>format_map\<close>: a replacement field is a name in braces, a doubled brace stands for itself, a
  single closing brace or an unclosed field raises ValueError (None). No template uses
  conversions, format specifications, attributes or indices, so a field is looked up as a
  whole.
\<close>

fun fmt :: "(string \<Rightarrow> string) \<Rightarrow> string option \<Rightarrow> string \<Rightarrow> string option" where
  "fmt f None [] = Some []"
| "fmt f (Some k) [] = None"
| "fmt f None (c # cs) =
     (if c = CHR ''{'' then
        (case cs of
           d # ds \<Rightarrow> (if d = CHR ''{'' then map_option ((#) c) (fmt f None ds)
                       else fmt f (Some []) (d # ds))
         | [] \<Rightarrow> None)
      else if c = CHR ''}'' then
        (case cs of
           d # ds \<Rightarrow> (if d = CHR ''}'' then map_option ((#) c) (fmt f None ds) else None)
         | [] \<Rightarrow> None)
      else map_option ((#) c) (fmt f None cs))"
| "fmt f (Some k) (c # cs) =
     (if c = CHR ''}'' then map_option ((@) (f (rev k))) (fmt f None cs)
      else fmt f (Some (c # k)) cs)"

definition safe_get :: "(string, string) pydict \<Rightarrow> string \<Rightarrow> string" where
  "safe_get ctx k = (case dget ctx k of None \<Rightarrow> [] | Some v \<Rightarrow> v)"

definition format_map :: "string \<Rightarrow> (string, string) pydict \<Rightarrow> string option" where
  "format_map tpl ctx = fmt (safe_get ctx) None tpl"

definition format_next_step :: "string list \<Rightarrow> string" where
  "format_next_step hints =
     (if hints = [] then []
      else (let hints = (if length hints > 2 then take 2 hints else hints)
            in elbow @ '' Next: '' @ join '' | '' hints))"

text \<open>The result of the list comprehension: None when one of the templates raises.\<close>

fun render_all :: "(string, string) pydict \<Rightarrow> string list \<Rightarrow> string list option" where
  "render_all ctx [] = Some []"
| "render_all ctx (t # ts) =
     Option.bind (format_map t ctx) (\<lambda>r. map_option ((#) r) (render_all ctx ts))"

definition hints_for :: "string \<Rightarrow> (string, string) pydict \<Rightarrow> string option" where
  "hints_for tool_name ctx =
     (if tool_name \<in> set TERMINAL_TOOLS then Some []
      else map_option format_next_step
             (render_all ctx (case dget NEXT_STEP_HINTS tool_name of None \<Rightarrow> [] | Some ts \<Rightarrow> ts)))"

section \<open>Facts\<close>

text \<open>Whether rendering raises depends on the template only, not on the values.\<close>

lemma fmt_raises: "fmt f k s = None \<longleftrightarrow> fmt g k s = None"
  by (induction f k s rule: fmt.induct) (auto split: list.splits)

lemma render_all_raises:
  "render_all ctx ts = None \<longleftrightarrow> (\<exists>t \<in> set ts. fmt (\<lambda>_. []) None t = None)"
  using fmt_raises [of _ None _ "\<lambda>_. []"]
  by (induction ts) (auto simp: format_map_def bind_eq_None_conv)

lemma length_render_all: "render_all ctx ts = Some rs \<Longrightarrow> length rs = length ts"
  by (induction ts arbitrary: rs) (auto simp: bind_eq_Some_conv)

definition templates_ok :: bool where
  "templates_ok = list_all (\<lambda>(tool, ts). tool \<notin> set TERMINAL_TOOLS \<and> ts \<noteq> [] \<and> length ts \<le> 2 \<and>
      list_all (\<lambda>t. fmt (\<lambda>_. []) None t \<noteq> None) ts) NEXT_STEP_HINTS"

lemma templates_ok: templates_ok
  by code_simp

lemma registered:
  assumes "dget NEXT_STEP_HINTS tool = Some ts"
  shows "tool \<notin> set TERMINAL_TOOLS" "ts \<noteq> []" "length ts \<le> 2"
    "\<And>t. t \<in> set ts \<Longrightarrow> fmt (\<lambda>_. []) None t \<noteq> None"
proof -
  have "(tool, ts) \<in> set NEXT_STEP_HINTS" using assms by (rule map_of_SomeD)
  then have "tool \<notin> set TERMINAL_TOOLS \<and> ts \<noteq> [] \<and> length ts \<le> 2 \<and>
      list_all (\<lambda>t. fmt (\<lambda>_. []) None t \<noteq> None) ts"
    using templates_ok unfolding templates_ok_def list_all_iff by fast
  then show "tool \<notin> set TERMINAL_TOOLS" "ts \<noteq> []" "length ts \<le> 2"
    "\<And>t. t \<in> set ts \<Longrightarrow> fmt (\<lambda>_. []) None t \<noteq> None"
    by (auto simp: list_all_iff)
qed

lemma hints_for_total: "\<exists>s. hints_for tool ctx = Some s"
proof (cases "tool \<in> set TERMINAL_TOOLS \<or> dget NEXT_STEP_HINTS tool = None")
  case True
  then show ?thesis by (auto simp: hints_for_def format_next_step_def)
next
  case False
  then obtain ts where ts: "dget NEXT_STEP_HINTS tool = Some ts" by auto
  then have "render_all ctx ts \<noteq> None"
    by (auto simp: render_all_raises dest: registered(4))
  then show ?thesis using ts by (auto simp: hints_for_def)
qed

text \<open>
  The footer never raises, whatever context the caller passes and whatever keys it leaves
  out. A tool outside the registry gets the empty footer, and so does each terminal tool; a
  registered tool always gets one line, the last branch of its tree, that carries all of the
  tool's hints (there are never more than two).
\<close>
theorem hints_for_footer:
  "hints_for tool ctx = Some [] \<and> (dget NEXT_STEP_HINTS tool = None \<or> tool \<in> set TERMINAL_TOOLS) \<or>
   (\<exists>ts rs. dget NEXT_STEP_HINTS tool = Some ts \<and> tool \<notin> set TERMINAL_TOOLS \<and>
      render_all ctx ts = Some rs \<and> length rs = length ts \<and> rs \<noteq> [] \<and>
      hints_for tool ctx = Some (elbow @ '' Next: '' @ join '' | '' rs))"
proof (cases "tool \<in> set TERMINAL_TOOLS \<or> dget NEXT_STEP_HINTS tool = None")
  case True
  then show ?thesis by (auto simp: hints_for_def format_next_step_def)
next
  case False
  then obtain ts where ts: "dget NEXT_STEP_HINTS tool = Some ts" by auto
  then have "render_all ctx ts \<noteq> None"
    by (auto simp: render_all_raises dest: registered(4))
  then obtain rs where rs: "render_all ctx ts = Some rs" by auto
  have l: "length rs = length ts" using rs by (rule length_render_all)
  with registered(2,3) [OF ts] have "rs \<noteq> []" "length rs \<le> 2" by auto
  then have "hints_for tool ctx = Some (elbow @ '' Next: '' @ join '' | '' rs)"
    using False ts rs by (auto simp: hints_for_def format_next_step_def)
  then show ?thesis using False ts rs l \<open>rs \<noteq> []\<close> by blast
qed

end
