(* ===== verification/Graph.thy ===== *)
theory Graph
  imports Versions "HOL-Library.Char_ord" "HOL-Library.List_Lexorder" "HOL-Library.Product_Lexorder"
begin

text \<open>
  The indexed graph as the ORM tools read it: Field, Method, Model and Module nodes and the
  inheritance edges between Model nodes, with the Cypher queries of \<open>src/mcp/orm.py\<close> and
  \<open>_latest_version\<close> of \<open>src/mcp/server.py\<close> as functions of it. Model nodes are identified by
  a number, since several modules can define nodes of one name. Where a query sorts and takes
  the first row, rows that tie keep the order of the node list.
\<close>

record field_node =
  f_name :: string
  f_model :: string
  f_version :: string
  f_module :: string
  f_ttype :: "string option"
  f_comodel :: "string option"
  f_profile :: "string list"

record method_node =
  mt_name :: string
  mt_model :: string
  mt_version :: string
  mt_depends :: "string list option"
  mt_profile :: "string list"

record model_node =
  m_id :: nat
  m_name :: string
  m_version :: string
  m_unresolved :: bool

datatype rel = INHERITS | DELEGATES_TO

record graph =
  g_fields :: "field_node list"
  g_methods :: "method_node list"
  g_models :: "model_node list"
  g_edges :: "(nat \<times> rel \<times> nat) list"
  module_versions :: "string list"

text \<open>\<open>$pn IS NULL OR $pn IN x.profile\<close>.\<close>

definition visible :: "string option \<Rightarrow> string list \<Rightarrow> bool" where
  "visible pn profile = (case pn of None \<Rightarrow> True | Some p \<Rightarrow> p \<in> set profile)"

definition first_by :: "('a \<Rightarrow> 'k::linorder) \<Rightarrow> 'a list \<Rightarrow> 'a option" where
  "first_by key rows = (case sort_key key rows of [] \<Rightarrow> None | r # _ \<Rightarrow> Some r)"

lemma first_by_None: "first_by key rows = None \<longleftrightarrow> rows = []"
  by (auto simp: first_by_def split: list.splits) (metis length_0_conv length_sort)

lemma first_by_Some:
  assumes "first_by key rows = Some r"
  shows "r \<in> set rows" "\<And>s. s \<in> set rows \<Longrightarrow> key r \<le> key s"
proof -
  obtain rs where rs: "sort_key key rows = r # rs"
    using assms by (auto simp: first_by_def split: list.splits)
  then show "r \<in> set rows" by (metis list.set_intros(1) set_sort)
  have "sorted (map key (r # rs))" using sorted_sort_key [of key rows] rs by simp
  moreover have "set rows = set (r # rs)" using rs by (metis set_sort)
  ultimately show "\<And>s. s \<in> set rows \<Longrightarrow> key r \<le> key s" by auto
qed

text \<open>The fields of one model and name, and the rows of the first query of \<open>_lookup_field\<close>.\<close>

definition field_rows :: "graph \<Rightarrow> string option \<Rightarrow> string \<Rightarrow> string \<Rightarrow> string \<Rightarrow> field_node list" where
  "field_rows g pn v model field =
     filter (\<lambda>f. f_name f = field \<and> f_model f = model \<and> f_version f = v \<and> visible pn (f_profile f))
       (g_fields g)"

text \<open>The end points of paths of 1 to \<open>k\<close> edges of the given kinds.\<close>

definition succs :: "graph \<Rightarrow> rel list \<Rightarrow> nat list \<Rightarrow> nat list" where
  "succs g rels ids =
     remdups (map (\<lambda>(_, _, d). d) (filter (\<lambda>(s, r, _). s \<in> set ids \<and> r \<in> set rels) (g_edges g)))"

fun hops :: "graph \<Rightarrow> rel list \<Rightarrow> nat \<Rightarrow> nat list \<Rightarrow> nat list" where
  "hops g rels 0 ids = []"
| "hops g rels (Suc k) ids = (let n = succs g rels ids in n @ hops g rels k n)"

definition resolved_ids :: "graph \<Rightarrow> string \<Rightarrow> string \<Rightarrow> nat list" where
  "resolved_ids g v model =
     map m_id (filter (\<lambda>m. m_name m = model \<and> m_version m = v \<and> \<not> m_unresolved m) (g_models g))"

text \<open>The rows of the second query: parent name and field, over resolved parents.\<close>

definition inherited_rows :: "graph \<Rightarrow> string option \<Rightarrow> string \<Rightarrow> string \<Rightarrow> string \<Rightarrow> (string \<times> field_node) list" where
  "inherited_rows g pn v model field =
     (let reached = hops g [INHERITS, DELEGATES_TO] 3 (resolved_ids g v model);
          parents = filter (\<lambda>m. m_id m \<in> set reached \<and> \<not> m_unresolved m) (g_models g)
      in concat (map (\<lambda>p. map (\<lambda>f. (m_name p, f)) (field_rows g pn v (m_name p) field)) parents))"

text \<open>The query of \<open>_validate_relation\<close>: a resolved model node of the comodel's name reaches a
  node of the target's name by one to five INHERITS edges.\<close>

definition is_subtype :: "graph \<Rightarrow> string \<Rightarrow> string \<Rightarrow> string \<Rightarrow> bool" where
  "is_subtype g v comodel target =
     (\<exists>m \<in> set (g_models g). m_name m = target \<and> m_version m = v \<and>
        m_id m \<in> set (hops g [INHERITS] 5 (resolved_ids g v comodel)))"

section \<open>The latest indexed version\<close>

text \<open>\<open>v =~ '\d+\.\d+'\<close> matches the whole string; the two integers are the sort key.\<close>

definition version_key :: "string \<Rightarrow> (nat \<times> nat) option" where
  "version_key v =
     Option.bind (digits1 v) (\<lambda>(a, r).
     Option.bind (char1 (CHR ''.'') r) (\<lambda>r.
     Option.bind (digits1 r) (\<lambda>(b, q).
       if q = [] then Option.bind (read_digits 0 False a) (\<lambda>m.
                       map_option (\<lambda>n. (m, n)) (read_digits 0 False b))
       else None)))"

definition latest_version :: "graph \<Rightarrow> string option" where
  "latest_version g =
     (let vs = filter (\<lambda>v. v \<noteq> ''unknown'' \<and> version_key v \<noteq> None) (remdups (module_versions g))
      in (case rev (sort_key (\<lambda>v. the (version_key v)) vs) of [] \<Rightarrow> None | v # _ \<Rightarrow> Some v))"

section \<open>Facts\<close>

lemma succs_iff: "d \<in> set (succs g rels ids) \<longleftrightarrow> (\<exists>s r. (s, r, d) \<in> set (g_edges g) \<and> s \<in> set ids \<and> r \<in> set rels)"
  by (force simp: succs_def)

text \<open>Bounded reachability is reachability by a path of at most that many edges.\<close>

inductive epath :: "graph \<Rightarrow> rel list \<Rightarrow> nat \<Rightarrow> nat \<Rightarrow> nat \<Rightarrow> bool" for g rels where
  epath_one: "(a, r, b) \<in> set (g_edges g) \<Longrightarrow> r \<in> set rels \<Longrightarrow> epath g rels (Suc 0) a b"
| epath_more: "(a, r, b) \<in> set (g_edges g) \<Longrightarrow> r \<in> set rels \<Longrightarrow> epath g rels n b c \<Longrightarrow> epath g rels (Suc n) a c"

inductive_cases epath_Suc: "epath g rels (Suc n) a b"
inductive_cases epath_0: "epath g rels 0 a b"

lemma epath_pos: "epath g rels n a b \<Longrightarrow> 0 < n"
  by (induction rule: epath.induct) auto

lemma hops_path: "d \<in> set (hops g rels k ids) \<longleftrightarrow> (\<exists>s n. s \<in> set ids \<and> n \<le> k \<and> epath g rels n s d)"
proof (induction k arbitrary: ids)
  case 0
  then show ?case by (auto elim: epath_0)
next
  case (Suc k)
  have "d \<in> set (hops g rels (Suc k) ids) \<longleftrightarrow>
      d \<in> set (succs g rels ids) \<or> (\<exists>s n. s \<in> set (succs g rels ids) \<and> n \<le> k \<and> epath g rels n s d)"
    by (simp add: Let_def Suc.IH)
  also have "\<dots> \<longleftrightarrow> (\<exists>s n. s \<in> set ids \<and> n \<le> Suc k \<and> epath g rels n s d)"
  proof
    assume "d \<in> set (succs g rels ids) \<or> (\<exists>s n. s \<in> set (succs g rels ids) \<and> n \<le> k \<and> epath g rels n s d)"
    then show "\<exists>s n. s \<in> set ids \<and> n \<le> Suc k \<and> epath g rels n s d"
    proof
      assume "d \<in> set (succs g rels ids)"
      then obtain s r where "(s, r, d) \<in> set (g_edges g)" "s \<in> set ids" "r \<in> set rels"
        by (auto simp: succs_iff)
      then have "epath g rels (Suc 0) s d" "s \<in> set ids" by (auto intro: epath_one)
      then show ?thesis by (metis Suc_le_mono le0)
    next
      assume "\<exists>s n. s \<in> set (succs g rels ids) \<and> n \<le> k \<and> epath g rels n s d"
      then obtain s n where "s \<in> set (succs g rels ids)" "n \<le> k" "epath g rels n s d" by blast
      moreover from this obtain t r where "(t, r, s) \<in> set (g_edges g)" "t \<in> set ids" "r \<in> set rels"
        by (auto simp: succs_iff)
      ultimately have "epath g rels (Suc n) t d" "Suc n \<le> Suc k" "t \<in> set ids"
        by (auto intro: epath_more)
      then show ?thesis by blast
    qed
  next
    assume "\<exists>s n. s \<in> set ids \<and> n \<le> Suc k \<and> epath g rels n s d"
    then obtain s n where sn: "s \<in> set ids" "n \<le> Suc k" "epath g rels n s d" by blast
    from sn(3) show "d \<in> set (succs g rels ids) \<or> (\<exists>s n. s \<in> set (succs g rels ids) \<and> n \<le> k \<and> epath g rels n s d)"
    proof cases
      case (epath_one r)
      then show ?thesis using sn by (auto simp: succs_iff)
    next
      case (epath_more r b m)
      then have "b \<in> set (succs g rels ids)" "m \<le> k" using sn by (auto simp: succs_iff)
      then show ?thesis using epath_more by blast
    qed
  qed
  finally show ?case .
qed

lemma last_sort_max:
  assumes "sort_key k vs = ys @ [v]"
  shows "v \<in> set vs \<and> (\<forall>w \<in> set vs. k w \<le> k v)"
proof -
  have "sorted (map k (ys @ [v]))" using sorted_sort_key [of k vs] assms by simp
  moreover have "set vs = set (ys @ [v])" using assms by (metis set_sort)
  ultimately show ?thesis by (auto simp: sorted_append)
qed

text \<open>
  The latest version is found by comparing the numbers, not the strings: the result is
  an indexed version of the form \<open>major.minor\<close> whose pair of numbers is at least that of
  every other indexed version of that form, and there is a result exactly when there is such
  a version.
\<close>
theorem latest_version_max:
  "(case latest_version g of
      Some v \<Rightarrow> v \<in> set (module_versions g) \<and> v \<noteq> ''unknown'' \<and>
        (\<exists>k. version_key v = Some k \<and>
          {w \<in> set (module_versions g). w \<noteq> ''unknown'' \<and> (\<exists>l. version_key w = Some l \<and> k < l)} = {})
    | None \<Rightarrow> {v \<in> set (module_versions g). v \<noteq> ''unknown'' \<and> version_key v \<noteq> None} = {})"
proof -
  define vs where "vs = filter (\<lambda>v. v \<noteq> ''unknown'' \<and> version_key v \<noteq> None) (remdups (module_versions g))"
  define srt where "srt = sort_key (\<lambda>v. the (version_key v)) vs"
  have lv: "latest_version g = (case rev srt of [] \<Rightarrow> None | v # _ \<Rightarrow> Some v)"
    by (simp add: latest_version_def vs_def srt_def Let_def)
  have set_vs: "set vs = {v \<in> set (module_versions g). v \<noteq> ''unknown'' \<and> version_key v \<noteq> None}"
    by (auto simp: vs_def)
  show ?thesis
  proof (cases srt rule: rev_cases)
    case Nil
    then have "vs = []" unfolding srt_def by (metis length_0_conv length_sort)
    then show ?thesis using lv Nil set_vs by simp
  next
    case (snoc ys v)
    then have mx: "v \<in> set vs \<and> (\<forall>w \<in> set vs. the (version_key w) \<le> the (version_key v))"
      unfolding srt_def by (rule last_sort_max)
    then obtain k where k: "version_key v = Some k" using set_vs by auto
    have "{w \<in> set (module_versions g). w \<noteq> ''unknown'' \<and> (\<exists>l. version_key w = Some l \<and> k < l)} = {}"
      using mx k set_vs by force
    then show ?thesis using lv snoc mx k set_vs by auto
  qed
qed

end
