(* ===== verification/PyVal.thy ===== *)
theory PyVal
  imports PyText
begin

text \<open>
  The Python values that a parsed domain can hold, with \<open>repr\<close> and hashability as the ORM
  tools use them. A float is kept as the text of its \<open>repr\<close>.
\<close>

datatype pyval =
    PNone
  | PBool bool
  | PInt int
  | PFloat string
  | PStr string
  | PTuple "pyval list"
  | PList "pyval list"
  | PSet "pyval list"
  | PDict "(pyval \<times> pyval) list"

text \<open>Hashability: what \<open>x in frozenset\<close> needs; it raises TypeError otherwise. A set is
  accepted there (it is compared as a frozenset), a list or dict is not.\<close>

fun hashable :: "pyval \<Rightarrow> bool" where
  "hashable (PTuple xs) = list_all hashable xs"
| "hashable (PList xs) = False"
| "hashable (PSet xs) = False"
| "hashable (PDict xs) = False"
| "hashable _ = True"

definition frozenset_operand :: "pyval \<Rightarrow> bool" where
  "frozenset_operand v = (case v of PSet _ \<Rightarrow> True | _ \<Rightarrow> hashable v)"

definition hex_digit :: "nat \<Rightarrow> char" where
  "hex_digit n = char_of (if n < 10 then n + 48 else n + 87)"

text \<open>\<open>repr\<close> of a string: single quotes unless it has single and no double quotes; backslash,
  the quote and control characters are escaped, other characters are printed.\<close>

definition repr_char :: "char \<Rightarrow> char \<Rightarrow> string" where
  "repr_char q c =
     (let n = (of_char c :: nat) in
      if c = q \<or> c = CHR 0x5C then [CHR 0x5C, c]
      else if n = 9 then [CHR 0x5C, CHR ''t'']
      else if n = 10 then [CHR 0x5C, CHR ''n'']
      else if n = 13 then [CHR 0x5C, CHR ''r'']
      else if n < 32 \<or> n = 127 then [CHR 0x5C, CHR ''x'', hex_digit (n div 16), hex_digit (n mod 16)]
      else [c])"

definition repr_str :: "string \<Rightarrow> string" where
  "repr_str s =
     (let q = (if CHR 0x27 \<in> set s \<and> CHR 0x22 \<notin> set s then CHR 0x22 else CHR 0x27)
      in [q] @ concat (map (repr_char q) s) @ [q])"

fun repr :: "pyval \<Rightarrow> string" where
  "repr PNone = ''None''"
| "repr (PBool b) = (if b then ''True'' else ''False'')"
| "repr (PInt i) = show_int i"
| "repr (PFloat s) = s"
| "repr (PStr s) = repr_str s"
| "repr (PTuple xs) = (case xs of [x] \<Rightarrow> ''('' @ repr x @ '',)''
                         | _ \<Rightarrow> ''('' @ join '', '' (map repr xs) @ '')'')"
| "repr (PList xs) = ''['' @ join '', '' (map repr xs) @ '']''"
| "repr (PSet xs) = (if xs = [] then ''set()'' else ''{'' @ join '', '' (map repr xs) @ ''}'')"
| "repr (PDict kvs) = ''{'' @ join '', '' (map (\<lambda>(k, v). repr k @ '': '' @ repr v) kvs) @ ''}''"

definition is_pystr :: "pyval \<Rightarrow> bool" where
  "is_pystr v = (case v of PStr _ \<Rightarrow> True | _ \<Rightarrow> False)"

text \<open>The elements of a list or tuple; None for other values.\<close>

definition sequence :: "pyval \<Rightarrow> pyval list option" where
  "sequence v = (case v of PTuple xs \<Rightarrow> Some xs | PList xs \<Rightarrow> Some xs | _ \<Rightarrow> None)"

definition type_name :: "pyval \<Rightarrow> string" where
  "type_name v = (case v of PNone \<Rightarrow> ''NoneType'' | PBool _ \<Rightarrow> ''bool'' | PInt _ \<Rightarrow> ''int''
     | PFloat _ \<Rightarrow> ''float'' | PStr _ \<Rightarrow> ''str'' | PTuple _ \<Rightarrow> ''tuple'' | PList _ \<Rightarrow> ''list''
     | PSet _ \<Rightarrow> ''set'' | PDict _ \<Rightarrow> ''dict'')"

end
