(* ===== verification/Orm.thy ===== *)
theory Orm
  imports Graph PyVal Hints
begin

text \<open>
  The ORM validation tools of \<open>src/mcp/orm.py\<close>: field lookup, the dotted-path walk, and the
  four tools \<open>resolve_orm_chain\<close>, \<open>validate_domain\<close>, \<open>validate_depends\<close> and
  \<open>validate_relation\<close>. The parser of Python literals (\<open>ast.literal_eval\<close>) and the
  similarity search (\<open>difflib.get_close_matches\<close>) are parameters; the outcome of the version
  resolution is the argument \<open>rv\<close>, None where \<open>_resolve_version\<close> raises ValueError.
\<close>

section \<open>Field lookup\<close>

datatype source = Direct | Magic | Inherited

record info =
  i_ttype :: "string option"
  i_comodel :: "string option"
  i_source :: source

definition field_info :: "source \<Rightarrow> field_node \<Rightarrow> info" where
  "field_info src f = \<lparr>i_ttype = f_ttype f, i_comodel = f_comodel f, i_source = src\<rparr>"

definition lookup_field :: "graph \<Rightarrow> string option \<Rightarrow> string \<Rightarrow> string \<Rightarrow> string \<Rightarrow> info option" where
  "lookup_field g pn v model field =
     (case first_by f_module (field_rows g pn v model field) of
        Some f \<Rightarrow> Some (field_info Direct f)
      | None \<Rightarrow>
          (case dget MAGIC_FIELDS field of
             Some (ttype, comodel) \<Rightarrow>
               Some \<lparr>i_ttype = Some ttype, i_comodel = comodel, i_source = Magic\<rparr>
           | None \<Rightarrow>
               map_option (\<lambda>(_, f). field_info Inherited f)
                 (first_by (\<lambda>(p, f). (p, f_module f)) (inherited_rows g pn v model field))))"

section \<open>The dotted-path walk\<close>

datatype reason = missing | not_relational | dangling_comodel

record step =
  s_model :: string
  s_field :: string
  s_ttype :: "string option"
  s_comodel :: "string option"

record walk_error =
  e_step :: nat
  e_model :: string
  e_field :: string
  e_ttype :: "string option"
  e_reason :: reason

record chain =
  c_steps :: "step list"
  c_terminal :: "step option"
  c_error :: "walk_error option"

definition str_or_empty :: "string option \<Rightarrow> string" where  \<comment> \<open>\<open>x or ""\<close>\<close>
  "str_or_empty x = (case x of None \<Rightarrow> [] | Some s \<Rightarrow> s)"

definition relational :: "info \<Rightarrow> bool" where
  "relational i \<longleftrightarrow> lower (str_or_empty (i_ttype i)) \<in> set RELATIONAL_TTYPES"

definition path_parts :: "string \<Rightarrow> string list" where
  "path_parts p = filter (\<lambda>s. s \<noteq> []) (split_on (CHR ''.'') p)"

text \<open>The loop of \<open>_traverse_field_chain\<close>, over the parts that remain.\<close>

fun walk :: "(string \<Rightarrow> string \<Rightarrow> info option) \<Rightarrow> nat \<Rightarrow> step list \<Rightarrow> string \<Rightarrow> string list \<Rightarrow> chain" where
  "walk lk i steps m [] =
     \<lparr>c_steps = steps, c_terminal = (if steps = [] then None else Some (last steps)), c_error = None\<rparr>"
| "walk lk i steps m (p # ps) =
     (case lk m p of
        None \<Rightarrow>
          \<lparr>c_steps = steps, c_terminal = None,
           c_error = Some \<lparr>e_step = i, e_model = m, e_field = p, e_ttype = None, e_reason = missing\<rparr>\<rparr>
      | Some info \<Rightarrow>
          (let st = \<lparr>s_model = m, s_field = p, s_ttype = i_ttype info, s_comodel = i_comodel info\<rparr>;
               steps = steps @ [st]
           in if ps = [] then \<lparr>c_steps = steps, c_terminal = Some st, c_error = None\<rparr>
              else if \<not> relational info then
                \<lparr>c_steps = steps, c_terminal = None,
                 c_error = Some \<lparr>e_step = i, e_model = m, e_field = p, e_ttype = i_ttype info,
                                  e_reason = not_relational\<rparr>\<rparr>
              else if str_or_empty (i_comodel info) = [] then
                \<lparr>c_steps = steps, c_terminal = None,
                 c_error = Some \<lparr>e_step = i, e_model = m, e_field = p, e_ttype = i_ttype info,
                                  e_reason = dangling_comodel\<rparr>\<rparr>
              else walk lk (Suc i) steps (str_or_empty (i_comodel info)) ps))"

definition traverse_field_chain :: "(string \<Rightarrow> string \<Rightarrow> info option) \<Rightarrow> string \<Rightarrow> string \<Rightarrow> chain" where
  "traverse_field_chain lk model dotted_path =
     (let parts = path_parts dotted_path
      in if parts = [] then
           \<lparr>c_steps = [], c_terminal = None,
            c_error = Some \<lparr>e_step = 0, e_model = model, e_field = dotted_path, e_ttype = None,
                             e_reason = missing\<rparr>\<rparr>
         else walk lk 0 [] model parts)"

section \<open>Messages\<close>

definition dash :: string where  \<comment> \<open>the em dash between two spaces\<close>
  "dash = '' '' @ [CHR 0xE2, CHR 0x80, CHR 0x94] @ '' ''"

definition quoted :: "string \<Rightarrow> string" where
  "quoted s = [CHR 0x27] @ s @ [CHR 0x27]"

definition str_opt :: "string option \<Rightarrow> string" where  \<comment> \<open>an optional string in an f-string\<close>
  "str_opt x = (case x of None \<Rightarrow> ''None'' | Some s \<Rightarrow> s)"

definition broken_reason_text :: "walk_error \<Rightarrow> string" where
  "broken_reason_text e =
     (case e_reason e of
        missing \<Rightarrow> ''field '' @ quoted (e_field e) @ '' not found on '' @ e_model e
      | not_relational \<Rightarrow> ''field '' @ quoted (e_field e) @ '' on '' @ e_model e @ '' is type ''
          @ quoted (str_opt (e_ttype e)) @ '', not relational'' @ dash @ ''cannot traverse further''
      | dangling_comodel \<Rightarrow> ''field '' @ quoted (e_field e) @ '' on '' @ e_model e
          @ '' has no recorded comodel'' @ dash @ ''cannot traverse further'')"

text \<open>All field names of a model with the magic ones, sorted, for typo suggestions.\<close>

definition field_names_on_model :: "graph \<Rightarrow> string option \<Rightarrow> string \<Rightarrow> string \<Rightarrow> string list" where
  "field_names_on_model g pn v model =
     sort (remdups (map f_name (filter (\<lambda>f. f_model f = model \<and> f_version f = v \<and> visible pn (f_profile f)) (g_fields g))
                    @ dkeys MAGIC_FIELDS))"

text \<open>\<open>hints_for\<close> never raises (theorem \<open>hints_for_footer\<close>); an empty footer is left out.\<close>

definition with_footer :: "string list \<Rightarrow> string \<Rightarrow> (string, string) pydict \<Rightarrow> string" where
  "with_footer lines tool ctx =
     (let footer = str_or_empty (hints_for tool ctx)
      in join [CHR 0x0A] (if footer = [] then lines else lines @ [footer]))"

datatype orm_exc = NoDataIndexed | UnhashableOperand

section \<open>resolve\_orm\_chain\<close>

definition step_line :: "chain \<Rightarrow> nat \<Rightarrow> step \<Rightarrow> string" where
  "step_line r i st =
     tee @ '' '' @ s_model st @ ''.'' @ s_field st @ '' : '' @ str_opt (s_ttype st)
       @ (if str_or_empty (s_comodel st) = [] then [] else '' -> '' @ str_or_empty (s_comodel st))
       @ (if c_error r = None \<and> i = length (c_steps r) - 1 then '' (terminal)'' else [])"

definition resolve_orm_chain :: "graph \<Rightarrow> string option \<Rightarrow> string option \<Rightarrow> string \<Rightarrow> string \<Rightarrow> orm_exc + string" where
  "resolve_orm_chain g pn rv model dotted_path =
     (let dotted_path = strip dotted_path
      in if path_parts dotted_path = [] then
           Inr (''Error: resolve_orm_chain requires a non-empty dotted_path (e.g. ''
                @ quoted ''partner_id.country_id.code'' @ '').'')
         else (case rv of
             None \<Rightarrow> Inl NoDataIndexed
           | Some version \<Rightarrow>
              (let result = traverse_field_chain (lookup_field g pn version) model dotted_path;
                   total = length (path_parts dotted_path);
                   lines = [model @ ''.'' @ dotted_path @ '' (Odoo '' @ version @ '')'']
                     @ map (\<lambda>(i, st). step_line result i st) (enumerate 0 (c_steps result))
               in (case c_error result of
                     Some err \<Rightarrow>
                       Inr (with_footer (lines @ [tee @ '' BROKEN at step '' @ show_nat (e_step err + 1)
                              @ ''/'' @ show_nat total @ '': '' @ broken_reason_text err])
                            ''resolve_orm_chain''
                            [(''name'', model), (''model'', e_model err), (''field'', e_field err), (''ver'', version)])
                   | None \<Rightarrow>  \<comment> \<open>a chain without an error has a terminal step\<close>
                       (case c_terminal result of
                          None \<Rightarrow> Inr (join [CHR 0x0A] lines)
                        | Some term \<Rightarrow>
                           Inr (with_footer lines ''resolve_orm_chain''
                             [(''name'', model),
                              (''model'', (if str_or_empty (s_comodel term) = [] then s_model term
                                           else str_or_empty (s_comodel term))),
                              (''field'', s_field term), (''ver'', version)]))))))"

section \<open>validate\_domain\<close>

definition parse_domain :: "(string \<Rightarrow> string + pyval) \<Rightarrow> pyval \<Rightarrow> string + pyval list" where
  "parse_domain literal_eval domain =
     (case sequence domain of
        Some xs \<Rightarrow> Inr xs
      | None \<Rightarrow>
          (case domain of
             PStr s \<Rightarrow>
               (let text = strip s
                in if text = [] then Inl ''domain is empty''
                   else (case literal_eval text of
                       Inl exc \<Rightarrow> Inl (''could not parse domain literal ('' @ exc @ '')'')
                     | Inr parsed \<Rightarrow>
                         (case sequence parsed of
                            None \<Rightarrow> Inl ''domain must evaluate to a list of terms''
                          | Some xs \<Rightarrow> Inr xs)))
           | _ \<Rightarrow> Inl (''domain must be a string or list, got '' @ type_name domain)))"

definition connectors :: "string list" where
  "connectors = [''&'', ''|'', ''!'']"

text \<open>The two checks of a well-shaped term: the field path, then the operator.\<close>

definition term_problems :: "(string \<Rightarrow> string \<Rightarrow> info option) \<Rightarrow> string \<Rightarrow> string \<Rightarrow> pyval \<Rightarrow> pyval \<Rightarrow> orm_exc + string list" where
  "term_problems lk version model field_path op =
     (let path_problems =
            (case field_path of
               PStr p \<Rightarrow> (case c_error (traverse_field_chain lk model p) of
                            None \<Rightarrow> [] | Some e \<Rightarrow> [broken_reason_text e])
             | _ \<Rightarrow> [''left operand is not a field-path string'']);
          valid = (case op of PStr s \<Rightarrow> s \<in> set (valid_domain_operators version) | _ \<Rightarrow> False)
      in if \<not> frozenset_operand op then Inl UnhashableOperand
         else Inr (path_problems @
                (if valid then [] else [''operator '' @ repr op @ '' not valid in Odoo '' @ version])))"

text \<open>One round of the loop: whether the term is an error, and its line.\<close>

definition check_term :: "(string \<Rightarrow> string \<Rightarrow> info option) \<Rightarrow> string \<Rightarrow> string \<Rightarrow> pyval \<Rightarrow> orm_exc + (bool \<times> string)" where
  "check_term lk version model t =
     (case t of
        PStr s \<Rightarrow>
          (if s \<in> set connectors then Inr (False, tee @ '' logical operator '' @ quoted s @ '' : skipped'')
           else Inr (True, tee @ '' '' @ quoted s @ '' : ERROR unexpected string (not a 3-term tuple)''))
      | _ \<Rightarrow>
          (case sequence t of
             Some [field_path, op, val] \<Rightarrow>
               (case term_problems lk version model field_path op of
                  Inl e \<Rightarrow> Inl e
                | Inr problems \<Rightarrow>
                    (if problems \<noteq> [] then
                       Inr (True, tee @ '' '' @ repr t @ '' : ERROR '' @ join ''; '' problems)
                     else Inr (False, tee @ '' '' @ repr t @ '' : OK'')))
           | _ \<Rightarrow> Inr (True, tee @ '' '' @ repr t @ '' : ERROR malformed term (expected (field, op, value))'')))"

fun check_terms :: "(string \<Rightarrow> string \<Rightarrow> info option) \<Rightarrow> string \<Rightarrow> string \<Rightarrow> pyval list \<Rightarrow> orm_exc + (nat \<times> string list)" where
  "check_terms lk version model [] = Inr (0, [])"
| "check_terms lk version model (t # ts) =
     (case check_term lk version model t of
        Inl e \<Rightarrow> Inl e
      | Inr (bad, line) \<Rightarrow>
          (case check_terms lk version model ts of
             Inl e \<Rightarrow> Inl e
           | Inr (n, lines) \<Rightarrow> Inr ((if bad then Suc n else n), line # lines)))"

definition domain_headline :: "string \<Rightarrow> string \<Rightarrow> nat \<Rightarrow> string" where
  "domain_headline model version errors =
     (let verdict = (if errors = 0 then ''OK'' else show_nat errors @ '' problem(s)'')
      in ''Domain validation: '' @ model @ '' (Odoo '' @ version @ '')'' @ dash @ verdict)"

definition validate_domain :: "(string \<Rightarrow> string + pyval) \<Rightarrow> graph \<Rightarrow> string option \<Rightarrow> string option \<Rightarrow> string \<Rightarrow> pyval \<Rightarrow> orm_exc + string" where
  "validate_domain literal_eval g pn rv model domain =
     (case parse_domain literal_eval domain of
        Inl parse_err \<Rightarrow>
          Inr (''Error: '' @ parse_err @ ''. Expected e.g. [('' @ quoted ''partner_id.country_id'' @ '', ''
               @ quoted ''='' @ '', '' @ quoted ''VN'' @ '')].'')
      | Inr terms \<Rightarrow>
          (case rv of
             None \<Rightarrow> Inl NoDataIndexed
           | Some version \<Rightarrow>
               (case check_terms (lookup_field g pn version) version model terms of
                  Inl e \<Rightarrow> Inl e
                | Inr (errors, rendered) \<Rightarrow>
                    Inr (with_footer (domain_headline model version errors # rendered)
                           ''validate_domain'' [(''name'', model), (''ver'', version)]))))"

section \<open>validate\_depends\<close>

definition method_rows :: "graph \<Rightarrow> string option \<Rightarrow> string \<Rightarrow> string \<Rightarrow> string \<Rightarrow> method_node list" where
  "method_rows g pn v model name =
     filter (\<lambda>m. mt_name m = name \<and> mt_model m = model \<and> mt_version m = v \<and> visible pn (mt_profile m))
       (g_methods g)"

text \<open>The union of the rows' dependencies, each once, in the order of first occurrence
  (\<open>setdefault\<close> into a dict).\<close>

definition union_depends :: "method_node list \<Rightarrow> string list" where
  "union_depends rows =
     dkeys (fold (\<lambda>dep seen. if dget seen dep = None then dset dep () seen else seen)
              (concat (map (\<lambda>r. case mt_depends r of None \<Rightarrow> [] | Some ds \<Rightarrow> ds) rows)) [])"

definition check_dep :: "(string \<Rightarrow> string list \<Rightarrow> string option) \<Rightarrow> graph \<Rightarrow> string option \<Rightarrow> string \<Rightarrow> string \<Rightarrow> string \<Rightarrow> bool \<times> string" where
  "check_dep close_match g pn version model dep =
     (if ''id'' \<in> set (split_on (CHR ''.'') dep) then
        (True, tee @ '' '' @ quoted dep @ '' : ERROR cannot depend on '' @ quoted ''id'' @ '' (Odoo raises NotImplementedError)'')
      else (case c_error (traverse_field_chain (lookup_field g pn version) model dep) of
          None \<Rightarrow> (False, tee @ '' '' @ quoted dep @ '' : OK'')
        | Some err \<Rightarrow>
            (let msg = broken_reason_text err;
                 hint = (if e_reason err = missing
                         then close_match (e_field err) (field_names_on_model g pn version (e_model err))
                         else None);
                 msg = (case hint of
                          Some h \<Rightarrow> (if h = [] then msg else msg @ dash @ ''did you mean '' @ quoted h @ ''?'')
                        | None \<Rightarrow> msg)
             in (True, tee @ '' '' @ quoted dep @ '' : ERROR '' @ msg))))"

definition depends_headline :: "string \<Rightarrow> string \<Rightarrow> string \<Rightarrow> nat \<Rightarrow> string" where
  "depends_headline model meth version errors =
     (let verdict = (if errors = 0 then ''all dependencies valid'' else show_nat errors @ '' invalid'')
      in ''@api.depends on '' @ model @ ''.'' @ meth @ '' (Odoo '' @ version @ '')'' @ dash @ verdict)"

definition validate_depends :: "(string \<Rightarrow> string list \<Rightarrow> string option) \<Rightarrow> graph \<Rightarrow> string option \<Rightarrow> string option \<Rightarrow> string \<Rightarrow> string \<Rightarrow> orm_exc + string" where
  "validate_depends close_match g pn rv model meth =
     (case rv of
        None \<Rightarrow> Inl NoDataIndexed
      | Some version \<Rightarrow>
         (let rows = method_rows g pn version model meth;
              ctx = [(''name'', model), (''ver'', version)];
              head = ''@api.depends on '' @ model @ ''.'' @ meth @ '' (Odoo '' @ version @ '')''
          in if rows = [] then
               Inr (''Method '' @ quoted meth @ '' not found on model '' @ quoted model @ '' in Odoo '' @ version @ ''.'')
             else
              (let deps = union_depends rows
               in if deps = [] then
                    Inr (with_footer [head, tee @ '' no @api.depends found'' @ dash @ ''method is not a computed-field''
                            @ '' dependency (or era1 v8/v9 uses store= triggers, not the decorator)'']
                          ''validate_depends'' ctx)
                  else
                   (let results = map (check_dep close_match g pn version model) deps;
                        errors = length (filter fst results)
                    in Inr (with_footer (depends_headline model meth version errors # map snd results)
                              ''validate_depends'' ctx)))))"

section \<open>validate\_relation\<close>

datatype relation_verdict = FieldMissing | NotRelational info | RelationOk info | Mismatch info

text \<open>The decision of \<open>_validate_relation\<close>; the text below prints it.\<close>

definition relation_check :: "graph \<Rightarrow> string option \<Rightarrow> string \<Rightarrow> string \<Rightarrow> string \<Rightarrow> string \<Rightarrow> relation_verdict" where
  "relation_check g pn version model field target_model =
     (case lookup_field g pn version model field of
        None \<Rightarrow> FieldMissing
      | Some info \<Rightarrow>
          (if \<not> relational info then NotRelational info
           else (let actual = i_comodel info;
                     ok = (if actual = Some target_model then True
                           else if str_or_empty actual \<noteq> []
                           then is_subtype g version (str_or_empty actual) target_model
                           else False)
                 in if ok then RelationOk info else Mismatch info)))"

definition validate_relation :: "(string \<Rightarrow> string list \<Rightarrow> string option) \<Rightarrow> graph \<Rightarrow> string option \<Rightarrow> string option \<Rightarrow> string \<Rightarrow> string \<Rightarrow> string \<Rightarrow> orm_exc + string" where
  "validate_relation close_match g pn rv model field target_model =
     (case rv of
        None \<Rightarrow> Inl NoDataIndexed
      | Some version \<Rightarrow>
         (let header = ''Relation check: '' @ model @ ''.'' @ field @ '' -> '' @ target_model @ '' (Odoo '' @ version @ '')'';
              ctx = [(''name'', model), (''field'', field), (''ver'', version)]
          in (case relation_check g pn version model field target_model of
                FieldMissing \<Rightarrow>
                  (let hint = str_or_empty (close_match field (field_names_on_model g pn version model));
                       tail = (if hint = [] then [] else dash @ ''did you mean '' @ quoted hint @ ''?'')
                   in Inr (join [CHR 0x0A] [header, elbow @ '' ERROR field '' @ quoted field @ '' not found on '' @ model @ tail]))
              | NotRelational info \<Rightarrow>
                  Inr (with_footer [header, tee @ '' MISMATCH '' @ field @ '' is type '' @ quoted (str_opt (i_ttype info))
                          @ '', not a relational field''] ''validate_relation'' ctx)
              | RelationOk info \<Rightarrow>
                  Inr (with_footer [header, tee @ '' OK '' @ field @ '' is '' @ str_opt (i_ttype info) @ '' -> ''
                          @ str_opt (i_comodel info)] ''validate_relation'' ctx)
              | Mismatch info \<Rightarrow>
                  Inr (with_footer [header, tee @ '' MISMATCH '' @ field @ '' is '' @ str_opt (i_ttype info) @ '' -> ''
                          @ (if str_or_empty (i_comodel info) = [] then ''(no comodel recorded)''
                             else str_or_empty (i_comodel info))
                          @ '' (expected '' @ target_model @ '')''] ''validate_relation'' ctx))))"

end
