(* ===== verification/OrmProps.thy ===== *)
theory OrmProps
  imports Orm
begin

text \<open>
  What the ORM validation tools establish: the dotted-path walk against the relation it
  decides, the interface between the walk and field lookup, and the verdicts of the tools.
\<close>

section \<open>The walk\<close>

text \<open>One relational hop, and the model that a sequence of hops reaches.\<close>

definition hop :: "(string \<Rightarrow> string \<Rightarrow> info option) \<Rightarrow> string \<Rightarrow> string \<Rightarrow> string option" where
  "hop lk m p = (case lk m p of
      None \<Rightarrow> None
    | Some i \<Rightarrow> if relational i \<and> str_or_empty (i_comodel i) \<noteq> [] then i_comodel i else None)"

fun model_at :: "(string \<Rightarrow> string \<Rightarrow> info option) \<Rightarrow> string \<Rightarrow> string list \<Rightarrow> string option" where
  "model_at lk m [] = Some m"
| "model_at lk m (p # ps) = Option.bind (hop lk m p) (\<lambda>c. model_at lk c ps)"

definition fails_with :: "(string \<Rightarrow> string \<Rightarrow> info option) \<Rightarrow> walk_error \<Rightarrow> bool" where
  "fails_with lk e = (case lk (e_model e) (e_field e) of
      None \<Rightarrow> e_reason e = missing
    | Some i \<Rightarrow> e_ttype e = i_ttype i \<and>
        (if relational i then e_reason e = dangling_comodel \<and> str_or_empty (i_comodel i) = []
         else e_reason e = not_relational))"

lemma hop_Some:
  "hop lk m p = Some c \<longleftrightarrow>
     (\<exists>i. lk m p = Some i \<and> relational i \<and> c = str_or_empty (i_comodel i) \<and> c \<noteq> [])"
  by (auto simp: hop_def str_or_empty_def split: option.splits if_splits)

text \<open>The specification of a walk that starts at hop \<open>i\<close> with the steps \<open>acc\<close>.\<close>

definition walk_post :: "(string \<Rightarrow> string \<Rightarrow> info option) \<Rightarrow> nat \<Rightarrow> nat \<Rightarrow> string \<Rightarrow> string list \<Rightarrow> chain \<Rightarrow> bool" where
  "walk_post lk i n m ps r = (case c_error r of
      None \<Rightarrow> length (c_steps r) = n + length ps \<and>
        (\<exists>m' info. model_at lk m (butlast ps) = Some m' \<and> lk m' (last ps) = Some info \<and>
           c_terminal r = Some \<lparr>s_model = m', s_field = last ps, s_ttype = i_ttype info,
                                s_comodel = i_comodel info\<rparr>)
    | Some e \<Rightarrow> c_terminal r = None \<and> i \<le> e_step e \<and> e_step e < i + length ps \<and>
        model_at lk m (take (e_step e - i) ps) = Some (e_model e) \<and>
        e_field e = ps ! (e_step e - i) \<and> fails_with lk e \<and>
        (e_reason e = missing \<or> e_step e + 1 < i + length ps))"

lemma walk_correct:
  "ps \<noteq> [] \<Longrightarrow> walk_post lk i (length acc) m ps (walk lk i acc m ps)"
proof (induction ps arbitrary: i acc m)
  case Nil
  then show ?case by simp
next
  case (Cons p ps)
  show ?case
  proof (cases "lk m p")
    case None
    then show ?thesis by (simp add: walk_post_def fails_with_def)
  next
    case (Some info)
    show ?thesis
    proof (cases "ps = [] \<or> hop lk m p = None")
      case True
      then show ?thesis using Some
        by (auto simp: walk_post_def fails_with_def hop_def str_or_empty_def Let_def neq_Nil_conv
            split: option.splits if_splits)
    next
      case False
      then obtain c where hop: "hop lk m p = Some c" by auto
      then have c: "relational info" "c = str_or_empty (i_comodel info)" "c \<noteq> []"
        using Some by (auto simp: hop_Some)
      define st where "st = \<lparr>s_model = m, s_field = p, s_ttype = i_ttype info, s_comodel = i_comodel info\<rparr>"
      have w: "walk lk i acc m (p # ps) = walk lk (Suc i) (acc @ [st]) c ps"
        using Some False c by (simp add: st_def Let_def)
      have IH: "walk_post lk (Suc i) (length (acc @ [st])) c ps (walk lk (Suc i) (acc @ [st]) c ps)"
        using False by (intro Cons.IH) auto
      have "walk_post lk i (length acc) m (p # ps) r"
        if "walk_post lk (Suc i) (Suc (length acc)) c ps r" for r
      proof (cases "c_error r")
        case None
        then show ?thesis using that False hop by (auto simp: walk_post_def)
      next
        case (Some e)
        then have b: "Suc i \<le> e_step e" using that by (simp add: walk_post_def)
        then have "take (e_step e - i) (p # ps) = p # take (e_step e - Suc i) ps"
          "(p # ps) ! (e_step e - i) = ps ! (e_step e - Suc i)"
          by (simp_all add: take_Cons' nth_Cons')
        then show ?thesis using that Some hop b by (auto simp: walk_post_def)
      qed
      then show ?thesis using IH w by simp
    qed
  qed
qed

lemma model_at_pred:
  "model_at lk m (take k ps) = Some m' \<Longrightarrow> Suc k < length ps \<Longrightarrow>
    model_at lk m (butlast ps) \<noteq> None \<Longrightarrow> hop lk m' (ps ! k) \<noteq> None"
proof (induction k arbitrary: m ps)
  case 0
  then show ?case by (cases ps) (auto simp: bind_eq_Some_conv split: if_splits)
next
  case (Suc k)
  then show ?case by (cases ps) (auto simp: bind_eq_Some_conv split: if_splits)
qed

lemma walk_post_ok:
  assumes post: "walk_post lk 0 n m ps r"
    and ok: "model_at lk m (butlast ps) = Some m'" "lk m' (last ps) \<noteq> None"
  shows "c_error r = None"
proof (rule ccontr)
  assume "c_error r \<noteq> None"
  then obtain e where e: "c_error r = Some e" by auto
  then have f: "e_step e < length ps" "model_at lk m (take (e_step e) ps) = Some (e_model e)"
    "e_field e = ps ! e_step e" "fails_with lk e"
    "e_reason e = missing \<or> Suc (e_step e) < length ps"
    using post by (auto simp: walk_post_def)
  show False
  proof (cases "Suc (e_step e) < length ps")
    case True
    then have "hop lk (e_model e) (e_field e) \<noteq> None" using model_at_pred f ok by auto
    then show False using f(4) by (auto simp: hop_Some fails_with_def)
  next
    case no: False
    then have l: "e_step e = length ps - 1" using f(1) by simp
    then have "take (e_step e) ps = butlast ps" by (simp add: butlast_conv_take)
    moreover have "ps ! e_step e = last ps"
      using l f(1) by (metis last_conv_nth length_0_conv less_nat_zero_code)
    ultimately show False using ok f no by (auto simp: fails_with_def split: if_splits)
  qed
qed

lemma traverse_post:
  "path_parts path \<noteq> [] \<Longrightarrow> walk_post lk 0 0 m (path_parts path) (traverse_field_chain lk m path)"
  using walk_correct [of "path_parts path" lk 0 "[]" m] by (simp add: traverse_field_chain_def)

lemma traverse_field_chain_correct_iff:
  "c_error (traverse_field_chain lk m path) = None \<longleftrightarrow>
     path_parts path \<noteq> [] \<and>
     (\<exists>m'. model_at lk m (butlast (path_parts path)) = Some m' \<and> lk m' (last (path_parts path)) \<noteq> None)"
proof (cases "path_parts path = []")
  case True
  then show ?thesis by (simp add: traverse_field_chain_def)
next
  case False
  note post = traverse_post [OF False, of lk m]
  have "c_error (traverse_field_chain lk m path) = None"
    if "model_at lk m (butlast (path_parts path)) = Some m'" "lk m' (last (path_parts path)) \<noteq> None" for m'
    using walk_post_ok [OF post that] .
  moreover have "\<exists>m'. model_at lk m (butlast (path_parts path)) = Some m' \<and> lk m' (last (path_parts path)) \<noteq> None"
    if "c_error (traverse_field_chain lk m path) = None"
    using post that by (auto simp: walk_post_def)
  ultimately show ?thesis using False by blast
qed

text \<open>
  C4. The dotted-path walk decides exactly what it documents. It succeeds with a terminal
  step if and only if the path has a non-empty part, every part but the last is a relational
  field with a recorded comodel, each on the model the part before points to, and the last
  part is a field of the model reached; the terminal step is that field. Otherwise the error
  names the first part that fails, the model on which it was looked up, and the true reason;
  a terminal part can only be missing.
\<close>
theorem traverse_field_chain_correct:
  "(if path_parts path = [] then
      c_terminal (traverse_field_chain lk m path) = None \<and>
      map_option e_reason (c_error (traverse_field_chain lk m path)) = Some missing
    else walk_post lk 0 0 m (path_parts path) (traverse_field_chain lk m path)) \<and>
   (c_error (traverse_field_chain lk m path) = None \<longleftrightarrow>
     path_parts path \<noteq> [] \<and>
     (\<exists>m'. model_at lk m (butlast (path_parts path)) = Some m' \<and> lk m' (last (path_parts path)) \<noteq> None))"
  using traverse_field_chain_correct_iff [of lk m path] traverse_post [of path lk m]
  by (simp add: traverse_field_chain_def)

section \<open>Field lookup and its interface to the walk\<close>

lemma inherited_rows_iff:
  "(n, f) \<in> set (inherited_rows g pn v model field) \<longleftrightarrow>
     (\<exists>p s k. p \<in> set (g_models g) \<and> \<not> m_unresolved p \<and> m_name p = n \<and>
        s \<in> set (resolved_ids g v model) \<and> k \<le> 3 \<and> epath g [INHERITS, DELEGATES_TO] k s (m_id p) \<and>
        f \<in> set (field_rows g pn v n field))"
  by (auto simp: inherited_rows_def Let_def hops_path numeral_3_eq_3 simp del: hops.simps)

definition lookup_spec :: "graph \<Rightarrow> string option \<Rightarrow> string \<Rightarrow> string \<Rightarrow> string \<Rightarrow> info \<Rightarrow> bool" where
  "lookup_spec g pn v model field i = (case i_source i of
      Direct \<Rightarrow> \<exists>f \<in> set (field_rows g pn v model field). i = field_info Direct f \<and>
        {h \<in> set (field_rows g pn v model field). f_module h < f_module f} = {}
    | Magic \<Rightarrow> field_rows g pn v model field = [] \<and>
        (\<exists>t c. dget MAGIC_FIELDS field = Some (t, c) \<and> i_ttype i = Some t \<and> i_comodel i = c)
    | Inherited \<Rightarrow> field_rows g pn v model field = [] \<and> dget MAGIC_FIELDS field = None \<and>
        (\<exists>p s k f. p \<in> set (g_models g) \<and> \<not> m_unresolved p \<and> s \<in> set (resolved_ids g v model) \<and>
           k \<le> 3 \<and> epath g [INHERITS, DELEGATES_TO] k s (m_id p) \<and>
           f \<in> set (field_rows g pn v (m_name p) field) \<and> i = field_info Inherited f))"

text \<open>
  C10. Field lookup follows its documented order. A field declared on the model wins, from the
  least module name; a magic field is found on every model that declares none of that name;
  otherwise the field comes from a resolved model at most three INHERITS or DELEGATES\_TO
  edges away; and None is returned only when there is no such field anywhere in that range.
\<close>
theorem lookup_field_order:
  "(case lookup_field g pn v model field of
      Some i \<Rightarrow> lookup_spec g pn v model field i
    | None \<Rightarrow> field_rows g pn v model field = [] \<and> dget MAGIC_FIELDS field = None \<and>
        \<not> (\<exists>p s k. p \<in> set (g_models g) \<and> \<not> m_unresolved p \<and> s \<in> set (resolved_ids g v model) \<and>
             k \<le> 3 \<and> epath g [INHERITS, DELEGATES_TO] k s (m_id p) \<and>
             field_rows g pn v (m_name p) field \<noteq> []))"
proof (cases "first_by f_module (field_rows g pn v model field)")
  case (Some f)
  have "h \<in> set (field_rows g pn v model field) \<Longrightarrow> \<not> f_module h < f_module f" for h
    using first_by_Some(2) [OF Some] by (simp add: not_less)
  then show ?thesis using Some first_by_Some(1) [OF Some]
    by (auto simp: lookup_field_def lookup_spec_def field_info_def)
next
  case None
  then have rows: "field_rows g pn v model field = []" by (simp add: first_by_None)
  show ?thesis
  proof (cases "dget MAGIC_FIELDS field")
    case (Some d)
    then show ?thesis using None rows by (cases d) (simp add: lookup_field_def lookup_spec_def)
  next
    case magic: None
    let ?rows = "inherited_rows g pn v model field"
    let ?key = "\<lambda>(p, f). (p, f_module f)"
    show ?thesis
    proof (cases "first_by ?key ?rows")
      case (Some pf)
      obtain n f where pf: "pf = (n, f)" by (cases pf)
      have "(n, f) \<in> set ?rows" using first_by_Some(1) [OF Some] pf by simp
      then show ?thesis using None magic Some rows pf
        by (simp add: lookup_field_def lookup_spec_def inherited_rows_iff field_info_def) blast
    next
      case no: None
      then have e: "?rows = []" by (simp add: first_by_None)
      have "(n, f) \<notin> set ?rows" for n f using e by simp
      then have "\<not> (\<exists>p s k. p \<in> set (g_models g) \<and> \<not> m_unresolved p \<and> s \<in> set (resolved_ids g v model) \<and>
             k \<le> 3 \<and> epath g [INHERITS, DELEGATES_TO] k s (m_id p) \<and>
             field_rows g pn v (m_name p) field \<noteq> [])"
        unfolding inherited_rows_iff by (metis list.set_intros(1) neq_Nil_conv)
      then show ?thesis using None magic no rows by (simp add: lookup_field_def)
    qed
  qed
qed

text \<open>What the walk relies on from a field lookup: the magic fields exist on every model.\<close>

locale field_source =
  fixes lk :: "string \<Rightarrow> string \<Rightarrow> info option"
  assumes magic: "dget MAGIC_FIELDS f = Some d \<Longrightarrow> lk m f \<noteq> None"
begin

lemma magic_terminal:
  assumes "path_parts path = ps @ [f]" "model_at lk m ps = Some c" "dget MAGIC_FIELDS f = Some d"
  shows "c_error (traverse_field_chain lk m path) = None"
proof -
  have "lk c f \<noteq> None" using magic assms(3) by blast
  then show ?thesis
    using traverse_field_chain_correct_iff [of lk m path] assms(1,2) by simp
qed

end

interpretation graph_fields: field_source "lookup_field g pn v" for g pn v
  by unfold_locales (auto simp: lookup_field_def split: option.splits)

lemma path_parts_join:
  assumes "\<And>p. p \<in> set ps \<Longrightarrow> p \<noteq> [] \<and> CHR ''.'' \<notin> set p"
  shows "path_parts (join ''.'' ps) = ps"
proof (cases "ps = []")
  case True
  then show ?thesis by (simp add: path_parts_def)
next
  case False
  then have "split_on (CHR ''.'') (join ''.'' ps) = ps"
    using assms by (intro split_on_join) auto
  then show ?thesis using assms by (simp add: path_parts_def)
qed

text \<open>
  Every model reached by relational hops has the magic fields: a path of such hops
  followed by \<open>id\<close>, \<open>display_name\<close> or one of the four audit fields is accepted, whatever the
  indexed graph says of the last model.
\<close>
theorem magic_field_paths:
  assumes "model_at (lookup_field g pn v) m ps = Some c"
    and "dget MAGIC_FIELDS f = Some d"
    and "\<And>p. p \<in> set (ps @ [f]) \<Longrightarrow> p \<noteq> [] \<and> CHR ''.'' \<notin> set p"
  shows "c_error (traverse_field_chain (lookup_field g pn v) m (join ''.'' (ps @ [f]))) = None"
proof -
  have "path_parts (join ''.'' (ps @ [f])) = ps @ [f]"
    by (rule path_parts_join) (rule assms(3))
  then show ?thesis using assms(1,2) by (rule graph_fields.magic_terminal)
qed

definition demo_graph :: graph where
  "demo_graph = \<lparr>g_fields =
      [\<lparr>f_name = ''partner_id'', f_model = ''sale.order'', f_version = ''17.0'', f_module = ''sale'',
        f_ttype = Some ''Many2one'', f_comodel = Some ''res.partner'', f_profile = [''odoo_17'']\<rparr>],
    g_methods = [],
    g_models = [\<lparr>m_id = 1, m_name = ''sale.order'', m_version = ''17.0'', m_unresolved = False\<rparr>],
    g_edges = [], module_versions = [''9.0'', ''17.0'']\<rparr>"

lemma demo_partner:
  "model_at (lookup_field demo_graph None ''17.0'') ''sale.order'' [''partner_id''] = Some ''res.partner''"
  by code_simp

theorem magic_field_paths_witness:
  "c_error (traverse_field_chain (lookup_field demo_graph None ''17.0'') ''sale.order''
     ''partner_id.display_name'') = None"
proof -
  have "p \<in> set ([''partner_id''] @ [''display_name'']) \<Longrightarrow> p \<noteq> [] \<and> CHR ''.'' \<notin> set p" for p
    by auto
  moreover have "dget MAGIC_FIELDS ''display_name'' = Some (''char'', None)"
    by (simp add: MAGIC_FIELDS_def)
  ultimately have "c_error (traverse_field_chain (lookup_field demo_graph None ''17.0'') ''sale.order''
     (join ''.'' ([''partner_id''] @ [''display_name'']))) = None"
    using demo_partner by (intro magic_field_paths)
  then show ?thesis by simp
qed

section \<open>The verdicts of the tools\<close>

text \<open>A domain term as Odoo accepts it: a connector, or a triple of a valid field path, an
  operator of the version, and any value.\<close>

definition term_ok :: "(string \<Rightarrow> string \<Rightarrow> info option) \<Rightarrow> string \<Rightarrow> string \<Rightarrow> pyval \<Rightarrow> bool" where
  "term_ok lk version model t \<longleftrightarrow>
     (\<exists>s \<in> set connectors. t = PStr s) \<or>
     (\<exists>p op val. sequence t = Some [PStr p, PStr op, val] \<and>
        c_error (traverse_field_chain lk model p) = None \<and> op \<in> set (valid_domain_operators version))"

definition unhashable_operand :: "pyval \<Rightarrow> bool" where
  "unhashable_operand t \<longleftrightarrow> (\<exists>p op val. sequence t = Some [p, op, val] \<and> \<not> frozenset_operand op)"

lemma check_term_cases:
  "(case check_term lk version model t of
      Inl e \<Rightarrow> e = UnhashableOperand \<and> unhashable_operand t
    | Inr (bad, line) \<Rightarrow> \<not> unhashable_operand t \<and> (bad \<longleftrightarrow> \<not> term_ok lk version model t))"
proof (cases "is_pystr t")
  case True
  then show ?thesis
    by (cases t) (auto simp: check_term_def term_ok_def unhashable_operand_def sequence_def is_pystr_def)
next
  case False
  note nostr = this
  show ?thesis
  proof (cases "\<exists>p op val. sequence t = Some [p, op, val]")
    case True
    then obtain p op val where t: "sequence t = Some [p, op, val]" by blast
    have c: "check_term lk version model t =
        (case term_problems lk version model p op of
           Inl e \<Rightarrow> Inl e
         | Inr problems \<Rightarrow> (if problems \<noteq> [] then
               Inr (True, tee @ '' '' @ repr t @ '' : ERROR '' @ join ''; '' problems)
             else Inr (False, tee @ '' '' @ repr t @ '' : OK'')))"
      using t nostr by (cases t) (auto simp: check_term_def sequence_def is_pystr_def)
    have ok: "term_ok lk version model t \<longleftrightarrow>
        (\<exists>q o'. p = PStr q \<and> op = PStr o' \<and> c_error (traverse_field_chain lk model q) = None \<and>
           o' \<in> set (valid_domain_operators version))"
      using t nostr by (auto simp: term_ok_def is_pystr_def)
    have un: "unhashable_operand t \<longleftrightarrow> \<not> frozenset_operand op"
      using t by (auto simp: unhashable_operand_def)
    show ?thesis
    proof (cases "frozenset_operand op")
      case False
      then show ?thesis by (simp add: c un term_problems_def Let_def)
    next
      case True
      then have "\<exists>problems. term_problems lk version model p op = Inr problems \<and>
          (problems = [] \<longleftrightarrow> term_ok lk version model t)"
        unfolding ok by (cases p; cases op) (auto simp: term_problems_def Let_def split: option.splits)
      then show ?thesis using True by (auto simp: c un)
    qed
  next
    case False
    then have "check_term lk version model t =
        Inr (True, tee @ '' '' @ repr t @ '' : ERROR malformed term (expected (field, op, value))'')"
      using nostr by (cases t) (auto simp: check_term_def sequence_def is_pystr_def split: list.splits)
    moreover have "\<not> term_ok lk version model t" using False nostr by (auto simp: term_ok_def is_pystr_def)
    moreover have "\<not> unhashable_operand t" using False by (auto simp: unhashable_operand_def)
    ultimately show ?thesis by simp
  qed
qed

lemma check_terms_cases:
  "(case check_terms lk version model ts of
      Inl e \<Rightarrow> e = UnhashableOperand \<and> list_ex unhashable_operand ts
    | Inr (n, lines) \<Rightarrow> \<not> list_ex unhashable_operand ts \<and> length lines = length ts \<and>
        n = length (filter (\<lambda>t. \<not> term_ok lk version model t) ts))"
proof (induction ts)
  case Nil
  then show ?case by simp
next
  case (Cons t ts)
  then show ?case using check_term_cases [where lk = lk and version = version and model = model and t = t]
    by (auto split: sum.splits prod.splits)
qed

lemma with_footer_head: "\<exists>rest. with_footer (h # ls) tool ctx = h @ rest"
  by (auto simp: with_footer_def join_Cons Let_def)

text \<open>
  C11. The verdict of \<open>validate_domain\<close>. For a domain that parses in a known version the tool
  answers unless some term has an unhashable operator (a list or dict), where the membership
  test raises TypeError; its headline counts the terms that are neither a connector nor
  a triple with a valid path and an operator of that version, and says OK when there is none.
\<close>
theorem validate_domain_verdict:
  assumes "parse_domain literal_eval domain = Inr terms"
  shows "(case validate_domain literal_eval g pn (Some version) model domain of
      Inl e \<Rightarrow> e = UnhashableOperand \<and> list_ex unhashable_operand terms
    | Inr text \<Rightarrow> \<not> list_ex unhashable_operand terms \<and>
        (\<exists>rest. text = domain_headline model version
           (length (filter (\<lambda>t. \<not> term_ok (lookup_field g pn version) version model t) terms)) @ rest))"
proof (cases "check_terms (lookup_field g pn version) version model terms")
  case (Inl x)
  then show ?thesis using assms
      check_terms_cases [where lk = "lookup_field g pn version" and version = version and model = model and ts = terms]
    by (simp add: validate_domain_def)
next
  case (Inr r)
  obtain n lines where r: "r = (n, lines)" by (cases r)
  have n: "\<not> list_ex unhashable_operand terms"
    "n = length (filter (\<lambda>t. \<not> term_ok (lookup_field g pn version) version model t) terms)"
    using Inr r check_terms_cases [where lk = "lookup_field g pn version" and version = version
        and model = model and ts = terms] by simp_all
  have "validate_domain literal_eval g pn (Some version) model domain =
      Inr (with_footer (domain_headline model version n # lines) ''validate_domain''
        [(''name'', model), (''ver'', version)])"
    using assms Inr r by (simp add: validate_domain_def)
  moreover obtain rest where "with_footer (domain_headline model version n # lines) ''validate_domain''
      [(''name'', model), (''ver'', version)] = domain_headline model version n @ rest"
    using with_footer_head by blast
  ultimately show ?thesis using n(1) unfolding n(2) by simp
qed

theorem validate_domain_verdict_witness:
  "validate_domain (\<lambda>_. Inl ''SyntaxError'') demo_graph None (Some ''17.0'') ''sale.order''
     (PList [PTuple [PStr ''partner_id'', PList [], PInt 1]]) = Inl UnhashableOperand"
proof -
  let ?le = "\<lambda>_ :: string. Inl ''SyntaxError'' :: string + pyval"
  let ?ts = "[PTuple [PStr ''partner_id'', PList [], PInt 1]]"
  have p: "parse_domain ?le (PList ?ts) = Inr ?ts"
    by (simp add: parse_domain_def sequence_def)
  have "list_ex unhashable_operand ?ts"
    by (simp add: unhashable_operand_def sequence_def frozenset_operand_def)
  then show ?thesis using validate_domain_verdict [OF p, where g = demo_graph and pn = None and version = "''17.0''" and model = "''sale.order''"]
    by (auto split: sum.splits)
qed

lemma union_fold:
  "distinct (dkeys d) \<Longrightarrow>
    (let r = fold (\<lambda>dep seen. if dget seen dep = None then dset dep () seen else seen) xs d
     in distinct (dkeys r) \<and> set (dkeys r) = set xs \<union> set (dkeys d))"
proof (induction xs arbitrary: d)
  case Nil
  then show ?case by simp
next
  case (Cons x xs)
  let ?d = "if dget d x = None then dset x () d else d"
  have "distinct (dkeys ?d)" using Cons.prems by (simp add: distinct_dset del: map_of_eq_None_iff)
  moreover have "set (dkeys ?d) = insert x (set (dkeys d))"
  proof (cases "dget d x")
    case None
    then show ?thesis by (simp only: refl if_True set_dkeys_dset)
  next
    case (Some u)
    then have "x \<in> set (dkeys d)" by (metis map_of_eq_None_iff option.simps(3) set_map)
    then show ?thesis using Some by (simp add: insert_absorb del: set_map)
  qed
  ultimately show ?case using Cons.IH [of ?d] by (simp add: Let_def)
qed

definition dep_invalid :: "graph \<Rightarrow> string option \<Rightarrow> string \<Rightarrow> string \<Rightarrow> string \<Rightarrow> bool" where
  "dep_invalid g pn v model dep \<longleftrightarrow> ''id'' \<in> set (split_on (CHR ''.'') dep) \<or>
     c_error (traverse_field_chain (lookup_field g pn v) model dep) \<noteq> None"

text \<open>
  \<open>validate_depends\<close> looks at the union of the dependencies of every definition and
  override of the method, each once; it reports a dependency as invalid exactly when one of
  its segments is \<open>id\<close> or its path does not resolve, and its headline counts those.
\<close>
theorem validate_depends_verdict:
  "(method_rows g pn v model meth = [] \<or> union_depends (method_rows g pn v model meth) = [] \<or>
    (\<exists>rest. validate_depends cm g pn (Some v) model meth =
      Inr (depends_headline model meth v
        (length (filter (dep_invalid g pn v model) (union_depends (method_rows g pn v model meth)))) @ rest))) \<and>
   distinct (union_depends rows) \<and>
   set (union_depends rows) = {d. \<exists>r ds. r \<in> set rows \<and> mt_depends r = Some ds \<and> d \<in> set ds}"
proof (intro conjI)
  have d: "fst (check_dep cm g pn v model dep) \<longleftrightarrow> dep_invalid g pn v model dep" for dep
    by (auto simp: dep_invalid_def check_dep_def Let_def split: option.splits)
  let ?deps = "union_depends (method_rows g pn v model meth)"
  let ?bad = "dep_invalid g pn v model"
  have f: "length (filter fst (map (check_dep cm g pn v model) ds)) = length (filter ?bad ds)" for ds
    by (simp add: filter_map comp_def d)
  show "method_rows g pn v model meth = [] \<or> ?deps = [] \<or>
    (\<exists>rest. validate_depends cm g pn (Some v) model meth =
      Inr (depends_headline model meth v (length (filter ?bad ?deps)) @ rest))"
  proof (cases "method_rows g pn v model meth = [] \<or> ?deps = []")
    case False
    then have "validate_depends cm g pn (Some v) model meth =
        Inr (with_footer (depends_headline model meth v (length (filter ?bad ?deps))
               # map snd (map (check_dep cm g pn v model) ?deps))
             ''validate_depends'' [(''name'', model), (''ver'', v)])"
      unfolding f [symmetric] by (simp add: validate_depends_def Let_def)
    moreover obtain rest where "with_footer (depends_headline model meth v (length (filter ?bad ?deps))
          # map snd (map (check_dep cm g pn v model) ?deps)) ''validate_depends''
          [(''name'', model), (''ver'', v)] = depends_headline model meth v (length (filter ?bad ?deps)) @ rest"
      using with_footer_head by blast
    ultimately show ?thesis by (simp only:) blast
  qed blast
  let ?xs = "concat (map (\<lambda>r. case mt_depends r of None \<Rightarrow> [] | Some ds \<Rightarrow> ds) rows)"
  have u: "distinct (union_depends rows)" "set (union_depends rows) = set ?xs"
    using union_fold [of "[]" ?xs] by (simp_all add: union_depends_def Let_def)
  show "distinct (union_depends rows)" by (rule u(1))
  show "set (union_depends rows) = {d. \<exists>r ds. r \<in> set rows \<and> mt_depends r = Some ds \<and> d \<in> set ds}"
    unfolding u(2) by (force split: option.splits)
qed

text \<open>
  \<open>validate_relation\<close> accepts a relation exactly when the field is found, is many2one,
  one2many or many2many, and its comodel either is the target or inherits from it within five
  INHERITS edges from a resolved model of that version.
\<close>
theorem relation_check_ok:
  "(\<exists>i. relation_check g pn v model field target = RelationOk i) \<longleftrightarrow>
   (\<exists>i. lookup_field g pn v model field = Some i \<and> relational i \<and>
      (i_comodel i = Some target \<or>
       (\<exists>c s k m. i_comodel i = Some c \<and> c \<noteq> [] \<and> s \<in> set (resolved_ids g v c) \<and> k \<le> 5 \<and>
          m \<in> set (g_models g) \<and> m_name m = target \<and> m_version m = v \<and>
          epath g [INHERITS] k s (m_id m))))"
proof -
  have sub: "is_subtype g v c target \<longleftrightarrow>
      (\<exists>s k m. s \<in> set (resolved_ids g v c) \<and> k \<le> 5 \<and> m \<in> set (g_models g) \<and> m_name m = target \<and>
        m_version m = v \<and> epath g [INHERITS] k s (m_id m))" for c
    unfolding is_subtype_def hops_path by blast
  show ?thesis
  proof (cases "lookup_field g pn v model field")
    case None
    then show ?thesis by (simp add: relation_check_def)
  next
    case (Some i)
    then show ?thesis
      by (cases "i_comodel i") (auto simp: relation_check_def Let_def sub str_or_empty_def)
  qed
qed

end
