(* ===== verification/SessionState.thy ===== *)
theory SessionState
  imports Graph
begin

text \<open>
  The sticky per-key session context of \<open>src/mcp/session.py\<close>: the sentinels, the 60-second
  cache, the table \<open>api_key_session_state\<close> with its 24-hour limit, the upserts, and the
  three-tier version resolution (\<open>resolve_version_v2\<close>, and \<open>_resolve_version\<close> of
  \<open>src/mcp/server.py\<close>).

  The state of a process is its cache and clock with the database it shares: the rows of the
  table, the ids of \<open>api_keys\<close> that its foreign key refers to, the database's clock, and
  whether the pool answers at all.
\<close>

section \<open>State\<close>

record session_state =
  ss_api_key_id :: string
  ss_odoo_version :: "string option"
  ss_profile_name :: "string option"

record ctx_row =
  cx_key :: int
  cx_version :: "string option"
  cx_profile :: "string option"
  cx_updated :: time

type_synonym cache = "(string, session_state option \<times> time) pydict"

record mcp =
  mc_cache :: cache
  mc_mono :: time          \<comment> \<open>\<open>time.monotonic()\<close>\<close>
  mc_rows :: "ctx_row list"
  mc_keys :: "int list"
  mc_now :: time           \<comment> \<open>the database's \<open>NOW()\<close>\<close>
  mc_up :: bool

definition SENTINELS :: "string list" where
  "SENTINELS = [''auto'', ''default'', ''latest'', ''version'', ''any'', '''']"

definition CACHE_TTL :: time where
  "CACHE_TTL = 60 * sec"

definition SESSION_TTL :: time where
  "SESSION_TTL = 24 * 3600 * sec"

section \<open>Cache\<close>

definition cache_get :: "cache \<Rightarrow> string \<Rightarrow> time \<Rightarrow> bool \<times> session_state option" where
  "cache_get c k now =
     (case dget c k of
        None \<Rightarrow> (False, None)
      | Some (state, expires_at) \<Rightarrow> if expires_at \<le> now then (False, None) else (True, state))"

definition cache_set :: "string \<Rightarrow> session_state option \<Rightarrow> time \<Rightarrow> time \<Rightarrow> cache \<Rightarrow> cache" where
  "cache_set k state now ttl c = dset k (state, now + ttl) c"

definition cache_invalidate :: "string \<Rightarrow> cache \<Rightarrow> cache" where
  "cache_invalidate k c = ddel k c"

section \<open>Operations\<close>

definition normalize_version_arg :: "string option \<Rightarrow> string option" where
  "normalize_version_arg version =
     (case version of
        None \<Rightarrow> None
      | Some v \<Rightarrow> if lower (strip v) \<in> set SENTINELS then None else Some v)"

definition non_empty :: "string option \<Rightarrow> string option" where  \<comment> \<open>\<open>x or None\<close>\<close>
  "non_empty x = (case x of Some s \<Rightarrow> (if s = [] then None else Some s) | None \<Rightarrow> None)"

text \<open>The query of \<open>_fetch_from_db\<close>; any exception (no pool, a key that is no integer) is None.\<close>

definition fetch_from_db :: "mcp \<Rightarrow> string \<Rightarrow> session_state option" where
  "fetch_from_db s k =
     (case py_int k of
        None \<Rightarrow> None
      | Some i \<Rightarrow>
          (if \<not> mc_up s then None
           else (case tselect (\<lambda>r. cx_key r = i \<and> mc_now s - SESSION_TTL < cx_updated r) (mc_rows s) of
               None \<Rightarrow> None
             | Some r \<Rightarrow> Some \<lparr>ss_api_key_id = k, ss_odoo_version = non_empty (cx_version r),
                                ss_profile_name = non_empty (cx_profile r)\<rparr>)))"

definition get_session_state :: "mcp \<Rightarrow> string \<Rightarrow> session_state option \<times> mcp" where
  "get_session_state s k =
     (let (hit, cached) = cache_get (mc_cache s) k (mc_mono s)
      in if hit then (cached, s)
         else (let state = fetch_from_db s k
               in (state, s\<lparr>mc_cache := cache_set k state (mc_mono s) CACHE_TTL (mc_cache s)\<rparr>)))"

datatype mcp_exc = DbUnavailable | BadKey | ForeignKeyViolation | NoData

text \<open>INSERT ... ON CONFLICT (api\_key\_id) DO UPDATE: \<open>f\<close> sets the named columns.\<close>

definition upsert :: "int \<Rightarrow> (ctx_row \<Rightarrow> ctx_row) \<Rightarrow> mcp \<Rightarrow> mcp_exc + ctx_row list" where
  "upsert i f s =
     (if \<not> mc_up s then Inl DbUnavailable
      else if i \<notin> set (mc_keys s) then Inl ForeignKeyViolation
      else Inr (if (\<exists>r \<in> set (mc_rows s). cx_key r = i)
                then tupdate (\<lambda>r. cx_key r = i) (\<lambda>r. (f r)\<lparr>cx_updated := mc_now s\<rparr>) (mc_rows s)
                else mc_rows s @ [(f \<lparr>cx_key = i, cx_version = None, cx_profile = None,
                                       cx_updated = mc_now s\<rparr>)]))"

definition store_ctx :: "string \<Rightarrow> (ctx_row \<Rightarrow> ctx_row) \<Rightarrow> mcp \<Rightarrow> (mcp_exc + unit) \<times> mcp" where
  "store_ctx k f s =
     (case py_int k of
        None \<Rightarrow> (Inl (if mc_up s then BadKey else DbUnavailable), s)
      | Some i \<Rightarrow>
          (case upsert i f s of
             Inl e \<Rightarrow> (Inl e, s)
           | Inr rows \<Rightarrow> (Inr (), s\<lparr>mc_rows := rows, mc_cache := cache_invalidate k (mc_cache s)\<rparr>)))"

definition set_active_version_db :: "string \<Rightarrow> string \<Rightarrow> mcp \<Rightarrow> (mcp_exc + unit) \<times> mcp" where
  "set_active_version_db k v = store_ctx k (\<lambda>r. r\<lparr>cx_version := Some v\<rparr>)"

definition set_active_profile_db :: "string \<Rightarrow> string option \<Rightarrow> mcp \<Rightarrow> (mcp_exc + unit) \<times> mcp" where
  "set_active_profile_db k p = store_ctx k (\<lambda>r. r\<lparr>cx_profile := p\<rparr>)"

text \<open>Resolution: explicit argument, stored version, latest indexed version.\<close>

definition resolve_version_v2 :: "string option \<Rightarrow> string \<Rightarrow> graph \<Rightarrow> mcp \<Rightarrow> (mcp_exc + string) \<times> mcp" where
  "resolve_version_v2 version_arg k g s =
     (case normalize_version_arg version_arg of
        Some explicit \<Rightarrow> (Inr explicit, s)
      | None \<Rightarrow>
          (let (state, s) = get_session_state s k
           in (case Option.bind (Option.bind state ss_odoo_version) (\<lambda>v. non_empty (Some v)) of
                 Some v \<Rightarrow> (Inr v, s)
               | None \<Rightarrow> (case latest_version g of
                    None \<Rightarrow> (Inl NoData, s)
                  | Some v \<Rightarrow> (Inr v, s)))))"

section \<open>The cache as an interface\<close>

text \<open>A cache with time to live: what a reader may expect after a store or an invalidation,
  and which value it can see after any sequence of them.\<close>

datatype ('k, 'v) cache_op = Put 'k 'v time time | Drop 'k

locale ttl_cache =
  fixes look :: "'c \<Rightarrow> 'k \<Rightarrow> time \<Rightarrow> 'v option"
    and put :: "'k \<Rightarrow> 'v \<Rightarrow> time \<Rightarrow> time \<Rightarrow> 'c \<Rightarrow> 'c"
    and drop_key :: "'k \<Rightarrow> 'c \<Rightarrow> 'c"
  assumes look_put: "look (put k v now ttl c) k' t =
      (if k' = k then if now + ttl \<le> t then None else Some v else look c k' t)"
    and look_drop: "look (drop_key k c) k' t = (if k' = k then None else look c k' t)"
begin

lemma look_put_same: "t < now + ttl \<Longrightarrow> look (put k v now ttl c) k t = Some v"
  by (simp add: look_put)

lemma look_put_expired: "now + ttl \<le> t \<Longrightarrow> look (put k v now ttl c) k t = None"
  by (simp add: look_put)

lemma look_dropped: "look (drop_key k c) k t = None"
  by (simp add: look_drop)

lemma look_history:
  assumes "look (fold (\<lambda>op. case op of Put k v now ttl \<Rightarrow> put k v now ttl | Drop k \<Rightarrow> drop_key k) ops c) k t = Some v"
  shows "look c k t = Some v \<or>
    (\<exists>pre post now ttl. ops = pre @ Put k v now ttl # post \<and> t < now + ttl \<and> Drop k \<notin> set post)"
  using assms
proof (induction ops rule: rev_induct)
  case Nil
  then show ?case by simp
next
  case (snoc op ops)
  show ?case
  proof (cases op)
    case (Put k' v' now ttl)
    show ?thesis
    proof (cases "k' = k")
      case True
      then have "v' = v" "t < now + ttl"
        using snoc.prems Put by (auto simp: look_put split: if_splits)
      then show ?thesis using True Put by (metis empty_iff empty_set)
    next
      case False
      then have "look (fold (\<lambda>op. case op of Put k v now ttl \<Rightarrow> put k v now ttl | Drop k \<Rightarrow> drop_key k) ops c) k t = Some v"
        using snoc.prems Put by (simp add: look_put)
      then show ?thesis using snoc.IH Put
        by (auto, metis cache_op.distinct(1) set_append append_Cons append_assoc insert_iff list.simps(15) Un_iff empty_iff empty_set)
    qed
  next
    case (Drop k')
    then have "k' \<noteq> k" using snoc.prems by (auto simp: look_drop)
    moreover have "look (fold (\<lambda>op. case op of Put k v now ttl \<Rightarrow> put k v now ttl | Drop k \<Rightarrow> drop_key k) ops c) k t = Some v"
      using snoc.prems Drop \<open>k' \<noteq> k\<close> by (simp add: look_drop)
    ultimately show ?thesis using snoc.IH Drop
      by (auto, metis cache_op.inject(2) set_append append_Cons append_assoc insert_iff list.simps(15) Un_iff empty_iff empty_set)
  qed
qed

end

definition cache_look :: "cache \<Rightarrow> string \<Rightarrow> time \<Rightarrow> session_state option option" where
  "cache_look c k t = (let (hit, state) = cache_get c k t in if hit then Some state else None)"

interpretation ctx_cache: ttl_cache cache_look cache_set cache_invalidate
  by unfold_locales (auto simp: cache_look_def cache_get_def cache_set_def cache_invalidate_def)

lemma get_session_state_look:
  "get_session_state s k = (case cache_look (mc_cache s) k (mc_mono s) of
      Some state \<Rightarrow> (state, s)
    | None \<Rightarrow> (fetch_from_db s k, s\<lparr>mc_cache := cache_set k (fetch_from_db s k) (mc_mono s) CACHE_TTL (mc_cache s)\<rparr>))"
  by (auto simp: get_session_state_def cache_look_def Let_def split: prod.splits)

end
