(* ===== verification/SessionProps.thy ===== *)
theory SessionProps
  imports SessionState
begin

text \<open>
  Properties of the session context: read-your-writes, bounded staleness of the cache under
  any interleaving with other processes, the tiers of version resolution, and the window in
  which a reader that raced a writer stores an old row back.
\<close>

section \<open>Reading after writing\<close>

lemma store_ctx_Inr:
  assumes "store_ctx k f s = (Inr (), s')"
  obtains i where "py_int k = Some i" "mc_up s" "upsert i f s = Inr (mc_rows s')"
    "mc_cache s' = cache_invalidate k (mc_cache s)" "mc_mono s' = mc_mono s" "mc_now s' = mc_now s" "mc_up s'"
  using assms
  by (auto simp: store_ctx_def upsert_def split: option.splits sum.splits if_splits)

definition old_row :: "mcp \<Rightarrow> int \<Rightarrow> ctx_row" where
  "old_row s i = (case tselect (\<lambda>r. cx_key r = i) (mc_rows s) of
      Some r \<Rightarrow> r
    | None \<Rightarrow> \<lparr>cx_key = i, cx_version = None, cx_profile = None, cx_updated = mc_now s\<rparr>)"

lemma tselect_touched:
  assumes "\<And>r. cx_key (f r) = cx_key r" "now - ttl < now"
  shows "tselect (\<lambda>r. cx_key r = i \<and> now - ttl < cx_updated r)
      (tupdate (\<lambda>r. cx_key r = i) (\<lambda>r. (f r)\<lparr>cx_updated := now\<rparr>) t) =
    map_option (\<lambda>r. (f r)\<lparr>cx_updated := now\<rparr>) (tselect (\<lambda>r. cx_key r = i) t)"
  using assms by (induction t) (auto simp: tselect_def tupdate_def)

lemma upsert_fetch:
  assumes up: "upsert i f s = Inr (mc_rows s')" and k: "py_int k = Some i"
    and f: "\<And>r. cx_key (f r) = cx_key r" "\<And>r. cx_updated (f r) = cx_updated r"
    and s': "mc_now s' = mc_now s" "mc_up s'"
  shows "fetch_from_db s' k =
    Some \<lparr>ss_api_key_id = k, ss_odoo_version = non_empty (cx_version (f (old_row s i))),
          ss_profile_name = non_empty (cx_profile (f (old_row s i)))\<rparr>"
proof -
  have ttl: "mc_now s - SESSION_TTL < mc_now s" by (simp add: SESSION_TTL_def)
  show ?thesis
  proof (cases "tselect (\<lambda>r. cx_key r = i) (mc_rows s)")
    case None
    then have none: "\<not> (\<exists>r \<in> set (mc_rows s). cx_key r = i)" by (auto simp: tselect_None)
    then have rows: "mc_rows s' = mc_rows s @ [f (old_row s i)]"
      using up None by (auto simp: upsert_def old_row_def split: if_splits)
    have "tselect (\<lambda>r. cx_key r = i \<and> mc_now s - SESSION_TTL < cx_updated r) (mc_rows s) = None"
      using none by (auto simp: tselect_None)
    then show ?thesis using None k s' rows ttl f
      by (simp add: fetch_from_db_def tselect_append tselect_Cons old_row_def)
  next
    case (Some r)
    then have "\<exists>r \<in> set (mc_rows s). cx_key r = i" by (auto dest: tselect_Some)
    then have "mc_rows s' = tupdate (\<lambda>r. cx_key r = i) (\<lambda>r. (f r)\<lparr>cx_updated := mc_now s\<rparr>) (mc_rows s)"
      using up by (auto simp: upsert_def split: if_splits)
    then show ?thesis using k s' Some tselect_touched [where f = f, OF f(1) ttl]
      by (simp add: fetch_from_db_def old_row_def)
  qed
qed

lemma get_after_store:
  assumes "store_ctx k f s = (Inr (), s')"
    and f: "\<And>r. cx_key (f r) = cx_key r" "\<And>r. cx_updated (f r) = cx_updated r"
  obtains i where "py_int k = Some i" "fst (get_session_state s' k) =
    Some \<lparr>ss_api_key_id = k, ss_odoo_version = non_empty (cx_version (f (old_row s i))),
          ss_profile_name = non_empty (cx_profile (f (old_row s i)))\<rparr>"
proof -
  obtain i where i: "py_int k = Some i" "upsert i f s = Inr (mc_rows s')"
    "mc_cache s' = cache_invalidate k (mc_cache s)" "mc_now s' = mc_now s" "mc_up s'"
    using assms(1) by (rule store_ctx_Inr)
  have "fst (get_session_state s' k) = fetch_from_db s' k"
    by (simp add: get_session_state_look i(3) ctx_cache.look_dropped)
  then show ?thesis using that upsert_fetch [OF i(2,1) f i(4,5)] i(1) by simp
qed

lemma set_version_then_get_aux:
  assumes "set_active_version_db k v s = (Inr (), s')" and "py_int k = Some i"
  shows "fst (get_session_state s' k) =
    Some \<lparr>ss_api_key_id = k, ss_odoo_version = non_empty (Some v),
          ss_profile_name = non_empty (cx_profile (old_row s i))\<rparr>"
proof -
  obtain j where "py_int k = Some j" "fst (get_session_state s' k) =
    Some \<lparr>ss_api_key_id = k, ss_odoo_version = non_empty (cx_version ((old_row s j)\<lparr>cx_version := Some v\<rparr>)),
          ss_profile_name = non_empty (cx_profile ((old_row s j)\<lparr>cx_version := Some v\<rparr>))\<rparr>"
    using assms(1) unfolding set_active_version_db_def by (rule get_after_store) simp_all
  then show ?thesis using assms(2) by simp
qed

text \<open>
  A process reads its own writes: right after \<open>set_active_version_db\<close> returns, the same
  key's session state has that version, whatever the cache held before; and it has the
  profile of the row that was there, however old that row was, since the upsert renews the
  whole row: a profile that had passed its 24 hours is back in force.
\<close>
theorem set_version_then_get:
  assumes "set_active_version_db k v s = (Inr (), s')" and "py_int k = Some i"
  shows "fst (get_session_state s' k) =
    Some \<lparr>ss_api_key_id = k, ss_odoo_version = non_empty (Some v),
          ss_profile_name = non_empty (cx_profile (old_row s i))\<rparr>"
  using assms by (rule set_version_then_get_aux)

definition demo_mcp :: mcp where
  "demo_mcp = \<lparr>mc_cache = [(''7'', (None, 60 * sec))], mc_mono = 10 * sec,
     mc_rows = [\<lparr>cx_key = 7, cx_version = None, cx_profile = Some ''old'', cx_updated = 0\<rparr>],
     mc_keys = [7], mc_now = 90000 * sec, mc_up = True\<rparr>"

lemma demo_mcp_facts:
  "py_int ''7'' = Some 7" "fst (get_session_state demo_mcp ''7'') = None" "fetch_from_db demo_mcp ''7'' = None"
  "fst (set_active_version_db ''7'' ''17.0'' demo_mcp) = Inr ()"
  by code_simp+

theorem set_version_then_get_witness:
  "fst (get_session_state demo_mcp ''7'') = None \<and>
   fst (get_session_state (snd (set_active_version_db ''7'' ''17.0'' demo_mcp)) ''7'') =
     Some \<lparr>ss_api_key_id = ''7'', ss_odoo_version = Some ''17.0'', ss_profile_name = Some ''old''\<rparr>"
proof -
  have r: "set_active_version_db ''7'' ''17.0'' demo_mcp =
      (Inr (), snd (set_active_version_db ''7'' ''17.0'' demo_mcp))"
    using demo_mcp_facts(4) by (metis prod.collapse)
  have o: "non_empty (cx_profile (old_row demo_mcp 7)) = Some ''old''"
    by code_simp
  show ?thesis using set_version_then_get [OF r demo_mcp_facts(1)] demo_mcp_facts(2) o
    by (simp add: non_empty_def)
qed

section \<open>Bounded staleness\<close>

text \<open>
  What can happen between two operations of a process: one of its own operations, time, or
  any change to the database by others (other workers, key deletion, outage).
\<close>

inductive mcp_step :: "mcp \<Rightarrow> mcp \<Rightarrow> bool" where
  step_get: "mcp_step s (snd (get_session_state s k))"
| step_version: "mcp_step s (snd (set_active_version_db k v s))"
| step_profile: "mcp_step s (snd (set_active_profile_db k p s))"
| step_tick: "0 \<le> d \<Longrightarrow> mcp_step s (s\<lparr>mc_mono := mc_mono s + d\<rparr>)"
| step_foreign: "mcp_step s (s\<lparr>mc_rows := rows, mc_keys := keys, mc_now := now, mc_up := up\<rparr>)"

text \<open>Histories of a process that starts with an empty cache, latest state first.\<close>

inductive history :: "mcp list \<Rightarrow> bool" where
  history_start: "mc_cache s = [] \<Longrightarrow> history [s]"
| history_step: "history (s # h) \<Longrightarrow> mcp_step s s' \<Longrightarrow> history (s' # s # h)"

definition cache_explained :: "mcp list \<Rightarrow> mcp \<Rightarrow> bool" where
  "cache_explained h s \<longleftrightarrow> (\<forall>k state e. dget (mc_cache s) k = Some (state, e) \<longrightarrow>
     (\<exists>s0 \<in> set h. state = fetch_from_db s0 k \<and> e = mc_mono s0 + CACHE_TTL \<and> mc_mono s0 \<le> mc_mono s))"

lemma store_ctx_cache:
  "mc_cache (snd (store_ctx k f s)) = mc_cache s \<or>
   mc_cache (snd (store_ctx k f s)) = cache_invalidate k (mc_cache s)"
  "mc_mono (snd (store_ctx k f s)) = mc_mono s"
  by (auto simp: store_ctx_def split: option.splits sum.splits)

lemma cache_explained_mono:
  assumes "cache_explained h s" "mc_cache s' = mc_cache s \<or> (\<exists>k. mc_cache s' = cache_invalidate k (mc_cache s))"
    "mc_mono s \<le> mc_mono s'" "set h \<subseteq> set h'"
  shows "cache_explained h' s'"
  using assms unfolding cache_explained_def cache_invalidate_def
  by (elim disjE exE) (force split: if_splits)+

lemma mcp_step_explained [inv_intros]:
  assumes "mcp_step s s'" "cache_explained (s # h) s"
  shows "cache_explained (s' # s # h) s'"
  using assms
proof cases
  case (step_get k)
  show ?thesis
  proof (cases "cache_look (mc_cache s) k (mc_mono s)")
    case None
    then have s': "s' = s\<lparr>mc_cache := cache_set k (fetch_from_db s k) (mc_mono s) CACHE_TTL (mc_cache s)\<rparr>"
      using step_get by (simp add: get_session_state_look)
    show ?thesis
      unfolding cache_explained_def
    proof (intro allI impI)
      fix k' state e
      assume e: "dget (mc_cache s') k' = Some (state, e)"
      show "\<exists>s0 \<in> set (s' # s # h). state = fetch_from_db s0 k' \<and> e = mc_mono s0 + CACHE_TTL \<and>
          mc_mono s0 \<le> mc_mono s'"
      proof (cases "k' = k")
        case True
        then show ?thesis using e s' by (auto simp: cache_set_def)
      next
        case False
        then have "dget (mc_cache s) k' = Some (state, e)" using e s' by (simp add: cache_set_def)
        then show ?thesis using assms(2) s' unfolding cache_explained_def by fastforce
      qed
    qed
  next
    case (Some state)
    then have "s' = s" using step_get by (simp add: get_session_state_look)
    then show ?thesis using assms(2) by (auto intro: cache_explained_mono)
  qed
next
  case (step_version k v)
  then show ?thesis using assms(2) store_ctx_cache [of k _ s]
    unfolding set_active_version_db_def by (intro cache_explained_mono [OF assms(2)]) auto
next
  case (step_profile k p)
  then show ?thesis using assms(2) store_ctx_cache [of k _ s]
    unfolding set_active_profile_db_def by (intro cache_explained_mono [OF assms(2)]) auto
next
  case (step_tick d)
  then show ?thesis by (intro cache_explained_mono [OF assms(2)]) auto
next
  case step_foreign
  then show ?thesis by (intro cache_explained_mono [OF assms(2)]) auto
qed

lemma history_explained: "history (s # h) \<Longrightarrow> cache_explained (s # h) s"
proof (induction "s # h" arbitrary: s h rule: history.induct)
  case (history_start s)
  then show ?case by (simp add: cache_explained_def)
next
  case (history_step s h s')
  then show ?case by (blast intro: mcp_step_explained)
qed

text \<open>
  C9. Staleness is bounded. Whatever a process and the rest of the world do, the state that
  \<open>get_session_state\<close> returns is what the query of the table would have returned at some
  moment of the process's history less than 60 seconds ago.
\<close>
theorem bounded_staleness:
  assumes "history (s # h)"
  shows "\<exists>s0 \<in> set (s # h). fst (get_session_state s k) = fetch_from_db s0 k \<and>
    mc_mono s0 \<le> mc_mono s \<and> mc_mono s - mc_mono s0 < CACHE_TTL"
proof (cases "cache_look (mc_cache s) k (mc_mono s)")
  case None
  then show ?thesis by (simp add: get_session_state_look CACHE_TTL_def)
next
  case (Some state)
  then obtain e where e: "dget (mc_cache s) k = Some (state, e)" "mc_mono s < e"
    by (auto simp: cache_look_def cache_get_def split: option.splits if_splits prod.splits)
  then obtain s0 where "s0 \<in> set (s # h)" "state = fetch_from_db s0 k" "e = mc_mono s0 + CACHE_TTL"
    "mc_mono s0 \<le> mc_mono s"
    using history_explained [OF assms] unfolding cache_explained_def by blast
  then show ?thesis using e Some by (auto simp: get_session_state_look)
qed

lemma demo_history:
  "history [snd (get_session_state (demo_mcp\<lparr>mc_cache := []\<rparr>) ''7''), demo_mcp\<lparr>mc_cache := []\<rparr>]"
  by (intro history.intros mcp_step.intros) simp

theorem bounded_staleness_witness:
  "\<exists>s0 \<in> set [snd (get_session_state (demo_mcp\<lparr>mc_cache := []\<rparr>) ''7''), demo_mcp\<lparr>mc_cache := []\<rparr>].
     fst (get_session_state (snd (get_session_state (demo_mcp\<lparr>mc_cache := []\<rparr>) ''7'')) ''7'') =
       fetch_from_db s0 ''7'' \<and>
     mc_mono s0 \<le> mc_mono (snd (get_session_state (demo_mcp\<lparr>mc_cache := []\<rparr>) ''7'')) \<and>
     mc_mono (snd (get_session_state (demo_mcp\<lparr>mc_cache := []\<rparr>) ''7'')) - mc_mono s0 < CACHE_TTL"
  by (rule bounded_staleness [OF demo_history])

text \<open>
  The lock protects the cache, not the read-through. A reader that misses the cache and
  runs its query before a writer's upsert, but stores its result after the writer's
  invalidation, leaves the old state in the cache: for the next minute the key's readers get
  the state from before the write, although the write has returned.
\<close>
theorem late_reader_restores_old_state:
  assumes "set_active_version_db k v s = (Inr (), s')" and "mc_mono s' < mc_mono s + CACHE_TTL"
  shows "fst (get_session_state
      (s'\<lparr>mc_cache := cache_set k (fetch_from_db s k) (mc_mono s) CACHE_TTL (mc_cache s')\<rparr>) k) =
    fetch_from_db s k"
  using assms(2) by (simp add: get_session_state_look ctx_cache.look_put_same)

theorem late_reader_restores_old_state_witness:
  "fst (get_session_state
      ((snd (set_active_version_db ''7'' ''17.0'' demo_mcp))
        \<lparr>mc_cache := cache_set ''7'' (fetch_from_db demo_mcp ''7'') (mc_mono demo_mcp) CACHE_TTL
           (mc_cache (snd (set_active_version_db ''7'' ''17.0'' demo_mcp)))\<rparr>) ''7'') = None"
proof -
  let ?s' = "snd (set_active_version_db ''7'' ''17.0'' demo_mcp)"
  have r: "set_active_version_db ''7'' ''17.0'' demo_mcp = (Inr (), ?s')"
    using demo_mcp_facts(4) by (metis prod.collapse)
  have "mc_mono ?s' = mc_mono demo_mcp"
    using store_ctx_cache(2) by (simp add: set_active_version_db_def)
  then have "mc_mono ?s' < mc_mono demo_mcp + CACHE_TTL" by (simp add: CACHE_TTL_def)
  then show ?thesis using late_reader_restores_old_state [OF r] demo_mcp_facts(3) by simp
qed

section \<open>Version resolution\<close>

text \<open>
  A stored version is sticky: after \<open>set_active_version_db\<close> of a non-empty version, every
  spelling of every sentinel (any case, surrounding white space, or no argument at all)
  resolves to it, whatever the graph holds; and an argument that is no sentinel always wins,
  unchanged, without a look at the session.
\<close>
theorem sticky_version:
  assumes "set_active_version_db k v s = (Inr (), s')" and "v \<noteq> []"
    and "arg = None \<or> (\<exists>a. arg = Some a \<and> lower (strip a) \<in> set SENTINELS)"
    and "lower (strip b) \<notin> set SENTINELS"
  shows "fst (resolve_version_v2 arg k g s') = Inr v \<and> resolve_version_v2 (Some b) k g s' = (Inr b, s')"
proof -
  obtain i where i: "py_int k = Some i"
    using assms(1) unfolding set_active_version_db_def by (rule store_ctx_Inr)
  have n: "normalize_version_arg arg = None"
    using assms(3) by (auto simp: normalize_version_arg_def)
  obtain st s'' where g: "get_session_state s' k = (st, s'')" by (cases "get_session_state s' k")
  then obtain st0 where "st = Some st0" "ss_odoo_version st0 = Some v"
    using set_version_then_get_aux [OF assms(1) i] assms(2) by (simp add: non_empty_def)
  then have "fst (resolve_version_v2 arg k g s') = Inr v"
    using n g assms(2) by (simp add: resolve_version_v2_def Let_def non_empty_def)
  moreover have "resolve_version_v2 (Some b) k g s' = (Inr b, s')"
    using assms(4) by (simp add: resolve_version_v2_def normalize_version_arg_def)
  ultimately show ?thesis by blast
qed

definition demo_empty_graph :: graph where
  "demo_empty_graph = \<lparr>g_fields = [], g_methods = [], g_models = [], g_edges = [], module_versions = []\<rparr>"

theorem sticky_version_witness:
  "fst (resolve_version_v2 (Some '' LATEST '') ''7'' demo_empty_graph
      (snd (set_active_version_db ''7'' ''17.0'' demo_mcp))) = Inr ''17.0''"
proof -
  have r: "set_active_version_db ''7'' ''17.0'' demo_mcp =
      (Inr (), snd (set_active_version_db ''7'' ''17.0'' demo_mcp))"
    using demo_mcp_facts(4) by (metis prod.collapse)
  have "lower (strip '' LATEST '') \<in> set SENTINELS" "lower (strip ''16.0'') \<notin> set SENTINELS"
    by code_simp+
  then show ?thesis using sticky_version [OF r, of "Some '' LATEST ''" "''16.0''" demo_empty_graph] by simp
qed

end
