(* ===== verification/Refs.thy ===== *)
theory Refs
  imports PyVal "HOL-Library.Char_ord" "HOL-Library.List_Lexorder" "HOL-Library.Product_Lexorder"
begin

text \<open>
  The per-tenant reference minter of \<open>src/mcp/refs.py\<close>: \<open>RefMinter\<close> with its stores, lazy
  eviction, content-hash index and counters. Python's built-in \<open>hash\<close> of a tuple of pairs of
  strings is the parameter \<open>hsh\<close>. Each operation takes the reading of the monotonic clock and
  returns its result with the minter's new state; the lock makes each of them atomic.
\<close>

type_synonym item = "(string, pyval) pydict"

datatype ref_exc = ValueError | RefError

definition MAX_ITEMS_PER_CALL :: nat where
  "MAX_ITEMS_PER_CALL = 1000"

definition DEFAULT_TTL :: time where
  "DEFAULT_TTL = 300 * sec"

definition PREFIX_BY_KIND :: "(string, string) pydict" where
  "PREFIX_BY_KIND = [(''field'', ''f''), (''method'', ''m''), (''view'', ''v''),
     (''pattern'', ''p''), (''module'', ''x'')]"

definition KIND_DETECTOR :: "(string \<times> string) list" where
  "KIND_DETECTOR = [(''field_name'', ''field''), (''method_name'', ''method''), (''xmlid'', ''view''),
     (''pattern_name'', ''pattern''), (''module_name'', ''module'')]"

record entry =
  en_canonical :: item
  en_expires :: time

record tenant =
  tn_refs :: "(string, entry) pydict"
  tn_next :: "(string, nat) pydict"
  tn_hash :: "(int, string) pydict"

record minter =
  rm_ttl :: time
  rm_stores :: "(string, tenant) pydict"

definition empty_tenant :: tenant where
  "empty_tenant = \<lparr>tn_refs = [], tn_next = [], tn_hash = []\<rparr>"

definition infer_kind :: "item \<Rightarrow> string option" where
  "infer_kind item = map_option snd (find (\<lambda>(key, kind). dget item key \<noteq> None) KIND_DETECTOR)"

definition py_str :: "pyval \<Rightarrow> string" where
  "py_str v = (case v of PStr s \<Rightarrow> s | _ \<Rightarrow> repr v)"

definition canonical_hash :: "((string \<times> string) list \<Rightarrow> int) \<Rightarrow> item \<Rightarrow> int" where
  "canonical_hash hsh item = hsh (sort (map (\<lambda>(k, v). (k, py_str v)) item))"

definition evict_expired :: "tenant \<Rightarrow> time \<Rightarrow> tenant" where
  "evict_expired store now =
     (let refs = filter (\<lambda>(ref_id, e). \<not> en_expires e \<le> now) (tn_refs store)
      in store\<lparr>tn_refs := refs,
               tn_hash := filter (\<lambda>(ch, ref_id). dget refs ref_id \<noteq> None) (tn_hash store)\<rparr>)"

text \<open>A fresh ref: the prefix's counter, which is never set back.\<close>

definition mint_new :: "time \<Rightarrow> time \<Rightarrow> string \<Rightarrow> int \<Rightarrow> item \<Rightarrow> tenant \<Rightarrow> string \<times> tenant" where
  "mint_new ttl now prefix ch item store =
     (let counter = (case dget (tn_next store) prefix of None \<Rightarrow> 1 | Some n \<Rightarrow> n);
          ref_id = prefix @ show_nat counter
      in (ref_id,
          store\<lparr>tn_next := dset prefix (counter + 1) (tn_next store),
                tn_refs := dset ref_id \<lparr>en_canonical = item, en_expires = now + ttl\<rparr> (tn_refs store),
                tn_hash := dset ch ref_id (tn_hash store)\<rparr>))"

text \<open>One round of the loop of \<open>mint\<close> for an item below the cap: the ref, or ValueError when
  the kind cannot be inferred or is unknown.\<close>

definition mint_item :: "((string \<times> string) list \<Rightarrow> int) \<Rightarrow> time \<Rightarrow> time \<Rightarrow> string \<Rightarrow> item \<Rightarrow> tenant \<Rightarrow> (ref_exc + string) \<times> tenant" where
  "mint_item hsh ttl now kind item store =
     (case Option.bind (if kind = ''auto'' then infer_kind item else Some kind) (dget PREFIX_BY_KIND) of
        None \<Rightarrow> (Inl ValueError, store)
      | Some prefix \<Rightarrow>
         (let ch = canonical_hash hsh item;
              existing = Option.bind (dget (tn_hash store) ch)
                           (\<lambda>r. map_option (\<lambda>e. (r, e)) (dget (tn_refs store) r))
          in (case existing of
                Some (r, e) \<Rightarrow>
                  (if now < en_expires e then
                     (Inr r, store\<lparr>tn_refs := dset r (e\<lparr>en_expires := now + ttl\<rparr>) (tn_refs store)\<rparr>)
                   else apfst Inr (mint_new ttl now prefix ch item (store\<lparr>tn_hash := ddel ch (tn_hash store)\<rparr>)))
              | None \<Rightarrow> apfst Inr (mint_new ttl now prefix ch item store))))"

text \<open>The loop: an exception stops it, with what was minted so far kept in the store.\<close>

fun mint_loop :: "((string \<times> string) list \<Rightarrow> int) \<Rightarrow> time \<Rightarrow> time \<Rightarrow> string \<Rightarrow> nat \<Rightarrow> item list \<Rightarrow> tenant \<Rightarrow> (ref_exc + string list) \<times> tenant" where
  "mint_loop hsh ttl now kind idx [] store = (Inr [], store)"
| "mint_loop hsh ttl now kind idx (item # items) store =
     (if MAX_ITEMS_PER_CALL \<le> idx then
        (case mint_loop hsh ttl now kind (Suc idx) items store of
           (Inl e, store) \<Rightarrow> (Inl e, store)
         | (Inr rs, store) \<Rightarrow> (Inr (''exhausted'' # rs), store))
      else
        (case mint_item hsh ttl now kind item store of
           (Inl e, store) \<Rightarrow> (Inl e, store)
         | (Inr r, store) \<Rightarrow>
            (case mint_loop hsh ttl now kind (Suc idx) items store of
               (Inl e, store) \<Rightarrow> (Inl e, store)
             | (Inr rs, store) \<Rightarrow> (Inr (r # rs), store))))"

definition get_or_create_store :: "minter \<Rightarrow> string \<Rightarrow> tenant" where
  "get_or_create_store m k = (case dget (rm_stores m) k of None \<Rightarrow> empty_tenant | Some t \<Rightarrow> t)"

definition mint :: "((string \<times> string) list \<Rightarrow> int) \<Rightarrow> time \<Rightarrow> item list \<Rightarrow> string \<Rightarrow> string \<Rightarrow> minter \<Rightarrow> (ref_exc + string list) \<times> minter" where
  "mint hsh now items k kind m =
     (let (r, store) = mint_loop hsh (rm_ttl m) now kind 0 items (evict_expired (get_or_create_store m k) now)
      in (r, m\<lparr>rm_stores := dset k store (rm_stores m)\<rparr>))"

definition resolve_ref :: "time \<Rightarrow> string \<Rightarrow> string \<Rightarrow> minter \<Rightarrow> (ref_exc + item) \<times> minter" where
  "resolve_ref now r k m =
     (case dget (rm_stores m) k of
        None \<Rightarrow> (Inl RefError, m)
      | Some store \<Rightarrow>
          (let store = evict_expired store now; m = m\<lparr>rm_stores := dset k store (rm_stores m)\<rparr>
           in (case dget (tn_refs store) r of
                 None \<Rightarrow> (Inl RefError, m)
               | Some e \<Rightarrow> (Inr (en_canonical e), m))))"

text \<open>Runs of a minter, with a clock that does not go back.\<close>

inductive minter_step :: "((string \<times> string) list \<Rightarrow> int) \<Rightarrow> time \<Rightarrow> minter \<Rightarrow> time \<Rightarrow> minter \<Rightarrow> bool" for hsh where
  step_mint: "now \<le> now' \<Longrightarrow> minter_step hsh now m now' (snd (mint hsh now' items k kind m))"
| step_resolve: "now \<le> now' \<Longrightarrow> minter_step hsh now m now' (snd (resolve_ref now' r k m))"

inductive minter_run :: "((string \<times> string) list \<Rightarrow> int) \<Rightarrow> time \<Rightarrow> minter \<Rightarrow> time \<Rightarrow> minter \<Rightarrow> bool" for hsh where
  run_refl: "minter_run hsh now m now m"
| run_step: "minter_run hsh now m now' m' \<Longrightarrow> minter_step hsh now' m' now'' m'' \<Longrightarrow> minter_run hsh now m now'' m''"

end
