(* ===== verification/RefsProps.thy ===== *)
theory RefsProps
  imports Refs
begin

text \<open>
  Properties of the minter: refs are never reused for another item, a minted ref resolves to
  the item within its lifetime and to nothing afterwards, and tenants do not see each other.
\<close>

section \<open>The invariant of a tenant's store\<close>

definition prefixes :: "string set" where
  "prefixes = {''f'', ''m'', ''v'', ''p'', ''x''}"

definition next_of :: "tenant \<Rightarrow> string \<Rightarrow> nat" where
  "next_of t p = (case dget (tn_next t) p of None \<Rightarrow> 1 | Some n \<Rightarrow> n)"

text \<open>The refs handed out so far: those below a counter.\<close>

definition issued :: "tenant \<Rightarrow> string \<Rightarrow> bool" where
  "issued t r \<longleftrightarrow> (\<exists>p \<in> prefixes. \<exists>n < next_of t p. r = p @ show_nat n)"

definition tenant_inv :: "((string \<times> string) list \<Rightarrow> int) \<Rightarrow> tenant \<Rightarrow> bool" where
  "tenant_inv hsh t \<longleftrightarrow> distinct (dkeys (tn_refs t)) \<and> distinct (dkeys (tn_hash t)) \<and>
     (\<forall>r e. dget (tn_refs t) r = Some e \<longrightarrow> issued t r) \<and>
     (\<forall>ch r. dget (tn_hash t) ch = Some r \<longrightarrow> issued t r) \<and>
     (\<forall>ch r e. dget (tn_hash t) ch = Some r \<longrightarrow> dget (tn_refs t) r = Some e \<longrightarrow>
        canonical_hash hsh (en_canonical e) = ch)"

text \<open>How a store may change: issued refs stay issued, and keep their item or lose it.\<close>

definition extends :: "tenant \<Rightarrow> tenant \<Rightarrow> bool" where
  "extends t t' \<longleftrightarrow> (\<forall>r. issued t r \<longrightarrow> issued t' r \<and>
     (\<forall>e'. dget (tn_refs t') r = Some e' \<longrightarrow>
        (\<exists>e. dget (tn_refs t) r = Some e \<and> en_canonical e' = en_canonical e)))"

lemma extends_refl: "extends t t"
  by (auto simp: extends_def)

lemma extends_trans: "extends t u \<Longrightarrow> extends u w \<Longrightarrow> extends t w"
  unfolding extends_def by metis

lemma ref_inject:
  assumes "p \<in> prefixes" "q \<in> prefixes" "p @ show_nat m = q @ show_nat n"
  shows "p = q \<and> m = n"
proof -
  have "length p = 1" "length q = 1" using assms(1,2) by (auto simp: prefixes_def)
  then show ?thesis using assms(3) by (simp add: append_eq_append_conv show_nat_inject)
qed

lemma prefix_by_kind: "dget PREFIX_BY_KIND k = Some p \<Longrightarrow> p \<in> prefixes"
  by (auto simp: PREFIX_BY_KIND_def prefixes_def split: if_splits)

lemma dget_filter_key:
  "distinct (dkeys d) \<Longrightarrow> dget (filter P d) k = (case dget d k of None \<Rightarrow> None | Some v \<Rightarrow> if P (k, v) then Some v else None)"
proof (induction d)
  case Nil
  then show ?case by simp
next
  case (Cons x d)
  have "fst x \<notin> fst ` set d" using Cons.prems by simp
  then have "dget d (fst x) = None" by (simp add: map_of_eq_None_iff)
  then show ?case using Cons by (cases x) (auto split: option.splits)
qed

section \<open>Single operations\<close>

lemma dget_evict:
  "tenant_inv hsh t \<Longrightarrow> dget (tn_refs (evict_expired t now)) r =
     (case dget (tn_refs t) r of None \<Rightarrow> None | Some e \<Rightarrow> if now < en_expires e then Some e else None)"
  by (auto simp: evict_expired_def Let_def dget_filter_key tenant_inv_def split: option.splits)

lemma next_evict [simp]: "next_of (evict_expired t now) = next_of t" "issued (evict_expired t now) = issued t"
  by (auto simp: evict_expired_def next_of_def issued_def Let_def fun_eq_iff)

lemma evict_extends: "tenant_inv hsh t \<Longrightarrow> extends t (evict_expired t now)"
  by (auto simp: extends_def dget_evict split: option.splits if_splits)

lemma evict_inv [inv_intros]:
  assumes "tenant_inv hsh t"
  shows "tenant_inv hsh (evict_expired t now)"
proof -
  have h: "dget (tn_hash (evict_expired t now)) ch = Some r \<Longrightarrow> dget (tn_hash t) ch = Some r" for ch r
    using assms by (auto simp: evict_expired_def Let_def dget_filter_key tenant_inv_def split: option.splits if_splits)
  have d: "distinct (dkeys (tn_refs (evict_expired t now)))" "distinct (dkeys (tn_hash (evict_expired t now)))"
    using assms by (auto simp: evict_expired_def Let_def tenant_inv_def distinct_map_filter)
  show ?thesis using assms h d
    unfolding tenant_inv_def [of hsh "evict_expired t now"]
    by (auto simp: dget_evict [OF assms] tenant_inv_def split: option.splits if_splits) metis+
qed

lemma mint_new_facts:
  assumes inv: "tenant_inv hsh t" and p: "p \<in> prefixes" and ch: "ch = canonical_hash hsh item"
    and m: "mint_new ttl now p ch item t = (r, t')"
  shows "tenant_inv hsh t'" "extends t t'" "\<not> issued t r"
    "dget (tn_refs t') = (dget (tn_refs t))(r \<mapsto> \<lparr>en_canonical = item, en_expires = now + ttl\<rparr>)"
proof -
  define n where "n = next_of t p"
  have r: "r = p @ show_nat n"
    using m by (auto simp: mint_new_def n_def next_of_def Let_def)
  have t': "t' = t\<lparr>tn_next := dset p (n + 1) (tn_next t),
      tn_refs := dset r \<lparr>en_canonical = item, en_expires = now + ttl\<rparr> (tn_refs t),
      tn_hash := dset ch r (tn_hash t)\<rparr>"
    using m by (auto simp: mint_new_def n_def next_of_def Let_def)
  have nx: "next_of t' q = (if q = p then n + 1 else next_of t q)" for q
    by (simp add: t' next_of_def)
  show fresh: "\<not> issued t r"
    using p by (auto simp: issued_def r n_def dest: ref_inject)
  have mono: "issued t s \<Longrightarrow> issued t' s" for s
    unfolding issued_def by (metis nx less_SucI n_def Suc_eq_plus1)
  have new: "issued t' r"
    unfolding issued_def r by (intro bexI [OF _ p] exI [of _ n]) (simp add: nx)
  have fresh_refs: "dget (tn_refs t) r = None"
    using inv fresh by (cases "dget (tn_refs t) r") (auto simp: tenant_inv_def)
  show refs: "dget (tn_refs t') = (dget (tn_refs t))(r \<mapsto> \<lparr>en_canonical = item, en_expires = now + ttl\<rparr>)"
    by (simp add: t' fun_eq_iff)
  show "extends t t'" using fresh mono by (auto simp: extends_def refs)
  have "distinct (dkeys (tn_refs t'))" "distinct (dkeys (tn_hash t'))"
    using inv by (simp_all add: t' tenant_inv_def distinct_update del: map_of_eq_None_iff)
  moreover have "dget (tn_hash t') c = Some s \<Longrightarrow> dget (tn_refs t') s = Some e \<Longrightarrow>
      canonical_hash hsh (en_canonical e) = c" for c s e
  proof -
    assume c: "dget (tn_hash t') c = Some s" "dget (tn_refs t') s = Some e"
    show ?thesis
    proof (cases "c = ch")
      case True
      then show ?thesis using c by (auto simp: refs t' ch)
    next
      case False
      then have "dget (tn_hash t) c = Some s" using c(1) by (simp add: t')
      moreover from this have "s \<noteq> r" using inv fresh unfolding tenant_inv_def by metis
      then have "dget (tn_refs t) s = Some e" using c(2) by (simp add: refs)
      ultimately show ?thesis using inv unfolding tenant_inv_def by metis
    qed
  qed
  moreover have "dget (tn_hash t') c = Some s \<Longrightarrow> issued t' s" for c s
    using inv new mono unfolding tenant_inv_def by (simp add: t' split: if_splits)
  ultimately show "tenant_inv hsh t'"
    using inv new mono unfolding tenant_inv_def refs by (auto split: if_splits)
qed

text \<open>Within one call entries are only added or renewed.\<close>

definition grows :: "time \<Rightarrow> tenant \<Rightarrow> tenant \<Rightarrow> bool" where
  "grows until t t' \<longleftrightarrow> (\<forall>r e. dget (tn_refs t) r = Some e \<longrightarrow>
     (\<exists>e'. dget (tn_refs t') r = Some e' \<and> en_canonical e' = en_canonical e \<and>
        (en_expires e' = en_expires e \<or> en_expires e' = until)))"

lemma grows_refl: "grows u t t"
  by (auto simp: grows_def)

lemma grows_trans: "grows u t t' \<Longrightarrow> grows u t' t'' \<Longrightarrow> grows u t t''"
  unfolding grows_def by metis

definition minted :: "((string \<times> string) list \<Rightarrow> int) \<Rightarrow> time \<Rightarrow> item \<Rightarrow> string \<Rightarrow> tenant \<Rightarrow> bool" where
  "minted hsh until item r t \<longleftrightarrow> (\<exists>e. dget (tn_refs t) r = Some e \<and> en_expires e = until \<and>
     canonical_hash hsh (en_canonical e) = canonical_hash hsh item)"

lemma minted_grows: "minted hsh u item r t \<Longrightarrow> grows u t t' \<Longrightarrow> minted hsh u item r t'"
  unfolding minted_def grows_def by metis

lemma mint_new_all:
  assumes "tenant_inv hsh t" "p \<in> prefixes" "mint_new ttl now p (canonical_hash hsh item) item t = (r, t')"
  shows "tenant_inv hsh t' \<and> extends t t' \<and> grows (now + ttl) t t' \<and> minted hsh (now + ttl) item r t'"
proof -
  note f = mint_new_facts [OF assms(1,2) refl assms(3)]
  have "dget (tn_refs t) r = None"
    using assms(1) f(3) by (cases "dget (tn_refs t) r") (auto simp: tenant_inv_def)
  then show ?thesis using f by (auto simp: grows_def minted_def)
qed

lemma ddel_hash_inv: "tenant_inv hsh t \<Longrightarrow> tenant_inv hsh (t\<lparr>tn_hash := ddel ch (tn_hash t)\<rparr>)"
  by (auto simp: tenant_inv_def issued_def next_of_def distinct_delete split: if_splits)

lemma mint_item_facts:
  assumes inv: "tenant_inv hsh t" and m: "mint_item hsh ttl now kind item t = (res, t')"
  shows "tenant_inv hsh t' \<and> extends t t' \<and> grows (now + ttl) t t' \<and>
    (\<forall>r. res = Inr r \<longrightarrow> minted hsh (now + ttl) item r t')"
proof (cases "Option.bind (if kind = ''auto'' then infer_kind item else Some kind) (dget PREFIX_BY_KIND)")
  case None
  then show ?thesis using m inv by (auto simp: mint_item_def extends_refl grows_refl)
next
  case (Some p)
  then have p: "p \<in> prefixes" by (auto simp: bind_eq_Some_conv intro: prefix_by_kind)
  let ?ch = "canonical_hash hsh item"
  let ?ex = "Option.bind (dget (tn_hash t) ?ch) (\<lambda>r. map_option (\<lambda>e. (r, e)) (dget (tn_refs t) r))"
  show ?thesis
  proof (cases ?ex)
    case None
    obtain r' where "mint_new ttl now p ?ch item t = (r', t')" "res = Inr r'"
      using m Some None by (cases "mint_new ttl now p ?ch item t") (auto simp: mint_item_def Let_def)
    then show ?thesis using mint_new_all [OF inv p] by blast
  next
    case (Some re)
    obtain r e where re: "re = (r, e)" by (cases re)
    then have h: "dget (tn_hash t) ?ch = Some r" "dget (tn_refs t) r = Some e"
      using Some by (auto simp: bind_eq_Some_conv)
    show ?thesis
    proof (cases "now < en_expires e")
      case True
      then have t': "t' = t\<lparr>tn_refs := dset r (e\<lparr>en_expires := now + ttl\<rparr>) (tn_refs t)\<rparr>" and res: "res = Inr r"
        using m \<open>Option.bind _ (dget PREFIX_BY_KIND) = Some p\<close> Some re by (auto simp: mint_item_def Let_def)
      have iss: "issued t' = issued t" by (simp add: t' issued_def next_of_def fun_eq_iff)
      have "canonical_hash hsh (en_canonical e) = ?ch" using inv h by (auto simp: tenant_inv_def)
      then have "minted hsh (now + ttl) item r t'" by (simp add: minted_def t')
      moreover have "extends t t'" using h iss by (auto simp: extends_def t')
      moreover have "grows (now + ttl) t t'" using h by (auto simp: grows_def t')
      moreover have "tenant_inv hsh t'"
        using inv h iss unfolding tenant_inv_def
        by (auto simp: t' distinct_update split: if_splits)
      ultimately show ?thesis using res by simp
    next
      case False
      let ?t = "t\<lparr>tn_hash := ddel ?ch (tn_hash t)\<rparr>"
      obtain r' where "mint_new ttl now p ?ch item ?t = (r', t')" "res = Inr r'"
        using m \<open>Option.bind _ (dget PREFIX_BY_KIND) = Some p\<close> Some re False
        by (cases "mint_new ttl now p ?ch item ?t") (auto simp: mint_item_def Let_def)
      then have "tenant_inv hsh t' \<and> extends ?t t' \<and> grows (now + ttl) ?t t' \<and> minted hsh (now + ttl) item r' t'"
        using mint_new_all [OF ddel_hash_inv [OF inv] p] by blast
      moreover have "extends t t' = extends ?t t'" "grows (now + ttl) t t' = grows (now + ttl) ?t t'"
        by (simp_all add: extends_def grows_def issued_def next_of_def)
      ultimately show ?thesis using \<open>res = Inr r'\<close> by simp
    qed
  qed
qed

lemma mint_loop_facts:
  assumes "tenant_inv hsh t" "mint_loop hsh ttl now kind idx items t = (res, t')"
  shows "tenant_inv hsh t' \<and> extends t t' \<and> grows (now + ttl) t t' \<and>
    (\<forall>rs. res = Inr rs \<longrightarrow> length rs = length items \<and>
       (\<forall>i < length items. if idx + i < MAX_ITEMS_PER_CALL then minted hsh (now + ttl) (items ! i) (rs ! i) t'
          else rs ! i = ''exhausted''))"
  using assms
proof (induction items arbitrary: idx t res)
  case Nil
  then show ?case by (auto simp: extends_refl grows_refl)
next
  case (Cons item items)
  show ?case
  proof (cases "MAX_ITEMS_PER_CALL \<le> idx")
    case True
    obtain res1 t2 where l2: "mint_loop hsh ttl now kind (Suc idx) items t = (res1, t2)"
      by (cases "mint_loop hsh ttl now kind (Suc idx) items t")
    then have "t2 = t'" using Cons.prems(2) True by (cases res1) simp_all
    then have l: "mint_loop hsh ttl now kind (Suc idx) items t = (res1, t')" using l2 by simp
    note IH = Cons.IH [OF Cons.prems(1) l]
    show ?thesis
    proof (cases res1)
      case (Inl e)
      then show ?thesis using IH Cons.prems(2) True l by auto
    next
      case (Inr rs1)
      then have res: "res = Inr (''exhausted'' # rs1)" using Cons.prems(2) True l by simp
      have "if idx + i < MAX_ITEMS_PER_CALL then minted hsh (now + ttl) ((item # items) ! i) ((''exhausted'' # rs1) ! i) t'
          else (''exhausted'' # rs1) ! i = ''exhausted''" if "i < Suc (length items)" for i
      proof (cases i)
        case 0
        then show ?thesis using True by simp
      next
        case (Suc j)
        then show ?thesis using IH Inr that by simp
      qed
      then show ?thesis using IH Inr res by simp
    qed
  next
    case False
    obtain res0 t1 where i: "mint_item hsh ttl now kind item t = (res0, t1)"
      by (cases "mint_item hsh ttl now kind item t")
    note F = mint_item_facts [OF Cons.prems(1) i]
    show ?thesis
    proof (cases res0)
      case (Inl e)
      then show ?thesis using F Cons.prems(2) False i by auto
    next
      case (Inr r)
      obtain res1 t2 where l2: "mint_loop hsh ttl now kind (Suc idx) items t1 = (res1, t2)"
        by (cases "mint_loop hsh ttl now kind (Suc idx) items t1")
      then have "t2 = t'" using Cons.prems(2) False i Inr by (cases res1) simp_all
      then have l: "mint_loop hsh ttl now kind (Suc idx) items t1 = (res1, t')" using l2 by simp
      have inv1: "tenant_inv hsh t1" using F by blast
      note IH = Cons.IH [OF inv1 l]
      have F1: "extends t t1" "grows (now + ttl) t t1" "minted hsh (now + ttl) item r t1"
        using F Inr by simp_all
      have I1: "extends t1 t'" "grows (now + ttl) t1 t'" using IH by simp_all
      note E = extends_trans [OF F1(1) I1(1)] grows_trans [OF F1(2) I1(2)]
      note m = minted_grows [OF F1(3) I1(2)]
      show ?thesis
      proof (cases res1)
        case 1: (Inl e)
        then have "res = Inl e" using Cons.prems(2) False i l Inr by simp
        then show ?thesis using conjunct1 [OF IH] E by simp
      next
        case 1: (Inr rs1)
        then have res: "res = Inr (r # rs1)" using Cons.prems(2) False i l Inr by simp
        have "if idx + i < MAX_ITEMS_PER_CALL then minted hsh (now + ttl) ((item # items) ! i) ((r # rs1) ! i) t'
          else (r # rs1) ! i = ''exhausted''" if "i < Suc (length items)" for i
        proof (cases i)
          case 0
          then show ?thesis using m False by simp
        next
          case (Suc j)
          then show ?thesis using IH 1 that by simp
        qed
        then show ?thesis using IH E 1 res by simp
      qed
    qed
  qed
qed


section \<open>Whole operations\<close>

definition minter_inv :: "((string \<times> string) list \<Rightarrow> int) \<Rightarrow> minter \<Rightarrow> bool" where
  "minter_inv hsh m \<longleftrightarrow> (\<forall>k t. dget (rm_stores m) k = Some t \<longrightarrow> tenant_inv hsh t)"

lemma empty_inv: "tenant_inv hsh empty_tenant"
  by (simp add: tenant_inv_def empty_tenant_def)

lemma store_inv: "minter_inv hsh m \<Longrightarrow> tenant_inv hsh (get_or_create_store m k)"
  by (auto simp: get_or_create_store_def minter_inv_def empty_inv split: option.splits)

definition mextends :: "minter \<Rightarrow> minter \<Rightarrow> bool" where
  "mextends m m' \<longleftrightarrow> rm_ttl m' = rm_ttl m \<and> (\<forall>k. extends (get_or_create_store m k) (get_or_create_store m' k))"

lemma get_or_create_set:
  "get_or_create_store (m\<lparr>rm_stores := dset k t (rm_stores m)\<rparr>) k' = (if k' = k then t else get_or_create_store m k')"
  by (simp add: get_or_create_store_def)

lemma mint_facts:
  assumes inv: "minter_inv hsh m" and m: "mint hsh now items k kind m = (res, m')"
  shows "minter_inv hsh m'" "mextends m m'"
    "res = Inr rs \<Longrightarrow> length rs = length items \<and>
       (\<forall>i < length items. if i < MAX_ITEMS_PER_CALL
          then minted hsh (now + rm_ttl m) (items ! i) (rs ! i) (get_or_create_store m' k)
          else rs ! i = ''exhausted'')"
    "k' \<noteq> k \<Longrightarrow> dget (rm_stores m') k' = dget (rm_stores m) k'"
proof -
  let ?t = "evict_expired (get_or_create_store m k) now"
  obtain t' where l: "mint_loop hsh (rm_ttl m) now kind 0 items ?t = (res, t')"
    and m': "m' = m\<lparr>rm_stores := dset k t' (rm_stores m)\<rparr>"
    using m by (auto simp: mint_def split: prod.splits)
  have t: "tenant_inv hsh ?t" "extends (get_or_create_store m k) ?t"
    using store_inv [OF inv] by (auto intro: evict_inv evict_extends)
  note F = mint_loop_facts [OF t(1) l]
  show "minter_inv hsh m'" using inv F by (auto simp: minter_inv_def m')
  have "extends (get_or_create_store m k) t'" using t(2) F extends_trans by blast
  then show "mextends m m'"
    by (simp add: mextends_def m' get_or_create_set extends_refl)
  show "res = Inr rs \<Longrightarrow> length rs = length items \<and>
       (\<forall>i < length items. if i < MAX_ITEMS_PER_CALL
          then minted hsh (now + rm_ttl m) (items ! i) (rs ! i) (get_or_create_store m' k)
          else rs ! i = ''exhausted'')"
    using F by (simp add: m' get_or_create_set)
  show "k' \<noteq> k \<Longrightarrow> dget (rm_stores m') k' = dget (rm_stores m) k'"
    by (simp add: m')
qed

lemma resolve_value:
  "minter_inv hsh m \<Longrightarrow> fst (resolve_ref now r k m) =
     (case dget (tn_refs (get_or_create_store m k)) r of None \<Rightarrow> Inl RefError
      | Some e \<Rightarrow> if now < en_expires e then Inr (en_canonical e) else Inl RefError)"
proof (cases "dget (rm_stores m) k")
  case None
  then show ?thesis by (simp add: resolve_ref_def get_or_create_store_def empty_tenant_def)
next
  case (Some t)
  assume "minter_inv hsh m"
  with Some have "tenant_inv hsh t" by (simp add: minter_inv_def)
  with Some show ?thesis
    by (simp add: resolve_ref_def get_or_create_store_def Let_def dget_evict split: option.splits)
qed

lemma resolve_facts:
  assumes "minter_inv hsh m"
  shows "minter_inv hsh (snd (resolve_ref now r k m))" "mextends m (snd (resolve_ref now r k m))"
    "k' \<noteq> k \<Longrightarrow> dget (rm_stores (snd (resolve_ref now r k m))) k' = dget (rm_stores m) k'"
proof -
  consider (none) "snd (resolve_ref now r k m) = m"
    | (some) t where "dget (rm_stores m) k = Some t"
        "snd (resolve_ref now r k m) = m\<lparr>rm_stores := dset k (evict_expired t now) (rm_stores m)\<rparr>"
    by (cases "dget (rm_stores m) k") (auto simp: resolve_ref_def Let_def split: option.splits)
  then have "minter_inv hsh (snd (resolve_ref now r k m)) \<and> mextends m (snd (resolve_ref now r k m)) \<and>
    (k' \<noteq> k \<longrightarrow> dget (rm_stores (snd (resolve_ref now r k m))) k' = dget (rm_stores m) k')"
  proof cases
    case none
    then show ?thesis using assms by (simp add: mextends_def extends_refl)
  next
    case some
    then have t: "tenant_inv hsh t" "get_or_create_store m k = t"
      using assms by (auto simp: minter_inv_def get_or_create_store_def)
    show ?thesis unfolding some(2)
      using assms evict_inv [OF t(1)] evict_extends [OF t(1)] t(2)
      by (auto simp: minter_inv_def mextends_def get_or_create_set extends_refl split: if_splits)
  qed
  then show "minter_inv hsh (snd (resolve_ref now r k m))" "mextends m (snd (resolve_ref now r k m))"
    "k' \<noteq> k \<Longrightarrow> dget (rm_stores (snd (resolve_ref now r k m))) k' = dget (rm_stores m) k'"
    by blast+
qed

lemma mextends_trans: "mextends m m' \<Longrightarrow> mextends m' m'' \<Longrightarrow> mextends m m''"
  unfolding mextends_def using extends_trans by metis

lemma run_facts:
  assumes "minter_run hsh now m now' m'" "minter_inv hsh m"
  shows "minter_inv hsh m' \<and> mextends m m' \<and> now \<le> now'"
  using assms
proof induction
  case (run_refl now m)
  then show ?case by (simp add: mextends_def extends_refl)
next
  case (run_step now m now' m' now'' m'')
  then have IH: "minter_inv hsh m'" "mextends m m'" "now \<le> now'" by blast+
  have "minter_inv hsh m'' \<and> mextends m' m'' \<and> now' \<le> now''"
    using run_step.hyps(2)
  proof cases
    case (step_mint items k kind)
    then show ?thesis using mint_facts(1,2) [OF IH(1)] by (metis surjective_pairing)
  next
    case (step_resolve r k)
    then show ?thesis using resolve_facts(1,2) [OF IH(1)] by simp
  qed
  then show ?case using IH mextends_trans by (meson order_trans)
qed

lemma issued_resolves:
  assumes "minter_inv hsh m" "fst (resolve_ref now r k m) = Inr item"
  shows "issued (get_or_create_store m k) r \<and>
    (\<exists>e. dget (tn_refs (get_or_create_store m k)) r = Some e \<and> en_canonical e = item)"
  using assms store_inv [OF assms(1), of k]
  by (auto simp: resolve_value [OF assms(1)] tenant_inv_def split: option.splits if_splits)


definition new_minter :: "time \<Rightarrow> minter" where
  "new_minter ttl = \<lparr>rm_ttl = ttl, rm_stores = []\<rparr>"

lemma new_minter_inv: "minter_inv hsh (new_minter ttl)"
  by (simp add: minter_inv_def new_minter_def)

lemma reach_inv: "minter_run hsh t0 (new_minter ttl) t1 m \<Longrightarrow> minter_inv hsh m \<and> rm_ttl m = ttl"
  using run_facts [OF _ new_minter_inv] by (auto simp: mextends_def new_minter_def)

text \<open>A live entry stays, with its item, until its time is over: nothing but the clock removes it.\<close>

definition alive :: "time \<Rightarrow> item \<Rightarrow> string \<Rightarrow> tenant \<Rightarrow> bool" where
  "alive until item r t \<longleftrightarrow> (\<exists>e. dget (tn_refs t) r = Some e \<and> until \<le> en_expires e \<and> en_canonical e = item)"

lemma alive_evict: "tenant_inv hsh t \<Longrightarrow> alive u item r t \<Longrightarrow> now < u \<Longrightarrow> alive u item r (evict_expired t now)"
  by (auto simp: alive_def dget_evict)

lemma alive_grows: "alive u item r t \<Longrightarrow> grows u' t t' \<Longrightarrow> u \<le> u' \<Longrightarrow> alive u item r t'"
  unfolding alive_def grows_def by metis

lemma alive_step:
  assumes "minter_step hsh now m now' m'" "minter_inv hsh m" "alive u item r (get_or_create_store m k)"
    "u \<le> now + rm_ttl m" "now' < u"
  shows "alive u item r (get_or_create_store m' k)"
  using assms(1)
proof cases
  case (step_mint items k' kind)
  let ?t = "evict_expired (get_or_create_store m k') now'"
  obtain t' res where l: "mint_loop hsh (rm_ttl m) now' kind 0 items ?t = (res, t')"
    by (cases "mint_loop hsh (rm_ttl m) now' kind 0 items ?t")
  then have m': "m' = m\<lparr>rm_stores := dset k' t' (rm_stores m)\<rparr>"
    using step_mint by (simp add: mint_def)
  have "grows (now' + rm_ttl m) ?t t'"
    using mint_loop_facts [OF evict_inv [OF store_inv [OF assms(2)]] l] by simp
  then have "alive u item r t'" if "k' = k"
    using alive_grows alive_evict [OF store_inv [OF assms(2)] assms(3,5)] assms(4) step_mint(2) that by force
  then show ?thesis using assms(3) by (simp add: m' get_or_create_set)
next
  case (step_resolve r' k')
  show ?thesis
  proof (cases "dget (rm_stores m) k'")
    case None
    then show ?thesis using step_resolve assms(3) by (simp add: resolve_ref_def)
  next
    case (Some t)
    then have "m' = m\<lparr>rm_stores := dset k' (evict_expired t now') (rm_stores m)\<rparr>" "get_or_create_store m k' = t"
      using step_resolve by (simp_all add: resolve_ref_def Let_def get_or_create_store_def split: option.splits)
    then show ?thesis
      using alive_evict [OF store_inv [OF assms(2)] assms(3,5)] assms(3) by (auto simp: get_or_create_set)
  qed
qed

lemma alive_run:
  assumes "minter_run hsh now m now' m'" "minter_inv hsh m" "alive u item r (get_or_create_store m k)"
    "u \<le> now + rm_ttl m" "now' < u"
  shows "alive u item r (get_or_create_store m' k)"
  using assms
proof induction
  case (run_refl now m)
  then show ?case by simp
next
  case (run_step now m now' m' now'' m'')
  have t: "now' \<le> now''" using run_step.hyps(2) by (auto elim: minter_step.cases)
  note R = run_facts [OF run_step.hyps(1) run_step.prems(1)]
  have "alive u item r (get_or_create_store m' k)"
    using run_step.IH run_step.prems t by simp
  moreover have "u \<le> now' + rm_ttl m'" using R run_step.prems(3) by (simp add: mextends_def)
  ultimately show ?case
    using alive_step [OF run_step.hyps(2)] R run_step.prems(4) by blast
qed

section \<open>The contract of the minter\<close>

text \<open>
  C2. References are stable. In any run of the minter (calls to mint and resolve of all
  tenants in any order, with a clock that does not go back), a ref of a tenant that resolved
  to an item never resolves to a different item later: counters are not set back, so an
  expired ref is not handed out again for something else.
\<close>

theorem ref_stable:
  assumes "minter_run hsh t0 (new_minter ttl) t1 m"
    and "fst (resolve_ref now r k m) = Inr item"
    and "minter_run hsh t1 m t2 m'"
    and "fst (resolve_ref now' r k m') = Inr item'"
  shows "item' = item"
proof -
  have inv: "minter_inv hsh m" "minter_inv hsh m'" "mextends m m'"
    using reach_inv [OF assms(1)] run_facts [OF assms(3)] by blast+
  have "extends (get_or_create_store m k) (get_or_create_store m' k)" using inv(3) by (simp add: mextends_def)
  moreover note issued_resolves [OF inv(1) assms(2)] issued_resolves [OF inv(2) assms(4)]
  ultimately show ?thesis unfolding extends_def by fastforce
qed

definition ex_item :: item where
  "ex_item = [(''field_name'', PStr ''name''), (''model'', PStr ''res.partner'')]"

definition ex_hash :: "(string \<times> string) list \<Rightarrow> int" where
  "ex_hash ps = int (length (concat (map (\<lambda>(k, v). k @ v) ps)))"

definition ex_minted :: minter where
  "ex_minted = snd (mint ex_hash 1 [ex_item] ''alice'' ''auto'' (new_minter 10))"

lemma ex_run: "minter_run ex_hash 0 (new_minter 10) 1 ex_minted"
  unfolding ex_minted_def by (rule run_step [OF run_refl step_mint]) simp

lemma ex_minted_value:
  "fst (mint ex_hash 1 [ex_item] ''alice'' ''auto'' (new_minter 10)) = Inr [''f1'']"
  "fst (resolve_ref 3 ''f1'' ''alice'' ex_minted) = Inr ex_item"
  "fst (resolve_ref 4 ''f1'' ''alice'' ex_minted) = Inr ex_item"
  "fst (resolve_ref 12 ''f1'' ''alice'' ex_minted) = Inl RefError"
  by code_simp+

definition ex_later :: minter where
  "ex_later = snd (mint ex_hash 2 [[(''field_name'', PStr ''city'')], ex_item] ''alice'' ''auto'' ex_minted)"

theorem ref_stable_witness:
  "\<exists>item. fst (resolve_ref 4 ''f1'' ''alice'' ex_later) = Inr item \<and> item = ex_item \<and>
     fst (mint ex_hash 2 [[(''field_name'', PStr ''city'')], ex_item] ''alice'' ''auto'' ex_minted) = Inr [''f2'', ''f1'']"
proof -
  have run: "minter_run ex_hash 1 ex_minted 2 ex_later"
    unfolding ex_later_def by (rule run_step [OF run_refl step_mint]) simp
  have "map_option (\<lambda>x. True) (case fst (resolve_ref 4 ''f1'' ''alice'' ex_later) of Inr i \<Rightarrow> Some i | Inl _ \<Rightarrow> None) = Some True"
    by code_simp
  then obtain item where "fst (resolve_ref 4 ''f1'' ''alice'' ex_later) = Inr item" by (auto split: sum.splits)
  moreover from this have "item = ex_item" by (rule ref_stable [OF ex_run ex_minted_value(2) run])
  moreover have "fst (mint ex_hash 2 [[(''field_name'', PStr ''city'')], ex_item] ''alice'' ''auto'' ex_minted) = Inr [''f2'', ''f1'']"
    by code_simp
  ultimately show ?thesis by blast
qed

text \<open>
  What an item says: its keys with the text of their values, as one dict compares with another
  whatever the order of its keys. The items a tenant's entries hold.
\<close>

definition texts :: "item \<Rightarrow> (string \<times> string) list" where
  "texts item = sort (map (\<lambda>(key, v). (key, py_str v)) item)"

definition held :: "tenant \<Rightarrow> item set" where
  "held t = en_canonical ` snd ` set (tn_refs t)"

lemma held_evict: "held (evict_expired t now) \<subseteq> held t"
  by (auto simp: held_def evict_expired_def Let_def image_iff)

lemma held_dset: "held (t\<lparr>tn_refs := dset r e (tn_refs t)\<rparr>) \<subseteq> insert (en_canonical e) (held t)"
proof -
  have "snd ` set (dset r e d) \<subseteq> insert e (snd ` set d)" for d :: "(string, entry) pydict" by (induction d) auto
  from image_mono [OF this [of "tn_refs t"], of en_canonical] show ?thesis by (simp add: held_def)
qed

lemma held_mint_new:
  assumes "mint_new ttl now p ch item t = (r, t')"
  shows "held t' \<subseteq> insert item (held t)"
proof -
  let ?e = "\<lparr>en_canonical = item, en_expires = now + ttl\<rparr>"
  have "tn_refs t' = tn_refs (t\<lparr>tn_refs := dset r ?e (tn_refs t)\<rparr>)"
    using assms by (auto simp: mint_new_def Let_def)
  then have "held t' = held (t\<lparr>tn_refs := dset r ?e (tn_refs t)\<rparr>)" unfolding held_def by (rule arg_cong)
  then show ?thesis using held_dset [where t = t and r = r and e = ?e] by simp
qed

lemma held_mint_item:
  assumes "mint_item hsh ttl now kind item t = (res, t')"
  shows "held t' \<subseteq> insert item (held t)"
proof -
  have same: "held (t\<lparr>tn_hash := h\<rparr>) = held t" for h by (simp add: held_def)
  have old: "held (t\<lparr>tn_refs := dset r (e\<lparr>en_expires := u\<rparr>) (tn_refs t)\<rparr>) \<subseteq> insert item (held t)"
    if "dget (tn_refs t) r = Some e" for r e u
  proof -
    have "e \<in> snd ` set (tn_refs t)" using map_of_SomeD [OF that] by force
    then have "en_canonical e \<in> held t" by (simp add: held_def)
    then show ?thesis using held_dset [where t = t and r = r and e = "e\<lparr>en_expires := u\<rparr>"] by auto
  qed
  have new: "held (snd (mint_new ttl now p ch item u)) \<subseteq> insert item (held u)" for p ch u
    by (rule held_mint_new [OF prod.collapse [symmetric]])
  have new': "held (snd (mint_new ttl now p ch item (t\<lparr>tn_hash := h\<rparr>))) \<subseteq> insert item (held t)" for p ch h
    using new [of p ch "t\<lparr>tn_hash := h\<rparr>"] by (simp add: same)
  have "held (snd (mint_item hsh ttl now kind item t)) \<subseteq> insert item (held t)"
    unfolding mint_item_def Let_def
    by (auto simp del: insert_iff split: option.splits if_splits bind_splits simp: bind_eq_Some_conv
        intro: subset_insertI dest: subsetD [OF new] subsetD [OF new'] subsetD [OF old])
  then show ?thesis using assms by simp
qed

lemma held_mint_loop:
  "mint_loop hsh ttl now kind idx items t = (res, t') \<Longrightarrow> held t' \<subseteq> held t \<union> set items"
proof (induction items arbitrary: idx t res t')
  case (Cons item items)
  show ?case
  proof (cases "MAX_ITEMS_PER_CALL \<le> idx")
    case True
    then show ?thesis using Cons.prems Cons.IH [of "Suc idx" t] by (auto split: prod.splits sum.splits)
  next
    case False
    obtain r u where u: "mint_item hsh ttl now kind item t = (r, u)" by fastforce
    note h = held_mint_item [OF u]
    show ?thesis
    proof (cases r)
      case (Inl e)
      then show ?thesis using Cons.prems False u h by auto
    next
      case (Inr x)
      obtain r' u' where u': "mint_loop hsh ttl now kind (Suc idx) items u = (r', u')" by fastforce
      have "t' = u'" using Cons.prems False u u' Inr by (simp split: sum.splits)
      then show ?thesis using Cons.IH [OF u'] h by auto
    qed
  qed
qed simp

lemma held_mint:
  assumes "mint hsh now items k kind m = (res, m')"
  shows "held (get_or_create_store m' k) \<subseteq> held (get_or_create_store m k) \<union> set items"
proof -
  obtain t' where l: "mint_loop hsh (rm_ttl m) now kind 0 items (evict_expired (get_or_create_store m k) now) = (res, t')"
    and m': "m' = m\<lparr>rm_stores := dset k t' (rm_stores m)\<rparr>"
    using assms by (auto simp: mint_def split: prod.splits)
  then show ?thesis using held_mint_loop [OF l] held_evict [of "get_or_create_store m k" now]
    by (auto simp: m' get_or_create_set)
qed

text \<open>
  C14. Minting then resolving. A call to mint returns one string per item; in the state it
  leaves and in every state reached from it before the time to live is over, the ref of each
  of the first thousand items resolves, always to the same item: one of this call or one the
  tenant already held, with the content hash of the minted one. Where Python's hash tells apart
  the contents of the items at hand, the item has the keys of the minted one and the same text
  for each value. The items past the thousandth get the sentinel.
\<close>

theorem mint_resolve:
  assumes run: "minter_run hsh t0 (new_minter ttl) t1 m"
    and m: "mint hsh now items k kind m = (Inr rs, m')"
    and i: "i < length items"
  shows "length rs = length items \<and>
    (if i < MAX_ITEMS_PER_CALL
     then \<exists>item \<in> held (get_or_create_store m k) \<union> set items.
       canonical_hash hsh item = canonical_hash hsh (items ! i) \<and>
       (inj_on hsh (texts ` (held (get_or_create_store m k) \<union> set items)) \<longrightarrow> texts item = texts (items ! i)) \<and>
       (\<forall>t2 m'' now2. minter_run hsh now m' t2 m'' \<longrightarrow> t2 < now + ttl \<longrightarrow> now2 < now + ttl \<longrightarrow>
          fst (resolve_ref now2 (rs ! i) k m'') = Inr item)
     else rs ! i = ''exhausted'')"
proof -
  have inv: "minter_inv hsh m" "rm_ttl m = ttl" using reach_inv [OF run] by auto
  note F = mint_facts [OF inv(1) m]
  have ttl: "rm_ttl m' = ttl" using F(2) inv(2) by (simp add: mextends_def)
  note L = F(3) [OF refl, unfolded inv(2)]
  let ?U = "held (get_or_create_store m k) \<union> set items"
  have "\<exists>item \<in> ?U. canonical_hash hsh item = canonical_hash hsh (items ! i) \<and>
       (inj_on hsh (texts ` ?U) \<longrightarrow> texts item = texts (items ! i)) \<and>
       (\<forall>t2 m'' now2. minter_run hsh now m' t2 m'' \<longrightarrow> t2 < now + ttl \<longrightarrow> now2 < now + ttl \<longrightarrow>
          fst (resolve_ref now2 (rs ! i) k m'') = Inr item)"
    if lt: "i < MAX_ITEMS_PER_CALL"
  proof -
    have "minted hsh (now + ttl) (items ! i) (rs ! i) (get_or_create_store m' k)" using L i lt by auto
    then obtain item where a: "alive (now + ttl) item (rs ! i) (get_or_create_store m' k)"
      and h: "canonical_hash hsh item = canonical_hash hsh (items ! i)"
      by (auto simp: minted_def alive_def)
    have "item \<in> held (get_or_create_store m' k)"
      using a map_of_SomeD [of "tn_refs (get_or_create_store m' k)" "rs ! i"] by (force simp: alive_def held_def)
    then have mem: "item \<in> ?U" using held_mint [OF m] by blast
    have "texts item = texts (items ! i)" if "inj_on hsh (texts ` ?U)"
      using inj_onD [OF that, of "texts item" "texts (items ! i)"] h mem nth_mem [OF i]
      by (auto simp: canonical_hash_def texts_def)
    moreover have "fst (resolve_ref now2 (rs ! i) k m'') = Inr item"
      if r: "minter_run hsh now m' t2 m''" "t2 < now + ttl" "now2 < now + ttl" for t2 m'' now2
    proof -
      have "alive (now + ttl) item (rs ! i) (get_or_create_store m'' k)"
        using alive_run [OF r(1) F(1) a _ r(2)] ttl by simp
      moreover have "minter_inv hsh m''" using run_facts [OF r(1) F(1)] by blast
      ultimately show ?thesis using r(3) by (auto simp: resolve_value alive_def)
    qed
    ultimately show ?thesis using h mem by blast
  qed
  then show ?thesis using L i by auto
qed

theorem mint_resolve_witness:
  "\<exists>item. texts item = texts ex_item \<and> fst (resolve_ref 5 ''f1'' ''alice'' ex_later) = Inr item \<and>
     fst (resolve_ref 11 ''f1'' ''alice'' ex_later) = Inr item"
proof -
  let ?items = "[[(''field_name'', PStr ''city'')], ex_item]"
  have m: "mint ex_hash 2 ?items ''alice'' ''auto'' ex_minted = (Inr [''f2'', ''f1''], ex_later)"
    unfolding ex_later_def by (intro prod_eqI, simp_all, code_simp)
  have u: "texts ` (held (get_or_create_store ex_minted ''alice'') \<union> set ?items) = set (map texts ?items)"
    by code_simp
  have "inj_on ex_hash (set (map texts ?items))" by code_simp
  then show ?thesis
    using mint_resolve [OF ex_run m, of 1] run_refl [of ex_hash 2 ex_later] unfolding u by (auto simp: MAX_ITEMS_PER_CALL_def)
qed

text \<open>
  Tenants are isolated: whatever one tenant mints or resolves, every other tenant's refs
  resolve as before.
\<close>

theorem tenants_isolated:
  assumes "k' \<noteq> k"
  shows "fst (resolve_ref now' r' k' (snd (mint hsh now items k kind m))) = fst (resolve_ref now' r' k' m) \<and>
    fst (resolve_ref now' r' k' (snd (resolve_ref now r k m))) = fst (resolve_ref now' r' k' m)"
proof -
  have "dget (rm_stores (snd (mint hsh now items k kind m))) k' = dget (rm_stores m) k'"
    using assms by (simp add: mint_def split: prod.split)
  moreover have "dget (rm_stores (snd (resolve_ref now r k m))) k' = dget (rm_stores m) k'"
    using assms by (simp add: resolve_ref_def Let_def split: option.split)
  ultimately show ?thesis by (simp add: resolve_ref_def Let_def split: option.split)
qed

theorem tenants_isolated_witness:
  "fst (resolve_ref 3 ''f1'' ''bob'' (snd (mint ex_hash 2 [ex_item] ''alice'' ''field'' ex_minted))) = Inl RefError"
proof -
  have "fst (resolve_ref 3 ''f1'' ''bob'' ex_minted) = Inl RefError" by code_simp
  then show ?thesis using tenants_isolated [of "''bob''" "''alice''" 3 "''f1''" ex_hash 2] by simp
qed

text \<open>
  A dead ref stays dead: once a ref that used to resolve is refused (its time is over),
  it is refused in every later state. Minting the same item again gives a new ref and does not
  bring the old one back.
\<close>

theorem dead_ref:
  assumes "minter_run hsh t0 (new_minter ttl) t1 m"
    and "fst (resolve_ref now r k m) = Inr item"
    and "minter_run hsh t1 m t2 m1"
    and "fst (resolve_ref now1 r k m1) = Inl RefError"
    and "minter_run hsh now1 (snd (resolve_ref now1 r k m1)) t3 m2"
  shows "fst (resolve_ref now2 r k m2) = Inl RefError"
proof -
  have inv: "minter_inv hsh m" "minter_inv hsh m1" "mextends m m1"
    using reach_inv [OF assms(1)] run_facts [OF assms(3)] by blast+
  let ?m = "snd (resolve_ref now1 r k m1)"
  note R = resolve_facts [OF inv(2), where now = now1 and r = r and k = k]
  have ext: "mextends m ?m" by (rule mextends_trans [OF inv(3) R(2)])
  have iss: "issued (get_or_create_store ?m k) r"
    using issued_resolves [OF inv(1) assms(2)] ext by (auto simp: mextends_def extends_def)
  have gone: "dget (tn_refs (get_or_create_store ?m k)) r = None"
    using assms(4) by (auto simp: resolve_ref_def Let_def get_or_create_store_def empty_tenant_def split: option.splits)
  have inv2: "minter_inv hsh m2" "mextends ?m m2" using run_facts [OF assms(5) R(1)] by blast+
  then have "extends (get_or_create_store ?m k) (get_or_create_store m2 k)" by (simp add: mextends_def)
  then have "dget (tn_refs (get_or_create_store m2 k)) r = None"
    using iss gone unfolding extends_def by (metis option.distinct(1) option.exhaust)
  then show ?thesis using resolve_value [OF inv2(1)] by simp
qed

theorem dead_ref_witness:
  "fst (resolve_ref 14 ''f1'' ''alice''
     (snd (mint ex_hash 13 [ex_item] ''alice'' ''auto'' (snd (resolve_ref 12 ''f1'' ''alice'' ex_minted))))) = Inl RefError"
  by (rule dead_ref [OF ex_run ex_minted_value(2) run_refl ex_minted_value(4) run_step [OF run_refl step_mint]]) simp

end
