(* ===== verification/Resolver.thy ===== *)
theory Resolver
  imports PyText "HOL-Library.Char_ord" "HOL-Library.List_Lexorder" "HOL-Library.Multiset"
begin

text \<open>
  The order in which modules are indexed: \<open>topological_sort\<close> of \<open>src/indexer/resolver.py\<close>,
  Kahn's algorithm over a dict of modules. The loop state is the in-degree dict, the queue and
  the result; the dependents dict does not change in the loop.
\<close>

record module_info =
  mi_name :: string
  mi_odoo_version :: string
  mi_repo :: string
  mi_path :: string
  mi_depends :: "string list"
  mi_version_raw :: string
  mi_edition :: string
  mi_viindoo_equivalent_qname :: "string option"
  mi_commit_sha :: "string option"

type_synonym modules = "(string, module_info) pydict"
type_synonym degrees = "(string, int) pydict"
type_synonym dependents = "(string, string list) pydict"

section \<open>The algorithm\<close>

definition bump :: "int \<Rightarrow> string \<Rightarrow> degrees \<Rightarrow> degrees" where
  "bump k n deg = (case dget deg n of None \<Rightarrow> deg | Some d \<Rightarrow> dset n (d + k) deg)"

text \<open>The two dicts built from the dependencies that are modules themselves.\<close>

definition edges :: "modules \<Rightarrow> (string \<times> string) list" where
  "edges modules = concat (map (\<lambda>(name, info).
     map (\<lambda>dep. (dep, name)) (filter (\<lambda>dep. dget modules dep \<noteq> None) (mi_depends info))) modules)"

definition in_degree0 :: "modules \<Rightarrow> degrees" where
  "in_degree0 modules = fold (\<lambda>(dep, name). bump 1 name) (edges modules) (map (\<lambda>(name, _). (name, 0)) modules)"

definition dependents0 :: "modules \<Rightarrow> dependents" where
  "dependents0 modules =
     fold (\<lambda>(dep, name) ds. case dget ds dep of None \<Rightarrow> ds | Some l \<Rightarrow> dset dep (l @ [name]) ds)
       (edges modules) (map (\<lambda>(name, _). (name, [])) modules)"

text \<open>The inner loop: every dependent loses one, and is queued when it has none left.\<close>

fun relax :: "string list \<Rightarrow> degrees \<Rightarrow> string list \<Rightarrow> degrees \<times> string list" where
  "relax [] deg queue = (deg, queue)"
| "relax (d # ds) deg queue =
     (let deg = bump (- 1) d deg
      in relax ds deg (if dget deg d = Some 0 then queue @ [d] else queue))"

definition positive :: "degrees \<Rightarrow> nat" where
  "positive deg = length (filter (\<lambda>(_, k). 0 < k) deg)"

lemma positive_bump:
  "positive (bump (- 1) d deg) + (if dget (bump (- 1) d deg) d = Some 0 then 1 else 0) \<le> positive deg"
proof (induction deg)
  case Nil
  then show ?case by (simp add: bump_def positive_def)
next
  case (Cons x deg)
  then show ?case
    by (cases x) (auto simp: bump_def positive_def split: option.splits if_splits)
qed

lemma relax_measure: "relax ds deg queue = (deg', queue') \<Longrightarrow>
    positive deg' + length queue' \<le> positive deg + length queue"
proof (induction ds arbitrary: deg queue)
  case Nil
  then show ?case by simp
next
  case (Cons d ds)
  let ?deg = "bump (- 1) d deg"
  let ?q = "if dget ?deg d = Some 0 then queue @ [d] else queue"
  have "positive deg' + length queue' \<le> positive ?deg + length ?q"
    using Cons by (simp add: Let_def)
  moreover have "positive ?deg + length ?q \<le> positive deg + length queue"
    using positive_bump [of d deg] by (auto split: if_splits)
  ultimately show ?case by linarith
qed

function kahn :: "dependents \<Rightarrow> degrees \<Rightarrow> string list \<Rightarrow> string list \<Rightarrow> string list" where
  "kahn deps deg [] result = result"
| "kahn deps deg (node # queue) result =
     (let (deg', queue') = relax (sort (case dget deps node of None \<Rightarrow> [] | Some l \<Rightarrow> l)) deg queue
      in kahn deps deg' queue' (result @ [node]))"
  by pat_completeness auto
termination
proof (relation "measure (\<lambda>(deps, deg, queue, result). positive deg + length queue)", goal_cases)
  case 1
  then show ?case by simp
next
  case (2 deps deg node queue result x deg' queue')
  then show ?case using relax_measure [of _ deg queue deg' queue'] by (metis (no_types, lifting) case_prod_conv in_measure length_Cons add_Suc_right le_imp_less_Suc)
qed

definition topological_sort :: "modules \<Rightarrow> string list" where
  "topological_sort modules =
     (if modules = [] then []
      else
        let deg = in_degree0 modules;
            queue = sort (map fst (filter (\<lambda>(name, d). d = 0) deg));
            result = kahn (dependents0 modules) deg queue []
        in if length result < length modules
           then result @ sort (filter (\<lambda>name. name \<notin> set result) (dkeys modules))
           else result)"

section \<open>The loop of Kahn's algorithm\<close>

definition deps_in :: "modules \<Rightarrow> string \<Rightarrow> string list" where
  "deps_in modules n = (case dget modules n of None \<Rightarrow> []
     | Some info \<Rightarrow> filter (\<lambda>d. d \<in> set (dkeys modules)) (mi_depends info))"

lemma dget_bump: "dget (bump k a deg) n = (if n = a then map_option (\<lambda>d. d + k) (dget deg n) else dget deg n)"
  by (auto simp: bump_def split: option.splits)

lemma dget_fold_bump:
  "dget (fold (\<lambda>(dep, name). bump 1 name) es deg) n =
     map_option (\<lambda>d. d + int (count_list (map snd es) n)) (dget deg n)"
  by (induction es arbitrary: deg) (auto simp: dget_bump option.map_comp o_def option.map_ident add.assoc split: prod.splits)

lemma dget_fold_snoc:
  "dget (fold (\<lambda>(dep, name) ds. case dget ds dep of None \<Rightarrow> ds | Some l \<Rightarrow> dset dep (l @ [name]) ds) es ds) n =
     map_option (\<lambda>l. l @ map snd (filter (\<lambda>e. fst e = n) es)) (dget ds n)"
  by (induction es arbitrary: ds) (auto split: option.splits simp: option.map_ident)

lemma keys_iff: "dget m n \<noteq> None \<longleftrightarrow> n \<in> set (dkeys m)"
  by (metis map_of_eq_None_iff list.set_map)

lemma edges_iff:
  assumes "distinct (dkeys modules)"
  shows "(d, n) \<in> set (edges modules) \<longleftrightarrow> n \<in> set (dkeys modules) \<and> d \<in> set (deps_in modules n)"
proof -
  have "(d, n) \<in> set (edges modules) \<longleftrightarrow>
      (\<exists>info. (n, info) \<in> set modules \<and> d \<in> set (mi_depends info) \<and> d \<in> set (dkeys modules))"
    unfolding edges_def keys_iff by (force simp: image_iff)
  also have "\<dots> \<longleftrightarrow> (\<exists>info. dget modules n = Some info \<and> d \<in> set (mi_depends info) \<and> d \<in> set (dkeys modules))"
    using assms by simp
  also have "\<dots> \<longleftrightarrow> n \<in> set (dkeys modules) \<and> d \<in> set (deps_in modules n)"
  proof (cases "dget modules n")
    case None
    then show ?thesis by (simp add: deps_in_def)
  next
    case (Some info)
    then have "n \<in> set (dkeys modules)" using keys_iff [of modules n] by simp
    then show ?thesis using Some by (simp add: deps_in_def)
  qed
  finally show ?thesis .
qed

lemma count_edges:
  assumes "distinct (dkeys modules)"
  shows "count_list (map snd (filter (\<lambda>e. P (fst e)) (edges modules))) n = length (filter P (deps_in modules n))"
proof -
  have "count_list (map snd (filter (\<lambda>e. P (fst e)) (concat (map (\<lambda>(name, info).
     map (\<lambda>dep. (dep, name)) (filter Q (mi_depends info))) ms)))) n
     = (case dget ms n of None \<Rightarrow> 0 | Some info \<Rightarrow> length (filter P (filter Q (mi_depends info))))"
    if "distinct (dkeys ms)" for ms :: modules and Q
    using that
  proof (induction ms)
    case Nil
    then show ?case by simp
  next
    case (Cons x ms)
    obtain a info where x: "x = (a, info)" by (cases x)
    have c: "count_list (map snd (filter (\<lambda>e. P (fst e)) (map (\<lambda>dep. (dep, a)) xs))) n
        = (if a = n then length (filter P xs) else 0)" for xs
      by (induction xs) auto
    have "dget ms a = None" using Cons.prems x by (simp add: map_of_eq_None_iff)
    then show ?case using Cons by (auto simp: x c)
  qed
  from this [OF assms] show ?thesis
    unfolding edges_def deps_in_def keys_iff by (simp split: option.split del: filter_filter)
qed

lemma relax_deg: "dget (fst (relax ds deg q)) n = map_option (\<lambda>k. k - int (count_list ds n)) (dget deg n)"
  by (induction ds arbitrary: deg q) (auto simp: Let_def dget_bump option.map_comp o_def option.map_ident diff_diff_eq)

lemma relax_queue:
  assumes "\<And>n. n \<in> set ds \<Longrightarrow> \<exists>k. dget deg n = Some k \<and> int (count_list ds n) \<le> k"
  shows "\<exists>new. snd (relax ds deg q) = q @ new \<and> distinct new \<and>
    set new = {n \<in> set ds. dget deg n = Some (int (count_list ds n))}"
  using assms
proof (induction ds arbitrary: deg q)
  case Nil
  then show ?case by simp
next
  case (Cons d ds)
  let ?deg = "bump (- 1) d deg"
  let ?hit = "dget ?deg d = Some 0"
  have pre: "\<exists>k. dget ?deg n = Some k \<and> int (count_list ds n) \<le> k" if "n \<in> set ds" for n
    using Cons.prems [of n] that by (auto simp: dget_bump split: if_splits)
  obtain new where new: "snd (relax ds ?deg (if ?hit then q @ [d] else q)) = (if ?hit then q @ [d] else q) @ new"
    "distinct new" "set new = {n \<in> set ds. dget ?deg n = Some (int (count_list ds n))}"
    using Cons.IH [OF pre] by blast
  have cd: "count_list ds n = 0 \<longleftrightarrow> n \<notin> set ds" for n by (simp add: count_list_0_iff)
  have hit: "?hit \<Longrightarrow> d \<notin> set ds"
  proof
    assume "?hit" "d \<in> set ds"
    then have "int (count_list ds d) \<le> 0" using pre [of d] by simp
    then show False using \<open>d \<in> set ds\<close> cd by simp
  qed
  have "set ((if ?hit then [d] else []) @ new) = {n \<in> set (d # ds). dget deg n = Some (int (count_list (d # ds) n))}"
    using hit cd Cons.prems [of d] by (auto simp: new(3) dget_bump split: if_splits)
  moreover have "distinct ((if ?hit then [d] else []) @ new)"
    using new(2,3) hit by simp
  moreover have "snd (relax (d # ds) deg q) = q @ (if ?hit then [d] else []) @ new"
    using new(1) by (simp add: Let_def)
  ultimately show ?case by blast
qed

text \<open>
  The invariant of the outer loop: the result and the queue hold each module at most once, a
  module's degree counts its dependencies that are not in the result, the modules in the
  result or the queue are those with degree zero, and the result is ordered.
\<close>

definition deps_first :: "(string \<Rightarrow> string list) \<Rightarrow> string list \<Rightarrow> bool" where
  "deps_first deps xs \<longleftrightarrow> (\<forall>i < length xs. set (deps (xs ! i)) \<subseteq> set (take i xs))"

lemma deps_first_snoc: "deps_first deps (xs @ [x]) \<longleftrightarrow> deps_first deps xs \<and> set (deps x) \<subseteq> set xs"
  by (auto simp: deps_first_def nth_append less_Suc_eq)

definition kahn_inv :: "modules \<Rightarrow> degrees \<Rightarrow> string list \<Rightarrow> string list \<Rightarrow> bool" where
  "kahn_inv modules deg queue result \<longleftrightarrow> distinct (result @ queue) \<and>
     (\<forall>n. dget deg n = (if n \<in> set (dkeys modules)
        then Some (int (length (filter (\<lambda>d. d \<notin> set result) (deps_in modules n)))) else None)) \<and>
     set (result @ queue) = {n \<in> set (dkeys modules). set (deps_in modules n) \<subseteq> set result} \<and>
     deps_first (deps_in modules) result"

lemma length_filter_insert:
  "a \<notin> R \<Longrightarrow> length (filter (\<lambda>d. d \<notin> R) xs) = count_list xs a + length (filter (\<lambda>d. d \<notin> insert a R) xs)"
  by (induction xs) auto

lemma z_node: "n \<in> set (dkeys m) \<Longrightarrow> dget (map (\<lambda>(name, _). (name, c)) m) n = Some c"
  by (induction m) auto

lemma dkeys_const: "dkeys (map (\<lambda>(name, _). (name, c)) m) = dkeys m"
  by (induction m) auto

lemma kahn_step:
  assumes dist: "distinct (dkeys modules)" and inv: "kahn_inv modules deg (node # queue) result"
    and r: "relax (sort (case dget (dependents0 modules) node of None \<Rightarrow> [] | Some l \<Rightarrow> l)) deg queue = (deg', queue')"
  shows "kahn_inv modules deg' queue' (result @ [node])"
proof -
  let ?K = "set (dkeys modules)" and ?dn = "deps_in modules"
  define l where "l = map snd (filter (\<lambda>e. fst e = node) (edges modules))"
  have I: "distinct (result @ node # queue)"
    "\<And>n. dget deg n = (if n \<in> ?K then Some (int (length (filter (\<lambda>d. d \<notin> set result) (?dn n)))) else None)"
    "set (result @ node # queue) = {n \<in> ?K. set (?dn n) \<subseteq> set result}" "deps_first ?dn result"
    using inv by (simp_all add: kahn_inv_def)
  have node: "node \<in> ?K" "set (?dn node) \<subseteq> set result" "node \<notin> set result"
    using I(1,3) by auto
  have "dget (map (\<lambda>(name, _). (name, [])) modules) node = Some ([] :: string list)"
    using z_node [OF node(1)] .
  then have "(case dget (dependents0 modules) node of None \<Rightarrow> [] | Some l \<Rightarrow> l) = l"
    by (simp add: dependents0_def dget_fold_snoc l_def)
  then have r: "relax (sort l) deg queue = (deg', queue')" using r by simp
  have cnt: "count_list (sort l) n = count_list (?dn n) node" for n
  proof -
    have "count_list (sort l) n = count_list l n"
      by (simp add: count_mset [symmetric])
    also have "\<dots> = length (filter (\<lambda>d. d = node) (?dn n))"
      unfolding l_def by (rule count_edges [OF dist])
    also have "\<dots> = count_list (?dn n) node"
      by (induction "?dn n") (auto simp: count_list_eq_length_filter intro!: arg_cong [where f = length] filter_cong)
    finally show ?thesis .
  qed
  have inl: "n \<in> set (sort l) \<longleftrightarrow> node \<in> set (?dn n)" for n
    using cnt [of n] by (metis count_list_0_iff)
  have lK: "n \<in> ?K" if "node \<in> set (?dn n)" for n
    using that keys_iff [of modules n] by (auto simp: deps_in_def split: option.splits)
  have split: "length (filter (\<lambda>d. d \<notin> set result) (?dn n))
      = count_list (?dn n) node + length (filter (\<lambda>d. d \<notin> insert node (set result)) (?dn n))" for n
    by (rule length_filter_insert [OF node(3)])
  have deg': "dget deg' n = (if n \<in> ?K
        then Some (int (length (filter (\<lambda>d. d \<notin> set (result @ [node])) (?dn n)))) else None)" for n
    using relax_deg [of "sort l" deg queue n] r split [of n] by (simp add: I(2) cnt)
  have "\<exists>k. dget deg n = Some k \<and> int (count_list (sort l) n) \<le> k" if "n \<in> set (sort l)" for n
    using that inl lK I(2) cnt split by simp
  from relax_queue [OF this, of queue] r obtain new where new: "queue' = queue @ new" "distinct new"
    "set new = {n \<in> set (sort l). dget deg n = Some (int (count_list (sort l) n))}"
    by auto
  have set_new: "set new = {n \<in> ?K. node \<in> set (?dn n) \<and> set (?dn n) \<subseteq> insert node (set result)}"
    unfolding new(3) inl using lK I(2) cnt split
    by (auto simp: filter_empty_conv)
  have "distinct ((result @ [node]) @ queue')"
    using I(1,3) new(1,2) set_new node(3) by auto
  moreover have "set ((result @ [node]) @ queue') = {n \<in> ?K. set (?dn n) \<subseteq> set (result @ [node])}"
  proof -
    have "set ((result @ [node]) @ queue') = set (result @ node # queue) \<union> set new" by (simp add: new(1) Un_assoc)
    also have "\<dots> = {n \<in> ?K. set (?dn n) \<subseteq> set (result @ [node])}"
      unfolding I(3) set_new by auto
    finally show ?thesis .
  qed
  ultimately show ?thesis using deg' I(4) node(2) by (simp add: kahn_inv_def deps_first_snoc)
qed

lemma kahn_correct:
  assumes "distinct (dkeys modules)" "kahn_inv modules deg queue result"
  shows "\<exists>deg'. kahn_inv modules deg' [] (kahn (dependents0 modules) deg queue result)"
  using assms
proof (induction "dependents0 modules" deg queue result rule: kahn.induct)
  case (1 deg result)
  then show ?case by auto
next
  case (2 deg node queue result)
  obtain deg' queue' where r: "relax (sort (case dget (dependents0 modules) node of None \<Rightarrow> [] | Some l \<Rightarrow> l)) deg queue = (deg', queue')"
    by fastforce
  show ?case using 2(1) [OF r [symmetric] refl assms(1) kahn_step [OF 2(2,3) r]] r by simp
qed

lemma kahn_start:
  assumes "distinct (dkeys modules)"
  shows "kahn_inv modules (in_degree0 modules) (sort (map fst (filter (\<lambda>(name, d). d = 0) (in_degree0 modules)))) []"
proof -
  let ?z = "map (\<lambda>(name, _). (name, 0 :: int)) modules"
  have z: "dget ?z n = (if n \<in> set (dkeys modules) then Some 0 else None)" for n
    using keys_iff [of modules n] by (auto simp: map_of_map split: option.splits)
  have cnt: "count_list (map snd (edges modules)) n = length (deps_in modules n)" for n
    using count_edges [OF assms, of "\<lambda>_. True" n] by simp
  have deg: "dget (in_degree0 modules) n = (if n \<in> set (dkeys modules) then Some (int (length (deps_in modules n))) else None)" for n
    by (simp add: in_degree0_def dget_fold_bump z cnt)
  have d: "distinct (dkeys (in_degree0 modules))"
  proof -
    have "distinct (dkeys (fold (\<lambda>(dep, name). bump 1 name) es deg))" if "distinct (dkeys deg)" for es deg
      using that by (induction es arbitrary: deg) (auto simp: bump_def distinct_update split: option.splits)
    from this [of ?z "edges modules"] show ?thesis
      unfolding in_degree0_def dkeys_const using assms by blast
  qed
  have q: "set (map fst (filter (\<lambda>(name, d). d = 0) (in_degree0 modules))) = {n. dget (in_degree0 modules) n = Some 0}"
    using d by force
  have "distinct (map fst (filter (\<lambda>(name, d). d = 0) (in_degree0 modules)))"
    using d by (rule distinct_map_filter)
  then show ?thesis using q deg by (auto simp: kahn_inv_def deps_first_def)
qed

section \<open>What the sort returns\<close>

lemma in_cycle_free:
  assumes "deps_first (deps_in modules) r" "distinct (dkeys modules)" "i < length r"
  shows "r ! i \<in> Wellfounded.acc (set (edges modules))"
  using assms(3)
proof (induction i rule: less_induct)
  case (less i)
  show ?case
  proof (rule acc.accI)
    fix d assume "(d, r ! i) \<in> set (edges modules)"
    then have "d \<in> set (take i r)" using assms less.prems edges_iff by (auto simp: deps_first_def)
    then obtain j where "j < i" "d = r ! j" using less.prems by (auto simp: in_set_conv_nth)
    then show "d \<in> Wellfounded.acc (set (edges modules))" using less by simp
  qed
qed

text \<open>
  C3. The order modules are indexed in is a permutation of the modules: each of them exactly
  once, cycles and missing dependencies notwithstanding. It is a front part, in which every
  module comes after all of its dependencies that are modules, followed by the rest in
  alphabetical order; the front holds exactly the modules that do not depend, directly or
  through others, on a cycle. Without cycles the front is everything.
\<close>

theorem topological_sort_correct:
  assumes "distinct (dkeys modules)"
  shows "\<exists>front back. topological_sort modules = front @ back \<and>
    mset (front @ back) = mset (dkeys modules) \<and>
    set front = {n \<in> set (dkeys modules). n \<in> Wellfounded.acc (set (edges modules))} \<and>
    deps_first (deps_in modules) front \<and> sorted back"
proof (cases "modules = []")
  case True
  then show ?thesis by (simp add: topological_sort_def deps_first_def)
next
  case False
  define r where "r = kahn (dependents0 modules) (in_degree0 modules)
    (sort (map fst (filter (\<lambda>(name, d). d = 0) (in_degree0 modules)))) []"
  define bk where "bk = sort (filter (\<lambda>name. name \<notin> set r) (dkeys modules))"
  from kahn_correct [OF assms kahn_start [OF assms]] have inv: "distinct r"
    "set r = {n \<in> set (dkeys modules). set (deps_in modules n) \<subseteq> set r}" "deps_first (deps_in modules) r"
    unfolding r_def [symmetric] kahn_inv_def by simp_all
  have perm: "mset (r @ bk) = mset (dkeys modules)"
  proof -
    have "distinct (r @ bk)" using inv(1) assms by (auto simp: bk_def)
    moreover have "set (r @ bk) = set (dkeys modules)" using inv(2) by (auto simp: bk_def)
    ultimately show ?thesis using assms set_eq_iff_mset_eq_distinct by blast
  qed
  have len: "\<not> length r < length modules \<Longrightarrow> bk = []"
  proof -
    assume "\<not> length r < length modules"
    moreover have "length r + length bk = length modules"
      using arg_cong [OF perm, of size] by simp
    ultimately have "length bk = 0" by linarith
    then show "bk = []" by simp
  qed
  have front: "set r = {n \<in> set (dkeys modules). n \<in> Wellfounded.acc (set (edges modules))}"
  proof (intro equalityI subsetI)
    fix n assume n: "n \<in> set r"
    then obtain i where "i < length r" "n = r ! i" by (auto simp: in_set_conv_nth)
    then have "n \<in> Wellfounded.acc (set (edges modules))" using in_cycle_free [OF inv(3) assms] by simp
    moreover have "n \<in> set (dkeys modules)" using n by (subst (asm) inv(2)) simp
    ultimately show "n \<in> {n \<in> set (dkeys modules). n \<in> Wellfounded.acc (set (edges modules))}" by simp
  next
    fix n assume "n \<in> {n \<in> set (dkeys modules). n \<in> Wellfounded.acc (set (edges modules))}"
    then have "n \<in> Wellfounded.acc (set (edges modules))" "n \<in> set (dkeys modules)" by simp_all
    then show "n \<in> set r"
    proof (induction rule: acc.induct)
      case (accI n)
      have "d \<in> set r" if "d \<in> set (deps_in modules n)" for d
      proof -
        have "(d, n) \<in> set (edges modules)" using that accI.prems edges_iff [OF assms] by simp
        moreover have "d \<in> set (dkeys modules)" using that by (auto simp: deps_in_def split: option.splits)
        ultimately show ?thesis using accI.IH by blast
      qed
      then show ?case using inv(2) accI.prems by blast
    qed
  qed
  have "topological_sort modules = r @ bk"
    using False len by (auto simp: topological_sort_def Let_def r_def [symmetric] bk_def)
  then show ?thesis using perm front inv(3) by (intro exI [of _ r] exI [of _ bk]) (simp add: bk_def)
qed

definition ex_module :: "string \<Rightarrow> string list \<Rightarrow> string \<times> module_info" where
  "ex_module name depends = (name, \<lparr>mi_name = name, mi_odoo_version = ''17.0'', mi_repo = ''odoo'',
     mi_path = name, mi_depends = depends, mi_version_raw = [], mi_edition = ''community'',
     mi_viindoo_equivalent_qname = None, mi_commit_sha = None\<rparr>)"

definition ex_modules :: modules where
  "ex_modules = [ex_module ''sale'' [''base'', ''mail'', ''absent''], ex_module ''b'' [''a''], ex_module ''a'' [''b''],
     ex_module ''mail'' [''base''], ex_module ''base'' []]"

theorem topological_sort_correct_witness:
  "topological_sort ex_modules = [''base'', ''mail'', ''sale'', ''a'', ''b''] \<and>
   (\<exists>front back. [''base'', ''mail'', ''sale'', ''a'', ''b''] = front @ back \<and> deps_first (deps_in ex_modules) front)"
proof -
  have d: "distinct (dkeys ex_modules)" by code_simp
  have v: "topological_sort ex_modules = [''base'', ''mail'', ''sale'', ''a'', ''b'']" by code_simp
  show ?thesis using topological_sort_correct [OF d] unfolding v by blast
qed

end
