(* ===== verification/Indexer.thy ===== *)
theory Indexer
  imports Resolver Versions
begin

text \<open>
  The pure parts of the indexer: the registry of modules (\<open>src/indexer/registry.py\<close> and the
  edition heuristics of \<open>parser_python.py\<close>), the incremental filter (\<open>incremental.py\<close>), the
  propagation to dependent repositories (\<open>cross_repo.py\<close>) and the diff of two core symbol
  lists (\<open>diff_engine.py\<close>). What git, the file system and \<open>ast\<close> return is a parameter. The
  order in which Python iterates over a set of strings is the parameter \<open>iter\<close>, of which
  only \<open>set_order\<close> is assumed.
\<close>

definition set_order :: "(string set \<Rightarrow> string list) \<Rightarrow> bool" where
  "set_order iter \<longleftrightarrow> (\<forall>S. finite S \<longrightarrow> distinct (iter S) \<and> set (iter S) = S)"

section \<open>The diff of two versions\<close>

record core_symbol =
  cs_qualified_name :: string
  cs_kind :: string
  cs_odoo_version :: string
  cs_signature :: "string option"
  cs_file_path :: "string option"
  cs_line :: "int option"
  cs_status :: string
  cs_replacement_qname :: "string option"

record diff_result =
  dr_added :: "core_symbol list"
  dr_removed :: "core_symbol list"
  dr_deprecated :: "core_symbol list"
  dr_stable :: "(core_symbol \<times> core_symbol) list"
  dr_replaced :: "(string \<times> string) list"

definition by_qname :: "core_symbol list \<Rightarrow> (string, core_symbol) pydict" where
  "by_qname symbols = fold (\<lambda>s. dset (cs_qualified_name s) s) symbols []"

definition becomes_deprecated :: "core_symbol \<Rightarrow> core_symbol \<Rightarrow> bool" where
  "becomes_deprecated old_sym new_sym \<longleftrightarrow>
     cs_status new_sym = ''deprecated'' \<and> cs_status old_sym \<noteq> ''deprecated''"

definition compute_diff :: "(string set \<Rightarrow> string list) \<Rightarrow> core_symbol list \<Rightarrow> core_symbol list \<Rightarrow> diff_result" where
  "compute_diff iter symbols_old symbols_new =
     (let old = by_qname symbols_old; new = by_qname symbols_new;
          common = set (dkeys old) \<inter> set (dkeys new);
          only_old = set (dkeys old) - set (dkeys new);
          only_new = set (dkeys new) - set (dkeys old);
          pairs = map (\<lambda>qn. (the (dget old qn), the (dget new qn))) (iter common);
          replaced = List.map_filter (\<lambda>s. case cs_replacement_qname s of
                         None \<Rightarrow> None
                       | Some r \<Rightarrow> if r \<noteq> [] \<and> cs_qualified_name s \<in> only_old \<and> dget new r \<noteq> None
                                   then Some (cs_qualified_name s, r) else None) symbols_old
      in \<lparr>dr_added = map (\<lambda>qn. the (dget new qn)) (iter only_new),
          dr_removed = map (\<lambda>qn. the (dget old qn)) (filter (\<lambda>qn. qn \<notin> fst ` set replaced) (iter only_old)),
          dr_deprecated = map snd (filter (\<lambda>(o', n). becomes_deprecated o' n) pairs),
          dr_stable = filter (\<lambda>(o', n). \<not> becomes_deprecated o' n) pairs,
          dr_replaced = replaced\<rparr>)"

lemma by_qname_keys: "set (dkeys (by_qname ss)) = cs_qualified_name ` set ss"
  unfolding by_qname_def by (subst set_dkeys_fold_dset) simp

lemma by_qname_name: "dget (by_qname ss) qn = Some s \<Longrightarrow> cs_qualified_name s = qn \<and> s \<in> set ss"
  unfolding by_qname_def dget_fold_dset
  by (auto simp: find_Some_iff split: option.splits) (metis length_rev nth_mem set_rev)

lemma by_qname_get: "qn \<in> cs_qualified_name ` set ss \<Longrightarrow> \<exists>s. dget (by_qname ss) qn = Some s \<and> cs_qualified_name s = qn"
  using by_qname_keys [of ss] by_qname_name [of ss qn] keys_iff [of "by_qname ss" qn] by auto

text \<open>
  The diff partitions both versions. The names only in the new version are exactly those
  added; the names only in the old one are split into removed and replaced, the names in both
  into deprecated and stable, without overlap; each bucket of symbols lists a name once; and a
  replacement edge always leads to a symbol that exists in the new version.
\<close>

theorem compute_diff_partition:
  assumes "set_order iter" and d: "d = compute_diff iter old new"
    and O: "O' = cs_qualified_name ` set old" and N: "N = cs_qualified_name ` set new"
  shows "cs_qualified_name ` set (dr_added d) = N - O' \<and>
    cs_qualified_name ` set (dr_removed d) \<union> fst ` set (dr_replaced d) = O' - N \<and>
    cs_qualified_name ` set (dr_removed d) \<inter> fst ` set (dr_replaced d) = {} \<and>
    cs_qualified_name ` set (dr_deprecated d) \<union> (cs_qualified_name \<circ> fst) ` set (dr_stable d) = O' \<inter> N \<and>
    cs_qualified_name ` set (dr_deprecated d) \<inter> (cs_qualified_name \<circ> fst) ` set (dr_stable d) = {} \<and>
    snd ` set (dr_replaced d) \<subseteq> N \<and>
    distinct (map cs_qualified_name (dr_added d)) \<and> distinct (map cs_qualified_name (dr_removed d)) \<and>
    distinct (map cs_qualified_name (dr_deprecated d)) \<and> distinct (map (cs_qualified_name \<circ> fst) (dr_stable d))"
proof -
  have K: "set (dkeys (by_qname old)) = O'" "set (dkeys (by_qname new)) = N"
    using O N by (simp_all only: by_qname_keys)
  have fin: "finite O'" "finite N" using O N by simp_all
  have it: "distinct (iter S)" "set (iter S) = S" if "S \<subseteq> O' \<union> N" for S
    using assms(1) that fin finite_subset [of S "O' \<union> N"] by (auto simp: set_order_def)
  define go where "go qn = the (dget (by_qname old) qn)" for qn
  define gn where "gn qn = the (dget (by_qname new) qn)" for qn
  have go: "cs_qualified_name (go qn) = qn" if "qn \<in> O'" for qn
    using by_qname_get [of qn old] that O by (auto simp: go_def)
  have gn: "cs_qualified_name (gn qn) = qn" if "qn \<in> N" for qn
    using by_qname_get [of qn new] that N by (auto simp: gn_def)
  let ?rep = "List.map_filter (\<lambda>s. case cs_replacement_qname s of None \<Rightarrow> None
     | Some r \<Rightarrow> if r \<noteq> [] \<and> cs_qualified_name s \<in> O' - N \<and> dget (by_qname new) r \<noteq> None
                 then Some (cs_qualified_name s, r) else None) old"
  have "a \<in> O' - N \<and> b \<in> N" if ab: "(a, b) \<in> set ?rep" for a b
  proof -
    let ?c = "\<lambda>(s :: core_symbol) r. r \<noteq> [] \<and> cs_qualified_name s \<in> O' - N \<and> dget (by_qname new) r \<noteq> None"
    obtain s where s: "(case cs_replacement_qname s of None \<Rightarrow> None
        | Some r \<Rightarrow> if ?c s r then Some (cs_qualified_name s, r) else None) = Some (a, b)"
      using ab unfolding in_map_filter by blast
    then obtain r where r: "cs_replacement_qname s = Some r" by (cases "cs_replacement_qname s") simp_all
    from s r have i: "(if ?c s r then Some (cs_qualified_name s, r) else None) = Some (a, b)" by (simp only: option.case)
    then have c: "?c s r" by (metis option.distinct(1))
    then have "a = cs_qualified_name s \<and> b = r" using i by (simp only: if_True option.inject prod.inject simp_thms)
    then show ?thesis using c keys_iff [of "by_qname new" r] unfolding K by blast
  qed
  then have rep: "fst ` set ?rep \<subseteq> O' - N" "snd ` set ?rep \<subseteq> N" by auto
  let ?removed = "filter (\<lambda>qn. qn \<notin> fst ` set ?rep) (iter (O' - N))"
  let ?dep = "filter (\<lambda>qn. becomes_deprecated (go qn) (gn qn)) (iter (O' \<inter> N))"
  let ?stb = "filter (\<lambda>qn. \<not> becomes_deprecated (go qn) (gn qn)) (iter (O' \<inter> N))"
  have dd: "d = \<lparr>dr_added = map gn (iter (N - O')), dr_removed = map go ?removed,
      dr_deprecated = map gn ?dep, dr_stable = map (\<lambda>qn. (go qn, gn qn)) ?stb, dr_replaced = ?rep\<rparr>"
    unfolding d compute_diff_def Let_def K go_def gn_def
    by (simp add: filter_map o_def)
  have sub: "set (iter (N - O')) = N - O'" "set (iter (O' - N)) = O' - N" "set (iter (O' \<inter> N)) = O' \<inter> N"
    by (rule it(2), blast)+
  have dst: "distinct (iter (N - O'))" "distinct (iter (O' - N))" "distinct (iter (O' \<inter> N))"
    by (rule it(1), blast)+
  have names: "map cs_qualified_name (dr_added d) = iter (N - O')" "map cs_qualified_name (dr_removed d) = ?removed"
    "map cs_qualified_name (dr_deprecated d) = ?dep" "map (cs_qualified_name \<circ> fst) (dr_stable d) = ?stb"
    unfolding dd using sub go gn by (auto intro!: map_idI)
  have sets: "cs_qualified_name ` set (dr_added d) = set (iter (N - O'))"
    "cs_qualified_name ` set (dr_removed d) = set ?removed"
    "cs_qualified_name ` set (dr_deprecated d) = set ?dep"
    "(cs_qualified_name \<circ> fst) ` set (dr_stable d) = set ?stb" "dr_replaced d = ?rep"
    using names [THEN arg_cong, of set] unfolding set_map by (simp_all add: dd)
  show ?thesis
    unfolding sets names using rep sub dst by auto
qed

definition ex_symbol :: "string \<Rightarrow> string \<Rightarrow> string option \<Rightarrow> core_symbol" where
  "ex_symbol q status r = \<lparr>cs_qualified_name = q, cs_kind = ''function'', cs_odoo_version = ''17.0'', cs_signature = None,
     cs_file_path = None, cs_line = None, cs_status = status, cs_replacement_qname = r\<rparr>"

lemma sorted_list_set_order: "set_order sorted_list_of_set"
  by (simp add: set_order_def)

theorem compute_diff_partition_witness:
  "set (dr_replaced (compute_diff sorted_list_of_set [ex_symbol ''a'' ''stable'' (Some ''b'')] [ex_symbol ''b'' ''added'' None]))
     = {(''a'', ''b'')} \<and>
   cs_qualified_name ` set (dr_added (compute_diff sorted_list_of_set [ex_symbol ''a'' ''stable'' (Some ''b'')] [ex_symbol ''b'' ''added'' None]))
     = {''b''}"
proof
  show "set (dr_replaced (compute_diff sorted_list_of_set [ex_symbol ''a'' ''stable'' (Some ''b'')] [ex_symbol ''b'' ''added'' None]))
     = {(''a'', ''b'')}"
    by (simp add: compute_diff_def Let_def ex_symbol_def by_qname_def List.map_filter_simps)
  show "cs_qualified_name ` set (dr_added (compute_diff sorted_list_of_set [ex_symbol ''a'' ''stable'' (Some ''b'')] [ex_symbol ''b'' ''added'' None]))
     = {''b''}"
    using compute_diff_partition [OF sorted_list_set_order refl refl refl,
        of "[ex_symbol ''a'' ''stable'' (Some ''b'')]" "[ex_symbol ''b'' ''added'' None]"]
    by (simp add: ex_symbol_def)
qed

section \<open>The registry of modules\<close>

text \<open>What \<open>parse_manifest\<close> returns of a manifest, for the keys that are read: the truth value
  of \<open>manifest.get('installable', True)\<close>, the version ('' when absent), the dependencies and
  the license. An empty dict is None.\<close>

record manifest =
  mf_installable :: bool
  mf_version :: string
  mf_depends :: "string list"
  mf_license :: "string option"

definition EE_CONFUSION :: "(string, string option) pydict" where
  "EE_CONFUSION =
     [(''knowledge'', None), (''documents'', Some ''viin_document''), (''helpdesk'', Some ''viin_helpdesk''),
      (''marketing_automation'', None), (''quality'', Some ''to_quality''), (''industry_fsm'', None),
      (''appointment'', Some ''viin_appointment''), (''planning'', None), (''sign'', Some ''viin_sign''),
      (''social'', Some ''viin_social''), (''voip'', None), (''whatsapp'', None),
      (''mrp_plm'', Some ''to_mrp_plm''), (''accountant'', Some ''to_account_accountant''),
      (''web_studio'', None), (''web_enterprise'', None)]"

definition detect_viindoo_equivalent :: "string \<Rightarrow> string option" where
  "detect_viindoo_equivalent module_name = Option.bind (dget EE_CONFUSION module_name) id"

definition char_upper :: "char \<Rightarrow> char" where
  "char_upper c = (let n = (of_char c :: nat) in if 97 \<le> n \<and> n \<le> 122 then char_of (n - 32) else c)"

fun contains :: "string \<Rightarrow> string \<Rightarrow> bool" where
  "contains [] p \<longleftrightarrow> p = []"
| "contains (c # s) p \<longleftrightarrow> startswith (c # s) p \<or> contains s p"

definition detect_module_edition :: "manifest \<Rightarrow> string \<Rightarrow> string \<Rightarrow> string" where
  "detect_module_edition manifest module_name module_path =
     (if startswith module_name ''viin_'' \<or> startswith module_name ''to_'' then ''viindoo''
      else
        let license_v = map char_upper (case mf_license manifest of None \<Rightarrow> [] | Some l \<Rightarrow> l)
        in if license_v = ''OEEL-1'' then ''enterprise''
           else if contains license_v ''OCA'' then ''oca''
           else if license_v \<in> set [''LGPL-3'', ''LGPL-3.0'', ''GPL-3'', ''GPL-3.0'', ''AGPL-3'', ''AGPL-3.0''] \<and>
                   (contains module_path ''/odoo/addons/'' \<or> contains module_path ''/addons/'') then ''community''
           else ''custom'')"

text \<open>\<open>_scan\<close>, on the paths that \<open>Path.rglob\<close> finds.\<close>

definition scan :: "(string \<Rightarrow> string \<Rightarrow> string list) \<Rightarrow> string \<Rightarrow> string \<Rightarrow> string list" where
  "scan rglob repo_path filename =
     filter (\<lambda>p. let parts = split_on (CHR ''/'') p in \<not> (''.git'' \<in> set parts \<or> ''node_modules'' \<in> set parts))
       (rglob repo_path filename)"

definition find_manifests :: "(string \<Rightarrow> string \<Rightarrow> string list) \<Rightarrow> string \<Rightarrow> string \<Rightarrow> string list" where
  "find_manifests rglob repo_path odoo_version =
     scan rglob repo_path (manifest_name (get_manifest_finder odoo_version))"

text \<open>\<open>re.match(r'^\d+\.\d+\.\d+', version_raw)\<close>.\<close>

definition three_part_version :: "string \<Rightarrow> bool" where
  "three_part_version s = (
     Option.bind (digits1 s) (\<lambda>(_, r).
     Option.bind (char1 (CHR ''.'') r) (\<lambda>r.
     Option.bind (digits1 r) (\<lambda>(_, r).
     Option.bind (char1 (CHR ''.'') r) digits1))) \<noteq> None)"

text \<open>What the outside world says of a repository: its files, parsed manifests, branch and
  the commit that last touched a module.\<close>

record world =
  w_rglob :: "string \<Rightarrow> string \<Rightarrow> string list"
  w_manifest :: "string \<Rightarrow> manifest option"
  w_branch :: "string \<Rightarrow> string option"
  w_commit :: "string \<Rightarrow> string \<Rightarrow> string option"

definition parent :: "string \<Rightarrow> string" where
  "parent p = (case rsplit1 (CHR ''/'') p of None \<Rightarrow> ''.'' | Some (d, _) \<Rightarrow> d)"

text \<open>The module of one manifest: None when it is skipped.\<close>

definition module_of :: "world \<Rightarrow> string \<Rightarrow> string \<Rightarrow> string \<Rightarrow> module_info option" where
  "module_of w repo_path repo_version manifest_path =
     (let module_dir = parent manifest_path; module_name = path_name module_dir in
      case w_manifest w manifest_path of
        None \<Rightarrow> None
      | Some manifest \<Rightarrow>
         (if \<not> mf_installable manifest then None
          else
            let v = resolve_odoo_version (mf_version manifest) (w_branch w repo_path);
                odoo_version = (if v = ''unknown'' then repo_version else v)
            in if odoo_version = ''unknown'' then None
               else Some \<lparr>mi_name = module_name, mi_odoo_version = odoo_version, mi_repo = path_name repo_path,
                      mi_path = module_dir, mi_depends = mf_depends manifest, mi_version_raw = mf_version manifest,
                      mi_edition = detect_module_edition manifest module_name module_dir,
                      mi_viindoo_equivalent_qname = detect_viindoo_equivalent module_name,
                      mi_commit_sha = w_commit w repo_path module_dir\<rparr>))"

type_synonym registry = "(string, modules) pydict"

definition reg_get :: "registry \<Rightarrow> string \<Rightarrow> string \<Rightarrow> module_info option" where
  "reg_get registry v n = Option.bind (dget registry v) (\<lambda>mods. dget mods n)"

definition reg_add :: "module_info \<Rightarrow> registry \<Rightarrow> registry" where
  "reg_add info registry =
     (let v = mi_odoo_version info; n = mi_name info;
          mods = (case dget registry v of None \<Rightarrow> [] | Some m \<Rightarrow> m)
      in case dget mods n of
           Some existing \<Rightarrow> (if three_part_version (mi_version_raw info) then dset v (dset n info mods) registry
                             else registry)
         | None \<Rightarrow> dset v (dset n info mods) registry)"

definition candidates :: "world \<Rightarrow> (string \<times> string) list \<Rightarrow> module_info list" where
  "candidates w pairs = concat (map (\<lambda>(repo_path, repo_version).
     List.map_filter (module_of w repo_path repo_version) (find_manifests (w_rglob w) repo_path repo_version)) pairs)"

definition build_registry :: "world \<Rightarrow> (string \<times> string) list \<Rightarrow> registry" where
  "build_registry w pairs = fold reg_add (candidates w pairs) []"

text \<open>The conflict rule, as a choice among the candidates of one version and name.\<close>

definition preferred :: "module_info list \<Rightarrow> module_info option" where
  "preferred cs = (case cs of [] \<Rightarrow> None
     | c # rest \<Rightarrow> Some (last (c # filter (\<lambda>c. three_part_version (mi_version_raw c)) rest)))"

lemma preferred_snoc:
  "preferred (cs @ [c]) = (case preferred cs of None \<Rightarrow> Some c
     | Some e \<Rightarrow> if three_part_version (mi_version_raw c) then Some c else Some e)"
  by (cases cs) (auto simp: preferred_def)

lemma reg_get_add:
  "reg_get (reg_add info r) v n =
     (if v = mi_odoo_version info \<and> n = mi_name info \<and> (reg_get r v n = None \<or> three_part_version (mi_version_raw info))
      then Some info else reg_get r v n)"
  by (auto simp: reg_get_def reg_add_def Let_def split: option.splits)

text \<open>
  The registry holds, for a version and a module name, one of the manifests found for them,
  or nothing when there is none: the last one after the first whose version starts with three
  numbers, and the first one when no later one does. (The code's comment asks for the long
  format, with the Odoo version in front; the test also accepts a plain 1.0.0.)
\<close>

theorem build_registry_choice:
  "reg_get (build_registry w pairs) v n =
     preferred (filter (\<lambda>c. mi_odoo_version c = v \<and> mi_name c = n) (candidates w pairs)) \<and>
   (three_part_version ''1.0.0'' \<and> long_version_prefix ''1.0.0'' = None)"
proof
  have "reg_get (fold reg_add cs []) v n = preferred (filter (\<lambda>c. mi_odoo_version c = v \<and> mi_name c = n) cs)" for cs
  proof (induction cs rule: rev_induct)
    case Nil
    then show ?case by (simp add: reg_get_def preferred_def)
  next
    case (snoc c cs)
    then show ?case
      by (auto simp: reg_get_add preferred_snoc split: option.splits)
  qed
  then show "reg_get (build_registry w pairs) v n =
     preferred (filter (\<lambda>c. mi_odoo_version c = v \<and> mi_name c = n) (candidates w pairs))"
    by (simp add: build_registry_def)
  show "three_part_version ''1.0.0'' \<and> long_version_prefix ''1.0.0'' = None" by code_simp
qed

section \<open>Incremental runs\<close>

definition filter_modules_by_changed :: "modules \<Rightarrow> string set \<Rightarrow> modules" where
  "filter_modules_by_changed modules changed_module_paths =
     filter (\<lambda>(name, m). mi_path m \<in> changed_module_paths) modules"

text \<open>The walk of \<open>compute_changed_module_paths\<close> from a changed file upwards, over the path's
  parts, to the nearest directory with a manifest.\<close>

fun nearest_module :: "(string list \<Rightarrow> bool) \<Rightarrow> string list \<Rightarrow> string list option" where
  "nearest_module has_manifest [] = None"
| "nearest_module has_manifest (d # ds) =
     (if has_manifest (rev (d # ds)) then Some (rev (d # ds)) else nearest_module has_manifest ds)"

definition compute_changed_module_paths :: "(string list \<Rightarrow> bool) \<Rightarrow> string list option \<Rightarrow> string set" where
  "compute_changed_module_paths has_manifest diff =
     (case diff of None \<Rightarrow> {}
      | Some lines \<Rightarrow> set (List.map_filter (\<lambda>f. map_option (join ''/'')
          (nearest_module has_manifest (tl (rev (split_on (CHR ''/'') f)))))
          (filter (\<lambda>line. strip line \<noteq> []) lines)))"

text \<open>The walk finds the deepest directory that has a manifest.\<close>

lemma nearest_module_Some:
  "nearest_module h ds = Some p \<longleftrightarrow>
     (\<exists>k < length ds. p = rev (drop k ds) \<and> h p \<and> (\<forall>j < k. \<not> h (rev (drop j ds))))"
proof (induction ds)
  case Nil
  then show ?case by simp
next
  case (Cons d ds)
  have "(\<exists>k < length (d # ds). p = rev (drop k (d # ds)) \<and> h p \<and> (\<forall>j < k. \<not> h (rev (drop j (d # ds)))))
     \<longleftrightarrow> p = rev (d # ds) \<and> h p \<or> (\<exists>k < length ds. p = rev (drop k ds) \<and> h p \<and> \<not> h (rev (d # ds)) \<and> (\<forall>j < k. \<not> h (rev (drop j ds))))"
    by (simp only: Ex_less_Suc2 All_less_Suc2 list.size(4) add_Suc_right drop_0 drop_Suc_Cons) auto
  then show ?case using Cons.IH by auto
qed

section \<open>Dependent repositories\<close>

record module_row =
  mr_name :: string
  mr_version :: string
  mr_repo :: "string option"

text \<open>The Cypher query, over the DEPENDS_ON edges (dependent, changed).\<close>

definition find_dependent_repos :: "(module_row \<times> module_row) list \<Rightarrow> string \<Rightarrow> string set \<Rightarrow> string list" where
  "find_dependent_repos depends_on odoo_version changed_module_names =
     (if changed_module_names = {} then []
      else List.map_filter id (remdups (map (\<lambda>(dependent, _). mr_repo dependent)
        (filter (\<lambda>(dependent, changed). mr_version dependent = odoo_version \<and> mr_version changed = odoo_version \<and>
            mr_name changed \<in> changed_module_names \<and> mr_name dependent \<notin> changed_module_names) depends_on))))"

text \<open>
  Change propagation finds exactly the repositories of the unchanged modules that depend
  on a changed module of the version, each once. It does not exclude the repositories that own
  a changed module, which its documentation promises: a repository with a changed module and an
  unchanged one that depends on it is returned.
\<close>

theorem find_dependent_repos_exact:
  "(r \<in> set (find_dependent_repos es v ch) \<longleftrightarrow>
     (\<exists>d c. (d, c) \<in> set es \<and> mr_version d = v \<and> mr_version c = v \<and> mr_name c \<in> ch \<and> mr_name d \<notin> ch \<and> mr_repo d = Some r)) \<and>
   distinct (find_dependent_repos es v ch) \<and>
   find_dependent_repos [(\<lparr>mr_name = ''b'', mr_version = ''17.0'', mr_repo = Some ''shop''\<rparr>,
       \<lparr>mr_name = ''a'', mr_version = ''17.0'', mr_repo = Some ''shop''\<rparr>)] ''17.0'' {''a''} = [''shop'']"
proof (intro conjI)
  show "r \<in> set (find_dependent_repos es v ch) \<longleftrightarrow>
     (\<exists>d c. (d, c) \<in> set es \<and> mr_version d = v \<and> mr_version c = v \<and> mr_name c \<in> ch \<and> mr_name d \<notin> ch \<and> mr_repo d = Some r)"
    by (auto simp: find_dependent_repos_def in_map_filter) force+
  have "distinct (List.map_filter id xs)" if "distinct xs" for xs :: "string option list"
    using that by (induction xs) (auto simp: List.map_filter_simps in_map_filter split: option.splits)
  then show "distinct (find_dependent_repos es v ch)" by (simp add: find_dependent_repos_def)
  show "find_dependent_repos [(\<lparr>mr_name = ''b'', mr_version = ''17.0'', mr_repo = Some ''shop''\<rparr>,
       \<lparr>mr_name = ''a'', mr_version = ''17.0'', mr_repo = Some ''shop''\<rparr>)] ''17.0'' {''a''} = [''shop'']"
    by (simp add: find_dependent_repos_def List.map_filter_simps)
qed

end
