(* ===== verification/AuthDb.thy ===== *)
theory AuthDb
  imports PyVal "HOL-Library.Char_ord" "HOL-Library.List_Lexorder"
begin

text \<open>
  The tables of the authentication schema and the operations of \<open>AuthStore\<close>
  (\<open>src/db/auth_registry.py\<close>) on them. An operation maps the database to a result or an
  exception and the new database. \<open>checkout\<close> is \<open>with self._pool.checkout()\<close>: it raises when
  the database cannot be reached. \<open>now\<close> is the server's NOW(), random tokens are arguments, and
  the hashes are the parameters \<open>hash_key\<close>, \<open>legacy_sha256\<close> and \<open>sha256\<close>. Columns that the
  schema declares UNIQUE, REFERENCES or CHECK raise on a violation; deleting a user cascades.
  Two flags say what the schema of the deployment demands: \<open>db_token_required\<close>, that the column
  \<open>token\<close> of the verification rows is NOT NULL, and \<open>db_hash_required\<close>, that
  \<open>password_hash\<close> is, as the migrations declare it.
\<close>

section \<open>Tables\<close>

record user =
  u_id :: int
  u_username :: string
  u_password_hash :: "string option"
  u_email :: "string option"
  u_is_admin :: bool
  u_is_active :: bool
  u_mfa_enabled :: bool
  u_created_at :: "time option"
  u_email_verified :: bool
  u_oauth_provider :: "string option"
  u_oauth_id :: "string option"

record api_key =
  k_id :: int
  k_name :: string
  k_hash :: string
  k_prefix :: string
  k_active :: bool
  k_created_at :: time
  k_last_used_at :: "time option"
  k_user_id :: "int option"
  k_expires_at :: "time option"

record session_row =
  s_id :: string
  s_user_id :: int
  s_expires_at :: time
  s_last_seen :: time
  s_ip :: "string option"
  s_agent :: "string option"

record attempt =
  la_identifier :: string
  la_at :: time
  la_success :: bool
  la_ip :: "string option"
  la_agent :: "string option"

record verification =
  ev_token :: "string option"
  ev_user_id :: int
  ev_purpose :: string
  ev_token_hash :: "string option"
  ev_expires_at :: time
  ev_used_at :: "time option"
  ev_created_at :: time

record totp_row =
  tp_user_id :: int
  tp_secret_encrypted :: string
  tp_enabled :: bool
  tp_backup_codes :: "(string \<times> time option) list"
  tp_enrolled_at :: time
  tp_last_used_at :: "time option"

record usage_row =
  ul_api_key_id :: "int option"
  ul_tool_name :: string
  ul_response_ms :: int

record ssh_key =
  sk_id :: int
  sk_name :: string
  sk_public_key :: string
  sk_private_key_encrypted :: string
  sk_key_version :: int
  sk_created_at :: time

record feedback =
  fb_id :: int
  fb_pattern_node_id :: string
  fb_api_key_id :: "int option"
  fb_rating :: string
  fb_comment :: "string option"
  fb_created_at :: time

record audit_row =
  au_actor :: string
  au_action :: string
  au_target :: "string option"
  au_success :: bool

record db =
  db_up :: bool
  db_token_required :: bool
  db_hash_required :: bool
  users :: "user list"
  api_keys :: "api_key list"
  sessions :: "session_row list"
  attempts :: "attempt list"
  verifications :: "verification list"
  totps :: "totp_row list"
  usage_log :: "usage_row list"
  ssh_keys :: "ssh_key list"
  feedbacks :: "feedback list"
  audit_log :: "audit_row list"
  next_user :: int
  next_key :: int
  next_ssh :: int
  next_feedback :: int

datatype exc = DbError | LastAdminProtectedError | UserNotFoundError | KeyNotFoundError | ValueErr string

type_synonym 'a io = "db \<Rightarrow> (exc + 'a) \<times> db"

definition checkout :: "'a io \<Rightarrow> 'a io" where
  "checkout f db = (if db_up db then f db else (Inl DbError, db))"

section \<open>API keys\<close>

text \<open>\<open>create_api_key\<close>: \<open>raw\<close> is the random key, \<open>osm_\<close> with a token.\<close>

definition create_api_key :: "(string \<Rightarrow> string) \<Rightarrow> time \<Rightarrow> string \<Rightarrow> string \<Rightarrow> int option \<Rightarrow> time option \<Rightarrow> (string \<times> string \<times> int) io" where
  "create_api_key hash_key now token name user_id expires_at =
     (let raw = ''osm_'' @ token; key_hash = hash_key raw; key_prefix = take 12 raw
      in checkout (\<lambda>db.
        if (\<exists>k \<in> set (api_keys db). k_hash k = key_hash) \<or>
           (case user_id of None \<Rightarrow> False | Some u \<Rightarrow> \<not> (\<exists>r \<in> set (users db). u_id r = u))
        then (Inl DbError, db)
        else (Inr (raw, key_prefix, next_key db),
              db\<lparr>api_keys := api_keys db @ [\<lparr>k_id = next_key db, k_name = name, k_hash = key_hash, k_prefix = key_prefix,
                    k_active = True, k_created_at = now, k_last_used_at = None, k_user_id = user_id, k_expires_at = expires_at\<rparr>],
                 next_key := next_key db + 1\<rparr>)))"

definition key_live :: "time \<Rightarrow> api_key \<Rightarrow> bool" where
  "key_live now k \<longleftrightarrow> k_active k \<and> (case k_expires_at k of None \<Rightarrow> True | Some e \<Rightarrow> now < e)"

definition verify_api_key :: "(string \<Rightarrow> string) \<Rightarrow> (string \<Rightarrow> string) \<Rightarrow> time \<Rightarrow> string \<Rightarrow> int option io" where
  "verify_api_key hash_key legacy_sha256 now raw_key =
     checkout (\<lambda>db.
       let base_query = (\<lambda>h. tselect (\<lambda>k. k_hash k = h \<and> key_live now k) (api_keys db));
           row = (case base_query (hash_key raw_key) of
                    Some k \<Rightarrow> Some k
                  | None \<Rightarrow> base_query (legacy_sha256 raw_key))
       in (case row of
             None \<Rightarrow> (Inr None, db)
           | Some k \<Rightarrow> (Inr (Some (k_id k)),
               db\<lparr>api_keys := tupdate (\<lambda>r. k_id r = k_id k) (\<lambda>r. r\<lparr>k_last_used_at := Some now\<rparr>) (api_keys db)\<rparr>)))"

text \<open>A row of \<open>list_api_keys\<close>: everything but the hash, with the owner's name.\<close>

record key_info =
  ki_id :: int
  ki_name :: string
  ki_key_prefix :: string
  ki_active :: bool
  ki_created_at :: time
  ki_last_used_at :: "time option"
  ki_user_id :: "int option"
  ki_expires_at :: "time option"
  ki_owner_username :: "string option"

definition owner_name :: "user list \<Rightarrow> int option \<Rightarrow> string option" where
  "owner_name us uid = Option.bind uid (\<lambda>i. map_option u_username (tselect (\<lambda>u. u_id u = i) us))"

definition list_api_keys :: "int option \<Rightarrow> bool \<Rightarrow> key_info list io" where
  "list_api_keys user_id admin = checkout (\<lambda>db.
     (Inr (map (\<lambda>k. \<lparr>ki_id = k_id k, ki_name = k_name k, ki_key_prefix = k_prefix k, ki_active = k_active k,
               ki_created_at = k_created_at k, ki_last_used_at = k_last_used_at k, ki_user_id = k_user_id k,
               ki_expires_at = k_expires_at k, ki_owner_username = owner_name (users db) (k_user_id k)\<rparr>)
            (sort_key k_id (if admin \<or> user_id = None then api_keys db
                            else filter (\<lambda>k. k_user_id k = user_id) (api_keys db)))), db))"

definition deactivate_api_key :: "int \<Rightarrow> unit io" where
  "deactivate_api_key key_id = checkout (\<lambda>db.
     (Inr (), db\<lparr>api_keys := tupdate (\<lambda>k. k_id k = key_id) (\<lambda>k. k\<lparr>k_active := False\<rparr>) (api_keys db)\<rparr>))"

definition deactivate_api_key_for_user :: "int \<Rightarrow> int \<Rightarrow> nat io" where
  "deactivate_api_key_for_user key_id user_id = checkout (\<lambda>db.
     let owned = (\<lambda>k. k_id k = key_id \<and> k_user_id k = Some user_id)
     in (Inr (tcount owned (api_keys db)),
         db\<lparr>api_keys := tupdate owned (\<lambda>k. k\<lparr>k_active := False\<rparr>) (api_keys db)\<rparr>))"

section \<open>Usage, SSH keys, feedback\<close>

text \<open>\<open>log_usage\<close> swallows every exception, so its result is the new database only.\<close>

definition log_usage :: "int option \<Rightarrow> string \<Rightarrow> int \<Rightarrow> db \<Rightarrow> db" where
  "log_usage api_key_id tool_name response_ms db =
     (if \<not> db_up db then db
      else if (case api_key_id of None \<Rightarrow> False | Some i \<Rightarrow> \<not> (\<exists>k \<in> set (api_keys db). k_id k = i)) then db
      else db\<lparr>usage_log := usage_log db @ [\<lparr>ul_api_key_id = api_key_id, ul_tool_name = tool_name, ul_response_ms = response_ms\<rparr>]\<rparr>)"

definition list_ssh_keys :: "(int \<times> string \<times> string \<times> int \<times> time) list io" where
  "list_ssh_keys = checkout (\<lambda>db.
     (Inr (map (\<lambda>k. (sk_id k, sk_name k, sk_public_key k, sk_key_version k, sk_created_at k))
        (sort_key sk_id (ssh_keys db))), db))"

definition get_ssh_key_by_id :: "int \<Rightarrow> ssh_key option io" where
  "get_ssh_key_by_id key_id = checkout (\<lambda>db. (Inr (tselect (\<lambda>k. sk_id k = key_id) (ssh_keys db)), db))"

definition save_ssh_key :: "time \<Rightarrow> string \<Rightarrow> string \<Rightarrow> string \<Rightarrow> int \<Rightarrow> int io" where
  "save_ssh_key now name public_key private_key_encrypted key_version = checkout (\<lambda>db.
     (Inr (next_ssh db),
      db\<lparr>ssh_keys := ssh_keys db @ [\<lparr>sk_id = next_ssh db, sk_name = name, sk_public_key = public_key,
            sk_private_key_encrypted = private_key_encrypted, sk_key_version = key_version, sk_created_at = now\<rparr>],
         next_ssh := next_ssh db + 1\<rparr>))"

definition delete_ssh_key :: "int \<Rightarrow> unit io" where
  "delete_ssh_key key_id = checkout (\<lambda>db. (Inr (), db\<lparr>ssh_keys := tdelete (\<lambda>k. sk_id k = key_id) (ssh_keys db)\<rparr>))"

definition create_feedback :: "time \<Rightarrow> string \<Rightarrow> int option \<Rightarrow> string \<Rightarrow> string option \<Rightarrow> int io" where
  "create_feedback now pattern_node_id api_key_id rating comment = checkout (\<lambda>db.
     if rating \<notin> {''up'', ''down''} \<or>
        (case api_key_id of None \<Rightarrow> False | Some i \<Rightarrow> \<not> (\<exists>k \<in> set (api_keys db). k_id k = i))
     then (Inl DbError, db)
     else (Inr (next_feedback db),
       db\<lparr>feedbacks := feedbacks db @ [\<lparr>fb_id = next_feedback db, fb_pattern_node_id = pattern_node_id,
             fb_api_key_id = api_key_id, fb_rating = rating, fb_comment = comment, fb_created_at = now\<rparr>],
          next_feedback := next_feedback db + 1\<rparr>))"

definition list_feedback :: "string \<Rightarrow> (int \<times> int option \<times> string \<times> string option \<times> time) list io" where
  "list_feedback pattern_node_id = checkout (\<lambda>db.
     (Inr (map (\<lambda>r. (fb_id r, fb_api_key_id r, fb_rating r, fb_comment r, fb_created_at r))
        (sort_key (\<lambda>r. - fb_created_at r) (filter (\<lambda>r. fb_pattern_node_id r = pattern_node_id) (feedbacks db)))), db))"

section \<open>Users\<close>

definition get_user_password_hash :: "string \<Rightarrow> string option io" where
  "get_user_password_hash username = checkout (\<lambda>db.
     (Inr (Option.bind (tselect (\<lambda>u. u_username u = username) (users db)) u_password_hash), db))"

definition set_user_password :: "time \<Rightarrow> string \<Rightarrow> string \<Rightarrow> bool \<Rightarrow> unit io" where
  "set_user_password now username password_hash is_admin = checkout (\<lambda>db.
     if tselect (\<lambda>u. u_username u = username) (users db) \<noteq> None
     then (Inr (), db\<lparr>users := tupdate (\<lambda>u. u_username u = username) (\<lambda>u. u\<lparr>u_password_hash := Some password_hash\<rparr>) (users db)\<rparr>)
     else (Inr (), db\<lparr>users := users db @ [\<lparr>u_id = next_user db, u_username = username, u_password_hash = Some password_hash,
               u_email = None, u_is_admin = is_admin, u_is_active = True, u_mfa_enabled = False, u_created_at = Some now,
               u_email_verified = False, u_oauth_provider = None, u_oauth_id = None\<rparr>],
            next_user := next_user db + 1\<rparr>))"

text \<open>DELETE with the cascades of the schema: API keys, sessions and TOTP secrets of the user go,
  password reset tokens stay (the table is created without a foreign key), and the usage and
  feedback of deleted keys lose their key.\<close>

definition cascade_keys :: "(int \<Rightarrow> bool) \<Rightarrow> db \<Rightarrow> db" where
  "cascade_keys gone db =
     (let dead = (\<lambda>i. case i of None \<Rightarrow> False | Some k \<Rightarrow> \<exists>r \<in> set (api_keys db). k_id r = k \<and> (case k_user_id r of None \<Rightarrow> False | Some u \<Rightarrow> gone u))
      in db\<lparr>api_keys := tdelete (\<lambda>k. case k_user_id k of None \<Rightarrow> False | Some u \<Rightarrow> gone u) (api_keys db),
            usage_log := tupdate (\<lambda>r. dead (ul_api_key_id r)) (\<lambda>r. r\<lparr>ul_api_key_id := None\<rparr>) (usage_log db),
            feedbacks := tupdate (\<lambda>r. dead (fb_api_key_id r)) (\<lambda>r. r\<lparr>fb_api_key_id := None\<rparr>) (feedbacks db)\<rparr>)"

definition delete_user :: "string \<Rightarrow> bool io" where
  "delete_user username = checkout (\<lambda>db.
     let gone = (\<lambda>i. \<exists>u \<in> set (users db). u_username u = username \<and> u_id u = i);
         db' = cascade_keys gone db
     in (Inr (0 < tcount (\<lambda>u. u_username u = username) (users db)),
         db'\<lparr>users := tdelete (\<lambda>u. u_username u = username) (users db),
             sessions := tdelete (\<lambda>s. gone (s_user_id s)) (sessions db),
             totps := tdelete (\<lambda>t. gone (tp_user_id t)) (totps db)\<rparr>))"

definition list_users :: "(string \<times> bool \<times> bool \<times> time option) list io" where
  "list_users = checkout (\<lambda>db.
     (Inr (map (\<lambda>u. (u_username u, u_is_admin u, u_is_active u, u_created_at u)) (sort_key u_username (users db))), db))"

text \<open>A user without the password hash.\<close>

record user_info =
  ui_id :: int
  ui_username :: string
  ui_email :: "string option"
  ui_is_admin :: bool
  ui_is_active :: bool
  ui_mfa_enabled :: bool
  ui_created_at :: "time option"

definition user_info_of :: "user \<Rightarrow> user_info" where
  "user_info_of u = \<lparr>ui_id = u_id u, ui_username = u_username u, ui_email = u_email u, ui_is_admin = u_is_admin u,
     ui_is_active = u_is_active u, ui_mfa_enabled = u_mfa_enabled u, ui_created_at = u_created_at u\<rparr>"

definition list_webui_users :: "user_info list io" where
  "list_webui_users = checkout (\<lambda>db. (Inr (map user_info_of (sort_key u_id (users db))), db))"

definition get_user_by_id :: "int \<Rightarrow> user_info option io" where
  "get_user_by_id user_id = checkout (\<lambda>db.
     (Inr (map_option user_info_of (tselect (\<lambda>u. u_id u = user_id) (users db))), db))"

definition field_of :: "string \<Rightarrow> user \<Rightarrow> pyval" where
  "field_of field u =
     (if field = ''is_admin'' then PBool (u_is_admin u)
      else if field = ''is_active'' then PBool (u_is_active u)
      else if field = ''username'' then PStr (u_username u)
      else if field = ''email'' then (case u_email u of None \<Rightarrow> PNone | Some e \<Rightarrow> PStr e)
      else PBool (u_mfa_enabled u))"

definition get_user_field :: "int \<Rightarrow> string \<Rightarrow> pyval io" where
  "get_user_field user_id field =
     (if field \<notin> {''is_admin'', ''is_active'', ''username'', ''email'', ''mfa_enabled''}
      then (\<lambda>db. (Inl (ValueErr (''get_user_field: field '' @ [CHR 0x27] @ field @ [CHR 0x27] @ '' not allowed'')), db))
      else checkout (\<lambda>db. (Inr (case tselect (\<lambda>u. u_id u = user_id) (users db) of
             None \<Rightarrow> PNone | Some u \<Rightarrow> field_of field u), db)))"

definition get_user_id_by_username :: "string \<Rightarrow> int option io" where
  "get_user_id_by_username username = checkout (\<lambda>db.
     (Inr (map_option u_id (tselect (\<lambda>u. u_username u = username) (users db))), db))"

definition get_user_password_hash_by_id :: "int \<Rightarrow> string option io" where
  "get_user_password_hash_by_id user_id = checkout (\<lambda>db.
     (Inr (Option.bind (tselect (\<lambda>u. u_id u = user_id) (users db)) u_password_hash), db))"

section \<open>The last admin\<close>

definition active_admin :: "user \<Rightarrow> bool" where
  "active_admin u \<longleftrightarrow> u_is_admin u \<and> u_is_active u"

text \<open>\<open>SELECT count(*) ... WHERE is_admin = TRUE AND is_active = TRUE AND id != %s\<close>.\<close>

definition other_admin_count :: "int \<Rightarrow> db \<Rightarrow> nat" where
  "other_admin_count user_id db = tcount (\<lambda>u. active_admin u \<and> u_id u \<noteq> user_id) (users db)"

definition set_user_active :: "int \<Rightarrow> bool \<Rightarrow> unit io" where
  "set_user_active user_id is_active = checkout (\<lambda>db.
     let row = tselect (\<lambda>u. u_id u = user_id) (users db);
         is_this_user_admin = (case row of None \<Rightarrow> False | Some u \<Rightarrow> u_is_admin u)
     in if \<not> is_active \<and> is_this_user_admin \<and> other_admin_count user_id db = 0
        then (Inl LastAdminProtectedError, db)
        else (Inr (), db\<lparr>users := tupdate (\<lambda>u. u_id u = user_id) (\<lambda>u. u\<lparr>u_is_active := is_active\<rparr>) (users db)\<rparr>))"

definition set_user_admin :: "int \<Rightarrow> bool \<Rightarrow> unit io" where
  "set_user_admin user_id is_admin = checkout (\<lambda>db.
     if \<not> is_admin \<and> other_admin_count user_id db = 0 then (Inl LastAdminProtectedError, db)
     else if tcount (\<lambda>u. u_id u = user_id) (users db) = 0 then (Inl UserNotFoundError, db)
     else (Inr (), db\<lparr>users := tupdate (\<lambda>u. u_id u = user_id) (\<lambda>u. u\<lparr>u_is_admin := is_admin\<rparr>) (users db)\<rparr>))"

definition assign_key_owner :: "int \<Rightarrow> int option \<Rightarrow> unit io" where
  "assign_key_owner key_id new_user_id = checkout (\<lambda>db.
     if (case new_user_id of None \<Rightarrow> False | Some u \<Rightarrow> tselect (\<lambda>r. u_id r = u) (users db) = None)
     then (Inl UserNotFoundError, db)
     else if tcount (\<lambda>k. k_id k = key_id) (api_keys db) = 0 then (Inl KeyNotFoundError, db)
     else (Inr (), db\<lparr>api_keys := tupdate (\<lambda>k. k_id k = key_id) (\<lambda>k. k\<lparr>k_user_id := new_user_id\<rparr>) (api_keys db)\<rparr>))"

definition count_api_keys_per_user :: "(int option, nat) pydict io" where
  "count_api_keys_per_user = checkout (\<lambda>db.
     let active = filter k_active (api_keys db)
     in (Inr (map (\<lambda>u. (u, tcount (\<lambda>k. k_user_id k = u) active)) (remdups (map k_user_id active))), db))"

definition revoke_all_sessions :: "int \<Rightarrow> unit io" where
  "revoke_all_sessions user_id = checkout (\<lambda>db.
     (Inr (), db\<lparr>sessions := tdelete (\<lambda>s. s_user_id s = user_id) (sessions db)\<rparr>))"

section \<open>Password reset tokens and the audit log\<close>

text \<open>The insert of the first form fails when the column \<open>token\<close> is required; the second form
  fills it with the hash.\<close>

definition create_password_reset_token :: "(string \<Rightarrow> string) \<Rightarrow> time \<Rightarrow> string \<Rightarrow> int \<Rightarrow> time \<Rightarrow> string io" where
  "create_password_reset_token sha256 now raw_token user_id ttl =
     (let token_hash = sha256 raw_token; expires_at = now + ttl;
          row = \<lparr>ev_token = None, ev_user_id = user_id, ev_purpose = ''password_reset'', ev_token_hash = Some token_hash,
                 ev_expires_at = expires_at, ev_used_at = None, ev_created_at = now\<rparr>
      in checkout (\<lambda>db.
           if \<not> db_token_required db then (Inr raw_token, db\<lparr>verifications := verifications db @ [row]\<rparr>)
           else if \<exists>v \<in> set (verifications db). ev_token v = Some token_hash then (Inl DbError, db)
           else (Inr raw_token, db\<lparr>verifications := verifications db @ [row\<lparr>ev_token := Some token_hash\<rparr>]\<rparr>)))"

definition reset_row :: "string \<Rightarrow> verification \<Rightarrow> bool" where
  "reset_row token_hash v \<longleftrightarrow> ev_token_hash v = Some token_hash \<and> ev_purpose v = ''password_reset''"

definition consume_password_reset_token :: "(string \<Rightarrow> string) \<Rightarrow> time \<Rightarrow> string \<Rightarrow> int option io" where
  "consume_password_reset_token sha256 now raw_token =
     (let token_hash = sha256 raw_token
      in checkout (\<lambda>db.
           case tselect (reset_row token_hash) (verifications db) of
             None \<Rightarrow> (Inr None, db)
           | Some v \<Rightarrow>
              (if ev_used_at v \<noteq> None then (Inl (ValueErr ''used''), db)
               else if ev_expires_at v < now then (Inl (ValueErr ''expired''), db)
               else (Inr (Some (ev_user_id v)),
                     db\<lparr>verifications := tupdate (\<lambda>r. ev_token_hash r = Some token_hash) (\<lambda>r. r\<lparr>ev_used_at := Some now\<rparr>) (verifications db)\<rparr>))))"

text \<open>\<open>log_audit\<close> and \<open>write_audit_log\<close>: best effort, the detail column is left out.\<close>

definition write_audit_log :: "string \<Rightarrow> string \<Rightarrow> string option \<Rightarrow> bool \<Rightarrow> db \<Rightarrow> db" where
  "write_audit_log actor action target success db =
     (if db_up db then db\<lparr>audit_log := audit_log db @ [\<lparr>au_actor = actor, au_action = action, au_target = target, au_success = success\<rparr>]\<rparr>
      else db)"

definition log_audit :: "int option \<Rightarrow> string \<Rightarrow> int option \<Rightarrow> db \<Rightarrow> db" where
  "log_audit actor_id action target_id =
     write_audit_log (case actor_id of None \<Rightarrow> ''system'' | Some i \<Rightarrow> show_int i) action (map_option show_int target_id) True"

end
