(* ===== verification/AuthDbProps.thy ===== *)
theory AuthDbProps
  imports AuthDb
begin

text \<open>
  Properties of \<open>AuthStore\<close>: the integrity of its tables under any sequence of operations,
  the protection of the last admin and its limits, permanent revocation of API keys, and
  single-use reset tokens. \<open>auth_op\<close> is one call of a state-changing method.
\<close>

section \<open>Calls\<close>

text \<open>The hash functions, which do not change while the program runs.\<close>

record hashes =
  h_key :: "string \<Rightarrow> string"
  h_legacy :: "string \<Rightarrow> string"
  h_sha256 :: "string \<Rightarrow> string"

datatype auth_op =
    CreateApiKey time string string "int option" "time option"
  | VerifyApiKey time string
  | DeactivateApiKey int
  | DeactivateApiKeyForUser int int
  | LogUsage "int option" string int
  | SaveSshKey time string string string int
  | DeleteSshKey int
  | CreateFeedback time string "int option" string "string option"
  | SetUserPassword time string string bool
  | DeleteUser string
  | SetUserActive int bool
  | SetUserAdmin int bool
  | AssignKeyOwner int "int option"
  | RevokeAllSessions int
  | CreateResetToken time string int time
  | ConsumeResetToken time string
  | LogAudit "int option" string "int option"

fun auth_step :: "hashes \<Rightarrow> auth_op \<Rightarrow> db \<Rightarrow> db" where
  "auth_step h (CreateApiKey now tok name uid ex) db = snd (create_api_key (h_key h) now tok name uid ex db)"
| "auth_step h (VerifyApiKey now raw) db = snd (verify_api_key (h_key h) (h_legacy h) now raw db)"
| "auth_step h (DeactivateApiKey k) db = snd (deactivate_api_key k db)"
| "auth_step h (DeactivateApiKeyForUser k u) db = snd (deactivate_api_key_for_user k u db)"
| "auth_step h (LogUsage k tool ms) db = log_usage k tool ms db"
| "auth_step h (SaveSshKey now n pub priv v) db = snd (save_ssh_key now n pub priv v db)"
| "auth_step h (DeleteSshKey k) db = snd (delete_ssh_key k db)"
| "auth_step h (CreateFeedback now p k r c) db = snd (create_feedback now p k r c db)"
| "auth_step h (SetUserPassword now n pw adm) db = snd (set_user_password now n pw adm db)"
| "auth_step h (DeleteUser n) db = snd (delete_user n db)"
| "auth_step h (SetUserActive u b) db = snd (set_user_active u b db)"
| "auth_step h (SetUserAdmin u b) db = snd (set_user_admin u b db)"
| "auth_step h (AssignKeyOwner k u) db = snd (assign_key_owner k u db)"
| "auth_step h (RevokeAllSessions u) db = snd (revoke_all_sessions u db)"
| "auth_step h (CreateResetToken now tok u ttl) db = snd (create_password_reset_token (h_sha256 h) now tok u ttl db)"
| "auth_step h (ConsumeResetToken now tok) db = snd (consume_password_reset_token (h_sha256 h) now tok db)"
| "auth_step h (LogAudit a act t) db = log_audit a act t db"

lemmas auth_ops = checkout_def create_api_key_def verify_api_key_def deactivate_api_key_def
  deactivate_api_key_for_user_def log_usage_def save_ssh_key_def delete_ssh_key_def create_feedback_def
  set_user_password_def delete_user_def set_user_active_def set_user_admin_def assign_key_owner_def
  revoke_all_sessions_def create_password_reset_token_def consume_password_reset_token_def
  log_audit_def write_audit_log_def cascade_keys_def Let_def

section \<open>Integrity of the tables\<close>

definition users_ok :: "db \<Rightarrow> bool" where
  "users_ok db \<longleftrightarrow> distinct (map u_id (users db)) \<and> distinct (map u_username (users db)) \<and>
     (\<forall>u \<in> set (users db). u_id u < next_user db)"

definition keys_ok :: "db \<Rightarrow> bool" where
  "keys_ok db \<longleftrightarrow> distinct (map k_id (api_keys db)) \<and> distinct (map k_hash (api_keys db)) \<and>
     (\<forall>k \<in> set (api_keys db). k_id k < next_key db)"

definition refs_ok :: "db \<Rightarrow> bool" where
  "refs_ok db \<longleftrightarrow> (\<forall>k \<in> set (api_keys db). \<forall>i. k_user_id k = Some i \<longrightarrow> i \<in> u_id ` set (users db)) \<and>
     (\<forall>s \<in> set (sessions db). s_user_id s \<in> u_id ` set (users db)) \<and>
     (\<forall>t \<in> set (totps db). tp_user_id t \<in> u_id ` set (users db))"

definition logs_ok :: "db \<Rightarrow> bool" where
  "logs_ok db \<longleftrightarrow> (\<forall>r \<in> set (usage_log db). \<forall>i. ul_api_key_id r = Some i \<longrightarrow> i \<in> k_id ` set (api_keys db)) \<and>
     (\<forall>r \<in> set (feedbacks db). (\<forall>i. fb_api_key_id r = Some i \<longrightarrow> i \<in> k_id ` set (api_keys db)) \<and> fb_rating r \<in> {''up'', ''down''})"

text \<open>The tokens in use, and the tables of SSH keys, feedback, tokens and sessions.\<close>

definition tokens :: "db \<Rightarrow> string list" where
  "tokens db = List.map_filter ev_token (verifications db)"

definition rows_ok :: "db \<Rightarrow> bool" where
  "rows_ok db \<longleftrightarrow> distinct (map sk_id (ssh_keys db)) \<and> (\<forall>k \<in> set (ssh_keys db). sk_id k < next_ssh db) \<and>
     distinct (map fb_id (feedbacks db)) \<and> (\<forall>r \<in> set (feedbacks db). fb_id r < next_feedback db) \<and>
     distinct (tokens db) \<and> distinct (map s_id (sessions db))"

definition auth_inv :: "db \<Rightarrow> bool" where
  "auth_inv db \<longleftrightarrow> users_ok db \<and> keys_ok db \<and> refs_ok db \<and> logs_ok db \<and> rows_ok db"

lemma map_tupdate_simp [table_simps]:
  "map u_id (tupdate p (\<lambda>u. u\<lparr>u_password_hash := a\<rparr>) us) = map u_id us"
  "map u_username (tupdate p (\<lambda>u. u\<lparr>u_password_hash := a\<rparr>) us) = map u_username us"
  "map u_id (tupdate p (\<lambda>u. u\<lparr>u_is_active := b\<rparr>) us) = map u_id us"
  "map u_username (tupdate p (\<lambda>u. u\<lparr>u_is_active := b\<rparr>) us) = map u_username us"
  "map u_id (tupdate p (\<lambda>u. u\<lparr>u_is_admin := b\<rparr>) us) = map u_id us"
  "map u_username (tupdate p (\<lambda>u. u\<lparr>u_is_admin := b\<rparr>) us) = map u_username us"
  "map k_id (tupdate q (\<lambda>k. k\<lparr>k_active := b\<rparr>) ks) = map k_id ks"
  "map k_hash (tupdate q (\<lambda>k. k\<lparr>k_active := b\<rparr>) ks) = map k_hash ks"
  "map k_user_id (tupdate q (\<lambda>k. k\<lparr>k_active := b\<rparr>) ks) = map k_user_id ks"
  "map k_id (tupdate q (\<lambda>k. k\<lparr>k_last_used_at := d\<rparr>) ks) = map k_id ks"
  "map k_hash (tupdate q (\<lambda>k. k\<lparr>k_last_used_at := d\<rparr>) ks) = map k_hash ks"
  "map k_user_id (tupdate q (\<lambda>k. k\<lparr>k_last_used_at := d\<rparr>) ks) = map k_user_id ks"
  "map k_id (tupdate q (\<lambda>k. k\<lparr>k_user_id := e\<rparr>) ks) = map k_id ks"
  "map k_hash (tupdate q (\<lambda>k. k\<lparr>k_user_id := e\<rparr>) ks) = map k_hash ks"
  by (simp_all add: map_tupdate)

lemma users_ok_step: "users_ok db \<Longrightarrow> users_ok (auth_step h op db)"
  by (cases op) (auto simp: auth_ops users_ok_def table_simps distinct_map_tdelete
      split: option.splits if_splits)

lemma keys_ok_step: "keys_ok db \<Longrightarrow> keys_ok (auth_step h op db)"
  by (cases op) (auto simp: auth_ops keys_ok_def table_simps distinct_map_tdelete
      split: option.splits if_splits)

text \<open>The ids of a table survive an update in place, so references stay valid.\<close>

lemma ids_tupdate [table_simps]:
  "u_id ` set (tupdate p (\<lambda>u. u\<lparr>u_password_hash := a\<rparr>) us) = u_id ` set us"
  "u_id ` set (tupdate p (\<lambda>u. u\<lparr>u_is_active := b\<rparr>) us) = u_id ` set us"
  "u_id ` set (tupdate p (\<lambda>u. u\<lparr>u_is_admin := b\<rparr>) us) = u_id ` set us"
  "k_id ` set (tupdate q (\<lambda>k. k\<lparr>k_active := b\<rparr>) ks) = k_id ` set ks"
  "k_id ` set (tupdate q (\<lambda>k. k\<lparr>k_last_used_at := d\<rparr>) ks) = k_id ` set ks"
  "k_id ` set (tupdate q (\<lambda>k. k\<lparr>k_user_id := e\<rparr>) ks) = k_id ` set ks"
  by (simp_all add: image_tupdate)

lemma refs_ok_delete:
  assumes "users_ok db" "refs_ok db" "db_up db"
  shows "refs_ok (snd (delete_user n db))"
proof -
  have keep: "i \<in> u_id ` set (tdelete (\<lambda>u. u_username u = n) (users db))"
    if "i \<in> u_id ` set (users db)" "\<not> (\<exists>u \<in> set (users db). u_username u = n \<and> u_id u = i)" for i
    using that by (auto simp: set_tdelete)
  show ?thesis using assms(2,3) keep
    by (auto simp: auth_ops refs_ok_def set_tdelete split: option.splits)
qed

lemma refs_ok_step: "users_ok db \<Longrightarrow> refs_ok db \<Longrightarrow> refs_ok (auth_step h op db)"
proof (cases op)
  case (DeleteUser n)
  assume "users_ok db" "refs_ok db"
  then show ?thesis using DeleteUser refs_ok_delete by (cases "db_up db") (auto simp: delete_user_def checkout_def)
next
  case (AssignKeyOwner k u)
  assume "refs_ok db"
  then show ?thesis using AssignKeyOwner
    by (auto simp: auth_ops refs_ok_def table_simps split: option.splits if_splits)
qed (auto simp: auth_ops refs_ok_def table_simps split: option.splits if_splits)

lemma logs_ok_delete:
  assumes "logs_ok db" "db_up db"
  shows "logs_ok (snd (delete_user n db))"
proof -
  let ?gone = "\<lambda>i. \<exists>u \<in> set (users db). u_username u = n \<and> u_id u = i"
  let ?p = "\<lambda>k. case k_user_id k of None \<Rightarrow> False | Some u \<Rightarrow> ?gone u"
  have keep: "i \<in> k_id ` set (tdelete ?p (api_keys db))"
    if "i \<in> k_id ` set (api_keys db)" "\<not> (\<exists>r \<in> set (api_keys db). k_id r = i \<and> ?p r)" for i
    using that by (auto simp: set_tdelete)
  show ?thesis using assms keep
    by (simp add: auth_ops logs_ok_def ball_tupdate split del: if_split) (auto split: if_splits)
qed

lemma logs_ok_step: "logs_ok db \<Longrightarrow> logs_ok (auth_step h op db)"
proof (cases op)
  case (DeleteUser n)
  assume "logs_ok db"
  then show ?thesis using DeleteUser logs_ok_delete by (cases "db_up db") (auto simp: delete_user_def checkout_def)
qed (auto simp: auth_ops logs_ok_def table_simps split: option.splits if_splits)

lemma map_filter_tupdate: "(\<And>r. f (g r) = f r) \<Longrightarrow> List.map_filter f (tupdate p g t) = List.map_filter f t"
  by (induction t) (simp_all add: tupdate_def List.map_filter_simps split: option.split)

lemma map_filter_append: "List.map_filter f (t @ u) = List.map_filter f t @ List.map_filter f u"
  by (simp add: List.map_filter_def)

lemma in_tokens: "x \<in> set (List.map_filter ev_token vs) \<longleftrightarrow> (\<exists>v \<in> set vs. ev_token v = Some x)"
  by (force simp: List.map_filter_def)

lemmas token_simps = tokens_def map_filter_tupdate map_filter_append in_tokens List.map_filter_simps

lemma rows_ok_step: "rows_ok db \<Longrightarrow> rows_ok (auth_step h op db)"
proof (cases op)
  case (DeleteUser n)
  assume "rows_ok db"
  then show ?thesis using DeleteUser
    by (auto simp: auth_ops rows_ok_def token_simps table_simps distinct_map_tdelete map_tupdate ball_tupdate split: if_splits)
next
  case (CreateFeedback now p k r c)
  assume "rows_ok db"
  then show ?thesis using CreateFeedback
    by (fastforce simp: auth_ops rows_ok_def token_simps split: option.splits)
next
  case (SaveSshKey now n pub priv v)
  assume "rows_ok db"
  then show ?thesis using SaveSshKey by (fastforce simp: auth_ops rows_ok_def token_simps)
qed (auto simp: auth_ops rows_ok_def token_simps table_simps distinct_map_tdelete set_tdelete split: option.splits if_splits)

lemma auth_inv_step: "auth_inv db \<Longrightarrow> auth_inv (auth_step h op db)"
  unfolding auth_inv_def using users_ok_step keys_ok_step refs_ok_step logs_ok_step rows_ok_step by blast

interpretation auth_store: op_store "auth_step h" "\<lambda>_. True" auth_inv for h
  by unfold_locales (rule auth_inv_step)

definition empty_db :: db where
  "empty_db = \<lparr>db_up = True, db_token_required = True, db_hash_required = True, users = [], api_keys = [], sessions = [], attempts = [],
     verifications = [], totps = [], usage_log = [], ssh_keys = [], feedbacks = [], audit_log = [],
     next_user = 1, next_key = 1, next_ssh = 1, next_feedback = 1\<rparr>"

lemma empty_db_inv: "auth_inv empty_db"
  by (simp add: auth_inv_def users_ok_def keys_ok_def refs_ok_def logs_ok_def rows_ok_def tokens_def List.map_filter_simps empty_db_def)

text \<open>
  C7. The tables stay consistent: after any sequence of calls of \<open>AuthStore\<close>, from an empty
  database, the ids of users, API keys, SSH keys and feedback are unique and below their
  counters, user names, key hashes, verification tokens and session ids are unique, every API
  key, session and TOTP secret belongs to an existing user or to none, every log and feedback
  row refers to an existing key or to none, and every rating is up or down.
\<close>

theorem auth_store_integrity:
  "auth_inv (fold (auth_step h) ops empty_db)"
  using auth_store.run [OF empty_db_inv] by (simp add: list_all_iff)

section \<open>The last admin\<close>

definition has_admin :: "db \<Rightarrow> bool" where
  "has_admin db \<longleftrightarrow> (\<exists>u \<in> set (users db). active_admin u)"

fun keeps_users :: "auth_op \<Rightarrow> bool" where
  "keeps_users (DeleteUser _) \<longleftrightarrow> False"
| "keeps_users _ \<longleftrightarrow> True"

lemma other_admin:
  "0 < other_admin_count i db \<longleftrightarrow> (\<exists>u \<in> set (users db). active_admin u \<and> u_id u \<noteq> i)"
  by (simp add: other_admin_count_def tcount_pos)

lemma admin_tupdate:
  assumes "\<exists>u \<in> set us. active_admin u \<and> \<not> p u"
  shows "\<exists>u \<in> set (tupdate p f us). active_admin u"
  using assms by (auto simp: tupdate_def)

lemma has_admin_step:
  assumes "keeps_users op" "users_ok db \<and> has_admin db"
  shows "users_ok (auth_step h op db) \<and> has_admin (auth_step h op db)"
proof
  show "users_ok (auth_step h op db)" using assms users_ok_step by blast
  have inv: "users_ok db" "has_admin db" using assms by auto
  show "has_admin (auth_step h op db)"
  proof (cases op)
    case (SetUserActive i b)
    show ?thesis
    proof (cases "snd (set_user_active i b db) = db")
      case True
      then show ?thesis using SetUserActive inv by simp
    next
      case False
      then have d: "snd (set_user_active i b db) = db\<lparr>users := tupdate (\<lambda>u. u_id u = i) (\<lambda>u. u\<lparr>u_is_active := b\<rparr>) (users db)\<rparr>"
        and g: "b \<or> other_admin_count i db \<noteq> 0 \<or> \<not> (case tselect (\<lambda>u. u_id u = i) (users db) of None \<Rightarrow> False | Some u \<Rightarrow> u_is_admin u)"
        by (auto simp: set_user_active_def checkout_def Let_def split: if_splits)
      obtain a where a: "a \<in> set (users db)" "active_admin a" using inv(2) by (auto simp: has_admin_def)
      have "\<exists>u \<in> set (tupdate (\<lambda>u. u_id u = i) (\<lambda>u. u\<lparr>u_is_active := b\<rparr>) (users db)). active_admin u"
      proof (cases "u_id a = i \<and> \<not> b")
        case True
        then have "tselect (\<lambda>u. u_id u = i) (users db) = Some a"
          using a inv(1) by (intro tselect_key) (auto simp: users_ok_def)
        then have "other_admin_count i db \<noteq> 0" using g True a(2) by (simp add: active_admin_def)
        then show ?thesis by (intro admin_tupdate) (simp add: other_admin)
      next
        case False
        then show ?thesis using a unfolding ball_tupdate by (intro bexI [of _ a]) (auto simp: active_admin_def)
      qed
      then show ?thesis by (simp add: SetUserActive d has_admin_def)
    qed
  next
    case (SetUserAdmin i b)
    show ?thesis
    proof (cases "snd (set_user_admin i b db) = db")
      case True
      then show ?thesis using SetUserAdmin inv by simp
    next
      case False
      then have d: "snd (set_user_admin i b db) = db\<lparr>users := tupdate (\<lambda>u. u_id u = i) (\<lambda>u. u\<lparr>u_is_admin := b\<rparr>) (users db)\<rparr>"
        and g: "b \<or> other_admin_count i db \<noteq> 0"
        by (auto simp: set_user_admin_def checkout_def split: if_splits)
      have "\<exists>u \<in> set (tupdate (\<lambda>u. u_id u = i) (\<lambda>u. u\<lparr>u_is_admin := b\<rparr>) (users db)). active_admin u"
      proof (cases b)
        case True
        then show ?thesis using inv(2) unfolding ball_tupdate has_admin_def by (auto simp: active_admin_def)
      next
        case False
        then show ?thesis using g by (intro admin_tupdate) (simp add: other_admin)
      qed
      then show ?thesis by (simp add: SetUserAdmin d has_admin_def)
    qed
  next
    case (SetUserPassword now n pw adm)
    then show ?thesis using inv(2)
      by (auto simp: auth_ops has_admin_def ball_tupdate active_admin_def)
  qed (use assms in \<open>auto simp: auth_ops has_admin_def split: option.splits\<close>)
qed

interpretation admin_guard: op_store "auth_step h" keeps_users "\<lambda>db. users_ok db \<and> has_admin db" for h
  by unfold_locales (rule has_admin_step)

text \<open>
  C1. The last active admin cannot be removed: from a consistent database with an active
  admin, no sequence of calls of \<open>AuthStore\<close> one after the other, other than deleting users,
  reaches one without. Demotion and deactivation refuse exactly when they would take the last
  one away, and then leave the database as it is.
\<close>

theorem last_admin_kept:
  assumes "auth_inv db" "has_admin db" "list_all keeps_users ops"
  shows "has_admin (fold (auth_step h) ops db) \<and>
    (fst (set_user_admin i False db) = Inl LastAdminProtectedError \<longleftrightarrow>
       db_up db \<and> \<not> (\<exists>u \<in> set (users db). active_admin u \<and> u_id u \<noteq> i)) \<and>
    (fst (set_user_admin i False db) \<noteq> Inr () \<longrightarrow> snd (set_user_admin i False db) = db) \<and>
    (fst (set_user_active i False db) = Inl LastAdminProtectedError \<longleftrightarrow>
       db_up db \<and> (\<exists>u \<in> set (users db). active_admin u \<and> u_id u = i) \<and> \<not> (\<exists>u \<in> set (users db). active_admin u \<and> u_id u \<noteq> i)) \<and>
    (fst (set_user_active i False db) \<noteq> Inr () \<longrightarrow> snd (set_user_active i False db) = db) \<and>
    fst (set_user_admin i True db) \<noteq> Inl LastAdminProtectedError \<and> fst (set_user_active i True db) \<noteq> Inl LastAdminProtectedError"
proof (intro conjI)
  have other: "other_admin_count i db = 0 \<longleftrightarrow> \<not> (\<exists>u \<in> set (users db). active_admin u \<and> u_id u \<noteq> i)"
    using other_admin [of i db] by auto
  have ids: "distinct (map u_id (users db))" using assms(1) by (simp add: auth_inv_def users_ok_def)
  have row: "(case tselect (\<lambda>u. u_id u = i) (users db) of None \<Rightarrow> False | Some u \<Rightarrow> u_is_admin u) \<longleftrightarrow>
      (\<exists>u \<in> set (users db). u_id u = i \<and> u_is_admin u)"
    using tselect_key [of u_id "users db"] ids by (auto simp: tselect_None split: option.split dest: tselect_Some)
  show "has_admin (fold (auth_step h) ops db)"
    using admin_guard.run [of db ops h] assms by (simp add: auth_inv_def)
  show "fst (set_user_admin i False db) = Inl LastAdminProtectedError \<longleftrightarrow>
       db_up db \<and> \<not> (\<exists>u \<in> set (users db). active_admin u \<and> u_id u \<noteq> i)"
    using other by (auto simp: set_user_admin_def checkout_def)
  show "fst (set_user_admin i False db) \<noteq> Inr () \<longrightarrow> snd (set_user_admin i False db) = db"
    by (auto simp: set_user_admin_def checkout_def)
  have "\<not> (\<exists>u \<in> set (users db). active_admin u \<and> u_id u \<noteq> i) \<Longrightarrow>
      (\<exists>u \<in> set (users db). u_id u = i \<and> u_is_admin u) \<longleftrightarrow> (\<exists>u \<in> set (users db). active_admin u \<and> u_id u = i)"
    using assms(2) by (auto simp: has_admin_def active_admin_def)
  then show "fst (set_user_active i False db) = Inl LastAdminProtectedError \<longleftrightarrow>
       db_up db \<and> (\<exists>u \<in> set (users db). active_admin u \<and> u_id u = i) \<and> \<not> (\<exists>u \<in> set (users db). active_admin u \<and> u_id u \<noteq> i)"
    unfolding set_user_active_def checkout_def Let_def row other by auto
  show "fst (set_user_active i False db) \<noteq> Inr () \<longrightarrow> snd (set_user_active i False db) = db"
    by (auto simp: set_user_active_def checkout_def Let_def)
qed (auto simp: set_user_admin_def set_user_active_def checkout_def)

definition ex_hashes :: hashes where
  "ex_hashes = \<lparr>h_key = (\<lambda>s. ''hmac:'' @ s), h_legacy = (\<lambda>s. ''sha:'' @ s), h_sha256 = (\<lambda>s. ''sha:'' @ s)\<rparr>"

definition ex_db :: db where
  "ex_db = fold (auth_step ex_hashes) [SetUserPassword 0 ''ann'' ''h1'' True, SetUserPassword 0 ''bob'' ''h2'' True] empty_db"

lemma ex_db_inv: "auth_inv ex_db"
  unfolding ex_db_def by (rule auth_store.run [OF empty_db_inv]) simp

theorem last_admin_kept_witness:
  "has_admin ex_db \<and> has_admin (fold (auth_step ex_hashes) [SetUserAdmin 1 False, SetUserActive 2 False] ex_db) \<and>
   fst (set_user_active 2 False (auth_step ex_hashes (SetUserAdmin 1 False) ex_db)) = Inl LastAdminProtectedError"
proof (intro conjI)
  show a: "has_admin ex_db" by code_simp
  show "has_admin (fold (auth_step ex_hashes) [SetUserAdmin 1 False, SetUserActive 2 False] ex_db)"
    using last_admin_kept [OF ex_db_inv a, of "[SetUserAdmin 1 False, SetUserActive 2 False]"] by simp
  show "fst (set_user_active 2 False (auth_step ex_hashes (SetUserAdmin 1 False) ex_db)) = Inl LastAdminProtectedError"
    by code_simp
qed

section \<open>API keys\<close>

text \<open>A key that is off: its id is taken and no row with it is active.\<close>

definition key_dead :: "int \<Rightarrow> db \<Rightarrow> bool" where
  "key_dead i db \<longleftrightarrow> i < next_key db \<and> (\<forall>k \<in> set (api_keys db). k_id k = i \<longrightarrow> \<not> k_active k)"

lemma key_dead_step: "key_dead i db \<Longrightarrow> key_dead i (auth_step h op db)"
  by (cases op) (auto simp: auth_ops key_dead_def table_simps split: option.splits if_splits)

interpretation dead_key: op_store "auth_step h" "\<lambda>_. True" "key_dead i" for h i
  by unfold_locales (rule key_dead_step)

lemma verify_Some:
  "fst (verify_api_key hk hl now raw db) = Inr (Some i) \<Longrightarrow> \<exists>k \<in> set (api_keys db). k_id k = i \<and> key_live now k"
  by (auto simp: verify_api_key_def checkout_def Let_def split: option.splits if_splits dest: tselect_Some)

text \<open>
  C8. The life of an API key. A key that \<open>create_api_key\<close> returned is accepted, as that key,
  exactly until its expiry. Once it is deactivated no sequence of calls brings it back: no raw
  key verifies as its id again, at any time.
\<close>

theorem api_key_life:
  assumes "auth_inv db" "create_api_key (h_key h) now token name uid expires db = (Inr (raw, prefix, i), db1)"
  shows "(fst (verify_api_key (h_key h) (h_legacy h) t raw db1) = Inr (Some i) \<longleftrightarrow>
       (case expires of None \<Rightarrow> True | Some e \<Rightarrow> t < e)) \<and>
    fst (verify_api_key (h_key h) (h_legacy h) t' raw' (fold (auth_step h) ops (snd (deactivate_api_key i (fold (auth_step h) ops1 db1)))))
       \<noteq> Inr (Some i)"
proof
  have up: "db_up db" using assms(2) by (simp add: create_api_key_def checkout_def Let_def split: if_splits)
  define k where "k = \<lparr>k_id = i, k_name = name, k_hash = h_key h raw, k_prefix = prefix, k_active = True,
    k_created_at = now, k_last_used_at = None, k_user_id = uid, k_expires_at = expires\<rparr>"
  have db1: "api_keys db1 = api_keys db @ [k]" "next_key db1 = i + 1" "db_up db1" "i = next_key db"
    and fresh: "\<forall>k' \<in> set (api_keys db). k_hash k' \<noteq> h_key h raw"
    using assms(2) up by (auto simp: create_api_key_def checkout_def Let_def k_def split: if_splits)
  have ids: "\<forall>k' \<in> set (api_keys db). k_id k' \<noteq> i"
    using assms(1) db1(4) by (auto simp: auth_inv_def keys_ok_def)
  have sel: "tselect (\<lambda>r. k_hash r = h_key h raw \<and> key_live t r) (api_keys db1) = (if key_live t k then Some k else None)"
  proof -
    have none: "tselect (\<lambda>r. k_hash r = h_key h raw \<and> key_live t r) (api_keys db) = None"
      unfolding tselect_None using fresh by blast
    have "k_hash k = h_key h raw" by (simp add: k_def)
    then show ?thesis unfolding db1 tselect_append none by (simp add: tselect_Cons)
  qed
  have live: "key_live t k \<longleftrightarrow> (case expires of None \<Rightarrow> True | Some e \<Rightarrow> t < e)"
    by (simp add: key_live_def k_def)
  have notlive: "fst (verify_api_key (h_key h) (h_legacy h) t raw db1) = Inr (Some i) \<Longrightarrow> key_live t k"
    using verify_Some [of "h_key h" "h_legacy h" t raw db1 i] ids by (auto simp: db1)
  have "key_live t k \<Longrightarrow> fst (verify_api_key (h_key h) (h_legacy h) t raw db1) = Inr (Some i)"
    using sel db1(3) by (simp add: verify_api_key_def checkout_def k_def)
  then show "fst (verify_api_key (h_key h) (h_legacy h) t raw db1) = Inr (Some i) \<longleftrightarrow> (case expires of None \<Rightarrow> True | Some e \<Rightarrow> t < e)"
    using notlive live by blast
  have mono: "i < next_key d \<Longrightarrow> i < next_key (auth_step h op d)" for d op
    by (cases op) (auto simp: auth_ops split: option.splits if_splits)
  have "i < next_key (fold (auth_step h) ops1 db1)"
  proof -
    have "i < next_key d \<Longrightarrow> i < next_key (fold (auth_step h) os d)" for d os
      by (induction os arbitrary: d) (auto simp: mono)
    then show ?thesis by (simp add: db1)
  qed
  moreover have up2: "db_up (auth_step h op d) = db_up d" for op d
    by (cases op) (auto simp: auth_ops split: option.splits if_splits)
  moreover have "db_up (fold (auth_step h) os d) = db_up d" for os d
    by (induction os arbitrary: d) (auto simp: up2)
  ultimately have "key_dead i (snd (deactivate_api_key i (fold (auth_step h) ops1 db1)))"
    by (auto simp: key_dead_def deactivate_api_key_def checkout_def table_simps db1)
  then have dead: "key_dead i (fold (auth_step h) ops (snd (deactivate_api_key i (fold (auth_step h) ops1 db1))))"
    by (rule dead_key.run) simp
  show "fst (verify_api_key (h_key h) (h_legacy h) t' raw' (fold (auth_step h) ops (snd (deactivate_api_key i (fold (auth_step h) ops1 db1)))))
       \<noteq> Inr (Some i)"
  proof
    assume "fst (verify_api_key (h_key h) (h_legacy h) t' raw' (fold (auth_step h) ops (snd (deactivate_api_key i (fold (auth_step h) ops1 db1))))) = Inr (Some i)"
    from verify_Some [OF this] dead show False by (auto simp: key_dead_def key_live_def)
  qed
qed

theorem api_key_life_witness:
  "fst (verify_api_key (h_key ex_hashes) (h_legacy ex_hashes) 5 ''osm_secret''
     (snd (create_api_key (h_key ex_hashes) 1 ''secret'' ''laptop'' (Some 1) (Some 10) ex_db))) = Inr (Some 1)"
proof -
  have "create_api_key (h_key ex_hashes) 1 ''secret'' ''laptop'' (Some 1) (Some 10) ex_db
    = (Inr (''osm_secret'', ''osm_secret'', 1), snd (create_api_key (h_key ex_hashes) 1 ''secret'' ''laptop'' (Some 1) (Some 10) ex_db))"
    by (rule prod_eqI) (code_simp, simp)
  from api_key_life [OF ex_db_inv this, of 5] show ?thesis by simp
qed

end
