(* ===== verification/AuthConcurrency.thy ===== *)
theory AuthConcurrency
  imports AuthDbProps
begin

text \<open>
  Concurrent calls of \<open>set_user_admin(uid, False)\<close> (\<open>src/db/auth_registry.py\<close>) as the
  transactions they are, and of \<open>consume_password_reset_token\<close> as its two autocommitted
  statements. PostgreSQL runs them at READ COMMITTED: a statement sees what is committed when
  it starts, SELECT ... FOR UPDATE waits for the row lock of another transaction, and a lock is
  held to the end of its transaction.
\<close>

section \<open>Demotions\<close>

datatype phase = Started | Locked | Counted nat | Updated nat | Committed | RolledBack

text \<open>The committed table, and for each transaction its target user and its phase.\<close>

record conf =
  cf_db :: db
  cf_target :: "nat \<Rightarrow> int"
  cf_phase :: "nat \<Rightarrow> phase"

definition holds_lock :: "conf \<Rightarrow> nat \<Rightarrow> int \<Rightarrow> bool" where
  "holds_lock c t i \<longleftrightarrow> cf_target c t = i \<and> cf_phase c t \<notin> {Started, Committed, RolledBack}"

definition goto_phase :: "nat \<Rightarrow> phase \<Rightarrow> conf \<Rightarrow> conf" where
  "goto_phase t p c = c\<lparr>cf_phase := (cf_phase c)(t := p)\<rparr>"

inductive demote_step :: "conf \<Rightarrow> conf \<Rightarrow> bool" where
  lock: "cf_phase c t = Started \<Longrightarrow> \<not> (\<exists>t'. t' \<noteq> t \<and> holds_lock c t' (cf_target c t)) \<Longrightarrow>
    demote_step c (goto_phase t Locked c)"
| count: "cf_phase c t = Locked \<Longrightarrow> demote_step c (goto_phase t (Counted (other_admin_count (cf_target c t) (cf_db c))) c)"
| refuse: "cf_phase c t = Counted 0 \<Longrightarrow> demote_step c (goto_phase t RolledBack c)"
| update_row: "cf_phase c t = Counted (Suc n) \<Longrightarrow>
    demote_step c (goto_phase t (Updated (tcount (\<lambda>u. u_id u = cf_target c t) (users (cf_db c)))) c)"
| not_found: "cf_phase c t = Updated 0 \<Longrightarrow> demote_step c (goto_phase t RolledBack c)"
| commit: "cf_phase c t = Updated (Suc n) \<Longrightarrow>
    demote_step c (goto_phase t Committed (c\<lparr>cf_db := (cf_db c)\<lparr>users := tupdate (\<lambda>u. u_id u = cf_target c t)
      (\<lambda>u. u\<lparr>u_is_admin := False\<rparr>) (users (cf_db c))\<rparr>\<rparr>))"

abbreviation demote_run :: "conf \<Rightarrow> conf \<Rightarrow> bool" where
  "demote_run \<equiv> demote_step\<^sup>*\<^sup>*"

inductive_cases demote_stepE: "demote_step c c'"

lemma run_snoc: "demote_run c c' \<Longrightarrow> demote_step c' c'' \<Longrightarrow> demote_run c c''"
  by (rule rtranclp.rtrancl_into_rtrancl)

lemma target_step: "demote_step c c' \<Longrightarrow> cf_target c' = cf_target c"
  by (auto elim!: demote_stepE simp: goto_phase_def)

text \<open>Without interleaving a transaction does what \<open>set_user_admin\<close> does.\<close>

lemma serial_commit:
  assumes "cf_phase c t = Started" "\<not> (\<exists>t'. t' \<noteq> t \<and> holds_lock c t' (cf_target c t))" "db_up (cf_db c)"
    "fst (set_user_admin (cf_target c t) False (cf_db c)) = Inr ()"
  shows "demote_run c (goto_phase t Committed (c\<lparr>cf_db := snd (set_user_admin (cf_target c t) False (cf_db c))\<rparr>))"
proof -
  let ?i = "cf_target c t"
  have a: "0 < other_admin_count ?i (cf_db c)" "0 < tcount (\<lambda>u. u_id u = ?i) (users (cf_db c))"
    using assms(3,4) by (auto simp: set_user_admin_def checkout_def split: if_splits)
  then obtain m n where mn: "other_admin_count ?i (cf_db c) = Suc m" "tcount (\<lambda>u. u_id u = ?i) (users (cf_db c)) = Suc n"
    by (metis gr0_conv_Suc)
  have 1: "demote_run c (goto_phase t Locked c)" using lock [OF assms(1,2)] by blast
  have 2: "demote_run c (goto_phase t (Counted (Suc m)) c)"
    using run_snoc [OF 1 count [of _ t]] mn by (simp add: goto_phase_def)
  have 3: "demote_run c (goto_phase t (Updated (Suc n)) c)"
    using run_snoc [OF 2 update_row [of _ t m]] mn by (simp add: goto_phase_def)
  show ?thesis
    using run_snoc [OF 3 commit [of _ t n]] assms(3) a
    by (simp add: goto_phase_def set_user_admin_def checkout_def)
qed

text \<open>
  Row locks do not protect the last admin. From the configuration in which an active
  admin demotes a second one while the second demotes the first, and nobody else is an active
  admin, there is a run in which both transactions commit and no admin is left: each locks only
  its own target and counts before the other commits. Whichever runs alone is safe: the other is
  then refused.
\<close>

theorem concurrent_demotions:
  assumes "u_id a \<noteq> u_id b" "active_admin a" "active_admin b"
    and "users db = [a, b]" "db_up db"
    and "c = \<lparr>cf_db = db, cf_target = (\<lambda>t. if t = 0 then u_id a else u_id b), cf_phase = (\<lambda>_. Started)\<rparr>"
  shows "(\<exists>c'. demote_run c c' \<and> cf_phase c' 0 = Committed \<and> cf_phase c' 1 = Committed \<and> \<not> has_admin (cf_db c')) \<and>
    fst (set_user_admin (u_id b) False (snd (set_user_admin (u_id a) False db))) = Inl LastAdminProtectedError"
proof -
  let ?f = "\<lambda>u :: user. u\<lparr>u_is_admin := False\<rparr>"
  let ?ph = "\<lambda>p q. (\<lambda>_. Started)(0 := p, Suc 0 := q)"
  let ?tg = "\<lambda>t. if t = 0 then u_id a else u_id b"
  let ?c = "\<lambda>p q us. \<lparr>cf_db = db\<lparr>users := us\<rparr>, cf_target = ?tg, cf_phase = ?ph p q\<rparr>"
  have c0: "c = ?c Started Started [a, b]" using assms(4,6) by (simp add: fun_eq_iff)
  have cnt: "other_admin_count (u_id a) (db\<lparr>users := [a, b]\<rparr>) = Suc 0" "other_admin_count (u_id b) (db\<lparr>users := [a, b]\<rparr>) = Suc 0"
    "tcount (\<lambda>u. u_id u = u_id a) [a, b] = Suc 0" "tcount (\<lambda>u. u_id u = u_id b) [?f a, b] = Suc 0"
    using assms(1-3) by (auto simp: other_admin_count_def tcount_def)
  have "demote_step (?c Started Started [a, b]) (?c Locked Started [a, b])"
    using lock [of "?c Started Started [a, b]" 0] by (auto simp: holds_lock_def goto_phase_def fun_upd_twist)
  moreover have "demote_step (?c Locked Started [a, b]) (?c Locked Locked [a, b])"
    using lock [of "?c Locked Started [a, b]" "Suc 0"] assms(1) by (auto simp: holds_lock_def goto_phase_def)
  moreover have "demote_step (?c Locked Locked [a, b]) (?c (Counted (Suc 0)) Locked [a, b])"
    using count [of "?c Locked Locked [a, b]" 0] cnt by (simp add: goto_phase_def fun_upd_twist)
  moreover have "demote_step (?c (Counted (Suc 0)) Locked [a, b]) (?c (Counted (Suc 0)) (Counted (Suc 0)) [a, b])"
    using count [of "?c (Counted (Suc 0)) Locked [a, b]" "Suc 0"] cnt by (simp add: goto_phase_def)
  moreover have "demote_step (?c (Counted (Suc 0)) (Counted (Suc 0)) [a, b]) (?c (Updated (Suc 0)) (Counted (Suc 0)) [a, b])"
    using update_row [of "?c (Counted (Suc 0)) (Counted (Suc 0)) [a, b]" 0] cnt by (simp add: goto_phase_def fun_upd_twist)
  moreover have "demote_step (?c (Updated (Suc 0)) (Counted (Suc 0)) [a, b]) (?c Committed (Counted (Suc 0)) [?f a, b])"
    using commit [of "?c (Updated (Suc 0)) (Counted (Suc 0)) [a, b]" 0] assms(1)
    by (simp add: goto_phase_def fun_upd_twist tupdate_def)
  moreover have "demote_step (?c Committed (Counted (Suc 0)) [?f a, b]) (?c Committed (Updated (Suc 0)) [?f a, b])"
    using update_row [of "?c Committed (Counted (Suc 0)) [?f a, b]" "Suc 0"] cnt by (simp add: goto_phase_def)
  moreover have "demote_step (?c Committed (Updated (Suc 0)) [?f a, b]) (?c Committed Committed [?f a, ?f b])"
    using commit [of "?c Committed (Updated (Suc 0)) [?f a, b]" "Suc 0"] assms(1)
    by (simp add: goto_phase_def tupdate_def)
  ultimately have "demote_run c (?c Committed Committed [?f a, ?f b])"
    unfolding c0 by (meson converse_rtranclp_into_rtranclp rtranclp.rtrancl_refl)
  moreover have "\<not> has_admin (db\<lparr>users := [?f a, ?f b]\<rparr>)" by (simp add: has_admin_def active_admin_def)
  moreover have "fst (set_user_admin (u_id b) False (snd (set_user_admin (u_id a) False db))) = Inl LastAdminProtectedError"
    using assms(1-5) by (auto simp: set_user_admin_def checkout_def other_admin_count_def tcount_def tupdate_def active_admin_def)
  ultimately show ?thesis by (intro conjI exI [of _ "?c Committed Committed [?f a, ?f b]"]) simp_all
qed

theorem concurrent_demotions_witness:
  "\<exists>c'. demote_run \<lparr>cf_db = ex_db, cf_target = (\<lambda>t. if t = 0 then 1 else 2), cf_phase = (\<lambda>_. Started)\<rparr> c' \<and>
     \<not> has_admin (cf_db c')"
proof -
  let ?u = "\<lambda>i n h. \<lparr>u_id = i, u_username = n, u_password_hash = Some h, u_email = None, u_is_admin = True,
     u_is_active = True, u_mfa_enabled = False, u_created_at = Some 0,
     u_email_verified = False, u_oauth_provider = None, u_oauth_id = None\<rparr>"
  have us: "users ex_db = [?u 1 ''ann'' ''h1'', ?u 2 ''bob'' ''h2'']" by code_simp
  have up: "db_up ex_db" by code_simp
  have pre: "u_id (?u 1 ''ann'' ''h1'') \<noteq> u_id (?u 2 ''bob'' ''h2'')" "active_admin (?u 1 ''ann'' ''h1'')"
    "active_admin (?u 2 ''bob'' ''h2'')"
    by (simp_all add: active_admin_def)
  from concurrent_demotions [OF pre us up refl] show ?thesis by (simp only: user.select_convs) blast
qed

section \<open>Reset tokens\<close>

text \<open>
  A concurrent consumer of a token: it has read the row (with what it saw of it) and then
  marks it as used. Both statements commit on their own.
\<close>

datatype consumer = Idle | Saw verification | Won int | Lost exc | Absent

record token_conf =
  tc_db :: db
  tc_consumer :: "nat \<Rightarrow> consumer"

definition set_consumer :: "nat \<Rightarrow> consumer \<Rightarrow> token_conf \<Rightarrow> token_conf" where
  "set_consumer t p c = c\<lparr>tc_consumer := (tc_consumer c)(t := p)\<rparr>"

inductive consume_step :: "string \<Rightarrow> time \<Rightarrow> token_conf \<Rightarrow> token_conf \<Rightarrow> bool" for token_hash now where
  read_row: "tc_consumer c t = Idle \<Longrightarrow> tselect (reset_row token_hash) (verifications (tc_db c)) = Some v \<Longrightarrow>
    consume_step token_hash now c (set_consumer t (if ev_used_at v \<noteq> None then Lost (ValueErr ''used'')
       else if ev_expires_at v < now then Lost (ValueErr ''expired'') else Saw v) c)"
| read_none: "tc_consumer c t = Idle \<Longrightarrow> tselect (reset_row token_hash) (verifications (tc_db c)) = None \<Longrightarrow>
    consume_step token_hash now c (set_consumer t Absent c)"
| mark: "tc_consumer c t = Saw v \<Longrightarrow>
    consume_step token_hash now c (set_consumer t (Won (ev_user_id v)) (c\<lparr>tc_db := (tc_db c)\<lparr>verifications :=
      tupdate (\<lambda>r. ev_token_hash r = Some token_hash) (\<lambda>r. r\<lparr>ev_used_at := Some now\<rparr>) (verifications (tc_db c))\<rparr>\<rparr>))"

text \<open>
  The reset token is not single-use under concurrency: whenever a token is valid, two
  concurrent requests can both consume it, because the check and the mark are two statements
  without a lock. One after the other, the second is refused as used.
\<close>

theorem token_consumed_twice:
  assumes "tselect (reset_row h) (verifications db) = Some v" "ev_used_at v = None" "now \<le> ev_expires_at v" "db_up db"
  shows "(\<exists>c'. (consume_step h now)\<^sup>*\<^sup>* \<lparr>tc_db = db, tc_consumer = (\<lambda>_. Idle)\<rparr> c' \<and>
      tc_consumer c' 0 = Won (ev_user_id v) \<and> tc_consumer c' 1 = Won (ev_user_id v)) \<and>
    (sha256 raw = h \<longrightarrow>
      fst (consume_password_reset_token sha256 now raw (snd (consume_password_reset_token sha256 now raw db))) = Inl (ValueErr ''used''))"
proof
  let ?p = "reset_row h"
  let ?mark = "\<lambda>d. d\<lparr>verifications := tupdate (\<lambda>r. ev_token_hash r = Some h) (\<lambda>r. r\<lparr>ev_used_at := Some now\<rparr>) (verifications d)\<rparr>"
  let ?c = "\<lambda>d p q. \<lparr>tc_db = d, tc_consumer = (\<lambda>_. Idle)(0 := p, Suc 0 := q)\<rparr>"
  have "consume_step h now (?c db Idle Idle) (?c db (Saw v) Idle)"
    using read_row [of "?c db Idle Idle" 0 h v now] assms(1-3) by (simp add: set_consumer_def fun_upd_twist)
  moreover have "consume_step h now (?c db (Saw v) Idle) (?c db (Saw v) (Saw v))"
    using read_row [of "?c db (Saw v) Idle" "Suc 0" h v now] assms(1-3) by (simp add: set_consumer_def)
  moreover have "consume_step h now (?c db (Saw v) (Saw v)) (?c (?mark db) (Won (ev_user_id v)) (Saw v))"
    using mark [of "?c db (Saw v) (Saw v)" 0 v h now] by (simp add: set_consumer_def fun_upd_twist)
  moreover have "consume_step h now (?c (?mark db) (Won (ev_user_id v)) (Saw v)) (?c (?mark (?mark db)) (Won (ev_user_id v)) (Won (ev_user_id v)))"
    using mark [of "?c (?mark db) (Won (ev_user_id v)) (Saw v)" "Suc 0" v h now] by (simp add: set_consumer_def)
  ultimately have "(consume_step h now)\<^sup>*\<^sup>* (?c db Idle Idle) (?c (?mark (?mark db)) (Won (ev_user_id v)) (Won (ev_user_id v)))"
    by (meson converse_rtranclp_into_rtranclp rtranclp.rtrancl_refl)
  moreover have "?c db Idle Idle = \<lparr>tc_db = db, tc_consumer = (\<lambda>_. Idle)\<rparr>" by (simp add: fun_eq_iff)
  ultimately show "\<exists>c'. (consume_step h now)\<^sup>*\<^sup>* \<lparr>tc_db = db, tc_consumer = (\<lambda>_. Idle)\<rparr> c' \<and>
      tc_consumer c' 0 = Won (ev_user_id v) \<and> tc_consumer c' 1 = Won (ev_user_id v)"
    by (intro exI [of _ "?c (?mark (?mark db)) (Won (ev_user_id v)) (Won (ev_user_id v))"]) simp
  have "ev_token_hash v = Some h" using tselect_Some [OF assms(1)] by (simp add: reset_row_def)
  moreover have "tselect ?p (verifications (?mark db)) = map_option (\<lambda>r. if ev_token_hash r = Some h then r\<lparr>ev_used_at := Some now\<rparr> else r) (tselect ?p (verifications db))"
    by (simp add: tselect_tupdate reset_row_def)
  ultimately show "sha256 raw = h \<longrightarrow>
      fst (consume_password_reset_token sha256 now raw (snd (consume_password_reset_token sha256 now raw db))) = Inl (ValueErr ''used'')"
    using assms by (auto simp: consume_password_reset_token_def checkout_def not_less)
qed

theorem token_consumed_twice_witness:
  "\<exists>db. db_up db \<and> fst (consume_password_reset_token (\<lambda>s. ''H'' @ s) 2 ''raw'' db) = Inr (Some 1) \<and>
    (\<exists>c'. (consume_step ''Hraw'' 2)\<^sup>*\<^sup>* \<lparr>tc_db = db, tc_consumer = (\<lambda>_. Idle)\<rparr> c' \<and>
      tc_consumer c' 0 = Won 1 \<and> tc_consumer c' 1 = Won 1)"
proof -
  let ?h = "\<lambda>s. ''H'' @ s"
  let ?db = "snd (create_password_reset_token ?h 1 ''raw'' 1 10 ex_db)"
  have sel: "map_option (\<lambda>v. (ev_user_id v, ev_used_at v, ev_expires_at v)) (tselect (reset_row ''Hraw'') (verifications ?db))
      = Some (1, None, 11)" by code_simp
  then obtain v where v: "tselect (reset_row ''Hraw'') (verifications ?db) = Some v"
    "ev_user_id v = 1" "ev_used_at v = None" "ev_expires_at v = 11" by auto
  have up: "db_up ?db" by code_simp
  have w: "fst (consume_password_reset_token ?h 2 ''raw'' ?db) = Inr (Some 1)" by code_simp
  have "2 \<le> ev_expires_at v" using v by simp
  from token_consumed_twice [OF v(1) v(3) this up, of ?h "''raw''"] v up w show ?thesis
    by (intro exI [of _ ?db]) simp
qed

end
