(* ===== verification/WebAuth.thy ===== *)
theory WebAuth
  imports AuthDb
begin

text \<open>
  Authentication of the web UI: rate limiting (\<open>src/web_ui/login_attempts.py\<close>), the session
  rows and the login, logout, reset and verify endpoints (\<open>routes/login.py\<close>), the second
  factor (\<open>routes/totp.py\<close>), the guards (\<open>web_ui/auth.py\<close>) and the middleware
  (\<open>web_ui/middleware.py\<close>).

  The cryptography and the formats of the standard library are the record \<open>crypto\<close>; random
  values and \<open>now\<close> (the clock of the process and of the database) are arguments. A handler
  takes the request and the database and returns the response, the session cookie and the
  database. An exception that no handler catches is the framework's response 500 with no body.
\<close>

record crypto =
  verify_password :: "string \<Rightarrow> string \<Rightarrow> bool"
  hash_password :: "string \<Rightarrow> string"
  dummy_hash :: string
  hmac_hex :: "string \<Rightarrow> string"
  cr_sha256 :: "string \<Rightarrow> string"
  encrypt_secret :: "string \<Rightarrow> string"
  decrypt_secret :: "string \<Rightarrow> string option"
  totp_ok :: "string \<Rightarrow> string \<Rightarrow> time \<Rightarrow> bool"
  provisioning_uri :: "string \<Rightarrow> string \<Rightarrow> string"
  qr_png :: "string \<Rightarrow> string"
  show_float :: "time \<Rightarrow> string"
  read_float :: "string \<Rightarrow> time option"
  inet :: "string \<Rightarrow> string option"
  common_passwords :: "string list"

text \<open>The environment: the test bypass (both variables set), and the trusted proxies:
  whether any network is configured, and for an address whether it lies in one (None when
  \<open>ipaddress\<close> cannot parse it).\<close>

record env =
  test_bypass :: bool
  has_proxies :: bool
  in_proxies :: "string \<Rightarrow> bool option"

record cookie =
  ck_username :: "string option"
  ck_session_id :: "string option"
  ck_user_id :: "int option"
  ck_session_at :: "time option"
  ck_mfa_verified_at :: "time option"

record request =
  rq_path :: string
  rq_peer :: "string option"
  rq_xff :: string
  rq_real_ip :: string
  rq_agent :: string
  rq_cookie :: cookie

datatype response = Resp (status: nat) (body: "(string \<times> pyval) list")

definition no_cookie :: cookie where
  "no_cookie = \<lparr>ck_username = None, ck_session_id = None, ck_user_id = None, ck_session_at = None, ck_mfa_verified_at = None\<rparr>"

definition err :: "nat \<Rightarrow> string \<Rightarrow> response" where
  "err n e = Resp n [(''error'', PStr e)]"

text \<open>\<open>len\<close> of a str: the bytes that start a character.\<close>

definition py_len :: "string \<Rightarrow> nat" where
  "py_len s = length (filter (\<lambda>c. let n = (of_char c :: nat) in \<not> (128 \<le> n \<and> n < 192)) s)"

section \<open>Rate limiting\<close>

definition RATE_WINDOW :: time where
  "RATE_WINDOW = 15 * 60 * sec"

definition RATE_MAX_FAILURES_PER_USER :: nat where
  "RATE_MAX_FAILURES_PER_USER = 5"

definition RATE_MAX_FAILURES_PER_IP :: nat where
  "RATE_MAX_FAILURES_PER_IP = 20"

definition get_client_ip :: "env \<Rightarrow> request \<Rightarrow> string" where
  "get_client_ip e rq =
     (let peer_str = (case rq_peer rq of None \<Rightarrow> ''unknown'' | Some p \<Rightarrow> p)
      in if has_proxies e then
           (case in_proxies e peer_str of
              None \<Rightarrow> peer_str
            | Some trusted \<Rightarrow>
                (if trusted then
                   let xff = strip (hd (split_on (CHR '','') (rq_xff rq)))
                   in if xff \<noteq> [] then xff else peer_str
                 else peer_str))
         else peer_str)"

text \<open>The cast \<open>::inet\<close> of an optional address: None when it raises.\<close>

definition cast_inet :: "crypto \<Rightarrow> string option \<Rightarrow> string option option" where
  "cast_inet cr ip = (case ip of None \<Rightarrow> Some None | Some a \<Rightarrow> map_option Some (inet cr a))"

definition record_login_attempt :: "crypto \<Rightarrow> time \<Rightarrow> string \<Rightarrow> bool \<Rightarrow> string option \<Rightarrow> string option \<Rightarrow> db \<Rightarrow> db" where
  "record_login_attempt cr now identifier success ip_address user_agent db =
     (case cast_inet cr ip_address of
        None \<Rightarrow> db
      | Some ip \<Rightarrow> if db_up db
          then db\<lparr>attempts := attempts db @ [\<lparr>la_identifier = identifier, la_at = now, la_success = success, la_ip = ip, la_agent = user_agent\<rparr>]\<rparr>
          else db)"

definition recent_failure :: "time \<Rightarrow> attempt \<Rightarrow> bool" where
  "recent_failure now a \<longleftrightarrow> now - RATE_WINDOW < la_at a \<and> \<not> la_success a"

text \<open>The statements of a login, each of which may fail on its own.\<close>

datatype login_query = CountUser | CountAddress | UserRow | TotpStatus | RevokeOld | NewSession | RecordAttempt | AuditEntry

text \<open>The two counts under one exception handler; an exception of either (the database down, the
  statement failed, an address that is no INET) means not limited.\<close>

definition rate_limited :: "login_query set \<Rightarrow> crypto \<Rightarrow> time \<Rightarrow> string \<Rightarrow> string option \<Rightarrow> db \<Rightarrow> bool" where
  "rate_limited fails cr now identifier ip_address db =
     (if \<not> db_up db \<or> CountUser \<in> fails then False
      else if RATE_MAX_FAILURES_PER_USER \<le> tcount (\<lambda>a. la_identifier a = identifier \<and> recent_failure now a) (attempts db) then True
      else (case ip_address of
              None \<Rightarrow> False
            | Some a \<Rightarrow>
                (if a = [] \<or> CountAddress \<in> fails then False
                 else (case inet cr a of
                         None \<Rightarrow> False
                       | Some ip \<Rightarrow> RATE_MAX_FAILURES_PER_IP \<le> tcount (\<lambda>r. la_ip r = Some ip \<and> recent_failure now r) (attempts db)))))"

definition check_rate_limit :: "crypto \<Rightarrow> time \<Rightarrow> string \<Rightarrow> string option \<Rightarrow> db \<Rightarrow> bool" where
  "check_rate_limit = rate_limited {}"

lemmas check_rate_limit_eq = check_rate_limit_def rate_limited_def

section \<open>Session rows and lookups\<close>

definition SESSION_TTL :: time where
  "SESSION_TTL = 8 * 3600 * sec"

text \<open>\<open>_lookup_user\<close> returns None on an exception, too.\<close>

definition lookup_user :: "string \<Rightarrow> db \<Rightarrow> user option" where
  "lookup_user username db = (if db_up db then tselect (\<lambda>u. u_username u = username) (users db) else None)"

definition create_session :: "crypto \<Rightarrow> time \<Rightarrow> string \<Rightarrow> int \<Rightarrow> string option \<Rightarrow> string option \<Rightarrow> string io" where
  "create_session cr now session_id user_id ip_address user_agent = checkout (\<lambda>db.
     case cast_inet cr ip_address of
       None \<Rightarrow> (Inl DbError, db)
     | Some ip \<Rightarrow>
         (if (\<exists>s \<in> set (sessions db). s_id s = session_id) \<or> user_id \<notin> u_id ` set (users db) then (Inl DbError, db)
          else (Inr session_id,
            db\<lparr>sessions := sessions db @ [\<lparr>s_id = session_id, s_user_id = user_id, s_expires_at = now + SESSION_TTL,
                 s_last_seen = now, s_ip = ip, s_agent = user_agent\<rparr>]\<rparr>)))"

text \<open>The best-effort statements: an exception is logged and dropped.\<close>

definition revoke_session :: "string \<Rightarrow> db \<Rightarrow> db" where
  "revoke_session session_id db =
     (if db_up db then db\<lparr>sessions := tdelete (\<lambda>s. s_id s = session_id) (sessions db)\<rparr> else db)"

definition revoke_all_user_sessions :: "int \<Rightarrow> db \<Rightarrow> db" where
  "revoke_all_user_sessions user_id db =
     (if db_up db then db\<lparr>sessions := tdelete (\<lambda>s. s_user_id s = user_id) (sessions db)\<rparr> else db)"

definition update_session_last_seen :: "time \<Rightarrow> string \<Rightarrow> db \<Rightarrow> db" where
  "update_session_last_seen now session_id db =
     (if db_up db then db\<lparr>sessions := tupdate (\<lambda>s. s_id s = session_id) (\<lambda>s. s\<lparr>s_last_seen := now\<rparr>) (sessions db)\<rparr> else db)"

definition lookup_session :: "time \<Rightarrow> string \<Rightarrow> db \<Rightarrow> int option" where
  "lookup_session now session_id db =
     (if db_up db then map_option s_user_id (tselect (\<lambda>s. s_id s = session_id \<and> now < s_expires_at s) (sessions db)) else None)"

definition check_totp_enabled :: "string \<Rightarrow> db \<Rightarrow> int option" where
  "check_totp_enabled username db =
     (if db_up db then
        map_option u_id (tselect (\<lambda>u. u_username u = username \<and>
          (\<exists>t \<in> set (totps db). tp_user_id t = u_id u \<and> tp_enabled t)) (users db))
      else None)"

section \<open>Login, logout, reset, verify\<close>

definition create_mfa_token :: "crypto \<Rightarrow> time \<Rightarrow> int \<Rightarrow> time \<Rightarrow> string" where
  "create_mfa_token cr now user_id ttl =
     (let payload = show_int user_id @ '':'' @ show_float cr (now + ttl)
      in payload @ ''.'' @ hmac_hex cr payload)"

definition full_cookie :: "cookie \<Rightarrow> string \<Rightarrow> string \<Rightarrow> int \<Rightarrow> time \<Rightarrow> cookie" where
  "full_cookie ck session_id username user_id now =
     ck\<lparr>ck_session_id := Some session_id, ck_username := Some username, ck_user_id := Some user_id, ck_session_at := Some now\<rparr>"

text \<open>A statement whose exception is logged and dropped.\<close>

definition tolerated :: "'q set \<Rightarrow> 'q \<Rightarrow> (db \<Rightarrow> db) \<Rightarrow> db \<Rightarrow> db" where
  "tolerated fails q f db = (if q \<in> fails then db else f db)"

text \<open>\<open>login_post\<close>; \<open>session_id\<close> is the random id of the session it may create, \<open>fails\<close> the
  statements that fail although the database is up. The request body is validated first: a
  password of no or more than 128 characters is the framework's 422.\<close>

definition login_handler :: "login_query set \<Rightarrow> crypto \<Rightarrow> env \<Rightarrow> time \<Rightarrow> string \<Rightarrow> request \<Rightarrow> string \<Rightarrow> string \<Rightarrow> db \<Rightarrow> response \<times> cookie \<times> db" where
  "login_handler fails cr e now session_id rq username password db =
     (let ck = rq_cookie rq; name = strip username in
      if py_len password < 1 \<or> 128 < py_len password then (Resp 422 [], ck, db)
      else if py_len password < 12 then (err 401 ''invalid_credentials'', ck, db)
      else
        let client_ip = get_client_ip e rq; agent = Some (rq_agent rq);
            attempt = (\<lambda>success. tolerated fails RecordAttempt (record_login_attempt cr now name success (Some client_ip) agent));
            audit = (\<lambda>actor success. tolerated fails AuditEntry (write_audit_log actor ''user.login'' None success)) in
        if rate_limited fails cr now name (Some client_ip) db
        then (err 429 ''Too many failed login attempts; please wait before retrying'', ck, db)
        else
          let user = (if UserRow \<in> fails then None else lookup_user name db);
              hash_to_check = (case user of None \<Rightarrow> dummy_hash cr
                | Some u \<Rightarrow> (case u_password_hash u of None \<Rightarrow> dummy_hash cr | Some h \<Rightarrow> h));
              ok = verify_password cr password hash_to_check;
              password_is_common = password \<in> set (common_passwords cr)
          in (case user of
                None \<Rightarrow> (err 401 ''invalid_credentials'', ck, audit name False (attempt False db))
              | Some u \<Rightarrow>
                  (if \<not> ok \<or> \<not> u_is_active u \<or> password_is_common then
                     (err 401 ''invalid_credentials'', ck, audit name False (attempt False db))
                   else
                     (case (if TotpStatus \<in> fails then None else check_totp_enabled name db) of
                        Some uid \<Rightarrow>
                          (Resp 200 [(''mfa_required'', PBool True), (''mfa_token'', PStr (create_mfa_token cr now uid (300 * sec)))], ck,
                           attempt True db)
                      | None \<Rightarrow>
                          (let db = tolerated fails RevokeOld (revoke_all_user_sessions (u_id u)) db in
                           case (if NewSession \<in> fails then (Inl DbError, db)
                                 else create_session cr now session_id (u_id u) (Some client_ip) agent db) of
                             (Inl x, db) \<Rightarrow> (err 500 ''internal_error'', ck, db)
                           | (Inr sid, db) \<Rightarrow>
                               (Resp 200 [(''ok'', PBool True), (''username'', PStr name)],
                                full_cookie ck sid name (u_id u) now,
                                audit (''user:'' @ show_int (u_id u)) True (attempt True db)))))))"

text \<open>A login in which the database as a whole is up or down.\<close>

definition login_post :: "crypto \<Rightarrow> env \<Rightarrow> time \<Rightarrow> string \<Rightarrow> request \<Rightarrow> string \<Rightarrow> string \<Rightarrow> db \<Rightarrow> response \<times> cookie \<times> db" where
  "login_post = login_handler {}"

lemma login_post_eq:
  "login_post cr e now session_id rq username password db =
     (let ck = rq_cookie rq; name = strip username in
      if py_len password < 1 \<or> 128 < py_len password then (Resp 422 [], ck, db)
      else if py_len password < 12 then (err 401 ''invalid_credentials'', ck, db)
      else
        let client_ip = get_client_ip e rq; agent = Some (rq_agent rq) in
        if check_rate_limit cr now name (Some client_ip) db
        then (err 429 ''Too many failed login attempts; please wait before retrying'', ck, db)
        else
          let user = lookup_user name db;
              hash_to_check = (case user of None \<Rightarrow> dummy_hash cr
                | Some u \<Rightarrow> (case u_password_hash u of None \<Rightarrow> dummy_hash cr | Some h \<Rightarrow> h));
              ok = verify_password cr password hash_to_check;
              password_is_common = password \<in> set (common_passwords cr)
          in (case user of
                None \<Rightarrow>
                  (err 401 ''invalid_credentials'', ck,
                   write_audit_log name ''user.login'' None False
                     (record_login_attempt cr now name False (Some client_ip) agent db))
              | Some u \<Rightarrow>
                  (if \<not> ok \<or> \<not> u_is_active u \<or> password_is_common then
                     (err 401 ''invalid_credentials'', ck,
                      write_audit_log name ''user.login'' None False
                        (record_login_attempt cr now name False (Some client_ip) agent db))
                   else
                     (case check_totp_enabled name db of
                        Some uid \<Rightarrow>
                          (Resp 200 [(''mfa_required'', PBool True), (''mfa_token'', PStr (create_mfa_token cr now uid (300 * sec)))], ck,
                           record_login_attempt cr now name True (Some client_ip) agent db)
                      | None \<Rightarrow>
                          (let db = revoke_all_user_sessions (u_id u) db in
                           case create_session cr now session_id (u_id u) (Some client_ip) agent db of
                             (Inl x, db) \<Rightarrow> (err 500 ''internal_error'', ck, db)
                           | (Inr sid, db) \<Rightarrow>
                               (Resp 200 [(''ok'', PBool True), (''username'', PStr name)],
                                full_cookie ck sid name (u_id u) now,
                                write_audit_log (''user:'' @ show_int (u_id u)) ''user.login'' None True
                                  (record_login_attempt cr now name True (Some client_ip) agent db)))))))"
  unfolding login_post_def login_handler_def tolerated_def check_rate_limit_def Let_def empty_iff if_False ..

text \<open>\<open>logout\<close>; \<open>works\<close> says whether its DELETE does, an exception of which is dropped.\<close>

definition logout_with :: "bool \<Rightarrow> request \<Rightarrow> db \<Rightarrow> response \<times> cookie \<times> db" where
  "logout_with works rq db =
     (Resp 200 [(''ok'', PBool True)], no_cookie,
      (case ck_session_id (rq_cookie rq) of
         None \<Rightarrow> db
       | Some sid \<Rightarrow> if sid = [] \<or> \<not> works then db else revoke_session sid db))"

definition logout :: "request \<Rightarrow> db \<Rightarrow> response \<times> cookie \<times> db" where
  "logout = logout_with True"

text \<open>\<open>reset_password_consume\<close>: one exception handler around everything.\<close>

definition reset_password_consume :: "crypto \<Rightarrow> time \<Rightarrow> string \<Rightarrow> string \<Rightarrow> db \<Rightarrow> response \<times> db" where
  "reset_password_consume cr now token new_password db =
     (case consume_password_reset_token (cr_sha256 cr) now token db of
        (Inl (ValueErr ve), db) \<Rightarrow> (err 410 ve, db)
      | (Inl _, db) \<Rightarrow> (err 500 ''internal_error'', db)
      | (Inr None, db) \<Rightarrow> (err 404 ''not_found'', db)
      | (Inr (Some user_id), db) \<Rightarrow>
          (let new_hash = hash_password cr new_password in
           case get_user_by_id user_id db of
             (Inl _, db) \<Rightarrow> (err 500 ''internal_error'', db)
           | (Inr user, db) \<Rightarrow>
               (let username = (case user of None \<Rightarrow> show_int user_id | Some u \<Rightarrow> ui_username u) in
                case set_user_password now username new_hash False db of
                  (Inl _, db) \<Rightarrow> (err 500 ''internal_error'', db)
                | (Inr _, db) \<Rightarrow>
                    (case revoke_all_sessions user_id db of
                       (Inl _, db) \<Rightarrow> (err 500 ''internal_error'', db)
                     | (Inr _, db) \<Rightarrow>
                         (Resp 200 [(''ok'', PBool True)],
                          write_audit_log (''user:'' @ show_int user_id) ''user.reset_password'' (Some (show_int user_id)) True db)))))"

section \<open>The cookie and the middleware\<close>

text \<open>\<open>_session_valid\<close>: empty names and a zero timestamp are falsy.\<close>

definition session_valid :: "time \<Rightarrow> cookie \<Rightarrow> bool" where
  "session_valid now ck =
     (case ck_username ck of
        None \<Rightarrow> False
      | Some username \<Rightarrow>
          (if username = [] then False
           else (case ck_session_at ck of
                   None \<Rightarrow> False
                 | Some session_at \<Rightarrow>
                     (if session_at = 0 then False
                      else 0 \<le> now - session_at \<and> now - session_at < SESSION_TTL))))"

definition server_session_valid :: "time \<Rightarrow> string \<Rightarrow> db \<Rightarrow> bool \<times> db" where
  "server_session_valid now session_id db =
     (case lookup_session now session_id db of
        None \<Rightarrow> (False, db)
      | Some _ \<Rightarrow> (True, update_session_last_seen now session_id db))"

definition MFA_GRACE :: time where
  "MFA_GRACE = 7 * 86400 * sec"

definition check_mfa_enforcement :: "time \<Rightarrow> string \<Rightarrow> db \<Rightarrow> bool" where
  "check_mfa_enforcement now username db =
     (if \<not> db_up db then False
      else (case tselect (\<lambda>u. u_username u = username) (users db) of
              None \<Rightarrow> False
            | Some u \<Rightarrow>
                (if \<not> u_is_admin u \<or> 0 < tcount (\<lambda>t. tp_user_id t = u_id u \<and> tp_enabled t) (totps db) then False
                 else (case u_created_at u of
                         None \<Rightarrow> False
                       | Some created_at \<Rightarrow> MFA_GRACE \<le> now - created_at))))"

definition EXEMPT_EXACT :: "string list" where
  "EXEMPT_EXACT = [''/health'', ''/api/health'', ''/openapi.json'', ''/docs'', ''/redoc'']"

definition MFA_SETUP_PATHS :: "string list" where
  "MFA_SETUP_PATHS = [''/api/auth/totp/setup'', ''/api/auth/totp/verify'', ''/api/auth/totp/status'']"

definition is_exempt :: "string \<Rightarrow> bool" where
  "is_exempt path \<longleftrightarrow> path \<in> set EXEMPT_EXACT \<or> startswith path ''/api/auth/''"

text \<open>\<open>dispatch\<close>: None hands the request on to its handler. \<open>fails\<close> are the statements that fail
  although the database is up: a lookup that fails finds no session, the other two are ignored.\<close>

datatype guard_query = SessionRow | LastSeen | Enrolment

definition guard :: "guard_query set \<Rightarrow> env \<Rightarrow> time \<Rightarrow> request \<Rightarrow> db \<Rightarrow> response option \<times> db" where
  "guard fails e now rq db =
     (if test_bypass e \<or> is_exempt (rq_path rq) then (None, db)
      else if \<not> session_valid now (rq_cookie rq) then
        (Some (Resp 401 [(''error'', PStr ''not_authenticated''), (''detail'', PStr ''Valid session required'')]), db)
      else
        let (live, db) = (case ck_session_id (rq_cookie rq) of
               None \<Rightarrow> (True, db)
             | Some sid \<Rightarrow> if sid = [] then (True, db)
                 else if SessionRow \<in> fails then (False, db)
                 else (case lookup_session now sid db of None \<Rightarrow> (False, db)
                         | Some _ \<Rightarrow> (True, tolerated fails LastSeen (update_session_last_seen now sid) db)))
        in if \<not> live then
             (Some (Resp 401 [(''error'', PStr ''not_authenticated''), (''detail'', PStr ''Session revoked'')]), db)
           else (case ck_username (rq_cookie rq) of
                   None \<Rightarrow> (None, db)
                 | Some username \<Rightarrow>
                     (if username \<noteq> [] \<and> rq_path rq \<notin> set MFA_SETUP_PATHS \<and> Enrolment \<notin> fails \<and>
                         check_mfa_enforcement now username db then
                        (Some (Resp 403 [(''error'', PStr ''mfa_required''), (''detail'', PStr ''Admin MFA enrollment required''),
                           (''redirect'', PStr ''/admin/security?force_mfa=1'')]), db)
                      else (None, db))))"

definition dispatch :: "env \<Rightarrow> time \<Rightarrow> request \<Rightarrow> db \<Rightarrow> response option \<times> db" where
  "dispatch = guard {}"

lemma dispatch_eq:
  "dispatch e now rq db =
     (if test_bypass e \<or> is_exempt (rq_path rq) then (None, db)
      else if \<not> session_valid now (rq_cookie rq) then
        (Some (Resp 401 [(''error'', PStr ''not_authenticated''), (''detail'', PStr ''Valid session required'')]), db)
      else
        let (live, db) = (case ck_session_id (rq_cookie rq) of
               None \<Rightarrow> (True, db)
             | Some sid \<Rightarrow> if sid = [] then (True, db) else server_session_valid now sid db)
        in if \<not> live then
             (Some (Resp 401 [(''error'', PStr ''not_authenticated''), (''detail'', PStr ''Session revoked'')]), db)
           else (case ck_username (rq_cookie rq) of
                   None \<Rightarrow> (None, db)
                 | Some username \<Rightarrow>
                     (if username \<noteq> [] \<and> rq_path rq \<notin> set MFA_SETUP_PATHS \<and> check_mfa_enforcement now username db then
                        (Some (Resp 403 [(''error'', PStr ''mfa_required''), (''detail'', PStr ''Admin MFA enrollment required''),
                           (''redirect'', PStr ''/admin/security?force_mfa=1'')]), db)
                      else (None, db))))"
  unfolding dispatch_def guard_def tolerated_def empty_iff if_False not_False_eq_True simp_thms server_session_valid_def ..

definition verify_session :: "env \<Rightarrow> time \<Rightarrow> request \<Rightarrow> db \<Rightarrow> response \<times> db" where
  "verify_session e now rq db =
     (let unauth = Resp 401 [(''ok'', PBool False), (''error'', PStr ''not_authenticated'')]; ck = rq_cookie rq in
      if test_bypass e then (Resp 200 [(''ok'', PBool True), (''username'', PStr ''test-user''), (''is_admin'', PBool True)], db)
      else if \<not> session_valid now ck then (unauth, db)
      else
        let (live, db) = (case ck_session_id ck of
               None \<Rightarrow> (True, db)
             | Some sid \<Rightarrow> if sid = [] then (True, db)
                 else (case lookup_session now sid db of None \<Rightarrow> (False, db)
                         | Some _ \<Rightarrow> (True, update_session_last_seen now sid db)))
        in if \<not> live then (unauth, db)
           else
             let username = (case ck_username ck of None \<Rightarrow> [] | Some n \<Rightarrow> n);
                 user_id = (case fst (get_user_id_by_username username db) of Inl _ \<Rightarrow> None | Inr i \<Rightarrow> i);
                 is_admin = (case user_id of None \<Rightarrow> False
                   | Some i \<Rightarrow> fst (get_user_field i ''is_admin'' db) = Inr (PBool True))
             in (Resp 200 [(''ok'', PBool True), (''username'', PStr username), (''is_admin'', PBool is_admin)], db))"

section \<open>Guards\<close>

definition MFA_FRESHNESS :: time where
  "MFA_FRESHNESS = 5 * 60 * sec"

definition current_user_id :: "env \<Rightarrow> cookie \<Rightarrow> db \<Rightarrow> int option" where
  "current_user_id e ck db =
     (if test_bypass e then Some 1
      else (case ck_user_id ck of
              Some uid \<Rightarrow> Some uid
            | None \<Rightarrow>
                (case ck_username ck of
                   None \<Rightarrow> None
                 | Some username \<Rightarrow>
                     (if username = [] then None
                      else (case fst (get_user_id_by_username username db) of Inl _ \<Rightarrow> None | Inr i \<Rightarrow> i)))))"

definition is_admin_session :: "env \<Rightarrow> cookie \<Rightarrow> db \<Rightarrow> bool" where
  "is_admin_session e ck db =
     (case current_user_id e ck db of
        None \<Rightarrow> False
      | Some uid \<Rightarrow> fst (get_user_field uid ''is_admin'' db) = Inr (PBool True))"

text \<open>The guards of the routes: the status of the HTTPException, or the user.\<close>

definition require_admin :: "env \<Rightarrow> cookie \<Rightarrow> db \<Rightarrow> nat + int" where
  "require_admin e ck db =
     (case current_user_id e ck db of
        None \<Rightarrow> Inl 401
      | Some user_id \<Rightarrow>
          (if test_bypass e then Inr user_id
           else (case fst (get_user_field user_id ''is_admin'' db) of
                   Inl _ \<Rightarrow> Inl 500
                 | Inr v \<Rightarrow> if v = PBool True then Inr user_id else Inl 403)))"

definition require_admin_with_fresh_mfa :: "env \<Rightarrow> time \<Rightarrow> cookie \<Rightarrow> db \<Rightarrow> nat + int" where
  "require_admin_with_fresh_mfa e now ck db =
     (case require_admin e ck db of
        Inl n \<Rightarrow> Inl n
      | Inr user_id \<Rightarrow>
          (if test_bypass e then Inr user_id
           else (case ck_mfa_verified_at ck of
                   None \<Rightarrow> Inl 403
                 | Some t \<Rightarrow> let age = now - t in if age < 0 \<or> MFA_FRESHNESS < age then Inl 403 else Inr user_id)))"

section \<open>The second factor\<close>

text \<open>The dash of a message, in UTF-8.\<close>

definition dash8 :: string where
  "dash8 = [CHR 0xE2, CHR 0x80, CHR 0x94]"

definition BACKUP_CODE_COUNT :: nat where
  "BACKUP_CODE_COUNT = 10"

definition server_error :: response where
  "server_error = Resp 500 []"

text \<open>\<open>_resolve_user_id\<close>: an exception (Inl), no user, or the id.\<close>

definition resolve_user_id :: "cookie \<Rightarrow> db \<Rightarrow> exc + int option" where
  "resolve_user_id ck db =
     (case ck_username ck of
        None \<Rightarrow> Inr None
      | Some username \<Rightarrow> if username = [] then Inr None else fst (get_user_id_by_username username db))"

definition get_totp_row :: "int \<Rightarrow> db \<Rightarrow> totp_row option" where
  "get_totp_row user_id db = tselect (\<lambda>t. tp_user_id t = user_id) (totps db)"

definition upsert_totp_secret :: "time \<Rightarrow> int \<Rightarrow> string \<Rightarrow> db \<Rightarrow> db" where
  "upsert_totp_secret now user_id secret_encrypted db =
     db\<lparr>totps := (if get_totp_row user_id db = None
        then totps db @ [\<lparr>tp_user_id = user_id, tp_secret_encrypted = secret_encrypted, tp_enabled = False, tp_backup_codes = [],
               tp_enrolled_at = now, tp_last_used_at = None\<rparr>]
        else tupdate (\<lambda>t. tp_user_id t = user_id) (\<lambda>t. t\<lparr>tp_secret_encrypted := secret_encrypted, tp_enabled := False,
               tp_backup_codes := [], tp_enrolled_at := now, tp_last_used_at := None\<rparr>) (totps db))\<rparr>"

definition set_mfa_enabled :: "int \<Rightarrow> bool \<Rightarrow> db \<Rightarrow> db" where
  "set_mfa_enabled user_id b db = db\<lparr>users := tupdate (\<lambda>u. u_id u = user_id) (\<lambda>u. u\<lparr>u_mfa_enabled := b\<rparr>) (users db)\<rparr>"

definition enable_totp :: "int \<Rightarrow> (string \<times> time option) list \<Rightarrow> db \<Rightarrow> db" where
  "enable_totp user_id hashed db = set_mfa_enabled user_id True
     (db\<lparr>totps := tupdate (\<lambda>t. tp_user_id t = user_id) (\<lambda>t. t\<lparr>tp_enabled := True, tp_backup_codes := hashed\<rparr>) (totps db)\<rparr>)"

definition delete_totp :: "int \<Rightarrow> db \<Rightarrow> db" where
  "delete_totp user_id db = set_mfa_enabled user_id False (db\<lparr>totps := tdelete (\<lambda>t. tp_user_id t = user_id) (totps db)\<rparr>)"

definition update_backup_codes :: "int \<Rightarrow> (string \<times> time option) list \<Rightarrow> db \<Rightarrow> db" where
  "update_backup_codes user_id hashed db =
     db\<lparr>totps := tupdate (\<lambda>t. tp_user_id t = user_id) (\<lambda>t. t\<lparr>tp_backup_codes := hashed\<rparr>) (totps db)\<rparr>"

text \<open>\<open>_check_backup_code\<close>: the first unused entry with the code's hash is marked.\<close>

fun mark_code :: "time \<Rightarrow> string \<Rightarrow> (string \<times> time option) list \<Rightarrow> bool \<times> (string \<times> time option) list" where
  "mark_code now code_hash [] = (False, [])"
| "mark_code now code_hash ((h, used_at) # es) =
     (if used_at = None \<and> h = code_hash then (True, (h, Some now) # es)
      else (let (found, updated) = mark_code now code_hash es in (found, (h, used_at) # updated)))"

definition check_backup_code :: "crypto \<Rightarrow> time \<Rightarrow> string \<Rightarrow> (string \<times> time option) list \<Rightarrow> bool \<times> (string \<times> time option) list" where
  "check_backup_code cr now code stored = mark_code now (hmac_hex cr (strip code)) stored"

text \<open>Common start of the session endpoints: authenticated by the cookie, and a user of that
  name.\<close>

definition with_user :: "env \<Rightarrow> cookie \<Rightarrow> db \<Rightarrow> (int \<Rightarrow> response \<times> db) \<Rightarrow> response \<times> db" where
  "with_user e ck db f =
     (if \<not> test_bypass e \<and> (ck_username ck = None \<or> ck_username ck = Some []) then (err 401 ''not_authenticated'', db)
      else (case resolve_user_id ck db of
              Inl _ \<Rightarrow> (server_error, db)
            | Inr None \<Rightarrow> (err 404 ''user_not_found'', db)
            | Inr (Some user_id) \<Rightarrow> f user_id))"

definition totp_setup :: "crypto \<Rightarrow> env \<Rightarrow> time \<Rightarrow> string \<Rightarrow> request \<Rightarrow> db \<Rightarrow> response \<times> db" where
  "totp_setup cr e now secret rq db = with_user e (rq_cookie rq) db (\<lambda>user_id.
     let username = (case ck_username (rq_cookie rq) of None \<Rightarrow> ''user'' | Some n \<Rightarrow> n);
         uri = provisioning_uri cr secret username
     in (Resp 200 [(''secret'', PStr secret), (''provisioning_uri'', PStr uri), (''qr_png_base64'', PStr (qr_png cr uri))],
         upsert_totp_secret now user_id (encrypt_secret cr secret) db))"

text \<open>\<open>plain\<close> are the ten random backup codes.\<close>

definition totp_verify :: "crypto \<Rightarrow> env \<Rightarrow> time \<Rightarrow> string list \<Rightarrow> string \<Rightarrow> request \<Rightarrow> db \<Rightarrow> response \<times> db" where
  "totp_verify cr e now plain code rq db = with_user e (rq_cookie rq) db (\<lambda>user_id.
     case get_totp_row user_id db of
       None \<Rightarrow> (err 400 ''totp_not_setup'', db)
     | Some row \<Rightarrow>
         (case decrypt_secret cr (tp_secret_encrypted row) of
            None \<Rightarrow> (server_error, db)
          | Some secret \<Rightarrow>
              (if \<not> totp_ok cr secret (strip code) now then (err 400 ''invalid_code'', db)
               else (Resp 200 [(''ok'', PBool True), (''backup_codes'', PList (map PStr plain)),
                       (''message'', PStr (''TOTP enabled. Save these backup codes '' @ dash8 @ '' they will not be shown again.''))],
                     enable_totp user_id (map (\<lambda>c. (hmac_hex cr c, None)) plain) db))))"

definition totp_disable :: "crypto \<Rightarrow> env \<Rightarrow> time \<Rightarrow> string \<Rightarrow> string \<Rightarrow> request \<Rightarrow> db \<Rightarrow> response \<times> db" where
  "totp_disable cr e now password code rq db = with_user e (rq_cookie rq) db (\<lambda>user_id.
     if \<not> (case tselect (\<lambda>u. u_id u = user_id) (users db) of None \<Rightarrow> False
             | Some u \<Rightarrow> (case u_password_hash u of None \<Rightarrow> False | Some h \<Rightarrow> verify_password cr password h))
     then (err 401 ''invalid_credentials'', db)
     else (case get_totp_row user_id db of
             None \<Rightarrow> (err 400 ''totp_not_enabled'', db)
           | Some row \<Rightarrow>
               (if \<not> tp_enabled row then (err 400 ''totp_not_enabled'', db)
                else (case decrypt_secret cr (tp_secret_encrypted row) of
                        None \<Rightarrow> (server_error, db)
                      | Some secret \<Rightarrow>
                          (if \<not> totp_ok cr secret (strip code) now then (err 400 ''invalid_code'', db)
                           else (Resp 200 [(''ok'', PBool True), (''message'', PStr ''TOTP has been disabled.'')], delete_totp user_id db))))))"

definition totp_status :: "env \<Rightarrow> request \<Rightarrow> db \<Rightarrow> response \<times> db" where
  "totp_status e rq db = with_user e (rq_cookie rq) db (\<lambda>user_id.
     (Resp 200 [(''enabled'', PBool (case get_totp_row user_id db of None \<Rightarrow> False | Some r \<Rightarrow> tp_enabled r)),
        (''enrolled'', PBool (get_totp_row user_id db \<noteq> None))], db))"

text \<open>The token of the first step: its user and expiry when the signature is right.\<close>

definition read_mfa_token :: "crypto \<Rightarrow> string \<Rightarrow> (int \<times> time) option" where
  "read_mfa_token cr token =
     (case rsplit1 (CHR ''.'') token of
        None \<Rightarrow> None
      | Some (payload, sig) \<Rightarrow>
          (if sig \<noteq> hmac_hex cr payload then None
           else (case split1 (CHR '':'') payload of
                   None \<Rightarrow> None
                 | Some (user_id_str, expires_str) \<Rightarrow>
                     (case py_int user_id_str of
                        None \<Rightarrow> None
                      | Some user_id \<Rightarrow> map_option (\<lambda>ex. (user_id, ex)) (read_float cr expires_str)))))"

definition totp_client_ip :: "request \<Rightarrow> string" where
  "totp_client_ip rq =
     (let xff = strip (hd (split_on (CHR '','') (rq_xff rq)))
      in if rq_real_ip rq \<noteq> [] then rq_real_ip rq
         else if xff \<noteq> [] then xff
         else (case rq_peer rq of None \<Rightarrow> ''unknown'' | Some p \<Rightarrow> p))"

text \<open>The check of the second factor: the response that refuses it, or the database with a used
  backup code marked.\<close>

definition check_factor :: "crypto \<Rightarrow> time \<Rightarrow> int \<Rightarrow> totp_row \<Rightarrow> string \<Rightarrow> string option \<Rightarrow> string option \<Rightarrow> db \<Rightarrow> response + db" where
  "check_factor cr now user_id row secret code backup_code db =
     (case code of
        Some c \<Rightarrow> if \<not> totp_ok cr secret (strip c) now then Inl (err 401 ''invalid_code'') else Inr db
      | None \<Rightarrow>
          (case backup_code of
             Some b \<Rightarrow>
               (let (valid, updated) = check_backup_code cr now b (tp_backup_codes row)
                in if \<not> valid then Inl (err 401 ''invalid_backup_code'') else Inr (update_backup_codes user_id updated db))
           | None \<Rightarrow> Inl (err 400 ''code_or_backup_code_required'')))"

definition totp_login :: "crypto \<Rightarrow> time \<Rightarrow> string \<Rightarrow> request \<Rightarrow> string \<Rightarrow> string option \<Rightarrow> string option \<Rightarrow> db \<Rightarrow> response \<times> cookie \<times> db" where
  "totp_login cr now session_id rq mfa_token code backup_code db =
     (let ck = rq_cookie rq in
      case read_mfa_token cr mfa_token of
        None \<Rightarrow> (err 401 ''invalid_mfa_token'', ck, db)
      | Some (user_id, expires_at) \<Rightarrow>
          (if expires_at < now then (err 401 ''mfa_token_expired'', ck, db)
           else if \<not> db_up db then (server_error, ck, db)
           else (case tselect (\<lambda>u. u_id u = user_id) (users db) of
                   None \<Rightarrow> (err 404 ''user_not_found'', ck, db)
                 | Some u \<Rightarrow>
                     (case get_totp_row user_id db of
                        None \<Rightarrow> (err 400 ''totp_not_enabled'', ck, db)
                      | Some row \<Rightarrow>
                          (if \<not> tp_enabled row then (err 400 ''totp_not_enabled'', ck, db)
                           else (case decrypt_secret cr (tp_secret_encrypted row) of
                                   None \<Rightarrow> (server_error, ck, db)
                                 | Some secret \<Rightarrow>
                                     (case check_factor cr now user_id row secret code backup_code db of
                                        Inl r \<Rightarrow> (r, ck, db)
                                      | Inr db \<Rightarrow>
                                          (case create_session cr now session_id user_id (Some (totp_client_ip rq)) (Some (rq_agent rq)) db of
                                             (Inl _, db) \<Rightarrow> (err 500 ''internal_error'', ck, db)
                                           | (Inr sid, db) \<Rightarrow>
                                               (Resp 200 [(''ok'', PBool True), (''username'', PStr (u_username u))],
                                                full_cookie ck sid (u_username u) user_id now, db)))))))))"

end
