(* ===== verification/WebAuthProps.thy ===== *)
theory WebAuthProps
  imports WebAuth AuthDbProps
begin

text \<open>
  Properties of the web UI's authentication: what a login needs, the second factor and its
  tokens, rate limiting and its limits, revocation, the guards.
\<close>

section \<open>Login\<close>

text \<open>What a password must satisfy against a user's row: the stored hash, or the dummy hash for a
  row without one.\<close>

definition password_accepted :: "crypto \<Rightarrow> string \<Rightarrow> user \<Rightarrow> bool" where
  "password_accepted cr password u \<longleftrightarrow>
     verify_password cr password (case u_password_hash u of None \<Rightarrow> dummy_hash cr | Some h \<Rightarrow> h)"

definition credentials_ok :: "crypto \<Rightarrow> string \<Rightarrow> user \<Rightarrow> bool" where
  "credentials_ok cr password u \<longleftrightarrow> 12 \<le> py_len password \<and> py_len password \<le> 128 \<and>
     password_accepted cr password u \<and> u_is_active u \<and> password \<notin> set (common_passwords cr)"

definition no_totp :: "db \<Rightarrow> int \<Rightarrow> bool" where
  "no_totp db i \<longleftrightarrow> (\<forall>t \<in> set (totps db). tp_user_id t = i \<longrightarrow> \<not> tp_enabled t)"

text \<open>What an ok of the handler rests on, statement by statement.\<close>

lemma login_ok_cases:
  assumes "login_handler fails cr e now sid rq username password db = (r, ck', db')" "(''ok'', PBool True) \<in> set (body r)"
  obtains u db1 db2 where "UserRow \<notin> fails" "lookup_user (strip username) db = Some u" "credentials_ok cr password u"
    "TotpStatus \<in> fails \<or> check_totp_enabled (strip username) db = None"
    "\<not> rate_limited fails cr now (strip username) (Some (get_client_ip e rq)) db"
    "db1 = tolerated fails RevokeOld (revoke_all_user_sessions (u_id u)) db" "NewSession \<notin> fails"
    "create_session cr now sid (u_id u) (Some (get_client_ip e rq)) (Some (rq_agent rq)) db1 = (Inr sid, db2)"
    "ck' = full_cookie (rq_cookie rq) sid (strip username) (u_id u) now"
    "sessions db' = sessions db2" "db_up db' = db_up db2"
proof -
  let ?name = "strip username" and ?ip = "get_client_ip e rq" and ?ag = "Some (rq_agent rq)"
  have len: "12 \<le> py_len password" "py_len password \<le> 128"
    and nolim: "\<not> rate_limited fails cr now ?name (Some ?ip) db"
    using assms unfolding login_handler_def Let_def by (auto simp: err_def split: if_splits)
  obtain u where u: "(if UserRow \<in> fails then None else lookup_user ?name db) = Some u"
    using assms len nolim unfolding login_handler_def Let_def
    by (cases "if UserRow \<in> fails then None else lookup_user ?name db") (auto simp: err_def)
  have user: "UserRow \<notin> fails" "lookup_user ?name db = Some u" using u by (auto split: if_splits)
  let ?good = "verify_password cr password (case u_password_hash u of None \<Rightarrow> dummy_hash cr | Some h \<Rightarrow> h) \<and> u_is_active u \<and>
    password \<notin> set (common_passwords cr)"
  have good: ?good
    using assms len nolim user unfolding login_handler_def Let_def by (auto simp: err_def split: if_splits)
  then have cred: "credentials_ok cr password u" using len by (simp add: credentials_ok_def password_accepted_def)
  have totp: "(if TotpStatus \<in> fails then None else check_totp_enabled ?name db) = None"
  proof (rule ccontr)
    assume "(if TotpStatus \<in> fails then None else check_totp_enabled ?name db) \<noteq> None"
    then obtain uid where "(if TotpStatus \<in> fails then None else check_totp_enabled ?name db) = Some uid" by blast
    then show False
      using assms len nolim user good unfolding login_handler_def Let_def by (auto simp: err_def split: if_splits)
  qed
  let ?db1 = "tolerated fails RevokeOld (revoke_all_user_sessions (u_id u)) db"
  let ?attempt = "tolerated fails RecordAttempt (record_login_attempt cr now ?name True (Some ?ip) ?ag)"
  let ?audit = "tolerated fails AuditEntry (write_audit_log (''user:'' @ show_int (u_id u)) ''user.login'' None True)"
  have eq: "login_handler fails cr e now sid rq username password db =
      (case (if NewSession \<in> fails then (Inl DbError, ?db1) else create_session cr now sid (u_id u) (Some ?ip) ?ag ?db1) of
         (Inl x, db) \<Rightarrow> (err 500 ''internal_error'', rq_cookie rq, db)
       | (Inr sid, db) \<Rightarrow> (Resp 200 [(''ok'', PBool True), (''username'', PStr ?name)],
            full_cookie (rq_cookie rq) sid ?name (u_id u) now, ?audit (?attempt db)))"
    using len nolim user good totp unfolding login_handler_def Let_def by simp
  have "NewSession \<notin> fails" using assms eq by (auto simp: err_def)
  moreover obtain x db2 where c: "create_session cr now sid (u_id u) (Some ?ip) ?ag ?db1 = (x, db2)" by (metis prod.collapse)
  moreover have "x = Inr sid"
    using c assms eq calculation(1)
    by (cases x) (auto simp: err_def create_session_def checkout_def split: option.splits if_splits)
  ultimately have "ck' = full_cookie (rq_cookie rq) sid ?name (u_id u) now" "db' = ?audit (?attempt db2)"
    using assms(1) eq by simp_all
  then show thesis
    using that [OF user cred _ nolim refl \<open>NewSession \<notin> fails\<close>] totp c \<open>x = Inr sid\<close>
    by (auto simp: tolerated_def write_audit_log_def record_login_attempt_def split: if_splits option.splits)
qed

lemma check_totp_None: "check_totp_enabled n db = None \<Longrightarrow> db_up db \<Longrightarrow> u \<in> set (users db) \<Longrightarrow> u_username u = n \<Longrightarrow> no_totp db (u_id u)"
  by (auto simp: check_totp_enabled_def tselect_None no_totp_def)

text \<open>The failed attempts of the last quarter of an hour.\<close>

definition recent_failures :: "(attempt \<Rightarrow> bool) \<Rightarrow> time \<Rightarrow> db \<Rightarrow> nat" where
  "recent_failures p now db = length (filter (\<lambda>a. p a \<and> \<not> la_success a \<and> now - 15 * 60 * sec < la_at a) (attempts db))"


text \<open>
  Accounts without a password can be entered with one. The documentation says that users
  who only sign in through OAuth (no stored hash) cannot use the password login; but the hash
  that replaces the missing one to even out the timing is one of a fixed text in the source, and
  the result of the comparison counts. Whoever sends that text as the password is logged in as
  any such active user without a second factor. (Such rows exist only where the NOT NULL that the
  migrations put on the hash has been dropped, which the OAuth sign-up needs to work at all.)
\<close>

theorem oauth_account_opened_by_dummy_password:
  assumes "verify_password cr ''dummy-for-timing-defense'' (dummy_hash cr)" "''dummy-for-timing-defense'' \<notin> set (common_passwords cr)"
    and "db_up db" "distinct (map u_username (users db))"
    and "u \<in> set (users db)" "u_username u = strip username" "u_password_hash u = None" "u_is_active u" "no_totp db (u_id u)"
    and "\<not> check_rate_limit cr now (strip username) (Some (get_client_ip e rq)) db"
    and "inet cr (get_client_ip e rq) = Some ip" "sid \<notin> s_id ` set (sessions db)"
  shows "\<exists>db'. login_post cr e now sid rq username ''dummy-for-timing-defense'' db =
    (Resp 200 [(''ok'', PBool True), (''username'', PStr (strip username))],
     full_cookie (rq_cookie rq) sid (strip username) (u_id u) now, db')"
proof -
  have sel: "tselect (\<lambda>u. u_username u = strip username) (users db) = Some u"
    using assms(4-6) by (intro tselect_key)
  have "check_totp_enabled (strip username) db = None"
    using assms(4,5,6,9) by (auto simp: check_totp_enabled_def tselect_None no_totp_def dest: distinct_col_eq)
  moreover have "py_len ''dummy-for-timing-defense'' = 24" by code_simp
  moreover have "\<not> (\<exists>s \<in> set (tdelete (\<lambda>s. s_user_id s = u_id u) (sessions db)). s_id s = sid)"
    using assms(12) by (auto simp: set_tdelete)
  ultimately show ?thesis using assms sel
    by (auto simp: login_post_eq Let_def lookup_user_def create_session_def checkout_def cast_inet_def
        revoke_all_user_sessions_def)
qed

definition ex_crypto :: crypto where
  "ex_crypto = \<lparr>verify_password = (\<lambda>pw h. h = ''H:'' @ pw), hash_password = (\<lambda>pw. ''H:'' @ pw),
     dummy_hash = ''H:dummy-for-timing-defense'', hmac_hex = (\<lambda>s. show_nat (length s)), cr_sha256 = (\<lambda>s. ''S:'' @ s),
     encrypt_secret = (\<lambda>s. s), decrypt_secret = Some, totp_ok = (\<lambda>s c now. c = ''123456''),
     provisioning_uri = (\<lambda>s n. s), qr_png = (\<lambda>s. s), show_float = show_int, read_float = py_int,
     inet = (\<lambda>a. if a = ''unknown'' then None else Some a), common_passwords = [''password1234'']\<rparr>"

definition ex_env :: env where
  "ex_env = \<lparr>test_bypass = False, has_proxies = True, in_proxies = (\<lambda>a. Some (a = ''10.0.0.1''))\<rparr>"

definition ex_request :: request where
  "ex_request = \<lparr>rq_path = ''/api/admin/users'', rq_peer = Some ''10.0.0.1'', rq_xff = ''1.2.3.4'', rq_real_ip = [],
     rq_agent = ''agent'', rq_cookie = no_cookie\<rparr>"

definition ex_user :: "int \<Rightarrow> string \<Rightarrow> string option \<Rightarrow> user" where
  "ex_user i name h = \<lparr>u_id = i, u_username = name, u_password_hash = h, u_email = None, u_is_admin = True, u_is_active = True,
     u_mfa_enabled = False, u_created_at = Some 0,
     u_email_verified = False, u_oauth_provider = None, u_oauth_id = None\<rparr>"

text \<open>Ann with a password, Olga who signs in through OAuth, Tom with a second factor.\<close>

definition ex_web :: db where
  "ex_web = empty_db\<lparr>db_hash_required := False, users := [ex_user 1 ''ann'' (Some ''H:correct horse battery''), ex_user 2 ''olga'' None,
       ex_user 3 ''tom'' (Some ''H:correct horse battery'')],
     totps := [\<lparr>tp_user_id = 3, tp_secret_encrypted = ''KEY'', tp_enabled = True,
       tp_backup_codes = [(''4'', None), (''5'', None)], tp_enrolled_at = 0, tp_last_used_at = None\<rparr>], next_user := 4\<rparr>"


theorem oauth_account_opened_by_dummy_password_witness:
  "\<exists>db'. login_post ex_crypto ex_env 5 ''sid1'' ex_request ''olga'' ''dummy-for-timing-defense'' ex_web =
    (Resp 200 [(''ok'', PBool True), (''username'', PStr ''olga'')], full_cookie no_cookie ''sid1'' ''olga'' 2 5, db')"
proof -
  have p: "verify_password ex_crypto ''dummy-for-timing-defense'' (dummy_hash ex_crypto)"
    "''dummy-for-timing-defense'' \<notin> set (common_passwords ex_crypto)"
    "db_up ex_web" "distinct (map u_username (users ex_web))"
    by code_simp+
  have q: "ex_user 2 ''olga'' None \<in> set (users ex_web)" "u_username (ex_user 2 ''olga'' None) = strip ''olga''"
    "u_password_hash (ex_user 2 ''olga'' None) = None" "u_is_active (ex_user 2 ''olga'' None)"
    "no_totp ex_web (u_id (ex_user 2 ''olga'' None))"
    by code_simp+
  have r: "\<not> check_rate_limit ex_crypto 5 (strip ''olga'') (Some (get_client_ip ex_env ex_request)) ex_web"
    "inet ex_crypto (get_client_ip ex_env ex_request) = Some ''1.2.3.4''" "''sid1'' \<notin> s_id ` set (sessions ex_web)"
    by code_simp+
  have n: "strip ''olga'' = ''olga''" "u_id (ex_user 2 ''olga'' None) = 2" "rq_cookie ex_request = no_cookie" by code_simp+
  from oauth_account_opened_by_dummy_password [OF p q r] show ?thesis unfolding n .
qed

section \<open>Guessing passwords\<close>

text \<open>A client that sends one login request after the other.\<close>

fun attack :: "crypto \<Rightarrow> env \<Rightarrow> request \<Rightarrow> string \<Rightarrow> (time \<times> string) list \<Rightarrow> db \<Rightarrow> db" where
  "attack cr e rq username [] db = db"
| "attack cr e rq username ((t, pw) # ps) db =
     attack cr e rq username ps (snd (snd (login_post cr e t ''session'' rq username pw db)))"

definition wrong_password :: "crypto \<Rightarrow> db \<Rightarrow> string \<Rightarrow> string \<Rightarrow> bool" where
  "wrong_password cr db name pw \<longleftrightarrow> 12 \<le> py_len pw \<and> py_len pw \<le> 128 \<and>
     (case tselect (\<lambda>u. u_username u = name) (users db) of None \<Rightarrow> True | Some u \<Rightarrow> \<not> password_accepted cr pw u)"

lemma login_wrong:
  assumes "wrong_password cr db (strip username) pw" "db_up db"
    "\<not> check_rate_limit cr t (strip username) (Some (get_client_ip e rq)) db"
  shows "login_post cr e t sid rq username pw db = (err 401 ''invalid_credentials'', rq_cookie rq,
    write_audit_log (strip username) ''user.login'' None False
      (record_login_attempt cr t (strip username) False (Some (get_client_ip e rq)) (Some (rq_agent rq)) db))"
proof (cases "tselect (\<lambda>u. u_username u = strip username) (users db)")
  case None
  then show ?thesis using assms by (simp add: login_post_eq Let_def lookup_user_def wrong_password_def)
next
  case (Some u)
  then show ?thesis using assms
    by (cases "u_password_hash u") (simp_all add: login_post_eq Let_def lookup_user_def wrong_password_def password_accepted_def)
qed

lemma login_limited:
  assumes "12 \<le> py_len pw" "py_len pw \<le> 128" "check_rate_limit cr t (strip username) (Some (get_client_ip e rq)) db"
  shows "login_post cr e t sid rq username pw db =
    (err 429 ''Too many failed login attempts; please wait before retrying'', rq_cookie rq, db)"
  using assms by (simp add: login_post_eq Let_def)

text \<open>The attempts of the attack so far: all failures, for the name, from the address.\<close>

definition attack_rows :: "time \<Rightarrow> string \<Rightarrow> string \<Rightarrow> db \<Rightarrow> bool" where
  "attack_rows now name ip db \<longleftrightarrow> (\<forall>a \<in> set (attempts db). la_identifier a = name \<and> \<not> la_success a \<and>
     now - RATE_WINDOW < la_at a \<and> la_ip a = Some ip)"

lemma attack_count:
  assumes "attack_rows now name ip db" "t \<le> now"
  shows "tcount (\<lambda>a. la_identifier a = name \<and> recent_failure t a) (attempts db) = length (attempts db)"
    "tcount (\<lambda>a. la_ip a = Some i \<and> recent_failure t a) (attempts db) \<le> length (attempts db)"
proof -
  have "filter (\<lambda>a. la_identifier a = name \<and> recent_failure t a) (attempts db) = attempts db"
    using assms by (intro filter_True) (auto simp: attack_rows_def recent_failure_def)
  then show "tcount (\<lambda>a. la_identifier a = name \<and> recent_failure t a) (attempts db) = length (attempts db)"
    by (simp add: tcount_def)
qed (simp add: tcount_def)

lemma attack_limits:
  assumes "db_up db" "attack_rows now (strip username) ip db" "inet cr (get_client_ip e rq) = Some ip"
    "\<forall>(t, pw) \<in> set ps. wrong_password cr db (strip username) pw \<and> now - RATE_WINDOW < t \<and> t \<le> now"
  shows "db_up (attack cr e rq username ps db) \<and> attack_rows now (strip username) ip (attack cr e rq username ps db) \<and>
    min 5 (length (attempts db) + length ps) \<le> length (attempts (attack cr e rq username ps db))"
  using assms
proof (induction ps arbitrary: db)
  case Nil
  then show ?case by simp
next
  case (Cons p ps)
  obtain t pw where p: "p = (t, pw)" by (cases p)
  let ?name = "strip username" and ?ip = "get_client_ip e rq"
  have w: "wrong_password cr db ?name pw" "t \<le> now" "now - RATE_WINDOW < t" using Cons.prems(4) p by auto
  note cnt = attack_count [OF Cons.prems(2) w(2)]
  show ?case
  proof (cases "check_rate_limit cr t ?name (Some ?ip) db")
    case True
    have "5 \<le> length (attempts db)"
      using True cnt(1) cnt(2) [of ip] Cons.prems(1,3)
      by (auto simp: check_rate_limit_eq RATE_MAX_FAILURES_PER_USER_def RATE_MAX_FAILURES_PER_IP_def split: if_splits)
    moreover have "attack cr e rq username (p # ps) db = attack cr e rq username ps db"
      using login_limited [OF _ _ True] w(1) by (simp add: p wrong_password_def)
    ultimately show ?thesis using Cons.IH [OF Cons.prems(1-3)] Cons.prems(4) by auto
  next
    case False
    let ?row = "\<lparr>la_identifier = ?name, la_at = t, la_success = False, la_ip = Some ip, la_agent = Some (rq_agent rq)\<rparr>"
    define d where "d = snd (snd (login_post cr e t ''session'' rq username pw db))"
    have d: "attempts d = attempts db @ [?row]" "users d = users db" "db_up d"
      unfolding d_def login_wrong [OF w(1) Cons.prems(1) False]
      using Cons.prems(1,3) by (simp_all add: record_login_attempt_def cast_inet_def write_audit_log_def)
    have "attack_rows now ?name ip d" using Cons.prems(2) w by (auto simp: attack_rows_def d)
    moreover have "\<forall>(t, pw) \<in> set ps. wrong_password cr d ?name pw \<and> now - RATE_WINDOW < t \<and> t \<le> now"
      using Cons.prems(4) by (auto simp: wrong_password_def d)
    ultimately have "db_up (attack cr e rq username ps d) \<and> attack_rows now ?name ip (attack cr e rq username ps d) \<and>
      min 5 (length (attempts d) + length ps) \<le> length (attempts (attack cr e rq username ps d))"
      by (rule Cons.IH [OF d(3) _ Cons.prems(3)])
    moreover have "attack cr e rq username (p # ps) db = attack cr e rq username ps d" by (simp add: p d_def)
    ultimately show ?thesis by (simp add: d)
  qed
qed

text \<open>
  Guessing is limited. After five or more wrong passwords for a name within a quarter of an
  hour, from a client whose address is an address, every further login request for that name
  (short of the length checks) is answered 429, the right password included, and changes nothing.
\<close>

theorem guessing_limited:
  assumes "db_up db" "attempts db = []" "inet cr (get_client_ip e rq) = Some ip" "5 \<le> length ps"
    "\<forall>(t, pw) \<in> set ps. wrong_password cr db (strip username) pw \<and> now - RATE_WINDOW < t \<and> t \<le> now"
    "12 \<le> py_len password" "py_len password \<le> 128"
  shows "login_post cr e now sid rq username password (attack cr e rq username ps db) =
    (err 429 ''Too many failed login attempts; please wait before retrying'', rq_cookie rq, attack cr e rq username ps db)"
proof -
  let ?d = "attack cr e rq username ps db"
  have "attack_rows now (strip username) ip db" using assms(2) by (simp add: attack_rows_def)
  from attack_limits [OF assms(1) this assms(3,5)] have d: "db_up ?d" "attack_rows now (strip username) ip ?d"
    "5 \<le> length (attempts ?d)"
    using assms(2,4) by auto
  have "check_rate_limit cr now (strip username) (Some (get_client_ip e rq)) ?d"
    using d(1,3) attack_count(1) [OF d(2) order_refl] by (simp add: check_rate_limit_eq RATE_MAX_FAILURES_PER_USER_def)
  then show ?thesis by (rule login_limited [OF assms(6,7)])
qed

theorem guessing_limited_witness:
  "login_post ex_crypto ex_env 9 ''s'' ex_request ''ann'' ''correct horse battery''
     (attack ex_crypto ex_env ex_request ''ann'' (replicate 5 (8, ''wrong password'')) ex_web) =
   (err 429 ''Too many failed login attempts; please wait before retrying'', no_cookie,
    attack ex_crypto ex_env ex_request ''ann'' (replicate 5 (8, ''wrong password'')) ex_web)"
proof -
  have p: "db_up ex_web" "attempts ex_web = []" "inet ex_crypto (get_client_ip ex_env ex_request) = Some ''1.2.3.4''"
    "5 \<le> length (replicate 5 (8 :: time, ''wrong password''))"
    by code_simp+
  have "wrong_password ex_crypto ex_web (strip ''ann'') ''wrong password''" by code_simp
  then have q: "\<forall>(t, pw) \<in> set (replicate 5 (8 :: time, ''wrong password'')).
      wrong_password ex_crypto ex_web (strip ''ann'') pw \<and> 9 - RATE_WINDOW < t \<and> t \<le> 9"
    by (simp add: RATE_WINDOW_def)
  have r: "12 \<le> py_len ''correct horse battery''" "py_len ''correct horse battery'' \<le> 128" by code_simp+
  from guessing_limited [OF p q r, of "''s''"] show ?thesis by (simp add: ex_request_def)
qed

text \<open>
  The limit can be switched off by the client. Behind a trusted proxy the client's address
  is the first hop of X-Forwarded-For, which the client chooses. If it is not an address at all,
  the INSERT of the failed attempt and the count both fail and are ignored: after any number of
  wrong guesses nothing has been recorded, no answer was 429, and a right guess is told apart
  from a wrong one by its status.
\<close>

theorem guessing_unlimited_without_address:
  assumes "db_up db" "attempts db = []" "inet cr (get_client_ip e rq) = None"
    "\<forall>(t, pw) \<in> set ps. wrong_password cr db (strip username) pw"
    and right: "tselect (\<lambda>u. u_username u = strip username) (users db) = Some u" "credentials_ok cr password u" "no_totp db (u_id u)"
      "distinct (map u_username (users db))"
    and wrong: "wrong_password cr db (strip username) pw'"
  shows "attempts (attack cr e rq username ps db) = [] \<and>
    status (fst (login_post cr e now sid rq username pw' (attack cr e rq username ps db))) = 401 \<and>
    status (fst (login_post cr e now sid rq username password (attack cr e rq username ps db))) = 500"
proof -
  have nolim: "attempts d = [] \<Longrightarrow> \<not> check_rate_limit cr t (strip username) (Some (get_client_ip e rq)) d" for t d
    using assms(3) by (simp add: check_rate_limit_eq tcount_def RATE_MAX_FAILURES_PER_USER_def)
  have "attempts (attack cr e rq username ps d) = [] \<and> users (attack cr e rq username ps d) = users d \<and>
      totps (attack cr e rq username ps d) = totps d \<and> db_up (attack cr e rq username ps d)"
    if "db_up d" "attempts d = []" "users d = users db" for d
    using assms(4) that
  proof (induction ps arbitrary: d)
    case Nil
    then show ?case by simp
  next
    case (Cons p ps)
    obtain t pw where p: "p = (t, pw)" by (cases p)
    define d' where "d' = snd (snd (login_post cr e t ''session'' rq username pw d))"
    have w: "wrong_password cr d (strip username) pw" using Cons.prems p by (simp add: wrong_password_def)
    have d': "attempts d' = []" "users d' = users d" "totps d' = totps d" "db_up d'"
      unfolding d'_def login_wrong [OF w Cons.prems(2) nolim [OF Cons.prems(3)]]
      using assms(3) Cons.prems by (simp_all add: record_login_attempt_def cast_inet_def write_audit_log_def)
    have "attack cr e rq username (p # ps) d = attack cr e rq username ps d'" by (simp add: p d'_def)
    then show ?case using Cons.IH [of d'] Cons.prems d' by simp
  qed
  from this [OF assms(1,2) refl] have d: "attempts (attack cr e rq username ps db) = []" "users (attack cr e rq username ps db) = users db"
    "totps (attack cr e rq username ps db) = totps db" "db_up (attack cr e rq username ps db)"
    by simp_all
  let ?d = "attack cr e rq username ps db"
  have "wrong_password cr ?d (strip username) pw'" using wrong by (simp add: wrong_password_def d)
  from login_wrong [OF this d(4) nolim [OF d(1)]]
  have 401: "status (fst (login_post cr e now sid rq username pw' ?d)) = 401" by (simp add: err_def)
  have "u \<in> set (users db)" "u_username u = strip username" using tselect_Some [OF right(1)] by simp_all
  then have "check_totp_enabled (strip username) ?d = None"
    using right(3,4) d by (auto simp: check_totp_enabled_def tselect_None no_totp_def dest: distinct_col_eq)
  then have "status (fst (login_post cr e now sid rq username password ?d)) = 500"
    using right(1,2) d nolim [OF d(1), of now] assms(3)
    by (cases "u_password_hash u") (simp_all add: login_post_eq Let_def lookup_user_def credentials_ok_def password_accepted_def
        create_session_def checkout_def cast_inet_def revoke_all_user_sessions_def err_def)
  then show ?thesis using d(1) 401 by simp
qed

theorem guessing_unlimited_without_address_witness:
  "status (fst (login_post ex_crypto ex_env 9 ''s'' (ex_request\<lparr>rq_xff := ''unknown''\<rparr>) ''ann'' ''correct horse battery''
     (attack ex_crypto ex_env (ex_request\<lparr>rq_xff := ''unknown''\<rparr>) ''ann'' (replicate 50 (8, ''wrong password'')) ex_web))) = 500"
proof -
  let ?rq = "ex_request\<lparr>rq_xff := ''unknown''\<rparr>"
  let ?ann = "ex_user 1 ''ann'' (Some ''H:correct horse battery'')"
  have p: "db_up ex_web" "attempts ex_web = []" "inet ex_crypto (get_client_ip ex_env ?rq) = None" by code_simp+
  have w: "wrong_password ex_crypto ex_web (strip ''ann'') ''wrong password''" by code_simp
  then have q: "\<forall>(t, pw) \<in> set (replicate 50 (8 :: time, ''wrong password'')). wrong_password ex_crypto ex_web (strip ''ann'') pw"
    by simp
  have r: "tselect (\<lambda>u. u_username u = strip ''ann'') (users ex_web) = Some ?ann" "credentials_ok ex_crypto ''correct horse battery'' ?ann"
    "no_totp ex_web (u_id ?ann)" "distinct (map u_username (users ex_web))"
    by code_simp+
  from guessing_unlimited_without_address [OF p q r w] show ?thesis by simp
qed

section \<open>Sessions\<close>

lemma lookup_in: "lookup_session now sid db = Some i \<Longrightarrow> db_up db \<and> (\<exists>s \<in> set (sessions db). s_id s = sid \<and> s_user_id s = i \<and> now < s_expires_at s)"
  by (auto simp: lookup_session_def split: if_splits dest: tselect_Some)

text \<open>A session id that is in force, and what the guard of a request looks at in the cookie.\<close>

definition in_force :: "time \<Rightarrow> string \<Rightarrow> db \<Rightarrow> bool" where
  "in_force now sid db \<longleftrightarrow> db_up db \<and> (\<exists>s \<in> set (sessions db). s_id s = sid \<and> now < s_expires_at s)"

definition session_ok :: "guard_query set \<Rightarrow> time \<Rightarrow> cookie \<Rightarrow> db \<Rightarrow> bool" where
  "session_ok fails now ck db \<longleftrightarrow>
     (\<exists>name at. ck_username ck = Some name \<and> name \<noteq> [] \<and> ck_session_at ck = Some at \<and> at \<noteq> 0 \<and> at \<le> now \<and> now < at + 8 * 3600 * sec) \<and>
     (case ck_session_id ck of None \<Rightarrow> True | Some sid \<Rightarrow> sid = [] \<or> SessionRow \<notin> fails \<and> in_force now sid db)"

definition must_enrol :: "guard_query set \<Rightarrow> time \<Rightarrow> request \<Rightarrow> db \<Rightarrow> bool" where
  "must_enrol fails now rq db \<longleftrightarrow> Enrolment \<notin> fails \<and> db_up db \<and> rq_path rq \<notin> set MFA_SETUP_PATHS \<and>
     (case tselect (\<lambda>u. Some (u_username u) = ck_username (rq_cookie rq)) (users db) of None \<Rightarrow> False
      | Some u \<Rightarrow> u_is_admin u \<and> no_totp db (u_id u) \<and> (case u_created_at u of None \<Rightarrow> False | Some at \<Rightarrow> 7 * 86400 * sec \<le> now - at))"

lemma lookup_None: "lookup_session now sid db = None \<longleftrightarrow> \<not> in_force now sid db"
  by (auto simp: lookup_session_def in_force_def tselect_None)

lemma session_valid_alt: "session_valid now ck \<longleftrightarrow>
    (\<exists>name at. ck_username ck = Some name \<and> name \<noteq> [] \<and> ck_session_at ck = Some at \<and> at \<noteq> 0 \<and> at \<le> now \<and> now < at + 8 * 3600 * sec)"
  by (auto simp: session_valid_def SESSION_TTL_def split: option.splits)

lemma enforcement_alt:
  assumes "ck_username (rq_cookie rq) = Some name" "users d = users db" "totps d = totps db" "db_up d = db_up db"
  shows "Enrolment \<notin> fails \<and> rq_path rq \<notin> set MFA_SETUP_PATHS \<and> check_mfa_enforcement now name d \<longleftrightarrow> must_enrol fails now rq db"
proof -
  have "0 < tcount (\<lambda>t. tp_user_id t = i \<and> tp_enabled t) (totps db) \<longleftrightarrow> \<not> no_totp db i" for i
    by (auto simp: tcount_pos no_totp_def)
  then show ?thesis using assms
    by (auto simp: check_mfa_enforcement_def must_enrol_def MFA_GRACE_def split: option.splits)
qed

lemma guard_verdict:
  assumes "\<not> test_bypass e" "\<not> is_exempt (rq_path rq)"
  shows "case fst (guard fails e now rq db) of
       None \<Rightarrow> session_ok fails now (rq_cookie rq) db \<and> \<not> must_enrol fails now rq db
     | Some r \<Rightarrow> (if session_ok fails now (rq_cookie rq) db then status r = 403 \<and> must_enrol fails now rq db else status r = 401)"
proof -
  let ?ck = "rq_cookie rq"
  show "case fst (guard fails e now rq db) of
       None \<Rightarrow> session_ok fails now ?ck db \<and> \<not> must_enrol fails now rq db
     | Some r \<Rightarrow> (if session_ok fails now ?ck db then status r = 403 \<and> must_enrol fails now rq db else status r = 401)"
  proof (cases "session_valid now ?ck")
    case False
    then show ?thesis using assms session_valid_alt [of now ?ck] by (simp add: guard_def session_ok_def)
  next
    case True
    then obtain name where name: "ck_username ?ck = Some name" "name \<noteq> []" using session_valid_alt [of now ?ck] by blast
    let ?live = "case ck_session_id ?ck of None \<Rightarrow> True | Some sid \<Rightarrow> sid = [] \<or> SessionRow \<notin> fails \<and> in_force now sid db"
    have ok: "session_ok fails now ?ck db \<longleftrightarrow> ?live" using True session_valid_alt [of now ?ck] by (simp add: session_ok_def)
    define step where "step = (case ck_session_id ?ck of None \<Rightarrow> (True, db)
        | Some sid \<Rightarrow> if sid = [] then (True, db) else if SessionRow \<in> fails then (False, db)
            else (case lookup_session now sid db of None \<Rightarrow> (False, db)
                    | Some _ \<Rightarrow> (True, tolerated fails LastSeen (update_session_last_seen now sid) db)))"
    have live: "fst step \<longleftrightarrow> ?live"
      unfolding step_def using lookup_None [of now _ db] by (auto split: option.split) (metis option.distinct(1))+
    have same: "users (snd step) = users db" "totps (snd step) = totps db" "db_up (snd step) = db_up db"
      unfolding step_def by (auto simp: tolerated_def update_session_last_seen_def split: option.split)
    have g: "guard fails e now rq db = (if \<not> fst step then
          (Some (Resp 401 [(''error'', PStr ''not_authenticated''), (''detail'', PStr ''Session revoked'')]), snd step)
        else if Enrolment \<notin> fails \<and> rq_path rq \<notin> set MFA_SETUP_PATHS \<and> check_mfa_enforcement now name (snd step) then
          (Some (Resp 403 [(''error'', PStr ''mfa_required''), (''detail'', PStr ''Admin MFA enrollment required''),
             (''redirect'', PStr ''/admin/security?force_mfa=1'')]), snd step)
        else (None, snd step))"
      using assms True name unfolding guard_def step_def [symmetric] Let_def by (auto split: prod.split)
    show ?thesis unfolding g enforcement_alt [OF name(1) same] ok using live by auto
  qed
qed



section \<open>The second factor\<close>

lemma read_create_token:
  assumes "CHR ''.'' \<notin> set (hmac_hex cr (show_int i @ '':'' @ show_float cr (now + ttl)))"
    "read_float cr (show_float cr (now + ttl)) = Some (now + ttl)"
  shows "read_mfa_token cr (create_mfa_token cr now i ttl) = Some (i, now + ttl)"
proof -
  let ?payload = "show_int i @ '':'' @ show_float cr (now + ttl)"
  have r: "rsplit1 (CHR ''.'') (?payload @ CHR ''.'' # hmac_hex cr ?payload) = Some (?payload, hmac_hex cr ?payload)"
    using assms(1) by (rule rsplit1_append)
  have "CHR '':'' \<notin> set (show_int i)" by (auto dest!: show_int_chars dest: digit_not_sign)
  then have "split1 (CHR '':'') ?payload = Some (show_int i, show_float cr (now + ttl))"
    by (simp add: split1_append)
  then show ?thesis using assms(2) r
    by (simp add: read_mfa_token_def create_mfa_token_def Let_def py_int_show_int)
qed

text \<open>
  C12. Two-step login. For a user with an enabled second factor the right password creates no
  session; it yields a token. With that token and a valid code the second endpoint logs that
  user in up to five minutes later: it answers ok, adds one session row of the user, which is in
  force, and puts it into the cookie. Without a code, with a code that is not valid, or after that
  time it refuses and changes nothing.
\<close>

theorem two_step_login:
  assumes "db_up db" "tselect (\<lambda>u. u_username u = strip username) (users db) = Some u" "credentials_ok cr password u"
    and "distinct (map u_id (users db))" "get_totp_row (u_id u) db = Some row" "tp_enabled row"
    and "decrypt_secret cr (tp_secret_encrypted row) = Some secret" "totp_ok cr secret (strip code) t"
    and "\<not> check_rate_limit cr now (strip username) (Some (get_client_ip e rq)) db"
    and "\<forall>s. CHR ''.'' \<notin> set (hmac_hex cr s)" "\<forall>x. read_float cr (show_float cr x) = Some x"
    and "inet cr (totp_client_ip rq) = Some ip" "sid \<notin> s_id ` set (sessions db)"
  shows "\<exists>token db1. login_post cr e now sid' rq username password db =
       (Resp 200 [(''mfa_required'', PBool True), (''mfa_token'', PStr token)], rq_cookie rq, db1) \<and>
    sessions db1 = sessions db \<and>
    (t \<le> now + 300 * sec \<longrightarrow> (\<exists>db2. totp_login cr t sid rq token (Some code) None db1 =
         (Resp 200 [(''ok'', PBool True), (''username'', PStr (u_username u))], full_cookie (rq_cookie rq) sid (u_username u) (u_id u) t, db2) \<and>
       (\<exists>s. sessions db2 = sessions db1 @ [s] \<and> s_id s = sid \<and> s_user_id s = u_id u \<and> s_expires_at s = t + 8 * 3600 * sec) \<and>
       lookup_session t sid db2 = Some (u_id u))) \<and>
    (t \<le> now + 300 * sec \<longrightarrow> totp_login cr t sid rq token None None db1 = (err 400 ''code_or_backup_code_required'', rq_cookie rq, db1)) \<and>
    (t \<le> now + 300 * sec \<and> \<not> totp_ok cr secret (strip bad) t \<longrightarrow>
       totp_login cr t sid rq token (Some bad) None db1 = (err 401 ''invalid_code'', rq_cookie rq, db1)) \<and>
    (t > now + 300 * sec \<longrightarrow> totp_login cr t sid rq token (Some code) None db1 = (err 401 ''mfa_token_expired'', rq_cookie rq, db1))"
proof -
  let ?db1 = "record_login_attempt cr now (strip username) True (Some (get_client_ip e rq)) (Some (rq_agent rq)) db"
  let ?token = "create_mfa_token cr now (u_id u) (300 * sec)"
  have u: "u \<in> set (users db)" "u_username u = strip username" using tselect_Some [OF assms(2)] by simp_all
  have t: "row \<in> set (totps db)" "tp_user_id row = u_id u"
    using tselect_Some assms(5) by (fastforce simp: get_totp_row_def)+
  have "tselect (\<lambda>v. u_username v = strip username \<and> (\<exists>t \<in> set (totps db). tp_user_id t = u_id v \<and> tp_enabled t)) (users db) = Some u"
    using assms(2) t assms(6) unfolding tselect_def find_Some_iff by fastforce
  then have totp: "check_totp_enabled (strip username) db = Some (u_id u)"
    using assms(1) by (simp add: check_totp_enabled_def)
  have login: "login_post cr e now sid' rq username password db =
       (Resp 200 [(''mfa_required'', PBool True), (''mfa_token'', PStr ?token)], rq_cookie rq, ?db1)"
    using assms(1-3,9) totp
    by (cases "u_password_hash u") (simp_all add: login_post_eq Let_def lookup_user_def credentials_ok_def password_accepted_def)
  have d: "sessions ?db1 = sessions db" "users ?db1 = users db" "totps ?db1 = totps db" "db_up ?db1"
    using assms(1) by (simp_all add: record_login_attempt_def split: option.splits)
  have tok: "read_mfa_token cr ?token = Some (u_id u, now + 300 * sec)"
    using assms(10,11) by (intro read_create_token) simp_all
  have sel: "tselect (\<lambda>v. u_id v = u_id u) (users db) = Some u" using assms(4) u(1) by (intro tselect_key) simp_all
  have "totp_login cr t sid rq ?token (Some code) None ?db1 = (err 401 ''mfa_token_expired'', rq_cookie rq, ?db1)" if "t > now + 300 * sec"
    using that tok by (simp add: totp_login_def)
  moreover have "\<exists>db2. totp_login cr t sid rq ?token (Some code) None ?db1 =
         (Resp 200 [(''ok'', PBool True), (''username'', PStr (u_username u))], full_cookie (rq_cookie rq) sid (u_username u) (u_id u) t, db2) \<and>
       (\<exists>s. sessions db2 = sessions ?db1 @ [s] \<and> s_id s = sid \<and> s_user_id s = u_id u \<and> s_expires_at s = t + 8 * 3600 * sec) \<and>
       lookup_session t sid db2 = Some (u_id u)" if "t \<le> now + 300 * sec"
  proof -
    let ?s = "\<lparr>s_id = sid, s_user_id = u_id u, s_expires_at = t + SESSION_TTL, s_last_seen = t, s_ip = Some ip, s_agent = Some (rq_agent rq)\<rparr>"
    let ?db2 = "?db1\<lparr>sessions := sessions ?db1 @ [?s]\<rparr>"
    have "totp_login cr t sid rq ?token (Some code) None ?db1 =
      (Resp 200 [(''ok'', PBool True), (''username'', PStr (u_username u))], full_cookie (rq_cookie rq) sid (u_username u) (u_id u) t, ?db2)"
      using that tok sel u d assms(5-8,12,13)
      by (auto simp: totp_login_def Let_def get_totp_row_def check_factor_def create_session_def checkout_def cast_inet_def)
    moreover have "tselect (\<lambda>s. s_id s = sid \<and> t < s_expires_at s) (sessions db) = None" using assms(13) by (auto simp: tselect_None)
    then have "lookup_session t sid ?db2 = Some (u_id u)"
      by (simp add: lookup_session_def d tselect_append tselect_Cons SESSION_TTL_def)
    ultimately show ?thesis by (intro exI [of _ ?db2]) (simp add: SESSION_TTL_def)
  qed
  moreover have "totp_login cr t sid rq ?token None None ?db1 = (err 400 ''code_or_backup_code_required'', rq_cookie rq, ?db1)"
    "\<not> totp_ok cr secret (strip bad) t \<Longrightarrow> totp_login cr t sid rq ?token (Some bad) None ?db1 = (err 401 ''invalid_code'', rq_cookie rq, ?db1)"
    if "t \<le> now + 300 * sec"
    using that tok sel d assms(5-7) by (auto simp: totp_login_def Let_def get_totp_row_def check_factor_def)
  ultimately show ?thesis using login d(1) by blast
qed

lemma ex_crypto_formats: "\<forall>s. CHR ''.'' \<notin> set (hmac_hex ex_crypto s)" "\<forall>x. read_float ex_crypto (show_float ex_crypto x) = Some x"
  using show_nat_digits by (auto simp: ex_crypto_def py_int_show_int dest!: digit_not_sign)

theorem two_step_login_witness:
  "\<exists>token db1. login_post ex_crypto ex_env 5 ''s'' ex_request ''tom'' ''correct horse battery'' ex_web =
       (Resp 200 [(''mfa_required'', PBool True), (''mfa_token'', PStr token)], no_cookie, db1) \<and>
     fst (totp_login ex_crypto 6 ''s2'' ex_request token (Some ''123456'') None db1)
       = Resp 200 [(''ok'', PBool True), (''username'', PStr ''tom'')]"
proof -
  let ?tom = "ex_user 3 ''tom'' (Some ''H:correct horse battery'')"
  let ?row = "\<lparr>tp_user_id = 3, tp_secret_encrypted = ''KEY'', tp_enabled = True,
       tp_backup_codes = [(''4'', None), (''5'', None)], tp_enrolled_at = 0, tp_last_used_at = None\<rparr>"
  have p: "db_up ex_web" "tselect (\<lambda>u. u_username u = strip ''tom'') (users ex_web) = Some ?tom"
    "credentials_ok ex_crypto ''correct horse battery'' ?tom" "distinct (map u_id (users ex_web))"
    "get_totp_row (u_id ?tom) ex_web = Some ?row" "tp_enabled ?row"
    "decrypt_secret ex_crypto (tp_secret_encrypted ?row) = Some ''KEY''" "totp_ok ex_crypto ''KEY'' (strip ''123456'') 6"
    "\<not> check_rate_limit ex_crypto 5 (strip ''tom'') (Some (get_client_ip ex_env ex_request)) ex_web"
    by code_simp+
  have q: "inet ex_crypto (totp_client_ip ex_request) = Some ''1.2.3.4''" "''s2'' \<notin> s_id ` set (sessions ex_web)"
    by code_simp+
  have n: "rq_cookie ex_request = no_cookie" "u_username ?tom = ''tom''" by code_simp+
  from two_step_login [OF p ex_crypto_formats q, of "''s''"] show ?thesis unfolding n by fastforce
qed

text \<open>
  A session cookie is enough to switch the second factor off. Disabling it asks for the
  password and a code, so that a stolen cookie cannot; but the setup endpoint, with the cookie
  alone, replaces the secret and marks it as not enabled. From then on the right password logs
  in without a second factor, while the user's row still says that one is enabled.
\<close>

theorem setup_disables_second_factor:
  assumes "\<not> test_bypass e" "db_up db" "ck_username (rq_cookie rq) = Some (strip username)" "strip username \<noteq> []"
    and "tselect (\<lambda>u. u_username u = strip username) (users db) = Some u" "credentials_ok cr password u"
    and "distinct (map u_id (users db))" "distinct (map tp_user_id (totps db))" "distinct (map u_username (users db))"
    and "db1 = snd (totp_setup cr e now secret rq db)"
    and "\<not> check_rate_limit cr now' (strip username) (Some (get_client_ip e rq')) db1"
    and "inet cr (get_client_ip e rq') = Some ip" "sid \<notin> s_id ` set (sessions db)"
  shows "fst (login_post cr e now' sid rq' username password db1) =
      Resp 200 [(''ok'', PBool True), (''username'', PStr (strip username))] \<and> users db1 = users db"
proof -
  have res: "resolve_user_id (rq_cookie rq) db = Inr (Some (u_id u))"
    using assms(2-5) by (simp add: resolve_user_id_def get_user_id_by_username_def checkout_def)
  have db1: "db1 = upsert_totp_secret now (u_id u) (encrypt_secret cr secret) db"
    using assms(1,3,4,10) res by (simp add: totp_setup_def with_user_def Let_def)
  have off: "no_totp db1 (u_id u)"
    by (auto simp: db1 upsert_totp_secret_def no_totp_def get_totp_row_def tselect_None ball_tupdate)
  have d: "users db1 = users db" "sessions db1 = sessions db" "db_up db1"
    using assms(2) by (simp_all add: db1 upsert_totp_secret_def)
  have u: "u \<in> set (users db)" "u_username u = strip username" using tselect_Some [OF assms(5)] by simp_all
  have "check_totp_enabled (strip username) db1 = None"
    using off u assms(9) d(1) by (auto simp: check_totp_enabled_def tselect_None no_totp_def dest: distinct_col_eq)
  moreover have "\<not> (\<exists>s \<in> set (tdelete (\<lambda>s. s_user_id s = u_id u) (sessions db)). s_id s = sid)"
    using assms(13) by (auto simp: set_tdelete)
  ultimately have "fst (login_post cr e now' sid rq' username password db1) =
      Resp 200 [(''ok'', PBool True), (''username'', PStr (strip username))]"
    using assms(5,6,11,12) d u
    by (cases "u_password_hash u") (auto simp: login_post_eq Let_def lookup_user_def credentials_ok_def password_accepted_def
        create_session_def checkout_def cast_inet_def revoke_all_user_sessions_def)
  then show ?thesis using d(1) by simp
qed

theorem setup_disables_second_factor_witness:
  "fst (login_post ex_crypto ex_env 9 ''s2'' ex_request ''tom'' ''correct horse battery''
     (snd (totp_setup ex_crypto ex_env 8 ''NEW'' (ex_request\<lparr>rq_cookie := full_cookie no_cookie ''s'' ''tom'' 3 5\<rparr>) ex_web)))
   = Resp 200 [(''ok'', PBool True), (''username'', PStr ''tom'')]"
proof -
  let ?rq = "ex_request\<lparr>rq_cookie := full_cookie no_cookie ''s'' ''tom'' 3 5\<rparr>"
  let ?tom = "ex_user 3 ''tom'' (Some ''H:correct horse battery'')"
  let ?db1 = "snd (totp_setup ex_crypto ex_env 8 ''NEW'' ?rq ex_web)"
  have p: "\<not> test_bypass ex_env" "db_up ex_web" "ck_username (rq_cookie ?rq) = Some (strip ''tom'')" "strip ''tom'' \<noteq> []"
    "tselect (\<lambda>u. u_username u = strip ''tom'') (users ex_web) = Some ?tom"
    "credentials_ok ex_crypto ''correct horse battery'' ?tom" "distinct (map u_id (users ex_web))"
    "distinct (map tp_user_id (totps ex_web))" "distinct (map u_username (users ex_web))"
    by code_simp+
  have q: "\<not> check_rate_limit ex_crypto 9 (strip ''tom'') (Some (get_client_ip ex_env ex_request)) ?db1"
    "inet ex_crypto (get_client_ip ex_env ex_request) = Some ''1.2.3.4''" "''s2'' \<notin> s_id ` set (sessions ex_web)"
    by code_simp+
  have n: "strip ''tom'' = ''tom''" by code_simp
  from setup_disables_second_factor [OF p refl q] show ?thesis unfolding n by blast
qed

definition unused_codes :: "int \<Rightarrow> db \<Rightarrow> nat" where
  "unused_codes i db = (case get_totp_row i db of None \<Rightarrow> 0 | Some row \<Rightarrow> length (filter (\<lambda>c. snd c = None) (tp_backup_codes row)))"

lemma mark_code_True:
  assumes "mark_code now h es = (True, es')" "distinct (map fst es)"
  shows "map fst es' = map fst es \<and> (h, None) \<notin> set es' \<and>
    Suc (length (filter (\<lambda>c. snd c = None) es')) = length (filter (\<lambda>c. snd c = None) es)"
  using assms
proof (induction es arbitrary: es')
  case Nil
  then show ?case by simp
next
  case (Cons e es)
  obtain h' u where e: "e = (h', u)" by (cases e)
  show ?case
  proof (cases "u = None \<and> h' = h")
    case True
    then have "h \<notin> fst ` set es" using Cons.prems(2) e by simp
    then have "(h, None) \<notin> set es" by force
    then show ?thesis using Cons.prems e True by auto
  next
    case False
    then obtain es1 where "mark_code now h es = (True, es1)" "es' = (h', u) # es1"
      using Cons.prems(1) e by (auto simp: Let_def split: prod.splits)
    then show ?thesis using Cons.IH [of es1] Cons.prems(2) e False by auto
  qed
qed

lemma mark_code_False: "(h, None) \<notin> set es \<Longrightarrow> fst (mark_code now h es) = False"
  by (induction es) (auto simp: Let_def split: prod.splits if_splits)

lemma totp_login_ok:
  assumes "totp_login cr now sid rq token code backup db = (r, ck', db')" "status r = 200"
  obtains i ex u row secret db1 where "read_mfa_token cr token = Some (i, ex)" "now \<le> ex"
    "tselect (\<lambda>u. u_id u = i) (users db) = Some u" "get_totp_row i db = Some row" "tp_enabled row"
    "decrypt_secret cr (tp_secret_encrypted row) = Some secret"
    "check_factor cr now i row secret code backup db = Inr db1" "totps db' = totps db1"
proof -
  from assms show ?thesis
    by (auto simp: totp_login_def err_def server_error_def check_factor_def create_session_def checkout_def Let_def not_less
        intro: that split: option.splits prod.splits if_splits sum.splits)
qed

text \<open>
  C13. A backup code works once. A login with a backup code uses up exactly one unused code, and
  no later login of that user with the same code, at any time and with any token, succeeds while
  the codes are the same.
\<close>

theorem backup_code_once:
  assumes "totp_login cr now sid rq token None (Some c) db = (r, ck', db')" "status r = 200"
    and "read_mfa_token cr token = Some (i, ex)" "get_totp_row i db = Some row" "distinct (map fst (tp_backup_codes row))"
    and "read_mfa_token cr token2 = Some (i, ex2)"
  shows "Suc (unused_codes i db') = unused_codes i db \<and>
    status (fst (totp_login cr now2 sid2 rq2 token2 None (Some c) db')) \<noteq> 200"
  using assms(1,2)
proof (cases rule: totp_login_ok)
  case (1 i' ex' u row' secret db1)
  then have eq: "i' = i" "row' = row" using assms(3,4) by auto
  obtain codes where m: "mark_code now (hmac_hex cr (strip c)) (tp_backup_codes row) = (True, codes)"
    and db1: "db1 = update_backup_codes i codes db"
    using 1(7) by (auto simp: check_factor_def check_backup_code_def eq split: prod.splits if_splits)
  note mc = mark_code_True [OF m assms(5)]
  have row: "get_totp_row i db' = Some (row\<lparr>tp_backup_codes := codes\<rparr>)"
    using assms(4) tselect_Some [OF assms(4) [unfolded get_totp_row_def]]
    by (simp add: get_totp_row_def 1(8) db1 update_backup_codes_def tselect_tupdate)
  have "status (fst (totp_login cr now2 sid2 rq2 token2 None (Some c) db')) \<noteq> 200"
  proof
    assume s: "status (fst (totp_login cr now2 sid2 rq2 token2 None (Some c) db')) = 200"
    obtain r2 ck2 db2 where t: "totp_login cr now2 sid2 rq2 token2 None (Some c) db' = (r2, ck2, db2)" by (metis prod_cases3)
    with s have "status r2 = 200" by simp
    with t show False
    proof (cases rule: totp_login_ok)
      case (1 j ex' u row' secret db1)
      then have "j = i" "row' = row\<lparr>tp_backup_codes := codes\<rparr>" using assms(6) row by auto
      then show False using 1(7) mark_code_False [OF conjunct1 [OF conjunct2 [OF mc]], of now2]
        by (auto simp: check_factor_def check_backup_code_def split: prod.splits)
    qed
  qed
  then show ?thesis using mc row assms(4) by (simp add: unused_codes_def)
qed

theorem backup_code_once_witness:
  "status (fst (totp_login ex_crypto 7 ''s3'' ex_request (create_mfa_token ex_crypto 5 3 10) None (Some ''code'')
     (snd (snd (totp_login ex_crypto 6 ''s2'' ex_request (create_mfa_token ex_crypto 5 3 10) None (Some ''code'') ex_web))))) \<noteq> 200"
proof -
  let ?tok = "create_mfa_token ex_crypto 5 3 10"
  let ?l = "totp_login ex_crypto 6 ''s2'' ex_request ?tok None (Some ''code'') ex_web"
  let ?row = "\<lparr>tp_user_id = 3, tp_secret_encrypted = ''KEY'', tp_enabled = True,
       tp_backup_codes = [(''4'', None), (''5'', None)], tp_enrolled_at = 0, tp_last_used_at = None\<rparr>"
  have l: "?l = (fst ?l, fst (snd ?l), snd (snd ?l))" by (simp only: prod.collapse)
  have s: "status (fst ?l) = 200" by code_simp
  have t: "read_mfa_token ex_crypto ?tok = Some (3, 15)" by code_simp
  have r: "get_totp_row 3 ex_web = Some ?row" "distinct (map fst (tp_backup_codes ?row))" by code_simp+
  from backup_code_once [OF l s t r t] show ?thesis by blast
qed

section \<open>Password reset\<close>

text \<open>
  Password reset. When the reset endpoint answers 200, the token was issued, unused and
  unexpired, its user has no session left, the same token is refused as used from then on, and
  the user's hash is that of the new password. The new password is not checked: one of less than
  twelve characters is set as well, and the login then refuses it. If the user was deleted after
  the token was issued, the endpoint sets the password of the account whose name is the deleted
  user's number, and creates that account when there is none.
\<close>

theorem reset_password_effect:
  assumes "reset_password_consume cr now token new db = (r, db')" "status r = 200" "users_ok db"
  shows "\<exists>v \<in> set (verifications db). reset_row (cr_sha256 cr token) v \<and> ev_used_at v = None \<and> now \<le> ev_expires_at v \<and>
    (\<forall>s \<in> set (sessions db'). s_user_id s \<noteq> ev_user_id v) \<and>
    reset_password_consume cr now2 token new2 db' = (err 410 ''used'', db') \<and>
    (\<forall>u \<in> set (users db). u_id u = ev_user_id v \<longrightarrow> u\<lparr>u_password_hash := Some (hash_password cr new)\<rparr> \<in> set (users db')) \<and>
    (ev_user_id v \<notin> u_id ` set (users db) \<longrightarrow>
       (\<exists>u \<in> set (users db'). u_username u = show_int (ev_user_id v) \<and> u_password_hash u = Some (hash_password cr new))) \<and>
    (py_len new < 12 \<longrightarrow> status (fst (login_post cr e now3 sid rq username new db')) \<in> {401, 422})"
proof -
  let ?h = "cr_sha256 cr token" and ?pw = "Some (hash_password cr new)"
  let ?mark = "\<lambda>d. d\<lparr>verifications := tupdate (\<lambda>r. ev_token_hash r = Some ?h) (\<lambda>r. r\<lparr>ev_used_at := Some now\<rparr>) (verifications d)\<rparr>"
  let ?consume = "consume_password_reset_token (cr_sha256 cr) now token db"
  have bad: False if "?consume = (x, d)" "x = Inr None \<or> (\<exists>ex. x = Inl ex)" for x d
    using that assms(1,2) by (auto simp: reset_password_consume_def err_def split: exc.splits)
  have up: "db_up db"
    using bad [of "Inl DbError" db] by (cases "db_up db") (simp_all add: consume_password_reset_token_def Let_def checkout_def)
  obtain v where v: "tselect (reset_row ?h) (verifications db) = Some v" "ev_used_at v = None" "now \<le> ev_expires_at v"
  proof (cases "tselect (reset_row ?h) (verifications db)")
    case None
    then have "?consume = (Inr None, db)" using up by (simp add: consume_password_reset_token_def Let_def checkout_def)
    then show ?thesis using bad by blast
  next
    case (Some a)
    show ?thesis
    proof (cases "ev_used_at a = None \<and> now \<le> ev_expires_at a")
      case True
      then show ?thesis using that [OF Some] by blast
    next
      case False
      then have "\<exists>ex. ?consume = (Inl ex, db)"
        using up Some by (auto simp: consume_password_reset_token_def Let_def checkout_def)
      then show ?thesis using bad by blast
    qed
  qed
  have c: "?consume = (Inr (Some (ev_user_id v)), ?mark db)"
    using up v by (simp add: consume_password_reset_token_def Let_def checkout_def)
  let ?i = "ev_user_id v"
  define name where "name = (case tselect (\<lambda>u. u_id u = ?i) (users db) of None \<Rightarrow> show_int ?i | Some u \<Rightarrow> u_username u)"
  define db2 where "db2 = snd (set_user_password now name (hash_password cr new) False (?mark db))"
  have g: "get_user_by_id ?i (?mark db) = (Inr (map_option user_info_of (tselect (\<lambda>u. u_id u = ?i) (users db))), ?mark db)"
    using up by (simp add: get_user_by_id_def checkout_def)
  have n: "(case map_option user_info_of (tselect (\<lambda>u. u_id u = ?i) (users db)) of None \<Rightarrow> show_int ?i | Some u \<Rightarrow> ui_username u) = name"
    by (simp add: name_def user_info_of_def split: option.split)
  have p: "set_user_password now name (hash_password cr new) False (?mark db) = (Inr (), db2)" "db_up db2"
    "verifications db2 = verifications (?mark db)"
    using up by (simp_all add: set_user_password_def checkout_def db2_def)
  have r: "revoke_all_sessions ?i db2 = (Inr (), db2\<lparr>sessions := tdelete (\<lambda>s. s_user_id s = ?i) (sessions db2)\<rparr>)"
    using p(2) by (simp add: revoke_all_sessions_def checkout_def)
  have db': "db' = write_audit_log (''user:'' @ show_int ?i) ''user.reset_password'' (Some (show_int ?i)) True
      (db2\<lparr>sessions := tdelete (\<lambda>s. s_user_id s = ?i) (sessions db2)\<rparr>)"
    using assms(1) unfolding reset_password_consume_def c prod.case sum.case option.case Let_def g n p(1) r by blast
  have f: "db_up db'" "users db' = users db2" "verifications db' = verifications (?mark db)"
    "sessions db' = tdelete (\<lambda>s. s_user_id s = ?i) (sessions db2)"
    using p by (simp_all add: db' write_audit_log_def)
  note sel = tselect_Some [OF v(1)]
  have again: "reset_password_consume cr now2 token new2 db' = (err 410 ''used'', db')"
  proof -
    have "tselect (reset_row ?h) (verifications db') = Some (v\<lparr>ev_used_at := Some now\<rparr>)"
      using v(1) sel by (simp add: f tselect_tupdate reset_row_def)
    then show ?thesis using f(1) by (simp add: reset_password_consume_def consume_password_reset_token_def Let_def checkout_def)
  qed
  have known: "u\<lparr>u_password_hash := ?pw\<rparr> \<in> set (users db')" if u: "u \<in> set (users db)" "u_id u = ?i" for u
  proof -
    have "tselect (\<lambda>u. u_id u = ?i) (users db) = Some u" using assms(3) u by (intro tselect_key) (auto simp: users_ok_def)
    then have nm: "name = u_username u" by (simp add: name_def)
    have "tselect (\<lambda>w. u_username w = u_username u) (users db) \<noteq> None" using u(1) by (auto simp: tselect_None)
    then show ?thesis using up u(1) by (force simp: f(2) db2_def set_user_password_def checkout_def nm tupdate_def)
  qed
  have unknown: "\<exists>u \<in> set (users db'). u_username u = show_int ?i \<and> u_password_hash u = ?pw" if "?i \<notin> u_id ` set (users db)"
  proof -
    have "tselect (\<lambda>u. u_id u = ?i) (users db) = None" using that by (force simp: tselect_None)
    then have nm: "name = show_int ?i" by (simp add: name_def)
    show ?thesis
    proof (cases "tselect (\<lambda>w. u_username w = show_int ?i) (users db)")
      case None
      then show ?thesis using up by (simp add: f(2) db2_def set_user_password_def checkout_def nm)
    next
      case (Some w)
      then have "w \<in> set (users db)" "u_username w = show_int ?i" using tselect_Some by (metis (mono_tags, lifting))+
      then show ?thesis using up Some by (auto simp: f(2) db2_def set_user_password_def checkout_def nm ball_tupdate)
    qed
  qed
  have short: "status (fst (login_post cr e now3 sid rq username new db')) \<in> {401, 422}" if "py_len new < 12"
    using that by (simp add: login_post_eq Let_def err_def)
  show ?thesis using sel v again known unknown short f(4) by (intro bexI [of _ v]) (auto simp: set_tdelete)
qed

text \<open>Ann asks for a reset, twice; the second time her account is deleted before the link is used.\<close>

definition ex_reset :: db where
  "ex_reset = snd (create_password_reset_token (cr_sha256 ex_crypto) 1 ''token'' 1 (3600 * sec) ex_web)"

theorem reset_password_effect_witness:
  "\<not> (\<exists>s \<in> set (sessions (snd (reset_password_consume ex_crypto 2 ''token'' ''short'' ex_reset))). s_user_id s = 1) \<and>
   (\<exists>u \<in> set (users (snd (reset_password_consume ex_crypto 2 ''token'' ''short'' (snd (delete_user ''ann'' ex_reset))))).
      u_username u = ''1'' \<and> u_password_hash u = Some ''H:short'')"
proof -
  let ?d = "snd (delete_user ''ann'' ex_reset)"
  let ?r = "reset_password_consume ex_crypto 2 ''token'' ''short'' ex_reset"
  let ?q = "reset_password_consume ex_crypto 2 ''token'' ''short'' ?d"
  have s: "status (fst ?r) = 200" "status (fst ?q) = 200" by code_simp+
  have ok: "users_ok ex_reset" "users_ok ?d" by code_simp+
  have vr: "map ev_user_id (verifications ex_reset) = [1]" "map ev_user_id (verifications ?d) = [1]" by code_simp+
  have gone: "1 \<notin> u_id ` set (users ?d)" by code_simp
  have h: "show_int 1 = ''1''" "hash_password ex_crypto ''short'' = ''H:short''" by code_simp+
  have one: "ev_user_id v = 1" if "v \<in> set (verifications ex_reset) \<or> v \<in> set (verifications ?d)" for v
    using that vr by (metis (no_types, lifting) image_eqI list.set_map set_ConsD empty_iff list.set(1))
  have e: "?r = (fst ?r, snd ?r)" "?q = (fst ?q, snd ?q)" by (simp_all only: prod.collapse)
  from reset_password_effect [OF e(1) s(1) ok(1)] have a: "\<forall>s \<in> set (sessions (snd ?r)). s_user_id s \<noteq> 1"
    using one by fastforce
  from reset_password_effect [OF e(2) s(2) ok(2)] gone
  have "\<exists>u \<in> set (users (snd ?q)). u_username u = ''1'' \<and> u_password_hash u = Some ''H:short''"
    using one h by fastforce
  with a show ?thesis by blast
qed

end
