(* ===== verification/Accounts.thy ===== *)
theory Accounts
  imports WebAuth AuthDbProps
begin

text \<open>
  How accounts come into being and how requests reach the handlers: registration and e-mail
  verification (\<open>src/web_ui/routes/signup.py\<close>), the OAuth endpoint (\<open>routes/oauth.py\<close>), and the
  outer middlewares of \<open>src/web_ui/app.py\<close>. A handler that sends mail also returns the address
  and the token. The captcha service is an argument.
\<close>

section \<open>The middlewares of the application\<close>

text \<open>The peer of the TCP connection has to be this host; the reverse proxy is one.\<close>

definition loopback_only :: "request \<Rightarrow> response option" where
  "loopback_only rq =
     (if (case rq_peer rq of None \<Rightarrow> [] | Some h \<Rightarrow> h) \<notin> {''127.0.0.1'', ''::1''} then Some (err 403 ''forbidden'') else None)"

definition maintenance_mode :: "bool \<Rightarrow> request \<Rightarrow> response option" where
  "maintenance_mode restore_in_progress rq =
     (if restore_in_progress then
        (if rq_path rq = ''/api/operations/restore'' then None
         else if rq_path rq \<in> {''/health'', ''/openapi.json''} then None
         else Some (Resp 503 [(''error'', PStr ''service_in_maintenance''),
                (''detail'', PStr (''Restore in progress '' @ dash8 @ '' try again shortly''))]))
      else None)"

text \<open>What a request passes before its handler runs: the response that stops it, or None.\<close>

definition before_handler :: "env \<Rightarrow> bool \<Rightarrow> time \<Rightarrow> request \<Rightarrow> db \<Rightarrow> response option \<times> db" where
  "before_handler e restore_in_progress now rq db =
     (case loopback_only rq of
        Some r \<Rightarrow> (Some r, db)
      | None \<Rightarrow> (case maintenance_mode restore_in_progress rq of
           Some r \<Rightarrow> (Some r, db)
         | None \<Rightarrow> dispatch e now rq db))"

section \<open>Rows\<close>

text \<open>INSERT into \<open>webui_users\<close> with its constraints; the id is the next of the sequence.\<close>

definition insert_user :: "user \<Rightarrow> int io" where
  "insert_user u = checkout (\<lambda>db.
     if (\<exists>x \<in> set (users db). u_username x = u_username u \<or> u_email u \<noteq> None \<and> u_email x = u_email u) \<or>
        (db_hash_required db \<and> u_password_hash u = None)
     then (Inl DbError, db)
     else (Inr (next_user db), db\<lparr>users := users db @ [u\<lparr>u_id := next_user db\<rparr>], next_user := next_user db + 1\<rparr>))"

definition insert_email_token :: "time \<Rightarrow> string \<Rightarrow> int \<Rightarrow> unit io" where
  "insert_email_token now token_hash user_id = checkout (\<lambda>db.
     if \<exists>v \<in> set (verifications db). ev_token v = Some token_hash then (Inl DbError, db)
     else (Inr (), db\<lparr>verifications := verifications db @ [\<lparr>ev_token = Some token_hash, ev_user_id = user_id,
            ev_purpose = ''email_verify'', ev_token_hash = None, ev_expires_at = now + 24 * 3600 * sec,
            ev_used_at = None, ev_created_at = now\<rparr>]\<rparr>))"

section \<open>Registration\<close>

definition MIN_PASSWORD_LENGTH :: nat where
  "MIN_PASSWORD_LENGTH = 12"

definition COMMON_PASSWORDS :: "string list" where
  "COMMON_PASSWORDS =
    [''password'', ''password1'', ''password12'', ''password123'', ''123456'', ''12345678'',
     ''123456789'', ''1234567890'', ''qwerty'', ''qwerty123'', ''qwertyuiop'', ''abc123'',
     ''abcdefgh'', ''letmein'', ''welcome'', ''monkey'', ''dragon'', ''master'', ''sunshine'',
     ''princess'', ''iloveyou'', ''admin123'', ''admin1234'', ''superman'', ''batman'',
     ''football'', ''baseball'', ''soccer'', ''hockey'', ''trustno1'', ''shadow'', ''michael'',
     ''jessica'', ''jennifer'', ''daniel'', ''pass'', ''passw0rd'', ''p@ssword'', ''p@ssw0rd'',
     ''login'', ''starwars'', ''hello'', ''charlie'', ''donald'', ''pepper'', ''696969'',
     ''1q2w3e'', ''1q2w3e4r'', ''zxcvbnm'', ''asdfgh'', ''asdfghjkl'', ''111111'', ''111111111'',
     ''000000'', ''123123'', ''7777777'', ''1234567'', ''12345'', ''1234'', ''55555'', ''666666'',
     ''777777'', ''888888'', ''999999'', ''test'', ''test1234'', ''testing'', ''changeme'',
     ''newpassword'', ''newpass'', ''root'', ''rootroot'', ''toor'', ''admin'', ''administrator'',
     ''user'', ''guest'', ''demo'', ''sample'', ''default'', ''blank'', ''nothing'', ''hunter2'',
     ''correct'', ''horse'', ''battery'', ''staple'', ''wifi'', ''internet'', ''google'',
     ''facebook'', ''twitter'', ''instagram'', ''linkedin'', ''apple'', ''windows'', ''linux'',
     ''ubuntu'', ''raspberry'', ''letmein1'', ''welcome1'', ''pass123'', ''pass1234'',
     ''pass12345'']"

definition validate_password :: "string \<Rightarrow> string option" where
  "validate_password password =
     (if py_len password < MIN_PASSWORD_LENGTH then
        Some (''Password must be at least '' @ show_nat MIN_PASSWORD_LENGTH @ '' characters.'')
      else if lower password \<in> set COMMON_PASSWORDS then
        Some ''Password is too common. Please choose a stronger password.''
      else None)"

definition bad_email :: "string \<Rightarrow> bool" where
  "bad_email email \<longleftrightarrow> email = [] \<or> CHR ''@'' \<notin> set email"

type_synonym mail = "string \<times> string"

definition register :: "crypto \<Rightarrow> (string \<Rightarrow> string \<Rightarrow> bool) \<Rightarrow> time \<Rightarrow> string \<Rightarrow> request \<Rightarrow> string \<Rightarrow> string \<Rightarrow> string \<Rightarrow> string \<Rightarrow> string \<Rightarrow> db \<Rightarrow> response \<times> mail option \<times> db" where
  "register cr hcaptcha now raw_token rq email0 username0 password confirm_password hcaptcha_token db =
     (let client_ip = totp_client_ip rq; email = lower (strip email0); username = strip username0 in
      if bad_email email then (err 400 ''Invalid email address.'', None, db)
      else if username = [] \<or> py_len username < 2 \<or> 64 < py_len username
      then (err 400 ''Username must be between 2 and 64 characters.'', None, db)
      else if password \<noteq> confirm_password then (err 400 ''Passwords do not match.'', None, db)
      else (case validate_password password of
         Some e \<Rightarrow> (err 400 e, None, db)
       | None \<Rightarrow>
          (if \<not> hcaptcha hcaptcha_token client_ip then (err 400 ''Captcha verification failed.'', None, db)
           else if \<not> db_up db then (server_error, None, db)
           else if (\<exists>u \<in> set (users db). u_username u = username) \<or> (\<exists>u \<in> set (users db). u_email u = Some email)
           then (err 409 ''Email or username already registered. If this is yours, try logging in.'', None, db)
           else (case insert_user \<lparr>u_id = 0, u_username = username, u_password_hash = Some (hash_password cr password),
                     u_email = Some email, u_is_admin = False, u_is_active = True, u_mfa_enabled = False,
                     u_created_at = Some now, u_email_verified = False, u_oauth_provider = None, u_oauth_id = None\<rparr> db of
              (Inl _, db) \<Rightarrow> (server_error, None, db)
            | (Inr user_id, db) \<Rightarrow>
                (case insert_email_token now (cr_sha256 cr raw_token) user_id db of
                   (Inl _, db) \<Rightarrow> (server_error, None, db)
                 | (Inr _, db) \<Rightarrow> (Resp 201 [(''status'', PStr ''verification_email_sent'')], Some (email, raw_token), db))))))"

text \<open>The row lock makes the check and the two updates one step.\<close>

definition email_row :: "string \<Rightarrow> verification \<Rightarrow> bool" where
  "email_row token_hash v \<longleftrightarrow> ev_token v = Some token_hash \<and> ev_purpose v = ''email_verify''"

definition mark_verified :: "time \<Rightarrow> string \<Rightarrow> int \<Rightarrow> db \<Rightarrow> db" where
  "mark_verified now token_hash user_id db =
     db\<lparr>users := tupdate (\<lambda>u. u_id u = user_id) (\<lambda>u. u\<lparr>u_email_verified := True\<rparr>) (users db),
        verifications := tupdate (\<lambda>v. ev_token v = Some token_hash) (\<lambda>v. v\<lparr>ev_used_at := Some now\<rparr>) (verifications db)\<rparr>"

definition verify_email :: "crypto \<Rightarrow> time \<Rightarrow> string \<Rightarrow> request \<Rightarrow> string \<Rightarrow> db \<Rightarrow> response \<times> cookie \<times> db" where
  "verify_email cr now session_id rq token db =
     (let ck = rq_cookie rq; raw_token = strip token; token_hash = cr_sha256 cr raw_token;
          refuse = (err 410 ''expired_or_invalid'', ck, db) in
      if raw_token = [] then (err 400 ''Token required.'', ck, db)
      else if \<not> db_up db then (server_error, ck, db)
      else (case tselect (email_row token_hash) (verifications db) of
         None \<Rightarrow> refuse
       | Some row \<Rightarrow>
          (if ev_used_at row \<noteq> None \<or> ev_expires_at row < now then refuse
           else (case tselect (\<lambda>u. u_id u = ev_user_id row) (users db) of
              None \<Rightarrow> refuse
            | Some user_row \<Rightarrow>
                (let db = mark_verified now token_hash (ev_user_id row) db in
                 case create_session cr now session_id (ev_user_id row) (Some (totp_client_ip rq)) (Some (rq_agent rq)) db of
                   (Inl _, db) \<Rightarrow> (err 500 ''internal_error'', ck, db)
                 | (Inr sid, db) \<Rightarrow> (Resp 200 [(''ok'', PBool True), (''username'', PStr (u_username user_row))],
                      full_cookie ck sid (u_username user_row) (ev_user_id row) now, db))))))"

definition resend_verification :: "crypto \<Rightarrow> time \<Rightarrow> string \<Rightarrow> string \<Rightarrow> db \<Rightarrow> response \<times> mail option \<times> db" where
  "resend_verification cr now raw_token email0 db =
     (let email = lower (strip email0); ok = Resp 200 [(''status'', PStr ''ok'')] in
      if bad_email email then (err 400 ''Invalid email address.'', None, db)
      else if \<not> db_up db then (server_error, None, db)
      else (case tselect (\<lambda>u. u_email u = Some email \<and> \<not> u_email_verified u) (users db) of
         None \<Rightarrow> (ok, None, db)
       | Some user_row \<Rightarrow>
          (if 3 \<le> tcount (\<lambda>v. ev_user_id v = u_id user_row \<and> ev_purpose v = ''email_verify'' \<and> now - 3600 * sec < ev_created_at v) (verifications db)
           then (err 429 ''Too many verification emails sent. Try again later.'', None, db)
           else (case insert_email_token now (cr_sha256 cr raw_token) (u_id user_row) db of
              (Inl _, db) \<Rightarrow> (server_error, None, db)
            | (Inr _, db) \<Rightarrow> (ok, Some (email, raw_token), db)))))"

section \<open>OAuth\<close>

definition ALLOWED_PROVIDERS :: "string list" where
  "ALLOWED_PROVIDERS = [''google'', ''github'']"

definition lookup_user_by_oauth :: "string \<Rightarrow> string \<Rightarrow> db \<Rightarrow> user option" where
  "lookup_user_by_oauth provider oauth_id db =
     (if db_up db then tselect (\<lambda>u. u_oauth_provider u = Some provider \<and> u_oauth_id u = Some oauth_id) (users db) else None)"

definition lookup_user_by_email :: "string \<Rightarrow> db \<Rightarrow> user option" where
  "lookup_user_by_email email db =
     (if db_up db then tselect (\<lambda>u. map_option lower (u_email u) = Some (lower email)) (users db) else None)"

definition merge_oauth_into_user :: "int \<Rightarrow> string \<Rightarrow> string \<Rightarrow> unit io" where
  "merge_oauth_into_user user_id provider oauth_id = checkout (\<lambda>db.
     (Inr (), db\<lparr>users := tupdate (\<lambda>u. u_id u = user_id)
        (\<lambda>u. u\<lparr>u_oauth_provider := Some provider, u_oauth_id := Some oauth_id\<rparr>) (users db)\<rparr>))"

text \<open>\<open>s[:n]\<close> on UTF-8: the first n characters with their continuation bytes.\<close>

fun py_take :: "nat \<Rightarrow> string \<Rightarrow> string" where
  "py_take n [] = []"
| "py_take n (c # cs) = (if continuation c then c # py_take n cs else case n of 0 \<Rightarrow> [] | Suc m \<Rightarrow> c # py_take m cs)"

definition create_oauth_user :: "time \<Rightarrow> string \<Rightarrow> string \<Rightarrow> string \<Rightarrow> string \<Rightarrow> bool \<Rightarrow> user io" where
  "create_oauth_user now suffix provider oauth_id email email_verified db =
     (let username = py_take 40 (hd (split_on (CHR ''@'') email)) @ ''_'' @ suffix;
          u = \<lparr>u_id = 0, u_username = username, u_password_hash = None, u_email = Some email, u_is_admin = False,
               u_is_active = True, u_mfa_enabled = False, u_created_at = Some now, u_email_verified = email_verified,
               u_oauth_provider = Some provider, u_oauth_id = Some oauth_id\<rparr>
      in (case insert_user u db of
            (Inl x, db) \<Rightarrow> (Inl x, db)
          | (Inr i, db) \<Rightarrow> (Inr (u\<lparr>u_id := i\<rparr>), db)))"

text \<open>The tail of \<open>oauth_login\<close>, once the user is known.\<close>

definition oauth_session :: "crypto \<Rightarrow> time \<Rightarrow> string \<Rightarrow> request \<Rightarrow> string \<Rightarrow> string \<Rightarrow> string \<Rightarrow> user \<Rightarrow> db \<Rightarrow> response \<times> cookie \<times> db" where
  "oauth_session cr now session_id rq provider oauth_id email user db =
     (let ck = rq_cookie rq in
      if \<not> u_is_active user then
        (err 403 ''account_inactive'', ck,
         write_audit_log (''oauth:'' @ provider @ '':'' @ oauth_id) ''user.oauth_login'' (Some email) False db)
      else (case create_session cr now session_id (u_id user) (Some (totp_client_ip rq)) (Some (rq_agent rq)) db of
         (Inl _, db) \<Rightarrow> (err 500 ''internal_error'', ck, db)
       | (Inr sid, db) \<Rightarrow>
          (Resp 200 [(''ok'', PBool True), (''username'', PStr (u_username user))],
           ck\<lparr>ck_session_id := Some sid, ck_username := Some (u_username user), ck_session_at := Some now\<rparr>,
           write_audit_log (''user:'' @ show_int (u_id user)) ''user.oauth_login'' (Some email) True db)))"

definition oauth_login :: "crypto \<Rightarrow> time \<Rightarrow> string \<Rightarrow> string \<Rightarrow> request \<Rightarrow> string \<Rightarrow> string \<Rightarrow> string \<Rightarrow> bool \<Rightarrow> db \<Rightarrow> response \<times> cookie \<times> db" where
  "oauth_login cr now session_id suffix rq provider oauth_id0 email0 email_verified db =
     (let ck = rq_cookie rq; oauth_id = strip oauth_id0; email = lower (strip email0);
          finish = oauth_session cr now session_id rq provider oauth_id email in
      if provider \<notin> set ALLOWED_PROVIDERS \<or> oauth_id = [] \<or> bad_email email then (Resp 422 [], ck, db)
      else (case lookup_user_by_oauth provider oauth_id db of
         Some user \<Rightarrow> finish user db
       | None \<Rightarrow>
          (case lookup_user_by_email email db of
             Some existing \<Rightarrow>
              (if \<not> email_verified then
                 (Resp 409 [(''error'', PStr ''email_conflict''), (''detail'', PStr (''An account with this email already exists. ''
                    @ ''Your provider has not verified this email address. Please verify your email at the provider and try again.''))], ck,
                  write_audit_log (''oauth:'' @ provider @ '':'' @ oauth_id) ''user.oauth_login'' (Some email) False db)
               else (case merge_oauth_into_user (u_id existing) provider oauth_id db of
                  (Inl _, db) \<Rightarrow> (err 500 ''internal_error'', ck, db)
                | (Inr _, db) \<Rightarrow> finish existing db))
           | None \<Rightarrow>
              (case create_oauth_user now suffix provider oauth_id email email_verified db of
                 (Inl _, db) \<Rightarrow> (err 500 ''internal_error'', ck, db)
               | (Inr user, db) \<Rightarrow> finish user db))))"

end
