(* ===== verification/AccountsProps.thy ===== *)
theory AccountsProps
  imports Accounts WebAuthProps
begin

text \<open>
  Properties of registration and OAuth: what the endpoints keep of the accounts' invariant, the
  decision table of the OAuth login, the use of verification tokens, and three ways into an
  account without its password.
\<close>

section \<open>The invariant of the accounts\<close>

definition emails :: "user list \<Rightarrow> string list" where
  "emails us = List.map_filter u_email us"

definition lowered :: "user list \<Rightarrow> bool" where
  "lowered us \<longleftrightarrow> (\<forall>u \<in> set us. map_option lower (u_email u) = u_email u)"

definition accounts_inv :: "db \<Rightarrow> bool" where
  "accounts_inv db \<longleftrightarrow> auth_inv db \<and> distinct (emails (users db)) \<and> lowered (users db)"

lemma lower_lower [simp]: "lower (lower s) = lower s"
proof -
  have "char_lower (char_lower c) = char_lower c" for c
    by (cases "65 \<le> (of_char c :: nat) \<and> (of_char c :: nat) \<le> 90") (auto simp: char_lower_def Let_def)
  then show ?thesis by (simp add: lower_def)
qed

lemma emails_tupdate: "(\<And>u. u_email (f u) = u_email u) \<Longrightarrow> emails (tupdate P f us) = emails us"
  by (induction us) (auto simp: emails_def tupdate_def List.map_filter_simps split: option.split)

lemma set_emails: "x \<in> set (emails us) \<longleftrightarrow> (\<exists>u \<in> set us. u_email u = Some x)"
  by (simp add: emails_def in_map_filter)

lemma emails_append: "emails (us @ vs) = emails us @ emails vs"
  by (simp add: emails_def List.map_filter_def)

lemma emails_single: "emails [u] = (case u_email u of None \<Rightarrow> [] | Some e \<Rightarrow> [e])"
  by (simp add: emails_def List.map_filter_def split: option.split)

lemma distinct_emails_tdelete: "distinct (emails us) \<Longrightarrow> distinct (emails (tdelete P us))"
proof (induction us)
  case (Cons u us)
  have "set (emails (tdelete P us)) \<subseteq> set (emails us)" by (auto simp: set_emails set_tdelete)
  with Cons show ?case by (auto simp: emails_def tdelete_def List.map_filter_simps split: option.splits)
qed (simp add: tdelete_def)

lemma lower_emails_auth_step:
  "lowered (users db) \<Longrightarrow> lowered (users (auth_step h op db))"
  by (cases op) (auto simp: auth_ops lowered_def table_simps split: option.splits if_splits)

lemma emails_auth_step: "distinct (emails (users db)) \<Longrightarrow> distinct (emails (users (auth_step h op db)))"
  by (cases op) (auto simp: auth_ops emails_tupdate emails_append emails_single distinct_emails_tdelete
      split: option.splits if_splits)

datatype account_op = Store auth_op
  | Register time string request string string string string string
  | VerifyEmail time string request string
  | Resend time string string
  | OAuthLogin time string string request string string string bool

fun account_step :: "crypto \<Rightarrow> hashes \<Rightarrow> (string \<Rightarrow> string \<Rightarrow> bool) \<Rightarrow> account_op \<Rightarrow> db \<Rightarrow> db" where
  "account_step cr h hc (Store op) db = auth_step h op db"
| "account_step cr h hc (Register now tok rq em un pw pw2 cap) db = snd (snd (register cr hc now tok rq em un pw pw2 cap db))"
| "account_step cr h hc (VerifyEmail now sid rq tok) db = snd (snd (verify_email cr now sid rq tok db))"
| "account_step cr h hc (Resend now tok em) db = snd (snd (resend_verification cr now tok em db))"
| "account_step cr h hc (OAuthLogin now sid sx rq p oid em v) db = snd (snd (oauth_login cr now sid sx rq p oid em v db))"

lemma inv_insert_user: "accounts_inv db \<Longrightarrow> map_option lower (u_email u) = u_email u \<Longrightarrow> accounts_inv (snd (insert_user u db))"
  by (fastforce simp: lowered_def insert_user_def checkout_def accounts_inv_def auth_inv_def users_ok_def keys_ok_def refs_ok_def logs_ok_def rows_ok_def tokens_def
      emails_append emails_single set_emails image_Un split: option.split)

lemma inv_no_tables:
  assumes "accounts_inv db" "users db' = users db" "next_user db' = next_user db" "api_keys db' = api_keys db" "next_key db' = next_key db"
    "set (sessions db') \<subseteq> set (sessions db)" "totps db' = totps db" "usage_log db' = usage_log db" "feedbacks db' = feedbacks db" "rows_ok db'"
  shows "accounts_inv db'"
  using assms by (auto simp: accounts_inv_def auth_inv_def users_ok_def keys_ok_def refs_ok_def logs_ok_def)

lemma inv_rows: "accounts_inv db \<Longrightarrow> rows_ok db"
  by (simp add: accounts_inv_def auth_inv_def)

lemma inv_insert_token: "accounts_inv db \<Longrightarrow> accounts_inv (snd (insert_email_token now th i db))"
  by (frule inv_rows, erule inv_no_tables) (auto simp: insert_email_token_def checkout_def rows_ok_def token_simps)

lemma inv_audit: "accounts_inv db \<Longrightarrow> accounts_inv (write_audit_log a b c d db)"
  by (frule inv_rows, erule inv_no_tables) (auto simp: write_audit_log_def rows_ok_def token_simps)

lemma inv_users:
  assumes "accounts_inv db" "\<And>u. u_id (f u) = u_id u" "\<And>u. u_username (f u) = u_username u" "\<And>u. u_email (f u) = u_email u"
  shows "accounts_inv (db\<lparr>users := tupdate P f (users db)\<rparr>)"
  using assms
  by (simp add: accounts_inv_def lowered_def auth_inv_def users_ok_def keys_ok_def refs_ok_def logs_ok_def rows_ok_def tokens_def emails_tupdate map_tupdate
      ball_tupdate image_tupdate if_distrib [of u_id] cong: if_cong)

lemma inv_merge: "accounts_inv db \<Longrightarrow> accounts_inv (snd (merge_oauth_into_user i p oid db))"
  using inv_users [of db "\<lambda>u. u\<lparr>u_oauth_provider := Some p, u_oauth_id := Some oid\<rparr>"]
  by (simp add: merge_oauth_into_user_def checkout_def)

lemma inv_mark_verified: "accounts_inv db \<Longrightarrow> accounts_inv (mark_verified now th i db)"
  using inv_no_tables [OF inv_users [of db "\<lambda>u. u\<lparr>u_email_verified := True\<rparr>"], of "mark_verified now th i db"] inv_rows [of db]
  by (simp add: mark_verified_def rows_ok_def tokens_def map_filter_tupdate)

lemma inv_create_session: "accounts_inv db \<Longrightarrow> accounts_inv (snd (create_session cr now sid i ip ag db))"
  by (auto simp: create_session_def checkout_def accounts_inv_def auth_inv_def users_ok_def keys_ok_def refs_ok_def logs_ok_def rows_ok_def tokens_def
      split: option.splits)

lemmas inv_parts = inv_insert_user inv_insert_token inv_audit inv_merge inv_mark_verified inv_create_session

lemma inv_register: "accounts_inv db \<Longrightarrow> accounts_inv (snd (snd (register cr hc now tok rq em un pw pw2 cap db)))"
  using inv_insert_user [of db "\<lparr>u_id = 0, u_username = strip un, u_password_hash = Some (hash_password cr pw),
      u_email = Some (lower (strip em)), u_is_admin = False, u_is_active = True, u_mfa_enabled = False,
      u_created_at = Some now, u_email_verified = False, u_oauth_provider = None, u_oauth_id = None\<rparr>"] inv_insert_token
  by (auto simp: register_def Let_def split: option.splits prod.splits sum.splits) (metis snd_conv)+

lemma inv_verify: "accounts_inv db \<Longrightarrow> accounts_inv (snd (snd (verify_email cr now sid rq tok db)))"
  using inv_create_session [OF inv_mark_verified [of db]]
  by (auto simp: verify_email_def Let_def split: option.splits prod.splits sum.splits) (metis snd_conv)+

lemma inv_resend: "accounts_inv db \<Longrightarrow> accounts_inv (snd (snd (resend_verification cr now tok em db)))"
  using inv_insert_token [of db]
  by (auto simp: resend_verification_def Let_def split: option.splits prod.splits sum.splits) (metis snd_conv)+

lemma inv_oauth_session: "accounts_inv db \<Longrightarrow> accounts_inv (snd (snd (oauth_session cr now sid rq p oid em u db)))"
  using inv_create_session [of db] inv_audit
  by (auto simp: oauth_session_def Let_def split: prod.splits sum.splits) (metis snd_conv)+

lemma inv_create_oauth:
  assumes "accounts_inv db" "lower em = em"
  shows "accounts_inv (snd (create_oauth_user now sx p oid em v db))"
proof -
  let ?u = "\<lparr>u_id = 0, u_username = py_take 40 (hd (split_on (CHR ''@'') em)) @ ''_'' @ sx, u_password_hash = None,
     u_email = Some em, u_is_admin = False, u_is_active = True, u_mfa_enabled = False, u_created_at = Some now,
     u_email_verified = v, u_oauth_provider = Some p, u_oauth_id = Some oid\<rparr>"
  have "accounts_inv (snd (insert_user ?u db))" using assms by (intro inv_insert_user) simp_all
  moreover obtain r d where "insert_user ?u db = (r, d)" by fastforce
  ultimately show ?thesis by (cases r) (simp_all add: create_oauth_user_def)
qed

lemma inv_oauth_login: "accounts_inv db \<Longrightarrow> accounts_inv (snd (snd (oauth_login cr now sid sx rq p oid em v db)))"
proof -
  assume inv: "accounts_inv db"
  have m: "accounts_inv d" if "merge_oauth_into_user i p oid' db = (r, d)" for i oid' r d using inv_merge [OF inv, of i p oid'] that by simp
  have c: "accounts_inv d" if "create_oauth_user now sx p oid' (lower em') v db = (r, d)" for oid' em' r d
    using inv_create_oauth [OF inv, of "lower em'" now sx p oid' v] that by simp
  show ?thesis
    using inv inv_oauth_session inv_audit m c
    by (auto simp: oauth_login_def Let_def split: option.split prod.split sum.split)
qed

lemma accounts_inv_step: "accounts_inv db \<Longrightarrow> accounts_inv (account_step cr h hc op db)"
proof (cases op)
  case (Store x)
  assume "accounts_inv db"
  then show ?thesis using Store auth_inv_step emails_auth_step lower_emails_auth_step by (simp add: accounts_inv_def)
qed (simp_all add: inv_register inv_verify inv_resend inv_oauth_login)

interpretation account_store: op_store "account_step cr h hc" "\<lambda>_. True" accounts_inv for cr h hc
  by unfold_locales (rule accounts_inv_step)

lemma empty_accounts_inv: "accounts_inv empty_db"
  using empty_db_inv by (simp add: accounts_inv_def lowered_def emails_def empty_db_def)

text \<open>The admins are the same before and after a call that is not one of \<open>AuthStore\<close>.\<close>

definition admins :: "db \<Rightarrow> int list" where
  "admins db = map u_id (filter u_is_admin (users db))"

lemma admins_tupdate: "(\<And>u. u_is_admin (f u) = u_is_admin u) \<Longrightarrow> (\<And>u. u_id (f u) = u_id u) \<Longrightarrow>
    admins (db\<lparr>users := tupdate P f (users db)\<rparr>) = admins db"
  by (simp add: admins_def tupdate_def filter_map comp_def if_distrib [of u_is_admin] if_distrib [of u_id] cong: if_cong)

lemma admins_users: "users db' = users db \<Longrightarrow> admins db' = admins db"
  by (simp add: admins_def)

lemma admins_insert: "insert_user u db = (r, d) \<Longrightarrow> \<not> u_is_admin u \<Longrightarrow> admins d = admins db"
  by (auto simp: insert_user_def checkout_def admins_def split: if_splits)

lemma admins_parts:
  "insert_email_token now th i db = (q, d) \<Longrightarrow> admins d = admins db"
  "create_session cr now sid i ip ag db = (r, d) \<Longrightarrow> admins d = admins db"
  "merge_oauth_into_user i p oid db = (q, d) \<Longrightarrow> admins d = admins db"
  "admins (write_audit_log a b c e db) = admins db"
  "admins (mark_verified now th i db) = admins db"
  using admins_tupdate [of "\<lambda>u. u\<lparr>u_email_verified := True\<rparr>" "\<lambda>u. u_id u = i" db]
    admins_tupdate [of "\<lambda>u. u\<lparr>u_oauth_provider := Some p, u_oauth_id := Some oid\<rparr>" "\<lambda>u. u_id u = i" db]
  by (auto simp: insert_email_token_def create_session_def merge_oauth_into_user_def write_audit_log_def mark_verified_def
      checkout_def admins_def split: if_splits option.splits)

lemma admins_create_oauth: "create_oauth_user now sx p oid em v db = (r, d) \<Longrightarrow> admins d = admins db"
  by (auto simp: create_oauth_user_def Let_def dest: admins_insert split: prod.splits sum.splits)

lemma admins_oauth_session: "admins (snd (snd (oauth_session cr now sid rq p oid em u db))) = admins db"
  by (auto simp: oauth_session_def Let_def admins_parts(4) dest: admins_parts(2) split: prod.splits sum.splits)

lemma admins_handlers:
  "admins (snd (snd (register cr hc now tok rq em un pw pw2 cap db))) = admins db"
  "admins (snd (snd (verify_email cr now sid rq tok db))) = admins db"
  "admins (snd (snd (resend_verification cr now tok em db))) = admins db"
  "admins (snd (snd (oauth_login cr now sid sx rq p oid em v db))) = admins db"
  subgoal by (auto simp: register_def Let_def dest!: admins_insert admins_parts(1) split: option.split prod.split sum.split)
  subgoal by (auto simp: verify_email_def Let_def admins_parts(5) dest!: admins_parts(2) split: option.split prod.split sum.split)
  subgoal by (auto simp: resend_verification_def Let_def dest!: admins_parts(1) split: option.split prod.split sum.split)
  subgoal by (auto simp: oauth_login_def Let_def admins_oauth_session admins_parts(4) dest!: admins_parts(3) admins_create_oauth
        split: option.split prod.split sum.split)
  done

text \<open>
  C19. Public endpoints and the store together keep the accounts sound: after any mixture of
  registrations, verifications, OAuth logins and calls of \<open>AuthStore\<close>, from an empty database, the
  tables are consistent, no two accounts share an e-mail address, and addresses are in lower
  case. And no request to the public endpoints makes anyone an admin or takes the right away.
\<close>
theorem accounts_integrity:
  "accounts_inv (fold (account_step cr h hc) ops empty_db) \<and>
   (case op of Store _ \<Rightarrow> True | _ \<Rightarrow> admins (account_step cr h hc op db) = admins db)"
proof
  show "accounts_inv (fold (account_step cr h hc) ops empty_db)"
    by (rule account_store.run [OF empty_accounts_inv]) simp
  show "case op of Store _ \<Rightarrow> True | _ \<Rightarrow> admins (account_step cr h hc op db) = admins db"
    by (cases op) (simp_all add: admins_handlers)
qed

section \<open>The OAuth login\<close>

lemma create_session_ok:
  assumes "db_up db" "inet cr a = Some ip" "sid \<notin> s_id ` set (sessions db)" "i \<in> u_id ` set (users db)"
  shows "create_session cr now sid i (Some a) ag db = (Inr sid, db\<lparr>sessions := sessions db @
     [\<lparr>s_id = sid, s_user_id = i, s_expires_at = now + SESSION_TTL, s_last_seen = now, s_ip = Some ip, s_agent = ag\<rparr>]\<rparr>)"
  using assms by (auto simp: create_session_def checkout_def cast_inet_def)

lemma lookup_new_session:
  assumes "db_up db" "sid \<notin> s_id ` set (sessions db)" "0 < ttl"
  shows "lookup_session now sid (db\<lparr>sessions := sessions db @ [\<lparr>s_id = sid, s_user_id = i, s_expires_at = now + ttl,
     s_last_seen = t, s_ip = ip, s_agent = ag\<rparr>]\<rparr>) = Some i"
  using assms by (auto simp: lookup_session_def tselect_append tselect_Cons tselect_None split: option.split dest: tselect_Some)

lemma audit_frame:
  "lookup_session now sid (write_audit_log a b c d db) = lookup_session now sid db"
  "users (write_audit_log a b c d db) = users db"
  by (simp_all add: write_audit_log_def lookup_session_def)

text \<open>The account that the login is about, by the policy: the one linked to the identity, else
  the one with the address.\<close>

definition oauth_account :: "string \<Rightarrow> string \<Rightarrow> string \<Rightarrow> db \<Rightarrow> user option" where
  "oauth_account provider oauth_id email db =
     (case lookup_user_by_oauth provider oauth_id db of Some u \<Rightarrow> Some u | None \<Rightarrow> lookup_user_by_email email db)"

definition oauth_link :: "user \<Rightarrow> string \<Rightarrow> string \<Rightarrow> bool" where
  "oauth_link u provider oauth_id \<longleftrightarrow> u_oauth_provider u = Some provider \<and> u_oauth_id u = Some oauth_id"

lemma oauth_session_answers:
  assumes "db_up db" "inet cr (totp_client_ip rq) = Some ip" "sid \<notin> s_id ` set (sessions db)" "u_id u \<in> u_id ` set (users db)"
  shows "status (fst (oauth_session cr now sid rq p oid em u db)) = (if u_is_active u then 200 else 403) \<and>
    (u_is_active u \<longrightarrow> lookup_session now sid (snd (snd (oauth_session cr now sid rq p oid em u db))) = Some (u_id u) \<and>
      fst (snd (oauth_session cr now sid rq p oid em u db)) =
        (rq_cookie rq)\<lparr>ck_session_id := Some sid, ck_username := Some (u_username u), ck_session_at := Some now\<rparr>) \<and>
    users (snd (snd (oauth_session cr now sid rq p oid em u db))) = users db"
  using create_session_ok [OF assms] lookup_new_session [OF assms(1,3), of SESSION_TTL now "u_id u" now "Some ip" "Some (rq_agent rq)"]
  by (simp add: oauth_session_def Let_def err_def audit_frame SESSION_TTL_def)

text \<open>
  C20. The linking policy of the OAuth login. For a well-formed request the answer is decided by
  the account found (by identity first, then by address): none means a new account, which the
  migrations' NOT NULL on the password hash always refuses (500); an account found by address
  alone needs the provider's word that the address is verified (409 otherwise); and an inactive
  account is refused (403). Every other case logs in.
\<close>
theorem oauth_policy:
  assumes "accounts_inv db" "db_up db" "db_hash_required db" "provider \<in> set ALLOWED_PROVIDERS" "strip oid \<noteq> []"
    and "\<not> bad_email (lower (strip em))" "inet cr (totp_client_ip rq) = Some ip" "sid \<notin> s_id ` set (sessions db)"
  shows "status (fst (oauth_login cr now sid sx rq provider oid em verified db)) =
    (case oauth_account provider (strip oid) (lower (strip em)) db of
       None \<Rightarrow> 500
     | Some u \<Rightarrow> if \<not> oauth_link u provider (strip oid) \<and> \<not> verified then 409
                else if u_is_active u then 200 else 403)"
proof (cases "lookup_user_by_oauth provider (strip oid) db")
  case (Some u)
  then have "u \<in> set (users db)" "oauth_link u provider (strip oid)"
    using tselect_Some by (auto simp: lookup_user_by_oauth_def oauth_link_def split: if_splits dest: tselect_Some)
  then show ?thesis
    using Some assms oauth_session_answers [OF assms(2,7,8)] by (simp add: oauth_login_def Let_def oauth_account_def)
next
  case None
  note no_link = None
  show ?thesis
  proof (cases "lookup_user_by_email (lower (strip em)) db")
    case None
    then show ?thesis using no_link assms
      by (simp add: oauth_login_def Let_def oauth_account_def create_oauth_user_def insert_user_def checkout_def err_def)
  next
    case (Some u)
    then have u: "u \<in> set (users db)"
      using tselect_Some by (auto simp: lookup_user_by_email_def split: if_splits dest: tselect_Some)
    have nl: "\<not> oauth_link u provider (strip oid)"
      using no_link u assms(2) by (auto simp: lookup_user_by_oauth_def oauth_link_def tselect_None)
    let ?db = "db\<lparr>users := tupdate (\<lambda>x. u_id x = u_id u) (\<lambda>x. x\<lparr>u_oauth_provider := Some provider, u_oauth_id := Some (strip oid)\<rparr>) (users db)\<rparr>"
    have "u_id ` set (users ?db) = u_id ` set (users db)" by (simp add: image_tupdate)
    then have "status (fst (oauth_session cr now sid rq provider (strip oid) (lower (strip em)) u ?db)) = (if u_is_active u then 200 else 403)"
      using oauth_session_answers [of ?db cr rq ip sid u] assms u by auto
    then show ?thesis using no_link Some nl assms
      by (simp add: oauth_login_def Let_def oauth_account_def merge_oauth_into_user_def checkout_def)
  qed
qed

definition ex_accounts :: db where
  "ex_accounts = empty_db\<lparr>users := [(ex_user 1 ''ann'' (Some ''H:correct horse battery''))\<lparr>u_email := Some ''ann@corp.com''\<rparr>,
       (ex_user 2 ''bob'' (Some ''H:x''))\<lparr>u_email := Some ''bob@corp.com'', u_is_admin := False, u_is_active := False\<rparr>],
     totps := [\<lparr>tp_user_id = 1, tp_secret_encrypted = ''KEY'', tp_enabled = True,
       tp_backup_codes = [], tp_enrolled_at = 0, tp_last_used_at = None\<rparr>], next_user := 3\<rparr>"

definition ex_proxied :: request where
  "ex_proxied = \<lparr>rq_path = ''/api/auth/oauth-login'', rq_peer = Some ''127.0.0.1'', rq_xff = ''203.0.113.7'', rq_real_ip = ''203.0.113.7'',
     rq_agent = ''curl'', rq_cookie = no_cookie\<rparr>"

lemma ex_accounts_inv: "accounts_inv ex_accounts" "db_up ex_accounts" "db_hash_required ex_accounts"
proof -
  have "users_ok ex_accounts" "keys_ok ex_accounts" by code_simp+
  moreover have "rows_ok ex_accounts" by (simp add: rows_ok_def tokens_def ex_accounts_def empty_db_def List.map_filter_simps)
  moreover have "refs_ok ex_accounts" "logs_ok ex_accounts"
    by (auto simp: refs_ok_def logs_ok_def ex_accounts_def empty_db_def ex_user_def)
  moreover have "distinct (emails (users ex_accounts))" "lowered (users ex_accounts)" by code_simp+
  ultimately show "accounts_inv ex_accounts" by (simp add: accounts_inv_def auth_inv_def)
qed code_simp+

theorem oauth_policy_witness:
  "status (fst (oauth_login ex_crypto 5 ''s'' ''ab12'' ex_proxied ''google'' ''42'' ''Eve@corp.com'' True ex_accounts)) = 500 \<and>
   status (fst (oauth_login ex_crypto 5 ''s'' ''ab12'' ex_proxied ''google'' ''42'' ''Ann@corp.com'' False ex_accounts)) = 409 \<and>
   status (fst (oauth_login ex_crypto 5 ''s'' ''ab12'' ex_proxied ''google'' ''42'' ''bob@corp.com'' True ex_accounts)) = 403"
proof -
  have p: "''google'' \<in> set ALLOWED_PROVIDERS" "strip ''42'' \<noteq> []" by code_simp+
  have b: "\<not> bad_email (lower (strip ''Eve@corp.com''))" "\<not> bad_email (lower (strip ''Ann@corp.com''))" "\<not> bad_email (lower (strip ''bob@corp.com''))"
    by code_simp+
  have q: "inet ex_crypto (totp_client_ip ex_proxied) = Some ''203.0.113.7''" "''s'' \<notin> s_id ` set (sessions ex_accounts)" by code_simp+
  have a: "oauth_account ''google'' (strip ''42'') (lower (strip ''Eve@corp.com'')) ex_accounts = None"
    "map_option (\<lambda>u. (oauth_link u ''google'' (strip ''42''), u_is_active u)) (oauth_account ''google'' (strip ''42'') (lower (strip ''Ann@corp.com'')) ex_accounts) = Some (False, True)"
    "map_option (\<lambda>u. (oauth_link u ''google'' (strip ''42''), u_is_active u)) (oauth_account ''google'' (strip ''42'') (lower (strip ''bob@corp.com'')) ex_accounts) = Some (False, False)"
    by code_simp+
  note P = oauth_policy [OF ex_accounts_inv p _ q, of _ 5 "''ab12''"]
  show ?thesis using P [OF b(1), of True] P [OF b(2), of False] P [OF b(3), of True] a by (auto split: option.splits)
qed

lemma email_owner_unique:
  "distinct (emails us) \<Longrightarrow> u \<in> set us \<Longrightarrow> u' \<in> set us \<Longrightarrow> u_email u = Some m \<Longrightarrow> u_email u' = Some m \<Longrightarrow> u = u'"
proof (induction us)
  case (Cons x us)
  have tl: "m \<in> set (emails us)" if "y \<in> set us" "u_email y = Some m" for y using that by (auto simp: set_emails)
  have hd: "m \<notin> set (emails us)" "distinct (emails us)" if "u_email x = Some m"
    using Cons.prems(1) that by (simp_all add: emails_def List.map_filter_simps)
  have "distinct (emails us)" using Cons.prems(1) by (simp add: emails_def List.map_filter_simps split: option.splits)
  then show ?case using Cons tl hd by (metis set_ConsD)
qed simp

lemma lookup_by_email:
  assumes "accounts_inv db" "db_up db" "u \<in> set (users db)" "u_email u = Some m" "lower m = m"
  shows "lookup_user_by_email m db = Some u"
proof (cases "lookup_user_by_email m db")
  case None
  then show ?thesis using assms by (auto simp: lookup_user_by_email_def tselect_None)
next
  case (Some y)
  then have y: "y \<in> set (users db)" "map_option lower (u_email y) = Some m"
    using assms(2,5) tselect_Some [of "\<lambda>u. map_option lower (u_email u) = Some m" "users db" y] by (simp_all add: lookup_user_by_email_def)
  moreover have "map_option lower (u_email y) = u_email y" using assms(1) y(1) unfolding accounts_inv_def lowered_def by blast
  ultimately have "u_email y = Some m" by simp
  then have "y = u" using email_owner_unique [of "users db" y u m] y(1) assms by (simp add: accounts_inv_def)
  with Some show ?thesis by simp
qed

lemma oauth_by_email:
  assumes "accounts_inv db" "db_up db" "provider \<in> set ALLOWED_PROVIDERS" "strip oid \<noteq> []" "\<not> bad_email (lower (strip em))"
    and "lookup_user_by_oauth provider (strip oid) db = None"
    and "u \<in> set (users db)" "u_email u = Some (lower (strip em))" "u_is_active u"
    and "inet cr (totp_client_ip rq) = Some ip" "sid \<notin> s_id ` set (sessions db)"
  shows "\<exists>db'. oauth_login cr now sid sx rq provider oid em True db =
      (Resp 200 [(''ok'', PBool True), (''username'', PStr (u_username u))],
       (rq_cookie rq)\<lparr>ck_session_id := Some sid, ck_username := Some (u_username u), ck_session_at := Some now\<rparr>, db') \<and>
    lookup_session now sid db' = Some (u_id u) \<and> db_up db' \<and>
    users db' = tupdate (\<lambda>x. u_id x = u_id u) (\<lambda>x. x\<lparr>u_oauth_provider := Some provider, u_oauth_id := Some (strip oid)\<rparr>) (users db) \<and>
    attempts db' = attempts db \<and> totps db' = totps db \<and> s_id ` set (sessions db') = insert sid (s_id ` set (sessions db))"
proof -
  have em: "lookup_user_by_email (lower (strip em)) db = Some u"
    by (rule lookup_by_email) (use assms in simp_all)
  let ?db = "db\<lparr>users := tupdate (\<lambda>x. u_id x = u_id u) (\<lambda>x. x\<lparr>u_oauth_provider := Some provider, u_oauth_id := Some (strip oid)\<rparr>) (users db)\<rparr>"
  have o: "oauth_login cr now sid sx rq provider oid em True db = oauth_session cr now sid rq provider (strip oid) (lower (strip em)) u ?db"
    using assms(2-6) em by (simp add: oauth_login_def Let_def merge_oauth_into_user_def checkout_def)
  have id: "u_id u \<in> u_id ` set (users ?db)" using assms(7) by (simp add: image_tupdate)
  have cs: "create_session cr now sid (u_id u) (Some (totp_client_ip rq)) (Some (rq_agent rq)) ?db = (Inr sid,
      ?db\<lparr>sessions := sessions ?db @ [\<lparr>s_id = sid, s_user_id = u_id u, s_expires_at = now + SESSION_TTL, s_last_seen = now,
        s_ip = Some ip, s_agent = Some (rq_agent rq)\<rparr>]\<rparr>)"
    by (rule create_session_ok [OF _ assms(10) _ id]) (use assms(2,11) in simp_all)
  have l: "lookup_session now sid (?db\<lparr>sessions := sessions ?db @ [\<lparr>s_id = sid, s_user_id = u_id u, s_expires_at = now + SESSION_TTL,
      s_last_seen = now, s_ip = Some ip, s_agent = Some (rq_agent rq)\<rparr>]\<rparr>) = Some (u_id u)"
    by (rule lookup_new_session) (use assms(2,11) in \<open>simp_all add: SESSION_TTL_def\<close>)
  let ?db2 = "write_audit_log (''user:'' @ show_int (u_id u)) ''user.oauth_login'' (Some (lower (strip em))) True
     (?db\<lparr>sessions := sessions ?db @ [\<lparr>s_id = sid, s_user_id = u_id u, s_expires_at = now + SESSION_TTL,
      s_last_seen = now, s_ip = Some ip, s_agent = Some (rq_agent rq)\<rparr>]\<rparr>)"
  have "db_up ?db2" "attempts ?db2 = attempts db" "totps ?db2 = totps db" "s_id ` set (sessions ?db2) = insert sid (s_id ` set (sessions db))"
    using assms(2) by (simp_all add: write_audit_log_def)
  moreover have "oauth_login cr now sid sx rq provider oid em True db =
      (Resp 200 [(''ok'', PBool True), (''username'', PStr (u_username u))],
       (rq_cookie rq)\<lparr>ck_session_id := Some sid, ck_username := Some (u_username u), ck_session_at := Some now\<rparr>, ?db2)"
    unfolding o using assms(9) cs by (simp add: oauth_session_def Let_def)
  ultimately show ?thesis using l by (auto simp only: audit_frame intro!: exI [of _ ?db2]) simp_all
qed

text \<open>
  C21. The OAuth endpoint takes the identity on trust. It is meant for the callback page alone,
  and the middleware only admits peers on this host; but the reverse proxy, which sends every
  request under /api/ to the application, is such a peer. So anyone can post the e-mail address of
  any active account, with any unused identity and the word that it is verified, without cookie,
  password, provider or second factor, and gets a session of that account, admins included.
\<close>
theorem oauth_login_takeover:
  assumes "accounts_inv db" "db_up db" "provider \<in> set ALLOWED_PROVIDERS" "strip oid \<noteq> []" "\<not> bad_email (lower (strip em))"
    and "lookup_user_by_oauth provider (strip oid) db = None"
    and "u \<in> set (users db)" "u_email u = Some (lower (strip em))" "u_is_active u" "u_username u \<noteq> []"
    and "inet cr (totp_client_ip rq) = Some ip" "sid \<notin> s_id ` set (sessions db)"
    and "rq_peer rq = Some ''127.0.0.1''" "rq_path rq = ''/api/auth/oauth-login''" "rq_cookie rq = no_cookie" "\<not> test_bypass e"
  shows "before_handler e False now rq db = (None, db) \<and>
    (\<exists>ck db'. oauth_login cr now sid sx rq provider oid em True db =
        (Resp 200 [(''ok'', PBool True), (''username'', PStr (u_username u))], ck, db') \<and>
      lookup_session now sid db' = Some (u_id u) \<and> current_user_id e ck db' = Some (u_id u) \<and>
      require_admin e ck db' = (if u_is_admin u then Inr (u_id u) else Inl 403))"
proof -
  have "is_exempt ''/api/auth/oauth-login''" by code_simp
  then have "before_handler e False now rq db = (None, db)"
    using assms(13,14) by (simp add: before_handler_def loopback_only_def maintenance_mode_def dispatch_eq)
  moreover obtain db' where o: "oauth_login cr now sid sx rq provider oid em True db =
      (Resp 200 [(''ok'', PBool True), (''username'', PStr (u_username u))],
       (rq_cookie rq)\<lparr>ck_session_id := Some sid, ck_username := Some (u_username u), ck_session_at := Some now\<rparr>, db')"
    and l: "lookup_session now sid db' = Some (u_id u)" and up: "db_up db'"
    and us: "users db' = tupdate (\<lambda>x. u_id x = u_id u) (\<lambda>x. x\<lparr>u_oauth_provider := Some provider, u_oauth_id := Some (strip oid)\<rparr>) (users db)"
    using oauth_by_email [OF assms(1-9) assms(11,12)] by blast
  let ?ck = "(rq_cookie rq)\<lparr>ck_session_id := Some sid, ck_username := Some (u_username u), ck_session_at := Some now\<rparr>"
  have ok: "distinct (map u_id (users db))" "distinct (map u_username (users db))"
    using assms(1) by (simp_all add: accounts_inv_def auth_inv_def users_ok_def)
  have "tselect (\<lambda>x. u_username x = u_username u) (users db) = Some u" "tselect (\<lambda>x. u_id x = u_id u) (users db) = Some u"
    using tselect_key [OF ok(2) assms(7) refl] tselect_key [OF ok(1) assms(7) refl] by simp_all
  then have "tselect (\<lambda>x. u_username x = u_username u) (users db') = Some (u\<lparr>u_oauth_provider := Some provider, u_oauth_id := Some (strip oid)\<rparr>)"
    "tselect (\<lambda>x. u_id x = u_id u) (users db') = Some (u\<lparr>u_oauth_provider := Some provider, u_oauth_id := Some (strip oid)\<rparr>)"
    unfolding us by (simp_all add: tselect_tupdate)
  then have "current_user_id e ?ck db' = Some (u_id u)" "require_admin e ?ck db' = (if u_is_admin u then Inr (u_id u) else Inl 403)"
    using assms(10,15,16) up
    by (simp_all add: require_admin_def current_user_id_def no_cookie_def get_user_id_by_username_def checkout_def get_user_field_def field_of_def)
  with o l show ?thesis using calculation by blast
qed

theorem oauth_login_takeover_witness:
  "\<exists>ck db'. oauth_login ex_crypto 5 ''s'' ''ab12'' ex_proxied ''google'' ''42'' ''ann@corp.com'' True ex_accounts =
      (Resp 200 [(''ok'', PBool True), (''username'', PStr ''ann'')], ck, db') \<and> require_admin ex_env ck db' = Inr 1"
proof -
  let ?u = "(ex_user 1 ''ann'' (Some ''H:correct horse battery''))\<lparr>u_email := Some ''ann@corp.com''\<rparr>"
  have p: "''google'' \<in> set ALLOWED_PROVIDERS" "strip ''42'' \<noteq> []" "\<not> bad_email (lower (strip ''ann@corp.com''))"
    "lookup_user_by_oauth ''google'' (strip ''42'') ex_accounts = None" by code_simp+
  have u: "?u \<in> set (users ex_accounts)" "u_email ?u = Some (lower (strip ''ann@corp.com''))" "u_is_active ?u" "u_username ?u \<noteq> []" by code_simp+
  have q: "inet ex_crypto (totp_client_ip ex_proxied) = Some ''203.0.113.7''" "''s'' \<notin> s_id ` set (sessions ex_accounts)"
    "rq_peer ex_proxied = Some ''127.0.0.1''" "rq_path ex_proxied = ''/api/auth/oauth-login''" "rq_cookie ex_proxied = no_cookie"
    "\<not> test_bypass ex_env" by code_simp+
  have n: "u_username ?u = ''ann''" "u_is_admin ?u" "u_id ?u = 1" by code_simp+
  from oauth_login_takeover [OF ex_accounts_inv(1,2) p u q, of 5 "''ab12''"] n show ?thesis by auto
qed

section \<open>Verification links\<close>

text \<open>
  C22. A verification link works once, until it expires, and it is a login: the account's address
  is marked as verified and a session is opened, also when the account is deactivated or has a
  second factor, which are not looked at. A second request with the same token is refused and
  changes nothing.
\<close>
theorem verify_email_once:
  assumes "db_up db" "strip token \<noteq> []"
    and "tselect (email_row (cr_sha256 cr (strip token))) (verifications db) = Some row" "ev_used_at row = None" "now \<le> ev_expires_at row"
    and "distinct (map u_id (users db))" "u \<in> set (users db)" "u_id u = ev_user_id row"
    and "inet cr (totp_client_ip rq) = Some ip" "sid \<notin> s_id ` set (sessions db)"
  shows "\<exists>db'. verify_email cr now sid rq token db =
      (Resp 200 [(''ok'', PBool True), (''username'', PStr (u_username u))], full_cookie (rq_cookie rq) sid (u_username u) (u_id u) now, db') \<and>
    lookup_session now sid db' = Some (u_id u) \<and>
    tselect (\<lambda>x. u_id x = u_id u) (users db') = Some (u\<lparr>u_email_verified := True\<rparr>) \<and>
    verify_email cr now' sid' rq' token db' = (err 410 ''expired_or_invalid'', rq_cookie rq', db')"
proof -
  let ?h = "cr_sha256 cr (strip token)"
  let ?m = "mark_verified now ?h (u_id u) db"
  let ?db = "?m\<lparr>sessions := sessions ?m @ [\<lparr>s_id = sid, s_user_id = u_id u, s_expires_at = now + SESSION_TTL,
      s_last_seen = now, s_ip = Some ip, s_agent = Some (rq_agent rq)\<rparr>]\<rparr>"
  have sel: "tselect (\<lambda>x. u_id x = u_id u) (users db) = Some u" by (rule tselect_key [OF assms(6,7) refl])
  have m: "db_up ?m" "sid \<notin> s_id ` set (sessions ?m)" "u_id u \<in> u_id ` set (users ?m)"
    using assms(1,7,10) by (simp_all add: mark_verified_def image_tupdate)
  have v: "verify_email cr now sid rq token db =
      (Resp 200 [(''ok'', PBool True), (''username'', PStr (u_username u))], full_cookie (rq_cookie rq) sid (u_username u) (u_id u) now, ?db)"
    using assms(1-5) sel create_session_ok [OF m(1) assms(9) m(2,3)] by (simp add: verify_email_def Let_def assms(8) [symmetric])
  have l: "lookup_session now sid ?db = Some (u_id u)"
    by (rule lookup_new_session [OF m(1,2)]) (simp add: SESSION_TTL_def)
  have us: "tselect (\<lambda>x. u_id x = u_id u) (users ?db) = Some (u\<lparr>u_email_verified := True\<rparr>)"
    using sel by (simp add: mark_verified_def tselect_tupdate)
  have "tselect (email_row ?h) (verifications ?db) = Some (row\<lparr>ev_used_at := Some now\<rparr>)"
    using assms(3) tselect_Some [OF assms(3)] by (simp add: mark_verified_def tselect_tupdate email_row_def)
  then have "verify_email cr now' sid' rq' token ?db = (err 410 ''expired_or_invalid'', rq_cookie rq', ?db)"
    using m(1) assms(2) by (simp add: verify_email_def Let_def)
  with v l us show ?thesis by blast
qed

definition ex_link :: db where
  "ex_link = ex_accounts\<lparr>verifications := [\<lparr>ev_token = Some ''S:tok'', ev_user_id = 2, ev_purpose = ''email_verify'', ev_token_hash = None,
     ev_expires_at = 100, ev_used_at = None, ev_created_at = 0\<rparr>]\<rparr>"

theorem verify_email_once_witness:
  "\<exists>ck db'. verify_email ex_crypto 5 ''s'' ex_proxied '' tok '' ex_link =
      (Resp 200 [(''ok'', PBool True), (''username'', PStr ''bob'')], ck, db') \<and> lookup_session 5 ''s'' db' = Some 2 \<and>
      map_option u_is_active (tselect (\<lambda>x. u_id x = 2) (users db')) = Some False"
proof -
  let ?u = "(ex_user 2 ''bob'' (Some ''H:x''))\<lparr>u_email := Some ''bob@corp.com'', u_is_admin := False, u_is_active := False\<rparr>"
  let ?row = "\<lparr>ev_token = Some ''S:tok'', ev_user_id = 2, ev_purpose = ''email_verify'', ev_token_hash = None,
     ev_expires_at = 100, ev_used_at = None, ev_created_at = 0\<rparr>"
  have a: "db_up ex_link" "strip '' tok '' \<noteq> []"
    "tselect (email_row (cr_sha256 ex_crypto (strip '' tok ''))) (verifications ex_link) = Some ?row" "ev_used_at ?row = None" "5 \<le> ev_expires_at ?row"
    "distinct (map u_id (users ex_link))" "?u \<in> set (users ex_link)" "u_id ?u = ev_user_id ?row"
    "inet ex_crypto (totp_client_ip ex_proxied) = Some ''203.0.113.7''" "''s'' \<notin> s_id ` set (sessions ex_link)"
    by code_simp+
  have n: "u_username ?u = ''bob''" "u_id ?u = 2" "u_is_active ?u = False" by code_simp+
  from verify_email_once [OF a] n show ?thesis by force
qed

section \<open>An account prepared for its owner\<close>

lemma login_accepts:
  assumes "db_up db" "distinct (map u_username (users db))" "u \<in> set (users db)" "u_username u = strip username"
    and "credentials_ok cr pw u" "no_totp db (u_id u)"
    and "\<not> check_rate_limit cr now (strip username) (Some (get_client_ip e rq)) db"
    and "inet cr (get_client_ip e rq) = Some ip" "sid \<notin> s_id ` set (sessions db)"
  shows "\<exists>db'. login_post cr e now sid rq username pw db =
    (Resp 200 [(''ok'', PBool True), (''username'', PStr (strip username))], full_cookie (rq_cookie rq) sid (strip username) (u_id u) now, db')"
proof -
  have sel: "tselect (\<lambda>u. u_username u = strip username) (users db) = Some u"
    using assms(2-4) by (intro tselect_key)
  have "check_totp_enabled (strip username) db = None"
    using assms(2,3,4,6) by (auto simp: check_totp_enabled_def tselect_None no_totp_def dest: distinct_col_eq)
  moreover have "\<not> (\<exists>s \<in> set (tdelete (\<lambda>s. s_user_id s = u_id u) (sessions db)). s_id s = sid)"
    using assms(9) by (auto simp: set_tdelete)
  ultimately show ?thesis using assms sel
    by (auto simp: login_post_eq Let_def lookup_user_def create_session_def checkout_def cast_inet_def
        revoke_all_user_sessions_def credentials_ok_def password_accepted_def split: option.splits)
qed

definition registered :: "crypto \<Rightarrow> time \<Rightarrow> string \<Rightarrow> string \<Rightarrow> string \<Rightarrow> db \<Rightarrow> user" where
  "registered cr now em un pw db = \<lparr>u_id = next_user db, u_username = strip un, u_password_hash = Some (hash_password cr pw),
     u_email = Some (lower (strip em)), u_is_admin = False, u_is_active = True, u_mfa_enabled = False,
     u_created_at = Some now, u_email_verified = False, u_oauth_provider = None, u_oauth_id = None\<rparr>"

lemma register_201:
  assumes "register cr hc now tok rq em un pw pw2 cap db = (r, mail, db')" "status r = 201"
  shows "users db' = users db @ [registered cr now em un pw db]" "attempts db' = attempts db" "db_up db'" "totps db' = totps db"
    "sessions db' = sessions db" "12 \<le> py_len pw" "\<not> bad_email (lower (strip em))"
  using assms
  by (auto simp: register_def Let_def err_def server_error_def insert_user_def insert_email_token_def checkout_def validate_password_def
      MIN_PASSWORD_LENGTH_def registered_def split: if_splits option.splits)

text \<open>
  Registration accepts an address that is not yet proven, and the password login does not
  ask whether it was. So whoever registers first with somebody's address keeps the password of
  the account that the owner later enters through OAuth: the login of the owner, whose address
  the provider has verified, is merged into that account, and the registered password goes on
  opening it.
\<close>
theorem registered_password_survives_oauth:
  assumes "accounts_inv db" "register cr hc now0 tok rq0 em un pw pw2 cap db = (r, mail, db1)" "status r = 201"
    and "py_len pw \<le> 128" "verify_password cr pw (hash_password cr pw)" "pw \<notin> set (common_passwords cr)"
    and "provider \<in> set ALLOWED_PROVIDERS" "strip oid \<noteq> []" "lookup_user_by_oauth provider (strip oid) db1 = None"
    and "inet cr (totp_client_ip rq) = Some ip" "sid \<notin> s_id ` set (sessions db)"
    and "\<not> check_rate_limit cr now2 (strip un) (Some (get_client_ip e rq2)) db"
    and "inet cr (get_client_ip e rq2) = Some ip2" "sid2 \<notin> insert sid (s_id ` set (sessions db))"
  shows "\<exists>ck db2 db3. oauth_login cr now sid sx rq provider oid em True db1 =
      (Resp 200 [(''ok'', PBool True), (''username'', PStr (strip un))], ck, db2) \<and>
    lookup_session now sid db2 = Some (next_user db) \<and>
    login_post cr e now2 sid2 rq2 un pw db2 = (Resp 200 [(''ok'', PBool True), (''username'', PStr (strip un))],
      full_cookie (rq_cookie rq2) sid2 (strip un) (next_user db) now2, db3)"
proof -
  note reg = register_201 [OF assms(2,3)]
  let ?u = "registered cr now0 em un pw db"
  let ?f = "\<lambda>x. x\<lparr>u_oauth_provider := Some provider, u_oauth_id := Some (strip oid)\<rparr>"
  have inv: "accounts_inv db1" using inv_register [OF assms(1), of cr hc now0 tok rq0 em un pw pw2 cap] assms(2) by simp
  have u: "?u \<in> set (users db1)" "u_email ?u = Some (lower (strip em))" "u_is_active ?u" "u_username ?u = strip un" "u_id ?u = next_user db"
    by (simp_all add: reg(1) registered_def)
  have s: "sid \<notin> s_id ` set (sessions db1)" using assms(11) reg(5) by simp
  obtain db2 where o: "oauth_login cr now sid sx rq provider oid em True db1 =
      (Resp 200 [(''ok'', PBool True), (''username'', PStr (u_username ?u))],
       (rq_cookie rq)\<lparr>ck_session_id := Some sid, ck_username := Some (u_username ?u), ck_session_at := Some now\<rparr>, db2)"
    and l: "lookup_session now sid db2 = Some (u_id ?u)" "db_up db2"
    and us: "users db2 = tupdate (\<lambda>x. u_id x = u_id ?u) ?f (users db1)"
    and fr: "attempts db2 = attempts db1" "totps db2 = totps db1" "s_id ` set (sessions db2) = insert sid (s_id ` set (sessions db1))"
    using oauth_by_email [OF inv reg(3) assms(7,8) reg(7) assms(9) u(1-3) assms(10) s, of now sx] by blast
  have mem: "?f ?u \<in> set (users db2)" unfolding us using u(1) by (force simp: tupdate_def)
  have dist: "distinct (map u_username (users db2))"
    unfolding us using inv by (simp add: map_tupdate accounts_inv_def auth_inv_def users_ok_def)
  have cred: "credentials_ok cr pw (?f ?u)"
    using assms(4-6) reg(6) by (simp add: credentials_ok_def password_accepted_def registered_def)
  have nt: "no_totp db2 (next_user db)"
    using assms(1) fr reg(4) by (fastforce simp: no_totp_def accounts_inv_def auth_inv_def refs_ok_def users_ok_def)
  have rate: "\<not> check_rate_limit cr now2 (strip un) (Some (get_client_ip e rq2)) db2"
  proof -
    have "db_up db" using assms(2,3) by (auto simp: register_def Let_def err_def server_error_def split: if_splits option.splits)
    then show ?thesis using assms(12) l(2) unfolding check_rate_limit_eq fr(1) reg(2) by simp
  qed
  have "\<exists>db3. login_post cr e now2 sid2 rq2 un pw db2 =
    (Resp 200 [(''ok'', PBool True), (''username'', PStr (strip un))], full_cookie (rq_cookie rq2) sid2 (strip un) (u_id (?f ?u)) now2, db3)"
    by (rule login_accepts [OF l(2) dist mem _ cred _ rate assms(13)]) (use nt u assms(14) fr(3) reg(5) in simp_all)
  with o l(1) u show ?thesis by auto
qed

theorem registered_password_survives_oauth_witness:
  "\<exists>ck db2 db3. oauth_login ex_crypto 6 ''s'' ''ab12'' ex_proxied ''google'' ''42'' ''Victim@corp.com'' True
       (snd (snd (register ex_crypto (\<lambda>t i. True) 5 ''tok'' ex_proxied ''victim@corp.com'' ''mallory'' ''correct horse 1'' ''correct horse 1'' [] ex_accounts))) =
      (Resp 200 [(''ok'', PBool True), (''username'', PStr ''mallory'')], ck, db2) \<and>
    login_post ex_crypto ex_env 7 ''s2'' ex_request ''mallory'' ''correct horse 1'' db2 =
      (Resp 200 [(''ok'', PBool True), (''username'', PStr ''mallory'')], full_cookie no_cookie ''s2'' ''mallory'' 3 7, db3)"
proof -
  let ?r = "register ex_crypto (\<lambda>t i. True) 5 ''tok'' ex_proxied ''Victim@corp.com'' ''mallory'' ''correct horse 1'' ''correct horse 1'' [] ex_accounts"
  let ?r' = "register ex_crypto (\<lambda>t i. True) 5 ''tok'' ex_proxied ''victim@corp.com'' ''mallory'' ''correct horse 1'' ''correct horse 1'' [] ex_accounts"
  have r: "?r = (fst ?r, fst (snd ?r), snd (snd ?r))" by simp
  have l: "lower (strip ''victim@corp.com'') = lower (strip ''Victim@corp.com'')" by code_simp
  have same: "?r' = ?r" unfolding register_def Let_def l by (rule refl)
  have a: "status (fst ?r) = 201" "py_len ''correct horse 1'' \<le> 128"
    "verify_password ex_crypto ''correct horse 1'' (hash_password ex_crypto ''correct horse 1'')" "''correct horse 1'' \<notin> set (common_passwords ex_crypto)"
    "''google'' \<in> set ALLOWED_PROVIDERS" "strip ''42'' \<noteq> []" "lookup_user_by_oauth ''google'' (strip ''42'') (snd (snd ?r)) = None"
    "inet ex_crypto (totp_client_ip ex_proxied) = Some ''203.0.113.7''" "''s'' \<notin> s_id ` set (sessions ex_accounts)"
    "\<not> check_rate_limit ex_crypto 7 (strip ''mallory'') (Some (get_client_ip ex_env ex_request)) ex_accounts"
    "inet ex_crypto (get_client_ip ex_env ex_request) = Some ''1.2.3.4''" "''s2'' \<notin> insert ''s'' (s_id ` set (sessions ex_accounts))"
    by code_simp+
  have n: "strip ''mallory'' = ''mallory''" "next_user ex_accounts = 3" "rq_cookie ex_request = no_cookie" by code_simp+
  from registered_password_survives_oauth [OF ex_accounts_inv(1) r a, of 6 "''ab12''"] show ?thesis unfolding n same by blast
qed

end
