(* ===== verification/RepoStore.thy ===== *)
theory RepoStore
  imports PyText
begin

text \<open>
  \<open>RepoStore\<close> of \<open>src/db/repo_registry.py\<close>: the tables \<open>profiles\<close> and \<open>repos\<close>, and every
  method on them. A profile may have a parent profile; the recursive queries that walk the
  hierarchy are \<open>partial_function\<close>s whose value None means that the query does not return, as
  UNION ALL does on a cycle. A connection is in autocommit mode, so each statement commits on
  its own. Message texts of the exceptions are left out. \<open>ssh_ids\<close> are the ids of the table
  \<open>ssh_key_pairs\<close>, which \<open>AuthStore\<close> writes.
\<close>

section \<open>Tables\<close>

record profile =
  p_id :: int
  p_name :: string
  p_version :: string
  p_description :: "string option"
  p_parent :: "int option"

record repo =
  r_id :: int
  r_profile_id :: "int option"
  r_url :: string
  r_branch :: string
  r_local_path :: string
  r_status :: string
  r_last_indexed_at :: "time option"
  r_head_sha :: "string option"
  r_error_msg :: "string option"
  r_ssh_key_id :: "int option"
  r_clone_status :: string
  r_clone_error_msg :: "string option"

record repo_db =
  rd_up :: bool
  profiles :: "profile list"
  repos :: "repo list"
  ssh_ids :: "int list"
  next_profile :: int
  next_repo :: int

datatype repo_exc = DbFailure | ProfileNotFound | ProfileCycle | ProfileVersionMismatch | ProfileNameConflict
  | ProfileIndexed nat "string list" | RepoNotFound | RepoConflict
  | ParentNotFound | ChildVersionMismatch | NameExists | ProfileGone | RepoGone | InvalidCloneStatus

type_synonym 'a rio = "repo_db \<Rightarrow> (repo_exc + 'a) \<times> repo_db"
type_synonym 'a query = "repo_db \<Rightarrow> (repo_exc + 'a) option"
type_synonym 'a step = "repo_db \<Rightarrow> ((repo_exc + 'a) \<times> repo_db) option"

definition checkout_repo :: "'a rio \<Rightarrow> 'a rio" where
  "checkout_repo f db = (if rd_up db then f db else (Inl DbFailure, db))"

definition profile_by_id :: "repo_db \<Rightarrow> int \<Rightarrow> profile option" where
  "profile_by_id db i = tselect (\<lambda>p. p_id p = i) (profiles db)"

definition name_taken :: "string \<Rightarrow> int \<Rightarrow> repo_db \<Rightarrow> bool" where
  "name_taken n i db \<longleftrightarrow> (\<exists>p \<in> set (profiles db). p_name p = n \<and> p_id p \<noteq> i)"

section \<open>Profiles\<close>

text \<open>The insert takes a number from the sequence even when the name's uniqueness refuses it.\<close>

definition insert_profile :: "string \<Rightarrow> string \<Rightarrow> string \<Rightarrow> int option \<Rightarrow> int rio" where
  "insert_profile name odoo_version description parent_id db =
     (let i = next_profile db; db' = db\<lparr>next_profile := i + 1\<rparr>
      in if \<exists>p \<in> set (profiles db). p_name p = name then (Inl NameExists, db')
         else (Inr i, db'\<lparr>profiles := profiles db @ [\<lparr>p_id = i, p_name = name, p_version = odoo_version,
                 p_description = Some description, p_parent = parent_id\<rparr>]\<rparr>))"

definition add_profile :: "string \<Rightarrow> string \<Rightarrow> string \<Rightarrow> int option \<Rightarrow> int rio" where
  "add_profile name odoo_version description parent_id = checkout_repo (\<lambda>db.
     case parent_id of
       None \<Rightarrow> insert_profile name odoo_version description None db
     | Some q \<Rightarrow>
        (case profile_by_id db q of
           None \<Rightarrow> (Inl ParentNotFound, db)
         | Some parent \<Rightarrow>
            (if p_version parent \<noteq> odoo_version then (Inl ChildVersionMismatch, db)
             else insert_profile name odoo_version description (Some q) db)))"

definition list_profiles :: "profile list rio" where
  "list_profiles = checkout_repo (\<lambda>db. (Inr (sort_key p_id (profiles db)), db))"

definition get_profile_by_id :: "int \<Rightarrow> profile option rio" where
  "get_profile_by_id profile_id = checkout_repo (\<lambda>db. (Inr (profile_by_id db profile_id), db))"

section \<open>The hierarchy\<close>

text \<open>The recursive query from a profile up its parents: the rows in the order of depth.\<close>

partial_function (option) ancestors :: "profile list \<Rightarrow> int \<Rightarrow> profile list option" where
  "ancestors ps i =
     (case tselect (\<lambda>p. p_id p = i) ps of
        None \<Rightarrow> Some []
      | Some p \<Rightarrow>
          (case p_parent p of
             None \<Rightarrow> Some [p]
           | Some q \<Rightarrow> Option.bind (ancestors ps q) (\<lambda>rest. Some (p # rest))))"

text \<open>The recursive query down the children, one level at a time, to the first row (LIMIT 1)
  that has another version.\<close>

definition children :: "profile list \<Rightarrow> profile list \<Rightarrow> profile list" where
  "children ps level = concat (map (\<lambda>d. filter (\<lambda>p. p_parent p = Some (p_id d)) ps) level)"

partial_function (option) descendant_conflict :: "profile list \<Rightarrow> profile list \<Rightarrow> string \<Rightarrow> profile option option" where
  "descendant_conflict ps level version =
     (if level = [] then Some None
      else if list_ex (\<lambda>p. p_version p \<noteq> version) level
      then Some (find (\<lambda>p. p_version p \<noteq> version) level)
      else descendant_conflict ps (children ps level) version)"

declare ancestors.simps [code] descendant_conflict.simps [code]

definition validate_parent :: "int \<Rightarrow> int option \<Rightarrow> unit query" where
  "validate_parent profile_id parent_id db =
     (case parent_id of
        None \<Rightarrow> Some (Inr ())
      | Some q \<Rightarrow>
         (if q = profile_id then Some (Inl ProfileCycle)
          else if \<not> rd_up db then Some (Inl DbFailure)
          else (case (profile_by_id db profile_id, profile_by_id db q) of
                  (None, _) \<Rightarrow> Some (Inl ProfileNotFound)
                | (Some child, None) \<Rightarrow> Some (Inl ProfileNotFound)
                | (Some child, Some parent) \<Rightarrow>
                    (if p_version child \<noteq> p_version parent then Some (Inl ProfileVersionMismatch)
                     else Option.bind (ancestors (profiles db) q) (\<lambda>chain.
                       if profile_id \<in> p_id ` set chain then Some (Inl ProfileCycle) else Some (Inr ()))))))"

text \<open>The UPDATE, with the foreign key of the column, and what the row count says.\<close>

definition store_parent :: "int \<Rightarrow> int option \<Rightarrow> bool rio" where
  "store_parent profile_id parent_id = checkout_repo (\<lambda>db.
     let hit = (\<lambda>p. p_id p = profile_id \<and> p_parent p \<noteq> parent_id);
         rowcount = tcount hit (profiles db)
     in if 0 < rowcount \<and> (case parent_id of None \<Rightarrow> False | Some q \<Rightarrow> profile_by_id db q = None) then (Inl DbFailure, db)
        else if rowcount = 0 then
          (if profile_by_id db profile_id = None then (Inl ProfileNotFound, db) else (Inr False, db))
        else (Inr True, db\<lparr>profiles := tupdate hit (\<lambda>p. p\<lparr>p_parent := parent_id\<rparr>) (profiles db)\<rparr>))"

definition set_profile_parent :: "int \<Rightarrow> int option \<Rightarrow> bool step" where
  "set_profile_parent profile_id parent_id db =
     Option.bind (validate_parent profile_id parent_id db) (\<lambda>r.
       case r of Inl e \<Rightarrow> Some (Inl e, db) | Inr _ \<Rightarrow> Some (store_parent profile_id parent_id db))"

definition has_indexed_repos :: "int \<Rightarrow> repo_db \<Rightarrow> nat" where
  "has_indexed_repos profile_id db = tcount (\<lambda>r. r_profile_id r = Some profile_id \<and> r_head_sha r \<noteq> None) (repos db)"

definition changing :: "'a option \<Rightarrow> 'a \<Rightarrow> bool" where
  "changing new old \<longleftrightarrow> (case new of None \<Rightarrow> False | Some n \<Rightarrow> n \<noteq> old)"

text \<open>The last part of \<open>update_profile\<close>: the SET clause, the UPDATE and its errors.\<close>

definition changed_columns :: "string option \<Rightarrow> string option \<Rightarrow> string option \<Rightarrow> profile \<Rightarrow> string list" where
  "changed_columns name version description current =
     (if changing name (p_name current) then [''name''] else [])
     @ (if changing version (p_version current) then [''odoo_version''] else [])
     @ (if description \<noteq> None \<and> description \<noteq> p_description current then [''description''] else [])"

definition set_columns :: "string option \<Rightarrow> string option \<Rightarrow> string option \<Rightarrow> profile \<Rightarrow> profile" where
  "set_columns name version description p =
     p\<lparr>p_name := (case name of None \<Rightarrow> p_name p | Some n \<Rightarrow> n),
       p_version := (case version of None \<Rightarrow> p_version p | Some v \<Rightarrow> v),
       p_description := (case description of None \<Rightarrow> p_description p | Some d \<Rightarrow> Some d)\<rparr>"

definition store_profile :: "int \<Rightarrow> string option \<Rightarrow> string option \<Rightarrow> string option \<Rightarrow> profile \<Rightarrow> string list rio" where
  "store_profile profile_id name version description current db =
     (let updates = changed_columns name version description current
      in if updates = [] then (Inr [], db)
         else if profile_by_id db profile_id = None then (Inl ProfileNotFound, db)
         else if changing name (p_name current) \<and> (case name of None \<Rightarrow> False | Some n \<Rightarrow> name_taken n profile_id db)
         then (Inl ProfileNameConflict, db)
         else (Inr updates, db\<lparr>profiles := tupdate (\<lambda>p. p_id p = profile_id)
                 (set_columns (if changing name (p_name current) then name else None)
                    (if changing version (p_version current) then version else None)
                    (if description \<noteq> p_description current then description else None)) (profiles db)\<rparr>))"

definition parent_conflict :: "profile \<Rightarrow> string \<Rightarrow> repo_db \<Rightarrow> bool" where
  "parent_conflict current version db \<longleftrightarrow>
     (case p_parent current of
        None \<Rightarrow> False
      | Some q \<Rightarrow> (case profile_by_id db q of None \<Rightarrow> False | Some parent \<Rightarrow> p_version parent \<noteq> version))"

definition update_profile :: "int \<Rightarrow> string option \<Rightarrow> string option \<Rightarrow> string option \<Rightarrow> string list step" where
  "update_profile profile_id name version description db =
     (if \<not> rd_up db then Some (Inl DbFailure, db)
      else (case profile_by_id db profile_id of
         None \<Rightarrow> Some (Inl ProfileNotFound, db)
       | Some current \<Rightarrow>
          (let name_changing = changing name (p_name current);
               version_changing = changing version (p_version current);
               indexed_count = has_indexed_repos profile_id db
           in if (name_changing \<or> version_changing) \<and> 0 < indexed_count then
                Some (Inl (ProfileIndexed indexed_count
                  ((if name_changing then [''name''] else []) @ (if version_changing then [''version''] else []))), db)
              else if \<not> version_changing then Some (store_profile profile_id name version description current db)
              else if parent_conflict current (the version) db then Some (Inl ProfileVersionMismatch, db)
              else Option.bind (descendant_conflict (profiles db)
                     (filter (\<lambda>p. p_parent p = Some profile_id) (profiles db)) (the version)) (\<lambda>conflict_row.
                       case conflict_row of
                         Some _ \<Rightarrow> Some (Inl ProfileVersionMismatch, db)
                       | None \<Rightarrow> Some (store_profile profile_id name version description current db)))))"

text \<open>The chain of a profile name, from the profile itself up to its root.\<close>

definition chain_of :: "string \<Rightarrow> repo_db \<Rightarrow> profile list option" where
  "chain_of profile_name db =
     (case tselect (\<lambda>p. p_name p = profile_name) (profiles db) of
        None \<Rightarrow> Some [] | Some p \<Rightarrow> ancestors (profiles db) (p_id p))"

definition get_ancestor_profile_names :: "string \<Rightarrow> string list query" where
  "get_ancestor_profile_names profile_name db =
     (if \<not> rd_up db then Some (Inl DbFailure)
      else Option.bind (chain_of profile_name db) (\<lambda>chain. Some (Inr (map p_name chain))))"

text \<open>A row of \<open>get_ancestor_repos\<close>: the repository, with the name, depth and version of the
  profile it belongs to.\<close>

definition get_ancestor_repos :: "string \<Rightarrow> (repo \<times> string \<times> nat \<times> string) list query" where
  "get_ancestor_repos profile_name db =
     (if \<not> rd_up db then Some (Inl DbFailure)
      else Option.bind (chain_of profile_name db) (\<lambda>chain.
        Some (Inr (concat (map (\<lambda>(depth, p).
          map (\<lambda>r. (r, p_name p, depth, p_version p))
            (sort_key r_id (filter (\<lambda>r. r_profile_id r = Some (p_id p)) (repos db)))) (enumerate 0 chain))))))"

section \<open>Repositories\<close>

definition url_taken :: "string \<Rightarrow> string \<Rightarrow> int \<Rightarrow> repo_db \<Rightarrow> bool" where
  "url_taken url branch i db \<longleftrightarrow> (\<exists>r \<in> set (repos db). r_url r = url \<and> r_branch r = branch \<and> r_id r \<noteq> i)"

definition bad_ssh_key :: "int option \<Rightarrow> repo_db \<Rightarrow> bool" where
  "bad_ssh_key k db \<longleftrightarrow> (case k of None \<Rightarrow> False | Some i \<Rightarrow> i \<notin> set (ssh_ids db))"

definition add_repo :: "int \<Rightarrow> string \<Rightarrow> string \<Rightarrow> string \<Rightarrow> int option \<Rightarrow> string \<Rightarrow> int rio" where
  "add_repo profile_id url branch local_path ssh_key_id clone_status = checkout_repo (\<lambda>db.
     let i = next_repo db; db' = db\<lparr>next_repo := i + 1\<rparr>
     in if (\<exists>r \<in> set (repos db). r_url r = url \<and> r_branch r = branch) \<or> profile_by_id db profile_id = None \<or> bad_ssh_key ssh_key_id db
        then (Inl DbFailure, db')
        else (Inr i, db'\<lparr>repos := repos db @ [\<lparr>r_id = i, r_profile_id = Some profile_id, r_url = url, r_branch = branch,
                r_local_path = local_path, r_status = ''pending'', r_last_indexed_at = None, r_head_sha = None,
                r_error_msg = None, r_ssh_key_id = ssh_key_id, r_clone_status = clone_status, r_clone_error_msg = None\<rparr>]\<rparr>))"

text \<open>A repository row joined with its profile (LEFT JOIN, and JOIN).\<close>

definition left_join :: "repo_db \<Rightarrow> repo \<Rightarrow> repo \<times> profile option" where
  "left_join db r = (r, Option.bind (r_profile_id r) (profile_by_id db))"

definition joined :: "repo_db \<Rightarrow> (repo \<times> profile) list" where
  "joined db = List.map_filter (\<lambda>r. map_option (Pair r) (Option.bind (r_profile_id r) (profile_by_id db))) (sort_key r_id (repos db))"

definition list_repos :: "(repo \<times> profile option) list rio" where
  "list_repos = checkout_repo (\<lambda>db. (Inr (map (left_join db) (sort_key r_id (repos db))), db))"

definition get_repos_for_profile :: "string \<Rightarrow> (repo \<times> profile) list rio" where
  "get_repos_for_profile profile_name = checkout_repo (\<lambda>db. (Inr (filter (\<lambda>(r, p). p_name p = profile_name) (joined db)), db))"

definition get_repos_for_profile_by_id :: "int \<Rightarrow> (repo \<times> profile) list rio" where
  "get_repos_for_profile_by_id profile_id = checkout_repo (\<lambda>db. (Inr (filter (\<lambda>(r, p). p_id p = profile_id) (joined db)), db))"

definition get_repos_by_clone_status :: "string \<Rightarrow> string \<Rightarrow> (repo \<times> profile) list rio" where
  "get_repos_by_clone_status profile_name status = checkout_repo (\<lambda>db.
     (Inr (filter (\<lambda>(r, p). p_name p = profile_name \<and> r_clone_status r = status) (joined db)), db))"

definition repo_by_id :: "repo_db \<Rightarrow> int \<Rightarrow> repo option" where
  "repo_by_id db i = tselect (\<lambda>r. r_id r = i) (repos db)"

definition get_repo_by_id :: "int \<Rightarrow> (repo \<times> profile option) option rio" where
  "get_repo_by_id repo_id = checkout_repo (\<lambda>db. (Inr (map_option (left_join db) (repo_by_id db repo_id)), db))"

text \<open>An UPDATE of one repository by its id, refused when there is no such row.\<close>

definition update_row :: "int \<Rightarrow> (repo \<Rightarrow> repo) \<Rightarrow> unit rio" where
  "update_row repo_id f = checkout_repo (\<lambda>db.
     if tcount (\<lambda>r. r_id r = repo_id) (repos db) = 0 then (Inl RepoGone, db)
     else (Inr (), db\<lparr>repos := tupdate (\<lambda>r. r_id r = repo_id) f (repos db)\<rparr>))"

definition update_repo_status :: "time \<Rightarrow> int \<Rightarrow> string \<Rightarrow> string option \<Rightarrow> unit rio" where
  "update_repo_status now repo_id status error_msg = update_row repo_id (\<lambda>r.
     r\<lparr>r_status := status, r_error_msg := error_msg,
       r_last_indexed_at := (if status = ''indexed'' then Some now else r_last_indexed_at r)\<rparr>)"

definition get_repo_head_sha :: "int \<Rightarrow> string option rio" where
  "get_repo_head_sha repo_id = checkout_repo (\<lambda>db. (Inr (Option.bind (repo_by_id db repo_id) r_head_sha), db))"

definition update_repo_head_sha :: "time \<Rightarrow> int \<Rightarrow> string \<Rightarrow> unit rio" where
  "update_repo_head_sha now repo_id head_sha =
     update_row repo_id (\<lambda>r. r\<lparr>r_head_sha := Some head_sha, r_last_indexed_at := Some now\<rparr>)"

definition clone_statuses :: "string list" where
  "clone_statuses = [''manual'', ''pending'', ''cloned'', ''error'']"

definition set_clone_status :: "int \<Rightarrow> string \<Rightarrow> string option \<Rightarrow> unit rio" where
  "set_clone_status repo_id status error_msg =
     (if status \<notin> set clone_statuses then (\<lambda>db. (Inl InvalidCloneStatus, db))
      else update_row repo_id (\<lambda>r. r\<lparr>r_clone_status := status, r_clone_error_msg := error_msg\<rparr>))"

text \<open>\<open>regexp_replace(local_path, '^.*/', '')\<close>: what follows the last slash.\<close>

definition after_slash :: "string \<Rightarrow> string" where
  "after_slash p = last (split_on (CHR ''/'') p)"

definition get_repo_ids_by_local_path_basenames :: "string list \<Rightarrow> int list rio" where
  "get_repo_ids_by_local_path_basenames basenames =
     (if basenames = [] then (\<lambda>db. (Inr [], db))
      else checkout_repo (\<lambda>db. (Inr (map r_id (filter (\<lambda>r. after_slash (r_local_path r) \<in> set basenames) (repos db))), db)))"

definition reset_head_sha :: "int list \<Rightarrow> nat rio" where
  "reset_head_sha repo_ids =
     (if repo_ids = [] then (\<lambda>db. (Inr 0, db))
      else checkout_repo (\<lambda>db. (Inr (tcount (\<lambda>r. r_id r \<in> set repo_ids) (repos db)),
             db\<lparr>repos := tupdate (\<lambda>r. r_id r \<in> set repo_ids) (\<lambda>r. r\<lparr>r_head_sha := None\<rparr>) (repos db)\<rparr>)))"

definition reset_repo_head_sha :: "int \<Rightarrow> unit rio" where
  "reset_repo_head_sha repo_id = update_row repo_id (\<lambda>r. r\<lparr>r_head_sha := None\<rparr>)"

definition update_repo_local_path :: "int \<Rightarrow> string \<Rightarrow> unit rio" where
  "update_repo_local_path repo_id local_path = update_row repo_id (\<lambda>r. r\<lparr>r_local_path := local_path\<rparr>)"

text \<open>The foreign keys: children refuse the deletion of a profile, its repositories go with it.\<close>

definition delete_profile :: "int \<Rightarrow> (string \<times> string) list rio" where
  "delete_profile profile_id = checkout_repo (\<lambda>db.
     let rows = filter (\<lambda>(r, p). r_profile_id r = Some profile_id) (joined db);
         infos = map (\<lambda>(r, p). (path_name (r_local_path r), p_version p)) rows
     in if \<exists>p \<in> set (profiles db). p_parent p = Some profile_id then (Inl DbFailure, db)
        else if profile_by_id db profile_id = None then (Inl ProfileGone, db)
        else (Inr infos, db\<lparr>profiles := tdelete (\<lambda>p. p_id p = profile_id) (profiles db),
                repos := tdelete (\<lambda>r. r_profile_id r = Some profile_id) (repos db)\<rparr>))"

definition delete_repo :: "int \<Rightarrow> (string \<times> string) rio" where
  "delete_repo repo_id = checkout_repo (\<lambda>db.
     case tselect (\<lambda>(r, p). r_id r = repo_id) (joined db) of
       None \<Rightarrow> (Inl RepoGone, db)
     | Some (r, p) \<Rightarrow> (Inr (path_name (r_local_path r), p_version p),
         db\<lparr>repos := tdelete (\<lambda>r. r_id r = repo_id) (repos db)\<rparr>))"

definition updated_fields :: "string option \<Rightarrow> string option \<Rightarrow> int option \<Rightarrow> bool \<Rightarrow> string option \<Rightarrow> string list" where
  "updated_fields url branch ssh_key_id clear_ssh_key local_path =
     (if url \<noteq> None then [''url''] else []) @ (if branch \<noteq> None then [''branch''] else [])
     @ (if clear_ssh_key \<or> ssh_key_id \<noteq> None then [''ssh_key_id''] else [])
     @ (if local_path \<noteq> None then [''local_path''] else [])"

definition set_fields :: "string option \<Rightarrow> string option \<Rightarrow> int option \<Rightarrow> bool \<Rightarrow> string option \<Rightarrow> repo \<Rightarrow> repo" where
  "set_fields url branch ssh_key_id clear_ssh_key local_path r =
     r\<lparr>r_url := (case url of None \<Rightarrow> r_url r | Some u \<Rightarrow> u),
       r_branch := (case branch of None \<Rightarrow> r_branch r | Some b \<Rightarrow> b),
       r_ssh_key_id := (if clear_ssh_key then None else case ssh_key_id of None \<Rightarrow> r_ssh_key_id r | Some k \<Rightarrow> Some k),
       r_local_path := (case local_path of None \<Rightarrow> r_local_path r | Some p \<Rightarrow> p)\<rparr>"

definition update_repo :: "int \<Rightarrow> string option \<Rightarrow> string option \<Rightarrow> int option \<Rightarrow> bool \<Rightarrow> string option \<Rightarrow> string list rio" where
  "update_repo repo_id url branch ssh_key_id clear_ssh_key local_path = checkout_repo (\<lambda>db.
     case repo_by_id db repo_id of
       None \<Rightarrow> (Inl RepoNotFound, db)
     | Some existing \<Rightarrow>
        (let effective_url = (case url of None \<Rightarrow> r_url existing | Some u \<Rightarrow> u);
             effective_branch = (case branch of None \<Rightarrow> r_branch existing | Some b \<Rightarrow> b);
             fields = updated_fields url branch ssh_key_id clear_ssh_key local_path
         in if (url \<noteq> None \<or> branch \<noteq> None) \<and> url_taken effective_url effective_branch repo_id db then (Inl RepoConflict, db)
            else if fields = [] then (Inr [], db)
            else if \<not> clear_ssh_key \<and> bad_ssh_key ssh_key_id db then (Inl DbFailure, db)
            else (Inr fields, db\<lparr>repos := tupdate (\<lambda>r. r_id r = repo_id)
                    (set_fields url branch ssh_key_id clear_ssh_key local_path) (repos db)\<rparr>)))"

end
