(* ===== verification/RepoProps.thy ===== *)
theory RepoProps
  imports RepoStore
begin

text \<open>
  Properties of \<open>RepoStore\<close>: the profiles stay a forest whose trees have one version each, the
  recursive queries therefore return, what re-parenting, version changes and deletions do, and
  how two concurrent re-parentings break the forest. \<open>repo_op\<close> is one call of a
  state-changing method.
\<close>

section \<open>The forest\<close>

definition parent_edges :: "profile list \<Rightarrow> (int \<times> int) set" where
  "parent_edges ps = {(c, q). \<exists>p \<in> set ps. p_id p = c \<and> p_parent p = Some q}"

definition forest :: "profile list \<Rightarrow> bool" where
  "forest ps \<longleftrightarrow> distinct (map p_id ps) \<and> acyclic (parent_edges ps) \<and>
     (\<forall>p \<in> set ps. \<forall>q. p_parent p = Some q \<longrightarrow> (\<exists>p' \<in> set ps. p_id p' = q \<and> p_version p' = p_version p))"

lemma finite_edges: "finite (parent_edges ps)"
proof -
  have "parent_edges ps \<subseteq> (\<lambda>p. (p_id p, the (p_parent p))) ` set ps" by (force simp: parent_edges_def)
  then show ?thesis by (rule finite_subset) simp
qed

lemma forest_parts:
  assumes "forest ps"
  shows "distinct (map p_id ps)" "acyclic (parent_edges ps)"
    "\<And>p q. p \<in> set ps \<Longrightarrow> p_parent p = Some q \<Longrightarrow> \<exists>p' \<in> set ps. p_id p' = q \<and> p_version p' = p_version p"
  using assms unfolding forest_def by blast+

lemma forest_select: "forest ps \<Longrightarrow> p \<in> set ps \<Longrightarrow> tselect (\<lambda>r. p_id r = p_id p) ps = Some p"
  by (rule tselect_key) (simp_all add: forest_def)

text \<open>In a forest the query returns: the walk follows a well-founded relation.\<close>

lemma ancestors_total: "forest ps \<Longrightarrow> \<exists>l. ancestors ps i = Some l"
proof -
  assume f: "forest ps"
  have "wf ((parent_edges ps)\<inverse>)"
    using finite_acyclic_wf_converse [OF finite_edges] forest_parts [OF f] by blast
  then show ?thesis
  proof (induction i rule: wf_induct_rule)
    case (less i)
    show ?case
    proof (cases "tselect (\<lambda>p. p_id p = i) ps")
      case None
      then show ?thesis by (simp add: ancestors.simps)
    next
      case (Some p)
      show ?thesis
      proof (cases "p_parent p")
        case None
        then show ?thesis using Some by (simp add: ancestors.simps)
      next
        case (Some q)
        then have "(q, i) \<in> (parent_edges ps)\<inverse>"
          using tselect_Some [OF \<open>tselect _ ps = Some p\<close>] by (auto simp: parent_edges_def)
        from less.IH [OF this] Some \<open>tselect _ ps = Some p\<close> show ?thesis
          by (auto simp: ancestors.simps [of ps i])
      qed
    qed
  qed
qed

lemma ancestors_head:
  assumes "forest ps" "p \<in> set ps"
  shows "ancestors ps (p_id p) = (case p_parent p of None \<Rightarrow> Some [p]
     | Some q \<Rightarrow> Option.bind (ancestors ps q) (\<lambda>rest. Some (p # rest)))"
  using forest_select [OF assms] by (subst ancestors.simps) simp

text \<open>What the rows of the query are.\<close>

lemma ancestors_facts:
  assumes "forest ps" "p \<in> set ps" "ancestors ps (p_id p) = Some l"
  shows "hd l = p \<and> l \<noteq> [] \<and> set l \<subseteq> set ps \<and> distinct (map p_id l) \<and> p_parent (last l) = None \<and>
    (\<forall>x \<in> set l. p_version x = p_version p) \<and> p_id ` set l = {i. (p_id p, i) \<in> (parent_edges ps)\<^sup>*} \<and>
    length l \<le> length ps \<and> (\<forall>k. Suc k < length l \<longrightarrow> p_parent (l ! k) = Some (p_id (l ! Suc k)))"
proof -
  note F = forest_parts [OF assms(1)]
  have edge: "(p_id p, i) \<in> parent_edges ps \<longleftrightarrow> p_parent p = Some i" if "p \<in> set ps" for p i
    using distinct_col_eq [OF F(1)] that by (auto simp: parent_edges_def)
  have "wf ((parent_edges ps)\<inverse>)" using finite_acyclic_wf_converse [OF finite_edges F(2)] .
  then have main: "p \<in> set ps \<Longrightarrow> p_id p = j \<Longrightarrow> ancestors ps j = Some l \<Longrightarrow>
      hd l = p \<and> l \<noteq> [] \<and> set l \<subseteq> set ps \<and> distinct (map p_id l) \<and> p_parent (last l) = None \<and>
      (\<forall>x \<in> set l. p_version x = p_version p) \<and> p_id ` set l = {i. (p_id p, i) \<in> (parent_edges ps)\<^sup>*} \<and>
      (\<forall>k. Suc k < length l \<longrightarrow> p_parent (l ! k) = Some (p_id (l ! Suc k)))" for j p l
  proof (induction j arbitrary: p l rule: wf_induct_rule)
    case (less j)
    show ?case
    proof (cases "p_parent p")
      case None
      then have "{i. (p_id p, i) \<in> (parent_edges ps)\<^sup>*} = {p_id p}"
        using edge [OF less.prems(1)] by (auto elim: converse_rtranclE)
      then show ?thesis using None less.prems ancestors_head [OF assms(1) less.prems(1)] by auto
    next
      case (Some q)
      then obtain r where r: "r \<in> set ps" "p_id r = q" "p_version r = p_version p"
        using F(3) [OF less.prems(1)] by blast
      obtain l' where l': "ancestors ps q = Some l'" "l = p # l'"
        using less.prems ancestors_head [OF assms(1) less.prems(1)] Some by (auto split: Option.bind_splits)
      have e: "(q, j) \<in> (parent_edges ps)\<inverse>" using edge [OF less.prems(1)] Some less.prems by auto
      note IH = less.IH [OF e r(1,2) l'(1)]
      have new: "(q, p_id p) \<notin> (parent_edges ps)\<^sup>*"
        using F(2) e less.prems(2) by (metis acyclic_def converseD rtrancl_into_trancl2)
      have "{i. (p_id p, i) \<in> (parent_edges ps)\<^sup>*} = insert (p_id p) {i. (q, i) \<in> (parent_edges ps)\<^sup>*}"
        using edge [OF less.prems(1)] Some by (auto elim: converse_rtranclE intro: converse_rtrancl_into_rtrancl)
      moreover have "p_parent (l ! k) = Some (p_id (l ! Suc k))" if "Suc k < length l" for k
        using that IH Some r l' by (cases k) (auto simp: hd_conv_nth)
      moreover have "distinct (map p_id l)" using IH new r l' by (auto simp: image_iff)
      ultimately show ?thesis using IH r l' less.prems by auto
    qed
  qed
  note M = main [OF assms(2) refl assms(3)]
  then have "card (p_id ` set l) = length l" "p_id ` set l \<subseteq> p_id ` set ps"
    by (metis distinct_card length_map list.set_map) (use M in blast)
  then have "length l \<le> length ps"
    by (metis card_image_le card_mono card_length finite_imageI List.finite_set le_trans)
  with M show ?thesis by blast
qed

definition depth :: "profile list \<Rightarrow> profile \<Rightarrow> nat" where
  "depth ps p = length (the (ancestors ps (p_id p)))"

lemma depth_child:
  assumes "forest ps" "p \<in> set ps" "q \<in> set ps" "p_parent p = Some (p_id q)"
  shows "depth ps p = Suc (depth ps q)"
  using ancestors_head [OF assms(1,2)] ancestors_total [OF assms(1), of "p_id q"] assms(4)
  by (auto simp: depth_def)

lemma depth_bound: "forest ps \<Longrightarrow> p \<in> set ps \<Longrightarrow> depth ps p \<le> length ps"
  using ancestors_facts ancestors_total unfolding depth_def by (metis option.sel)

lemma in_children: "p \<in> set (children ps level) \<longleftrightarrow> p \<in> set ps \<and> (\<exists>d \<in> set level. p_parent p = Some (p_id d))"
  by (auto simp: children_def)

lemma descendant_conflict_total:
  assumes "forest ps" "set level \<subseteq> set ps"
  shows "\<exists>c. descendant_conflict ps level version = Some c"
proof -
  have "set level \<subseteq> set ps \<Longrightarrow> (\<forall>p \<in> set level. m \<le> depth ps p) \<Longrightarrow> n = Suc (length ps) - m \<Longrightarrow>
     \<exists>c. descendant_conflict ps level version = Some c" for n m level
  proof (induction n arbitrary: level m)
    case 0
    then have "level = []" using depth_bound [OF assms(1)] by (cases level) fastforce+
    then show ?case by (simp add: descendant_conflict.simps)
  next
    case (Suc n)
    have "\<forall>p \<in> set (children ps level). Suc m \<le> depth ps p"
      using Suc.prems depth_child [OF assms(1)] by (fastforce simp: in_children)
    moreover have "set (children ps level) \<subseteq> set ps" by (auto simp: in_children)
    ultimately have "\<exists>c. descendant_conflict ps (children ps level) version = Some c"
      using Suc.IH [of "children ps level" "Suc m"] Suc.prems(3) by simp
    then show ?case by (subst descendant_conflict.simps) simp
  qed
  then show ?thesis using assms(2) by blast
qed

section \<open>The invariant\<close>

definition repo_inv :: "repo_db \<Rightarrow> bool" where
  "repo_inv db \<longleftrightarrow> forest (profiles db) \<and> distinct (map p_name (profiles db)) \<and>
     (\<forall>p \<in> set (profiles db). p_id p < next_profile db) \<and>
     distinct (map r_id (repos db)) \<and> distinct (map (\<lambda>r. (r_url r, r_branch r)) (repos db)) \<and>
     (\<forall>r \<in> set (repos db). r_id r < next_repo db \<and>
        set_option (r_profile_id r) \<subseteq> p_id ` set (profiles db) \<and>
        set_option (r_ssh_key_id r) \<subseteq> set (ssh_ids db))"

datatype repo_op =
    AddProfile string string string "int option"
  | SetProfileParent int "int option"
  | UpdateProfile int "string option" "string option" "string option"
  | DeleteProfile int
  | AddRepo int string string string "int option" string
  | UpdateRepoStatus time int string "string option"
  | UpdateRepoHeadSha time int string
  | SetCloneStatus int string "string option"
  | ResetHeadSha "int list"
  | ResetRepoHeadSha int
  | UpdateRepo int "string option" "string option" "int option" bool "string option"
  | UpdateRepoLocalPath int string
  | DeleteRepo int

text \<open>A call that does not return leaves the tables as they are (a read is running).\<close>

definition run_step :: "repo_db \<Rightarrow> ((repo_exc + 'a) \<times> repo_db) option \<Rightarrow> repo_db" where
  "run_step db r = (case r of None \<Rightarrow> db | Some (_, db') \<Rightarrow> db')"

fun repo_step :: "repo_op \<Rightarrow> repo_db \<Rightarrow> repo_db" where
  "repo_step (AddProfile n v d q) db = snd (add_profile n v d q db)"
| "repo_step (SetProfileParent i q) db = run_step db (set_profile_parent i q db)"
| "repo_step (UpdateProfile i n v d) db = run_step db (update_profile i n v d db)"
| "repo_step (DeleteProfile i) db = snd (delete_profile i db)"
| "repo_step (AddRepo i u b lp k cs) db = snd (add_repo i u b lp k cs db)"
| "repo_step (UpdateRepoStatus now i st e) db = snd (update_repo_status now i st e db)"
| "repo_step (UpdateRepoHeadSha now i sha) db = snd (update_repo_head_sha now i sha db)"
| "repo_step (SetCloneStatus i st e) db = snd (set_clone_status i st e db)"
| "repo_step (ResetHeadSha is) db = snd (reset_head_sha is db)"
| "repo_step (ResetRepoHeadSha i) db = snd (reset_repo_head_sha i db)"
| "repo_step (UpdateRepo i u b k c lp) db = snd (update_repo i u b k c lp db)"
| "repo_step (UpdateRepoLocalPath i lp) db = snd (update_repo_local_path i lp db)"
| "repo_step (DeleteRepo i) db = snd (delete_repo i db)"

definition empty_repo_db :: "int list \<Rightarrow> repo_db" where
  "empty_repo_db keys = \<lparr>rd_up = True, profiles = [], repos = [], ssh_ids = keys, next_profile = 1, next_repo = 1\<rparr>"

lemma empty_repo_inv: "repo_inv (empty_repo_db keys)"
  by (simp add: repo_inv_def forest_def parent_edges_def empty_repo_db_def acyclic_def)

lemma profile_by_id_Some:
  "repo_inv db \<Longrightarrow> profile_by_id db i = Some p \<longleftrightarrow> p \<in> set (profiles db) \<and> p_id p = i"
  using tselect_Some [of "\<lambda>p. p_id p = i" "profiles db"] forest_select [of "profiles db"]
  by (auto simp: profile_by_id_def repo_inv_def)

lemma profile_by_id_None: "profile_by_id db i = None \<longleftrightarrow> i \<notin> p_id ` set (profiles db)"
  by (auto simp: profile_by_id_def tselect_None)

text \<open>Statements that touch one row of \<open>repos\<close> and none of its keys.\<close>

lemma keep_repos:
  assumes "repo_inv db" "\<And>r. r_id (f r) = r_id r" "\<And>r. r_url (f r) = r_url r" "\<And>r. r_branch (f r) = r_branch r"
    "\<And>r. r_profile_id (f r) = r_profile_id r" "\<And>r. r_ssh_key_id (f r) = r_ssh_key_id r"
  shows "repo_inv (db\<lparr>repos := tupdate P f (repos db)\<rparr>)"
  using assms by (simp add: repo_inv_def ball_tupdate map_tupdate if_distrib [of r_id] if_distrib [of r_profile_id]
      if_distrib [of r_ssh_key_id] cong: if_cong)

lemma keep_update_row:
  assumes "repo_inv db" "\<And>r. r_id (f r) = r_id r" "\<And>r. r_url (f r) = r_url r" "\<And>r. r_branch (f r) = r_branch r"
    "\<And>r. r_profile_id (f r) = r_profile_id r" "\<And>r. r_ssh_key_id (f r) = r_ssh_key_id r"
  shows "repo_inv (snd (update_row i f db))"
  using keep_repos [OF assms] assms(1) by (simp add: update_row_def checkout_repo_def)

lemma keep_simple_updates:
  assumes "repo_inv db"
  shows "repo_inv (snd (update_repo_status now i st e db))" "repo_inv (snd (update_repo_head_sha now i sha db))"
    "repo_inv (snd (set_clone_status i st e db))" "repo_inv (snd (reset_repo_head_sha i db))"
    "repo_inv (snd (update_repo_local_path i lp db))" "repo_inv (snd (reset_head_sha is db))"
  using assms keep_repos [OF assms]
  by (simp_all add: update_repo_status_def update_repo_head_sha_def set_clone_status_def reset_repo_head_sha_def
      update_repo_local_path_def keep_update_row reset_head_sha_def checkout_repo_def)

lemma keep_delete_repo: "repo_inv db \<Longrightarrow> repo_inv (snd (delete_repo i db))"
  by (auto simp: delete_repo_def checkout_repo_def repo_inv_def set_tdelete distinct_map_tdelete split: option.splits)

lemma keep_add_repo: "repo_inv db \<Longrightarrow> repo_inv (snd (add_repo i u b lp k cs db))"
  by (auto simp: add_repo_def checkout_repo_def repo_inv_def Let_def profile_by_id_None bad_ssh_key_def less_le_not_le
      split: option.splits if_splits)

lemma keep_update_repo: "repo_inv db \<Longrightarrow> repo_inv (snd (update_repo i u b k c lp db))"
proof -
  assume inv: "repo_inv db"
  let ?f = "set_fields u b k c lp"
  have ok: "repo_inv (db\<lparr>repos := tupdate (\<lambda>r. r_id r = i) ?f (repos db)\<rparr>)"
    if e: "repo_by_id db i = Some e"
      and free: "\<not> ((u \<noteq> None \<or> b \<noteq> None) \<and> url_taken (case u of None \<Rightarrow> r_url e | Some x \<Rightarrow> x) (case b of None \<Rightarrow> r_branch e | Some x \<Rightarrow> x) i db)"
      and key: "\<not> (\<not> c \<and> bad_ssh_key k db)" for e
  proof -
    have er: "e \<in> set (repos db)" "r_id e = i" using tselect_Some e unfolding repo_by_id_def by fastforce+
    have d: "distinct (map r_id (repos db))" "distinct (map (\<lambda>r. (r_url r, r_branch r)) (repos db))"
      using inv by (simp_all add: repo_inv_def)
    have "distinct (map (\<lambda>r. (r_url r, r_branch r)) (tupdate (\<lambda>r. r_id r = i) ?f (repos db)))"
    proof (rule distinct_tupdate [OF d])
      fix r s assume rs: "r \<in> set (repos db)" "s \<in> set (repos db)" "r_id r = i" "r_id s \<noteq> i"
      then have "r = e" using distinct_col_eq [OF d(1)] er by metis
      moreover have "(r_url e, r_branch e) \<noteq> (r_url s, r_branch s)"
        using distinct_col_eq [OF d(2) er(1) rs(2)] rs(4) er(2) by auto
      ultimately show "(r_url s, r_branch s) \<noteq> (r_url (?f r), r_branch (?f r))"
        using free rs by (auto simp: set_fields_def url_taken_def split: option.splits)
    qed
    moreover have "distinct (map r_id (tupdate (\<lambda>r. r_id r = i) ?f (repos db)))"
      using d(1) by (simp add: map_tupdate set_fields_def)
    ultimately show ?thesis
      using inv key by (auto simp: repo_inv_def ball_tupdate set_fields_def bad_ssh_key_def split: option.splits)
  qed
  show ?thesis
    using inv ok by (auto simp: update_repo_def checkout_repo_def Let_def split: option.splits)
qed

text \<open>Operations on the profiles keep the invariant when they keep the forest, the names and
  the profiles that repositories refer to.\<close>

lemma keep_profiles:
  assumes "repo_inv db" "forest ps" "distinct (map p_name ps)" "\<And>p. p \<in> set ps \<Longrightarrow> p_id p < n"
    "p_id ` set (profiles db) \<subseteq> p_id ` set ps"
  shows "repo_inv (db\<lparr>next_profile := n, profiles := ps\<rparr>)"
  using assms by (fastforce simp: repo_inv_def)

lemma keep_profiles_same:
  assumes "repo_inv db" "forest (tupdate P f (profiles db))" "distinct (map p_name (tupdate P f (profiles db)))"
    "\<And>p. p_id (f p) = p_id p"
  shows "repo_inv (db\<lparr>profiles := tupdate P f (profiles db)\<rparr>)"
proof -
  have "p_id p < next_profile db" if "p \<in> set (tupdate P f (profiles db))" for p
    using that assms(1,4) by (auto simp: set_tupdate repo_inv_def)
  moreover have "p_id ` set (tupdate P f (profiles db)) = p_id ` set (profiles db)"
    by (rule image_tupdate) (rule assms(4))
  ultimately show ?thesis using keep_profiles [OF assms(1-3), of "next_profile db"] by simp
qed

lemma keep_next_profile: "repo_inv db \<Longrightarrow> repo_inv (db\<lparr>next_profile := next_profile db + 1\<rparr>)"
  by (fastforce simp: repo_inv_def)

lemma forest_snoc:
  assumes "forest ps" "p_id p \<notin> p_id ` set ps"
    "\<And>q. p_parent p = Some q \<Longrightarrow> \<exists>r \<in> set ps. p_id r = q \<and> p_version r = p_version p"
  shows "forest (ps @ [p])"
proof -
  note F = forest_parts [OF assms(1)]
  have "parent_edges (ps @ [p]) = parent_edges ps \<union> {(p_id p, q) | q. p_parent p = Some q}"
    by (auto simp: parent_edges_def)
  moreover have "acyclic (parent_edges ps \<union> {(p_id p, q) | q. p_parent p = Some q})"
  proof (cases "p_parent p")
    case None
    then show ?thesis using F(2) by simp
  next
    case (Some q)
    have "(q, p_id p) \<notin> (parent_edges ps)\<^sup>*"
    proof
      assume "(q, p_id p) \<in> (parent_edges ps)\<^sup>*"
      then show False
      proof (cases rule: rtranclE)
        case base
        then show ?thesis using assms(2) assms(3) [OF Some] by (auto simp: image_iff)
      next
        case (step y)
        then obtain r where "r \<in> set ps" "p_parent r = Some (p_id p)" by (auto simp: parent_edges_def)
        from F(3) [OF this] assms(2) show ?thesis by (auto simp: image_iff)
      qed
    qed
    then have "acyclic (insert (p_id p, q) (parent_edges ps))" using F(2) by (simp add: acyclic_insert)
    then show ?thesis using Some by simp
  qed
  ultimately show ?thesis
    using F assms(2,3) unfolding forest_def by (auto simp: image_iff)
qed

lemma keep_add_profile: "repo_inv db \<Longrightarrow> repo_inv (snd (add_profile n v d q db))"
proof -
  assume inv: "repo_inv db"
  have new: "repo_inv (snd (insert_profile n v d q db))"
    if "\<And>x. q = Some x \<Longrightarrow> \<exists>r \<in> set (profiles db). p_id r = x \<and> p_version r = v"
  proof (cases "\<exists>p \<in> set (profiles db). p_name p = n")
    case True
    then show ?thesis using keep_next_profile [OF inv] by (simp add: insert_profile_def Let_def)
  next
    case False
    let ?p = "\<lparr>p_id = next_profile db, p_name = n, p_version = v, p_description = Some d, p_parent = q\<rparr>"
    have "forest (profiles db @ [?p])"
      using that inv by (intro forest_snoc) (auto simp: repo_inv_def)
    moreover have "distinct (map p_name (profiles db @ [?p]))" using False inv by (auto simp: repo_inv_def)
    moreover have "p_id p < next_profile db + 1" if "p \<in> set (profiles db @ [?p])" for p
      using that inv by (auto simp: repo_inv_def)
    ultimately have "repo_inv (db\<lparr>next_profile := next_profile db + 1, profiles := profiles db @ [?p]\<rparr>)"
      by (intro keep_profiles [OF inv]) auto
    then show ?thesis using False by (simp add: insert_profile_def Let_def)
  qed
  then show ?thesis
    using inv by (auto simp: add_profile_def checkout_repo_def profile_by_id_Some split: option.splits)
qed

lemma keep_delete_profile: "repo_inv db \<Longrightarrow> repo_inv (snd (delete_profile i db))"
proof -
  assume inv: "repo_inv db"
  have "repo_inv (db\<lparr>profiles := tdelete (\<lambda>p. p_id p = i) (profiles db),
      repos := tdelete (\<lambda>r. r_profile_id r = Some i) (repos db)\<rparr>)"
    if "\<not> (\<exists>p \<in> set (profiles db). p_parent p = Some i)"
  proof -
    have "forest (profiles db)" using inv by (simp add: repo_inv_def)
    note F = forest_parts [OF this]
    have "acyclic (parent_edges (tdelete (\<lambda>p. p_id p = i) (profiles db)))"
      by (rule acyclic_subset [OF F(2)]) (auto simp: parent_edges_def set_tdelete)
    moreover have "\<exists>p' \<in> set (tdelete (\<lambda>p. p_id p = i) (profiles db)). p_id p' = q \<and> p_version p' = p_version p"
      if "p \<in> set (profiles db)" "p_parent p = Some q" for p q
      using F(3) [OF that] that \<open>\<not> (\<exists>p \<in> set (profiles db). _ p)\<close> by (auto simp: set_tdelete)
    ultimately have "forest (tdelete (\<lambda>p. p_id p = i) (profiles db))"
      unfolding forest_def using F(1) by (simp add: distinct_map_tdelete set_tdelete)
    moreover have "p_id ` set (tdelete (\<lambda>p. p_id p = i) (profiles db)) = p_id ` set (profiles db) - {i}"
      by (auto simp: set_tdelete)
    ultimately show ?thesis using inv by (auto simp: repo_inv_def distinct_map_tdelete set_tdelete)
  qed
  then show ?thesis using inv by (auto simp: delete_profile_def checkout_repo_def Let_def)
qed

text \<open>Re-parenting: the check of the chain is what keeps the forest.\<close>

lemma forest_reparent:
  assumes "forest ps" "c \<in> set ps"
    "\<And>q. new = Some q \<Longrightarrow> (\<exists>r \<in> set ps. p_id r = q \<and> p_version r = p_version c) \<and> (q, p_id c) \<notin> (parent_edges ps)\<^sup>*"
  shows "forest (tupdate (\<lambda>p. p_id p = p_id c \<and> p_parent p \<noteq> new) (\<lambda>p. p\<lparr>p_parent := new\<rparr>) ps)" (is "forest ?ps")
proof -
  note F = forest_parts [OF assms(1)]
  have e: "parent_edges ?ps \<subseteq> parent_edges ps \<union> {(p_id c, q) | q. new = Some q}"
    by (auto simp: parent_edges_def set_tupdate split: if_splits)
  have "acyclic (parent_edges ps \<union> {(p_id c, q) | q. new = Some q})"
    using F(2) assms(3) by (cases new) (simp_all add: acyclic_insert)
  then have "acyclic (parent_edges ?ps)" using e by (rule acyclic_subset)
  moreover have "distinct (map p_id ?ps)" using F(1) by (simp add: map_tupdate)
  moreover have "\<exists>p' \<in> set ?ps. p_id p' = q \<and> p_version p' = p_version p"
    if p: "p \<in> set ?ps" "p_parent p = Some q" for p q
  proof -
    from p(1) obtain p0 where p0: "p0 \<in> set ps"
      "p = (if p_id p0 = p_id c \<and> p_parent p0 \<noteq> new then p0\<lparr>p_parent := new\<rparr> else p0)"
      unfolding set_tupdate by blast
    have "\<exists>r \<in> set ps. p_id r = q \<and> p_version r = p_version p"
    proof (cases "p_id p0 = p_id c \<and> p_parent p0 \<noteq> new")
      case True
      then have "p0 = c" using distinct_col_eq [OF F(1) p0(1) assms(2)] by blast
      then show ?thesis using p(2) p0(2) True assms(3) [of q] by simp
    next
      case False
      then show ?thesis using p(2) p0 F(3) [of p0 q] by auto
    qed
    then obtain r where "r \<in> set ps" "p_id r = q" "p_version r = p_version p" by blast
    then show ?thesis
      by (intro bexI [of _ "if p_id r = p_id c \<and> p_parent r \<noteq> new then r\<lparr>p_parent := new\<rparr> else r"]) (auto simp: set_tupdate)
  qed
  ultimately show ?thesis unfolding forest_def by blast
qed

lemma validate_parent_total: "repo_inv db \<Longrightarrow> \<exists>r. validate_parent i q db = Some r"
  using ancestors_total [of "profiles db"]
  by (auto simp: validate_parent_def repo_inv_def split: option.splits Option.bind_splits)
     (metis option.distinct(1))+

lemma validate_parent_ok:
  assumes "repo_inv db"
  shows "validate_parent i (Some q) db = Some (Inr ()) \<longleftrightarrow> rd_up db \<and>
    (\<exists>c \<in> set (profiles db). \<exists>r \<in> set (profiles db). p_id c = i \<and> p_id r = q \<and> p_version c = p_version r \<and>
       (q, i) \<notin> (parent_edges (profiles db))\<^sup>*)"
proof -
  have f: "forest (profiles db)" using assms by (simp add: repo_inv_def)
  note pb = profile_by_id_Some [OF assms]
  show ?thesis
  proof (cases "profile_by_id db i")
    case None
    moreover from this have "c \<in> set (profiles db) \<Longrightarrow> p_id c \<noteq> i" for c by (auto simp: profile_by_id_None)
    ultimately show ?thesis by (auto simp: validate_parent_def)
  next
    case (Some c)
    note c = Some
    show ?thesis
    proof (cases "profile_by_id db q")
      case None
      moreover from this have "r \<in> set (profiles db) \<Longrightarrow> p_id r \<noteq> q" for r by (auto simp: profile_by_id_None)
      ultimately show ?thesis using c by (auto simp: validate_parent_def)
    next
      case (Some r)
      have r: "r \<in> set (profiles db)" "p_id r = q" "c \<in> set (profiles db)" "p_id c = i" using Some c pb by auto
      obtain l where l: "ancestors (profiles db) q = Some l" using ancestors_total [OF f] by blast
      then have "p_id ` set l = {j. (q, j) \<in> (parent_edges (profiles db))\<^sup>*}"
        using ancestors_facts [OF f r(1)] r(2) by simp
      then have "i \<in> p_id ` set l \<longleftrightarrow> (q, i) \<in> (parent_edges (profiles db))\<^sup>*" by simp
      moreover have "(\<exists>c' \<in> set (profiles db). \<exists>r' \<in> set (profiles db). p_id c' = i \<and> p_id r' = q \<and> p_version c' = p_version r' \<and> X)
          \<longleftrightarrow> p_version c = p_version r \<and> X" for X
        using r distinct_col_eq [OF forest_parts(1) [OF f]] by metis
      ultimately show ?thesis using c Some l by (auto simp: validate_parent_def)
    qed
  qed
qed

lemma keep_set_profile_parent: "repo_inv db \<Longrightarrow> repo_inv (run_step db (set_profile_parent i new db))"
proof -
  assume inv: "repo_inv db"
  then have f: "forest (profiles db)" "distinct (map p_name (profiles db))" by (simp_all add: repo_inv_def)
  let ?hit = "\<lambda>p. p_id p = i \<and> p_parent p \<noteq> new"
  have upd: "repo_inv (snd (store_parent i new db))" if ok: "validate_parent i new db = Some (Inr ())"
  proof (cases "rd_up db \<and> 0 < tcount ?hit (profiles db)")
    case False
    then show ?thesis using inv by (auto simp: store_parent_def checkout_repo_def)
  next
    case True
    then obtain c where c: "c \<in> set (profiles db)" "p_id c = i" by (auto simp: tcount_pos)
    have "forest (tupdate (\<lambda>p. p_id p = p_id c \<and> p_parent p \<noteq> new) (\<lambda>p. p\<lparr>p_parent := new\<rparr>) (profiles db))"
    proof (rule forest_reparent [OF f(1) c(1)])
      fix q assume "new = Some q"
      then show "(\<exists>r \<in> set (profiles db). p_id r = q \<and> p_version r = p_version c) \<and> (q, p_id c) \<notin> (parent_edges (profiles db))\<^sup>*"
        using ok c distinct_col_eq [OF forest_parts(1) [OF f(1)]] by (auto simp: validate_parent_ok [OF inv]) metis
    qed
    then have "repo_inv (db\<lparr>profiles := tupdate ?hit (\<lambda>p. p\<lparr>p_parent := new\<rparr>) (profiles db)\<rparr>)"
      using c(2) f(2) by (intro keep_profiles_same [OF inv]) (simp_all add: map_tupdate)
    then show ?thesis using inv by (simp add: store_parent_def checkout_repo_def Let_def)
  qed
  obtain r where "validate_parent i new db = Some r" using validate_parent_total [OF inv] by blast
  then show ?thesis using upd inv by (cases r) (auto simp: set_profile_parent_def run_step_def split: prod.splits)
qed

text \<open>A version change passes the checks only for a profile without parent and children.\<close>

lemma descendant_conflict_Nil_or:
  assumes "descendant_conflict ps level v = Some None"
  shows "\<forall>p \<in> set level. p_version p = v"
  using assms by (subst (asm) descendant_conflict.simps) (auto simp: list_ex_iff find_None_iff split: if_splits)

definition isolated :: "profile list \<Rightarrow> int \<Rightarrow> bool" where
  "isolated ps i \<longleftrightarrow> (\<forall>p \<in> set ps. (p_id p = i \<longrightarrow> p_parent p = None) \<and> p_parent p \<noteq> Some i)"

lemma version_change_isolated:
  assumes "repo_inv db" "profile_by_id db i = Some c" "v \<noteq> p_version c"
  shows "(\<not> parent_conflict c v db \<and> descendant_conflict (profiles db) (filter (\<lambda>p. p_parent p = Some i) (profiles db)) v = Some None)
    \<longleftrightarrow> isolated (profiles db) i"
proof -
  have f: "forest (profiles db)" using assms(1) by (simp add: repo_inv_def)
  note F = forest_parts [OF f]
  have c: "c \<in> set (profiles db)" "p_id c = i" using assms(1,2) profile_by_id_Some by blast+
  have pc: "parent_conflict c v db \<longleftrightarrow> p_parent c \<noteq> None"
  proof (cases "p_parent c")
    case (Some q)
    then obtain r where "r \<in> set (profiles db)" "p_id r = q" "p_version r = p_version c" using F(3) [OF c(1)] by blast
    then have "profile_by_id db q = Some r" "p_version r \<noteq> v" using profile_by_id_Some [OF assms(1)] assms(3) by auto
    then show ?thesis using Some by (simp add: parent_conflict_def)
  qed (simp add: parent_conflict_def)
  let ?ch = "filter (\<lambda>p. p_parent p = Some i) (profiles db)"
  have dc: "descendant_conflict (profiles db) ?ch v = Some None \<longleftrightarrow> ?ch = []"
  proof
    assume "descendant_conflict (profiles db) ?ch v = Some None"
    then have a: "\<forall>p \<in> set ?ch. p_version p = v" by (rule descendant_conflict_Nil_or)
    have "p_version p = p_version c" if "p \<in> set ?ch" for p
      using that F(3) [of p i] c distinct_col_eq [OF F(1)] by auto (metis)
    with a assms(3) show "?ch = []" by (metis last_in_set)
  qed (subst descendant_conflict.simps, simp)
  have uniq: "p \<in> set (profiles db) \<Longrightarrow> p_id p = i \<Longrightarrow> p = c" for p
    using distinct_col_eq [OF F(1) _ c(1)] c(2) by metis
  have "(\<forall>p \<in> set (profiles db). p_id p = i \<longrightarrow> p_parent p = None) \<longleftrightarrow> p_parent c = None"
    using c uniq by metis
  then show ?thesis unfolding pc dc isolated_def filter_empty_conv ball_conj_distrib by simp
qed

lemma forest_isolated_update:
  assumes "forest ps" "\<And>p. p_id (f p) = p_id p" "\<And>p. p_parent (f p) = p_parent p"
    "isolated ps i \<or> (\<forall>p \<in> set ps. p_id p = i \<longrightarrow> p_version (f p) = p_version p)"
  shows "forest (tupdate (\<lambda>p. p_id p = i) f ps)" (is "forest ?ps")
proof -
  note F = forest_parts [OF assms(1)]
  have "parent_edges ?ps = parent_edges ps"
    using assms(2,3) unfolding parent_edges_def by (auto simp: set_tupdate) (metis (full_types))+
  moreover have "\<exists>p' \<in> set ?ps. p_id p' = q \<and> p_version p' = p_version p" if p: "p \<in> set ?ps" "p_parent p = Some q" for p q
  proof -
    from p(1) obtain p0 where p0: "p0 \<in> set ps" "p = (if p_id p0 = i then f p0 else p0)" unfolding set_tupdate by blast
    then have "p_parent p0 = Some q" using p(2) assms(3) by (simp split: if_splits)
    from F(3) [OF p0(1) this] obtain r where r: "r \<in> set ps" "p_id r = q" "p_version r = p_version p0" by blast
    have "p_version (if p_id r = i then f r else r) = p_version p"
      using assms(4) r p0 \<open>p_parent p0 = Some q\<close> by (auto simp: isolated_def)
    then show ?thesis
      using r assms(2) by (intro bexI [of _ "if p_id r = i then f r else r"]) (auto simp: set_tupdate)
  qed
  ultimately show ?thesis unfolding forest_def using F(1,2) assms(2) by (simp add: map_tupdate)
qed

lemma keep_store_profile:
  assumes "repo_inv db" "profile_by_id db i = Some c"
    "changing v (p_version c) \<Longrightarrow> isolated (profiles db) i"
  shows "repo_inv (snd (store_profile i n v d c db))"
proof -
  let ?n = "if changing n (p_name c) then n else None" and ?v = "if changing v (p_version c) then v else None"
    and ?d = "if d \<noteq> p_description c then d else None"
  let ?f = "set_columns ?n ?v ?d"
  have c: "c \<in> set (profiles db)" "p_id c = i" using assms(1,2) profile_by_id_Some by blast+
  have inv: "forest (profiles db)" "distinct (map p_name (profiles db))" using assms(1) by (simp_all add: repo_inv_def)
  have ok: "repo_inv (db\<lparr>profiles := tupdate (\<lambda>p. p_id p = i) ?f (profiles db)\<rparr>)"
    if free: "\<not> (changing n (p_name c) \<and> (case n of None \<Rightarrow> False | Some m \<Rightarrow> name_taken m i db))"
  proof (rule keep_profiles_same [OF assms(1)])
    have "p_version (?f p) = p_version p" if "\<not> changing v (p_version c)" for p using that by (simp add: set_columns_def)
    then show "forest (tupdate (\<lambda>p. p_id p = i) ?f (profiles db))"
      using assms(3) by (intro forest_isolated_update [OF inv(1)]) (auto simp: set_columns_def)
    show "distinct (map p_name (tupdate (\<lambda>p. p_id p = i) ?f (profiles db)))"
    proof (rule distinct_tupdate [OF forest_parts(1) [OF inv(1)] inv(2)])
      fix r s assume rs: "r \<in> set (profiles db)" "s \<in> set (profiles db)" "p_id r = i" "p_id s \<noteq> i"
      then have "p_name s \<noteq> p_name r" using distinct_col_eq [OF inv(2)] by metis
      then show "p_name s \<noteq> p_name (?f r)"
        using free rs by (auto simp: set_columns_def name_taken_def split: option.splits)
    qed
  qed (simp add: set_columns_def)
  show ?thesis using assms(1,2) ok by (auto simp: store_profile_def Let_def)
qed

lemma update_profile_total: "repo_inv db \<Longrightarrow> \<exists>r. update_profile i n v d db = Some r"
proof -
  assume "repo_inv db"
  then have "forest (profiles db)" by (simp add: repo_inv_def)
  from descendant_conflict_total [OF this, of "filter (\<lambda>p. p_parent p = Some i) (profiles db)" "the v"]
  show ?thesis by (auto simp: update_profile_def Let_def split: option.splits)
qed

lemma keep_update_profile:
  assumes "repo_inv db"
  shows "repo_inv (run_step db (update_profile i n v d db))"
proof (cases "rd_up db")
  case True
  show ?thesis
  proof (cases "profile_by_id db i")
    case None
    then show ?thesis using assms by (simp add: update_profile_def run_step_def)
  next
    case (Some c)
    note keep = keep_store_profile [OF assms Some, of v n d]
    note iso = version_change_isolated [OF assms Some, of "the v"]
    show ?thesis
    proof (cases "changing v (p_version c)")
      case False
      then show ?thesis using assms True Some keep by (auto simp: update_profile_def run_step_def Let_def split: prod.splits)
    next
      case ch: True
      then have "the v \<noteq> p_version c" by (auto simp: changing_def split: option.splits)
      then show ?thesis
        using assms True Some ch keep iso
        by (auto simp: update_profile_def run_step_def Let_def split: prod.splits option.splits Option.bind_splits)
    qed
  qed
qed (simp add: assms update_profile_def run_step_def)

interpretation repo_store: op_store repo_step "\<lambda>_. True" repo_inv
proof
  fix op db assume "repo_inv db"
  then show "repo_inv (repo_step op db)"
    by (cases op) (simp_all add: keep_add_profile keep_set_profile_parent keep_update_profile keep_delete_profile
        keep_add_repo keep_simple_updates keep_update_repo keep_delete_repo)
qed

section \<open>What the store guarantees\<close>

text \<open>
  C16. The profile hierarchy stays sound. After any sequence of calls of \<open>RepoStore\<close> one after
  the other, from an empty database, the profiles are a forest in which a child has its
  parent's version, names and ids are unique and below the counters, url and branch of a
  repository are unique together, and each repository belongs to an existing profile.
\<close>
theorem hierarchy_integrity: "repo_inv (fold repo_step ops (empty_repo_db keys))"
  by (rule repo_store.run [OF empty_repo_inv]) simp

lemma names_total: "repo_inv db \<Longrightarrow> \<exists>r. chain_of n db = Some r"
  using ancestors_total [of "profiles db"] by (auto simp: chain_of_def repo_inv_def split: option.splits)

text \<open>
  C17. No call hangs. The recursive queries have no guard against a cycle (UNION ALL), but in
  every database that calls one after the other produce they return: re-parenting, the version
  check of an update, and the two ancestor listings always answer.
\<close>
theorem queries_return:
  "let db = fold repo_step ops (empty_repo_db keys)
   in set_profile_parent i q db \<noteq> None \<and> update_profile i n v d db \<noteq> None \<and>
      get_ancestor_profile_names name db \<noteq> None \<and> get_ancestor_repos name db \<noteq> None"
proof -
  let ?db = "fold repo_step ops (empty_repo_db keys)"
  have inv: "repo_inv ?db" by (rule repo_store.run [OF empty_repo_inv]) simp
  obtain l where "chain_of name ?db = Some l" using names_total [OF inv] by blast
  then have "get_ancestor_profile_names name ?db \<noteq> None \<and> get_ancestor_repos name ?db \<noteq> None"
    by (simp add: get_ancestor_profile_names_def get_ancestor_repos_def)
  moreover obtain r where "validate_parent i q ?db = Some r" using validate_parent_total [OF inv] by blast
  then have "set_profile_parent i q ?db \<noteq> None" by (simp add: set_profile_parent_def split: sum.split)
  moreover obtain u where "update_profile i n v d ?db = Some u" using update_profile_total [OF inv] by blast
  ultimately show ?thesis by (simp add: Let_def)
qed

lemma store_parent_ok:
  assumes "repo_inv db" "rd_up db" "c \<in> set (profiles db)" "p_id c = i" "new = None \<or> new = Some q \<and> profile_by_id db q \<noteq> None"
  shows "fst (store_parent i new db) = Inr (p_parent c \<noteq> new) \<and>
    profile_by_id (snd (store_parent i new db)) i = Some (c\<lparr>p_parent := new\<rparr>)"
proof -
  have d: "distinct (map p_id (profiles db))" using assms(1) by (simp add: repo_inv_def forest_def)
  let ?hit = "\<lambda>p. p_id p = i \<and> p_parent p \<noteq> new"
  have pc: "profile_by_id db i = Some c" using profile_by_id_Some [OF assms(1)] assms(3,4) by blast
  have hit: "0 < tcount ?hit (profiles db) \<longleftrightarrow> p_parent c \<noteq> new"
    using distinct_col_eq [OF d] assms(3,4) unfolding tcount_pos by metis
  have "tselect (\<lambda>p. p_id p = i) (tupdate ?hit (\<lambda>p. p\<lparr>p_parent := new\<rparr>) (profiles db)) = Some (c\<lparr>p_parent := new\<rparr>)"
    using pc assms(4) by (subst tselect_tupdate) (auto simp: profile_by_id_def)
  moreover have "c\<lparr>p_parent := new\<rparr> = c" if "p_parent c = new" using that by simp
  ultimately show ?thesis
    using assms(2,5) hit pc by (cases "p_parent c = new") (auto simp: store_parent_def checkout_repo_def Let_def profile_by_id_def)
qed

text \<open>
  Re-parenting decides exactly what it documents: the new parent is accepted if and only if
  both profiles exist, have the same version, and the profile is not among the ancestors of its
  new parent (or the new parent itself). Then the profile has that parent, and the answer tells
  whether it had another one before; otherwise nothing changes.
\<close>
theorem reparent_verdict:
  assumes "repo_inv db" "rd_up db"
  shows "\<exists>r db'. set_profile_parent i (Some q) db = Some (r, db') \<and>
    (is_ok r \<longleftrightarrow> (\<exists>c \<in> set (profiles db). \<exists>p \<in> set (profiles db). p_id c = i \<and> p_id p = q \<and> p_version c = p_version p \<and>
       (q, i) \<notin> (parent_edges (profiles db))\<^sup>*)) \<and>
    (case r of Inl _ \<Rightarrow> db' = db
     | Inr changed \<Rightarrow> map_option p_parent (profile_by_id db' i) = Some (Some q) \<and>
         (changed \<longleftrightarrow> map_option p_parent (profile_by_id db i) \<noteq> Some (Some q)))"
proof -
  obtain v where v: "validate_parent i (Some q) db = Some v" using validate_parent_total [OF assms(1)] by blast
  note ok = validate_parent_ok [OF assms(1), of i q]
  show ?thesis
  proof (cases v)
    case (Inl e)
    then have "set_profile_parent i (Some q) db = Some (Inl e, db)" using v by (simp add: set_profile_parent_def)
    then show ?thesis using ok v Inl assms(2) by auto
  next
    case (Inr u)
    then obtain c p where c: "c \<in> set (profiles db)" "p_id c = i" and p: "p \<in> set (profiles db)" "p_id p = q"
      using ok v by auto
    then have pb: "profile_by_id db q \<noteq> None" "profile_by_id db i = Some c"
      using profile_by_id_Some [OF assms(1)] by auto
    obtain r db' where s: "store_parent i (Some q) db = (r, db')" by (cases "store_parent i (Some q) db")
    have "set_profile_parent i (Some q) db = Some (r, db')" using v s Inr by (simp add: set_profile_parent_def)
    then show ?thesis
      using store_parent_ok [OF assms c, of "Some q" q] pb s ok v Inr by auto
  qed
qed

definition ex_repo_ops :: "repo_op list" where
  "ex_repo_ops = [AddProfile ''odoo_17'' ''17.0'' [] None, AddProfile ''std_17'' ''17.0'' [] (Some 1),
     AddProfile ''shop'' ''17.0'' [] None, AddRepo 3 ''git@h:shop'' ''17.0'' ''/r/shop/'' None ''manual'']"

definition ex_repo_db :: repo_db where
  "ex_repo_db = fold repo_step ex_repo_ops (empty_repo_db [])"

lemma ex_repo_inv: "repo_inv ex_repo_db"
  unfolding ex_repo_db_def by (rule repo_store.run [OF empty_repo_inv]) simp

lemma ex_repo_profiles:
  "map (\<lambda>p. (p_id p, p_name p, p_version p, p_parent p)) (profiles ex_repo_db) =
     [(1, ''odoo_17'', ''17.0'', None), (2, ''std_17'', ''17.0'', Some 1), (3, ''shop'', ''17.0'', None)]"
  "rd_up ex_repo_db"
  by code_simp+

theorem reparent_verdict_witness:
  "\<exists>db'. set_profile_parent 3 (Some 2) ex_repo_db = Some (Inr True, db') \<and>
     map_option p_parent (profile_by_id db' 3) = Some (Some 2) \<and>
     set_profile_parent 1 (Some 2) ex_repo_db = Some (Inl ProfileCycle, ex_repo_db)"
proof -
  have a: "map_option fst (set_profile_parent 3 (Some 2) ex_repo_db) = Some (Inr True)"
    and b: "map_option fst (set_profile_parent 1 (Some 2) ex_repo_db) = Some (Inl ProfileCycle)" by code_simp+
  from reparent_verdict [OF ex_repo_inv ex_repo_profiles(2), of 3 2] a
  obtain db' where "set_profile_parent 3 (Some 2) ex_repo_db = Some (Inr True, db')"
    "map_option p_parent (profile_by_id db' 3) = Some (Some 2)" by auto
  moreover from reparent_verdict [OF ex_repo_inv ex_repo_profiles(2), of 1 2] b
  have "set_profile_parent 1 (Some 2) ex_repo_db = Some (Inl ProfileCycle, ex_repo_db)" by auto
  ultimately show ?thesis by blast
qed

text \<open>
  The chain of a profile. For a profile's name the listing starts with that name and names
  every profile reachable along the parents once and no other, one parent after the other up to
  a root, all of one Odoo version; and for an unknown name it is empty.
\<close>
theorem ancestor_names_chain:
  assumes "repo_inv db" "rd_up db"
  shows "\<exists>chain. get_ancestor_profile_names n db = Some (Inr (map p_name chain)) \<and> distinct (map p_name chain) \<and>
    (case tselect (\<lambda>p. p_name p = n) (profiles db) of None \<Rightarrow> chain = []
     | Some p \<Rightarrow> chain \<noteq> [] \<and> hd chain = p \<and> p_parent (last chain) = None \<and> p_version ` set chain = {p_version p} \<and>
         p_id ` set chain = {i. (p_id p, i) \<in> (parent_edges (profiles db))\<^sup>*} \<and>
         (\<forall>k. Suc k < length chain \<longrightarrow> p_parent (chain ! k) = Some (p_id (chain ! Suc k))))"
proof (cases "tselect (\<lambda>p. p_name p = n) (profiles db)")
  case None
  then show ?thesis using assms(2) by (auto simp: get_ancestor_profile_names_def chain_of_def)
next
  case (Some p)
  have f: "forest (profiles db)" "distinct (map p_name (profiles db))" using assms(1) by (simp_all add: repo_inv_def)
  have p: "p \<in> set (profiles db)" using tselect_Some [OF Some] by blast
  obtain l where l: "ancestors (profiles db) (p_id p) = Some l" using ancestors_total [OF f(1)] by blast
  note A = ancestors_facts [OF f(1) p l]
  have "distinct (map p_name l)"
    using A f(2) by (auto simp: distinct_map intro: inj_on_subset)
  moreover have "p \<in> set l" using A hd_in_set by metis
  have "p_version ` set l = (\<lambda>_. p_version p) ` set l" using A by (intro image_cong refl) blast
  then have "p_version ` set l = {p_version p}" using \<open>p \<in> set l\<close> by (simp add: image_constant)
  moreover have "get_ancestor_profile_names n db = Some (Inr (map p_name l))"
    using Some l assms(2) by (simp add: get_ancestor_profile_names_def chain_of_def)
  moreover note A
  ultimately show ?thesis unfolding Some option.case by (intro exI [of _ l] conjI) (elim conjE, assumption)+
qed

theorem ancestor_names_chain_witness:
  "\<exists>chain :: profile list. get_ancestor_profile_names ''std_17'' ex_repo_db = Some (Inr (map p_name chain)) \<and>
     chain \<noteq> [] \<and> p_version ` set chain = {''17.0''} \<and> p_parent (last chain) = None \<and> map p_name chain = [''std_17'', ''odoo_17'']"
proof -
  have s: "map_option p_version (tselect (\<lambda>p. p_name p = ''std_17'') (profiles ex_repo_db)) = Some ''17.0''"
    and n: "get_ancestor_profile_names ''std_17'' ex_repo_db = Some (Inr [''std_17'', ''odoo_17''])" by code_simp+
  then obtain p where p: "tselect (\<lambda>p. p_name p = ''std_17'') (profiles ex_repo_db) = Some p" "p_version p = ''17.0''" by auto
  from ancestor_names_chain [OF ex_repo_inv ex_repo_profiles(2), of "''std_17''", unfolded p(1) option.case]
  obtain chain :: "profile list" where c: "get_ancestor_profile_names ''std_17'' ex_repo_db = Some (Inr (map p_name chain))" "chain \<noteq> []"
    "p_version ` set chain = {p_version p}" "p_parent (last chain) = None" by blast
  have "map p_name chain = [''std_17'', ''odoo_17'']" using trans [OF c(1) [symmetric] n] by (simp only: option.inject sum.inject)
  with c show ?thesis unfolding p(2) by (intro exI [of _ chain] conjI)
qed

text \<open>On a cycle the query has no value.\<close>

lemma ancestors_cycle:
  assumes "tselect (\<lambda>p. p_id p = a) ps = Some pa" "p_parent pa = Some b"
    and "tselect (\<lambda>p. p_id p = b) ps = Some pb" "p_parent pb = Some a"
  shows "ancestors ps a = None" "ancestors ps b = None"
proof -
  have "i \<in> {a, b} \<Longrightarrow> False" if "ancestors xs i = Some l" "xs = ps" for xs i l
    using that(2)
  proof (induction rule: ancestors.raw_induct [OF _ that(1)])
    case (1 anc xs i l)
    then show ?case using assms by (auto split: option.splits Option.bind_splits) blast+
  qed
  then show "ancestors ps a = None" "ancestors ps b = None" by (metis insertI1 insertI2 not_None_eq)+
qed

text \<open>
  C18. Two concurrent re-parentings can close a cycle. The check and the UPDATE are separate
  autocommitted statements: when one request puts profile a under b while another puts b under
  a, both checks can run before either UPDATE. Both are accepted, and from then on the listing
  of the ancestors of either profile, which every index run starts with, does not return.
\<close>
theorem concurrent_reparenting_hangs:
  assumes "repo_inv db" "rd_up db" "a \<in> set (profiles db)" "b \<in> set (profiles db)" "p_id a \<noteq> p_id b"
    and "p_version a = p_version b" "p_parent a = None" "p_parent b = None"
    and "db' = snd (store_parent (p_id b) (Some (p_id a)) (snd (store_parent (p_id a) (Some (p_id b)) db)))"
  shows "validate_parent (p_id a) (Some (p_id b)) db = Some (Inr ()) \<and> validate_parent (p_id b) (Some (p_id a)) db = Some (Inr ()) \<and>
    fst (store_parent (p_id b) (Some (p_id a)) (snd (store_parent (p_id a) (Some (p_id b)) db))) = Inr True \<and>
    get_ancestor_profile_names (p_name a) db' = None \<and> get_ancestor_profile_names (p_name b) db' = None"
proof -
  have f: "forest (profiles db)" "distinct (map p_name (profiles db))" using assms(1) by (simp_all add: repo_inv_def)
  note d = forest_parts(1) [OF f(1)]
  have no: "(p_id x, p_id y) \<notin> (parent_edges (profiles db))\<^sup>*" if x: "x \<in> set (profiles db)" "p_parent x = None" "p_id x \<noteq> p_id y" for x y
  proof
    assume "(p_id x, p_id y) \<in> (parent_edges (profiles db))\<^sup>*"
    then obtain z where "(p_id x, z) \<in> parent_edges (profiles db)" using x(3) by (auto elim: converse_rtranclE)
    then obtain x' where "x' \<in> set (profiles db)" "p_id x' = p_id x" "p_parent x' = Some z" by (auto simp: parent_edges_def)
    with distinct_col_eq [OF d this(1) x(1)] x(2) show False by simp
  qed
  have v: "validate_parent (p_id a) (Some (p_id b)) db = Some (Inr ())" "validate_parent (p_id b) (Some (p_id a)) db = Some (Inr ())"
    unfolding validate_parent_ok [OF assms(1)]
    by (intro conjI bexI [OF _ assms(3)] bexI [OF _ assms(4)] refl,
        simp_all add: assms(2,6) no [OF assms(4,8) assms(5) [symmetric]] no [OF assms(3,7,5)])
      (intro conjI bexI [OF _ assms(3)] bexI [OF _ assms(4)] refl, simp_all add: assms(6))
  let ?ps = "profiles db" and ?h = "\<lambda>x y p. p_id p = p_id x \<and> p_parent p \<noteq> Some (p_id y)"
  let ?set = "\<lambda>x y. tupdate (?h x y) (\<lambda>p. p\<lparr>p_parent := Some (p_id y)\<rparr>)"
  let ?ps1 = "?set a b ?ps" and ?ps2 = "?set b a (?set a b ?ps)"
  have ta: "tselect (\<lambda>p. p_id p = p_id a) ?ps = Some a" and tb: "tselect (\<lambda>p. p_id p = p_id b) ?ps = Some b"
    using forest_select [OF f(1)] assms(3,4) by blast+
  have 1: "tselect (\<lambda>p. p_id p = p_id a) ?ps1 = Some (a\<lparr>p_parent := Some (p_id b)\<rparr>)" "tselect (\<lambda>p. p_id p = p_id b) ?ps1 = Some b"
    by (simp_all add: tselect_tupdate ta tb assms(5,7) assms(5) [symmetric])
  have 2: "tselect (\<lambda>p. p_id p = p_id a) ?ps2 = Some (a\<lparr>p_parent := Some (p_id b)\<rparr>)"
    "tselect (\<lambda>p. p_id p = p_id b) ?ps2 = Some (b\<lparr>p_parent := Some (p_id a)\<rparr>)"
    by (simp_all add: tselect_tupdate 1 assms(5,8) assms(5) [symmetric])
  have pos: "0 < tcount (?h a b) ?ps" "0 < tcount (?h b a) ?ps1"
    using assms(3,7) tselect_Some [OF 1(2)] assms(8) unfolding tcount_pos by force+
  have s1: "store_parent (p_id a) (Some (p_id b)) db = (Inr True, db\<lparr>profiles := ?ps1\<rparr>)"
    using pos(1) assms(2) tb by (simp add: store_parent_def checkout_repo_def Let_def profile_by_id_def)
  have s2: "store_parent (p_id b) (Some (p_id a)) (db\<lparr>profiles := ?ps1\<rparr>) = (Inr True, db\<lparr>profiles := ?ps2\<rparr>)"
    using pos(2) assms(2) 1(1) by (simp add: store_parent_def checkout_repo_def Let_def profile_by_id_def)
  have db': "db' = db\<lparr>profiles := ?ps2\<rparr>" using assms(9) s1 s2 by simp
  note hang = ancestors_cycle [OF 2(1) _ 2(2), simplified]
  have "distinct (map p_name ?ps2)" "distinct (map p_id ?ps2)" using f(2) d by (simp_all add: map_tupdate)
  then have "tselect (\<lambda>p. p_name p = p_name a) ?ps2 = Some (a\<lparr>p_parent := Some (p_id b)\<rparr>)"
    "tselect (\<lambda>p. p_name p = p_name b) ?ps2 = Some (b\<lparr>p_parent := Some (p_id a)\<rparr>)"
    using tselect_Some [OF 2(1)] tselect_Some [OF 2(2)] by (auto intro!: tselect_key)
  then have "get_ancestor_profile_names (p_name a) db' = None" "get_ancestor_profile_names (p_name b) db' = None"
    using hang assms(2) unfolding db' by (simp_all add: get_ancestor_profile_names_def chain_of_def)
  then show ?thesis using v s1 s2 by simp
qed

theorem concurrent_reparenting_hangs_witness:
  "\<exists>db'. fst (store_parent 3 (Some 1) (snd (store_parent 1 (Some 3) ex_repo_db))) = Inr True \<and>
     get_ancestor_profile_names ''shop'' (snd (store_parent 3 (Some 1) (snd (store_parent 1 (Some 3) ex_repo_db)))) = None"
proof -
  obtain a b c where abc: "profiles ex_repo_db = [a, b, c]" using ex_repo_profiles(1) by auto
  then have "p_id a = 1" "p_version a = ''17.0''" "p_parent a = None" "p_id c = 3" "p_version c = ''17.0''"
    "p_parent c = None" "p_name c = ''shop''" using ex_repo_profiles(1) by simp_all
  then show ?thesis
    using concurrent_reparenting_hangs [OF ex_repo_inv ex_repo_profiles(2), of a c, OF _ _ _ _ _ _ refl] abc by simp
qed

text \<open>
  A version change. \<open>update_profile\<close> accepts a new Odoo version if and only if the profile
  exists, has no indexed repository, no parent and no child (and a new name that comes with it
  is free); since a child always has the old version, any child refuses the
  change, although the comment of that check only speaks of descendants that differ.
\<close>
theorem version_change_verdict:
  assumes "repo_inv db" "rd_up db" "profile_by_id db i = Some c" "v \<noteq> p_version c"
  shows "\<exists>r db'. update_profile i n (Some v) d db = Some (r, db') \<and>
    (is_ok r \<longleftrightarrow> has_indexed_repos i db = 0 \<and> isolated (profiles db) i \<and>
       (case n of None \<Rightarrow> True | Some m \<Rightarrow> m = p_name c \<or> \<not> name_taken m i db)) \<and>
    (if is_ok r then map_option p_version (profile_by_id db' i) = Some v \<and> repos db' = repos db else db' = db)"
proof -
  have ch: "changing (Some v) (p_version c)" using assms(4) by (simp add: changing_def)
  have f: "forest (profiles db)" using assms(1) by (simp add: repo_inv_def)
  let ?level = "filter (\<lambda>p. p_parent p = Some i) (profiles db)"
  obtain conflict where dc: "descendant_conflict (profiles db) ?level v = Some conflict"
    using descendant_conflict_total [OF f, of ?level v] by auto
  have iso: "isolated (profiles db) i \<longleftrightarrow> \<not> parent_conflict c v db \<and> conflict = None"
    using version_change_isolated [OF assms(1,3,4)] dc by auto
  have sel: "tselect (\<lambda>p. p_id p = i) (profiles db) = Some c" using assms(3) by (simp add: profile_by_id_def)
  have store: "store_profile i n (Some v) d c db =
      (if case n of None \<Rightarrow> True | Some m \<Rightarrow> m = p_name c \<or> \<not> name_taken m i db
       then (Inr (changed_columns n (Some v) d c), snd (store_profile i n (Some v) d c db)) else (Inl ProfileNameConflict, db))"
    using assms(3) ch by (auto simp: store_profile_def Let_def changed_columns_def changing_def split: option.splits)
  have new: "map_option p_version (profile_by_id (snd (store_profile i n (Some v) d c db)) i) = Some v \<and>
      repos (snd (store_profile i n (Some v) d c db)) = repos db"
    if "case n of None \<Rightarrow> True | Some m \<Rightarrow> m = p_name c \<or> \<not> name_taken m i db"
    using that assms(3) ch sel tselect_Some [OF sel]
    by (auto simp: store_profile_def Let_def changed_columns_def profile_by_id_def tselect_tupdate set_columns_def changing_def
        split: option.splits)
  show ?thesis
  proof (cases "has_indexed_repos i db = 0 \<and> isolated (profiles db) i")
    case True
    then have "update_profile i n (Some v) d db = Some (store_profile i n (Some v) d c db)"
      using assms(2,3) ch dc iso by (simp add: update_profile_def Let_def)
    moreover obtain r db' where s: "store_profile i n (Some v) d c db = (r, db')" by fastforce
    moreover have "r = (if case n of None \<Rightarrow> True | Some m \<Rightarrow> m = p_name c \<or> \<not> name_taken m i db
        then Inr (changed_columns n (Some v) d c) else Inl ProfileNameConflict) \<and>
      ((case n of None \<Rightarrow> True | Some m \<Rightarrow> m = p_name c \<or> \<not> name_taken m i db) \<or> db' = db)"
      using store unfolding s by (simp split: if_splits)
    ultimately show ?thesis using True new unfolding s by (intro exI [of _ r] exI [of _ db']) auto
  next
    case False
    then have "\<exists>e. update_profile i n (Some v) d db = Some (Inl e, db)"
      using assms(2,3) ch dc iso by (auto simp: update_profile_def Let_def split: option.splits)
    then obtain e where "update_profile i n (Some v) d db = Some (Inl e, db)" by blast
    then show ?thesis using False by (intro exI [of _ "Inl e"] exI [of _ db]) auto
  qed
qed

theorem version_change_verdict_witness:
  "\<exists>db'. update_profile 3 None (Some ''18.0'') None ex_repo_db = Some (Inr [''odoo_version''], db') \<and>
     map_option p_version (profile_by_id db' 3) = Some ''18.0'' \<and>
     update_profile 1 None (Some ''18.0'') None ex_repo_db = Some (Inl ProfileVersionMismatch, ex_repo_db)"
proof -
  have a: "map_option fst (update_profile 3 None (Some ''18.0'') None ex_repo_db) = Some (Inr [''odoo_version''])"
    and b: "map_option fst (update_profile 1 None (Some ''18.0'') None ex_repo_db) = Some (Inl ProfileVersionMismatch)"
    and s: "map_option p_version (profile_by_id ex_repo_db 3) = Some ''17.0''" "map_option p_version (profile_by_id ex_repo_db 1) = Some ''17.0''"
    by code_simp+
  obtain c1 c3 where c: "profile_by_id ex_repo_db 1 = Some c1" "''18.0'' \<noteq> p_version c1"
    "profile_by_id ex_repo_db 3 = Some c3" "''18.0'' \<noteq> p_version c3" using s by auto
  from version_change_verdict [OF ex_repo_inv ex_repo_profiles(2) c(3,4), of None None] a
  obtain db' where "update_profile 3 None (Some ''18.0'') None ex_repo_db = Some (Inr [''odoo_version''], db')"
    "map_option p_version (profile_by_id db' 3) = Some ''18.0''" by (auto simp del: map_option_eq_Some)
  moreover from version_change_verdict [OF ex_repo_inv ex_repo_profiles(2) c(1,2), of None None] b
  have "update_profile 1 None (Some ''18.0'') None ex_repo_db = Some (Inl ProfileVersionMismatch, ex_repo_db)" by auto
  ultimately show ?thesis by blast
qed

lemma joined_profile:
  assumes "repo_inv db" "r \<in> set (repos db)" "r_profile_id r = Some i"
  shows "\<exists>p. profile_by_id db i = Some p"
proof -
  have "i \<in> p_id ` set (profiles db)" using assms by (auto simp: repo_inv_def)
  then show ?thesis by (metis not_None_eq profile_by_id_None)
qed

lemma in_joined: "(r, p) \<in> set (joined db) \<longleftrightarrow> r \<in> set (repos db) \<and> (\<exists>i. r_profile_id r = Some i \<and> profile_by_id db i = Some p)"
  by (auto simp: joined_def in_map_filter split: Option.bind_splits)

text \<open>
  Deleting a profile. It is refused while the profile has a child; otherwise the profile and
  exactly its repositories go, and the answer names, for the cleanup of the graph, the checkout
  directory and version of each repository that went.
\<close>
theorem delete_profile_effect:
  assumes "repo_inv db" "rd_up db" "delete_profile i db = (r, db')"
  shows "(is_ok r \<longleftrightarrow> i \<in> p_id ` set (profiles db) \<and> \<not> (\<exists>p \<in> set (profiles db). p_parent p = Some i)) \<and>
    (case r of Inl _ \<Rightarrow> db' = db
     | Inr infos \<Rightarrow> set (profiles db') = {p \<in> set (profiles db). p_id p \<noteq> i} \<and>
         set (repos db') = {x \<in> set (repos db). r_profile_id x \<noteq> Some i} \<and>
         set infos = (\<lambda>x. (path_name (r_local_path x), p_version (the (profile_by_id db i)))) ` (set (repos db) - set (repos db')))"
proof -
  have "set (map (\<lambda>(r, p). (path_name (r_local_path r), p_version p)) (filter (\<lambda>(r, p). r_profile_id r = Some i) (joined db)))
      = (\<lambda>x. (path_name (r_local_path x), p_version (the (profile_by_id db i)))) ` {x \<in> set (repos db). r_profile_id x = Some i}" (is "?L = ?R")
  proof
    show "?L \<subseteq> ?R" by (force simp: in_joined)
    show "?R \<subseteq> ?L"
    proof
      fix y assume "y \<in> ?R"
      then obtain x where x: "x \<in> set (repos db)" "r_profile_id x = Some i"
        "y = (path_name (r_local_path x), p_version (the (profile_by_id db i)))" by blast
      then obtain p where "profile_by_id db i = Some p" using joined_profile [OF assms(1)] by blast
      with x show "y \<in> ?L" by (force simp: in_joined)
    qed
  qed
  moreover have "set (repos db) - {x \<in> set (repos db). r_profile_id x \<noteq> Some i} = {x \<in> set (repos db). r_profile_id x = Some i}" by auto
  ultimately show ?thesis
    using assms(2,3) by (auto simp: delete_profile_def checkout_repo_def Let_def profile_by_id_None set_tdelete split: if_splits)
qed

theorem delete_profile_effect_witness:
  "\<exists>db'. delete_profile 3 ex_repo_db = (Inr [(''shop'', ''17.0'')], db') \<and>
     \<not> (\<exists>x \<in> set (repos db'). r_profile_id x = Some 3) \<and> fst (delete_profile 1 ex_repo_db) = Inl DbFailure"
proof -
  obtain r db' where d: "delete_profile 3 ex_repo_db = (r, db')" by fastforce
  moreover have v: "fst (delete_profile 3 ex_repo_db) = Inr [(''shop'', ''17.0'')]" by code_simp
  ultimately have r: "r = Inr [(''shop'', ''17.0'')]" by simp
  obtain r1 db1 where d1: "delete_profile 1 ex_repo_db = (r1, db1)" by fastforce
  have "fst (delete_profile 1 ex_repo_db) = Inl DbFailure" by code_simp
  moreover from delete_profile_effect [OF ex_repo_inv ex_repo_profiles(2) d] r
  have "set (repos db') = {x \<in> set (repos ex_repo_db). r_profile_id x \<noteq> Some 3}" by simp
  ultimately show ?thesis using d r by auto
qed

text \<open>
  Editing a repository. The edit fails when the repository does not exist, when another one
  has the resulting url and branch, or when the new SSH key does not exist; otherwise exactly
  the given fields change. The indexed commit always stays, so that the next run is incremental.
\<close>
theorem update_repo_verdict:
  assumes "repo_inv db" "rd_up db" "repo_by_id db i = Some x"
    and "x' = set_fields url branch key clear path x"
  shows "(is_ok (fst (update_repo i url branch key clear path db)) \<longleftrightarrow>
       \<not> (\<exists>y \<in> set (repos db). y \<noteq> x \<and> r_url y = r_url x' \<and> r_branch y = r_branch x') \<and> (clear \<or> \<not> bad_ssh_key key db)) \<and>
    repo_by_id (snd (update_repo i url branch key clear path db)) i =
      Some (if is_ok (fst (update_repo i url branch key clear path db)) then x' else x) \<and>
    r_head_sha x' = r_head_sha x \<and>
    filter (\<lambda>y. r_id y \<noteq> i) (repos (snd (update_repo i url branch key clear path db))) = filter (\<lambda>y. r_id y \<noteq> i) (repos db)"
proof -
  have d: "distinct (map r_id (repos db))" "distinct (map (\<lambda>r. (r_url r, r_branch r)) (repos db))"
    using assms(1) by (simp_all add: repo_inv_def)
  have x: "x \<in> set (repos db)" "r_id x = i" using tselect_Some assms(3) unfolding repo_by_id_def by fastforce+
  have eff: "r_url x' = (case url of None \<Rightarrow> r_url x | Some u \<Rightarrow> u)" "r_branch x' = (case branch of None \<Rightarrow> r_branch x | Some b \<Rightarrow> b)"
    using assms(4) by (simp_all add: set_fields_def)
  have other: "y \<noteq> x \<longleftrightarrow> r_id y \<noteq> i" if "y \<in> set (repos db)" for y using distinct_col_eq [OF d(1) that x(1)] x(2) by auto
  let ?clash = "\<exists>y \<in> set (repos db). y \<noteq> x \<and> r_url y = r_url x' \<and> r_branch y = r_branch x'"
  have clash: "url_taken (r_url x') (r_branch x') i db \<longleftrightarrow> ?clash" using other by (auto simp: url_taken_def)
  have keep: "url = None \<Longrightarrow> branch = None \<Longrightarrow> \<not> ?clash"
    using distinct_col_eq [OF d(2)] x(1) eff by auto
  have upd: "repo_by_id (db\<lparr>repos := tupdate (\<lambda>r. r_id r = i) (set_fields url branch key clear path) (repos db)\<rparr>) i = Some x'"
    using assms(3,4) x(2) by (simp add: repo_by_id_def tselect_tupdate set_fields_def)
  have rest: "filter (\<lambda>y. r_id y \<noteq> i) (tupdate (\<lambda>r. r_id r = i) (set_fields url branch key clear path) t) = filter (\<lambda>y. r_id y \<noteq> i) t" for t
    by (induction t) (simp_all add: tupdate_def set_fields_def)
  have noop: "x' = x" "\<not> bad_ssh_key key db" if "updated_fields url branch key clear path = []"
    using that assms(4) by (auto simp: updated_fields_def set_fields_def bad_ssh_key_def split: if_splits)
  show ?thesis
  proof (cases "(url \<noteq> None \<or> branch \<noteq> None) \<and> ?clash")
    case True
    then have "update_repo i url branch key clear path db = (Inl RepoConflict, db)"
      using assms(2,3) clash unfolding eff by (simp add: update_repo_def checkout_repo_def Let_def)
    then show ?thesis using True assms(3,4) by (simp add: set_fields_def)
  next
    case False
    then have nc: "\<not> ?clash" using keep by blast
    then have "update_repo i url branch key clear path db =
      (if updated_fields url branch key clear path = [] then (Inr [], db)
       else if \<not> clear \<and> bad_ssh_key key db then (Inl DbFailure, db)
       else (Inr (updated_fields url branch key clear path), db\<lparr>repos := tupdate (\<lambda>r. r_id r = i) (set_fields url branch key clear path) (repos db)\<rparr>))"
      using assms(2,3) clash nc unfolding eff by (simp add: update_repo_def checkout_repo_def Let_def)
    then show ?thesis using nc upd rest noop assms(3,4) by (auto simp: set_fields_def)
  qed
qed

theorem update_repo_verdict_witness:
  "fst (update_repo 1 (Some ''git@h:shop2'') None None False None ex_repo_db) = Inr [''url''] \<and>
   map_option r_url (repo_by_id (snd (update_repo 1 (Some ''git@h:shop2'') None None False None ex_repo_db)) 1) = Some ''git@h:shop2''"
proof -
  have v: "fst (update_repo 1 (Some ''git@h:shop2'') None None False None ex_repo_db) = Inr [''url'']"
    and s: "map_option r_id (repo_by_id ex_repo_db 1) = Some 1" by code_simp+
  then obtain x where "repo_by_id ex_repo_db 1 = Some x" by auto
  from update_repo_verdict [OF ex_repo_inv ex_repo_profiles(2) this refl, of "Some ''git@h:shop2''" None None False None] v
  show ?thesis by (simp add: set_fields_def)
qed

text \<open>
  Finding the repository of a graph node. Change propagation looks repositories up by the
  last component of their path, which the writer computed with \<open>Path(p).name\<close>. The query's
  regular expression agrees with it on every path that does not end in a slash or a dot; for a
  path with a trailing slash the query sees an empty name, and the repository is never found.
\<close>
theorem path_names_agree:
  "(last (split_on (CHR ''/'') p) \<in> {[], ''.''} \<or> after_slash p = path_name p) \<and>
   after_slash (p @ ''/'') = [] \<and> path_name (p @ ''/'') = path_name p"
proof -
  have last_filter: "last xs \<in> {[], ''.''} \<or> last (filter (\<lambda>c. c \<noteq> [] \<and> c \<noteq> ''.'') xs) = last xs \<and> filter (\<lambda>c. c \<noteq> [] \<and> c \<noteq> ''.'') xs \<noteq> []"
    if "xs \<noteq> []" for xs :: "string list" using that by (induction xs rule: rev_induct) auto
  have ne: "split_on (CHR ''/'') p \<noteq> []" by simp
  have snoc: "split_on (CHR ''/'') (p @ ''/'') = split_on (CHR ''/'') p @ [[]]" by (induction p) (auto split: list.splits)
  show ?thesis
    using last_filter [OF ne] ne by (auto simp: after_slash_def path_name_def Let_def snoc)
qed

end
