(* ===== verification/Jobs.thy ===== *)
theory Jobs
  imports PyText
begin

text \<open>
  \<open>JobStore\<close> of \<open>src/db/job_registry.py\<close>: the table \<open>indexer_jobs\<close>, one row per run of the
  indexer in a subprocess. What \<open>os.kill(pid, 0)\<close> says of a process is an argument.
\<close>

section \<open>Operations\<close>

record job =
  j_id :: int
  j_profile_name :: string
  j_status :: string
  j_pid :: "int option"
  j_started_at :: "time option"
  j_finished_at :: "time option"
  j_error_msg :: "string option"
  j_created_at :: time

record job_db =
  jd_up :: bool
  jobs :: "job list"
  next_job :: int

datatype job_exc = JobDbFailure | InvalidStatus | JobNotFound

type_synonym 'a jio = "job_db \<Rightarrow> (job_exc + 'a) \<times> job_db"

definition checkout_job :: "'a jio \<Rightarrow> 'a jio" where
  "checkout_job f db = (if jd_up db then f db else (Inl JobDbFailure, db))"

definition VALID_STATUSES :: "string list" where
  "VALID_STATUSES = [''queued'', ''running'', ''done'', ''error'']"

definition create_job :: "time \<Rightarrow> string \<Rightarrow> int jio" where
  "create_job now profile_name = checkout_job (\<lambda>db.
     (Inr (next_job db), db\<lparr>jobs := jobs db @ [\<lparr>j_id = next_job db, j_profile_name = profile_name, j_status = ''queued'',
        j_pid = None, j_started_at = None, j_finished_at = None, j_error_msg = None, j_created_at = now\<rparr>],
        next_job := next_job db + 1\<rparr>))"

definition get_job :: "int \<Rightarrow> job option jio" where
  "get_job job_id = checkout_job (\<lambda>db. (Inr (tselect (\<lambda>j. j_id j = job_id) (jobs db)), db))"

text \<open>The SET clause of \<open>update_job\<close>: the columns whose argument is not None.\<close>

definition set_job :: "string option \<Rightarrow> int option \<Rightarrow> time option \<Rightarrow> time option \<Rightarrow> string option \<Rightarrow> job \<Rightarrow> job" where
  "set_job status pid started_at finished_at error_msg j =
     j\<lparr>j_status := (case status of None \<Rightarrow> j_status j | Some s \<Rightarrow> s),
       j_pid := (case pid of None \<Rightarrow> j_pid j | Some p \<Rightarrow> Some p),
       j_started_at := (case started_at of None \<Rightarrow> j_started_at j | Some t \<Rightarrow> Some t),
       j_finished_at := (case finished_at of None \<Rightarrow> j_finished_at j | Some t \<Rightarrow> Some t),
       j_error_msg := (case error_msg of None \<Rightarrow> j_error_msg j | Some m \<Rightarrow> Some m)\<rparr>"

definition update_job :: "int \<Rightarrow> string option \<Rightarrow> int option \<Rightarrow> time option \<Rightarrow> time option \<Rightarrow> string option \<Rightarrow> unit jio" where
  "update_job job_id status pid started_at finished_at error_msg db =
     (if (case status of None \<Rightarrow> False | Some s \<Rightarrow> s \<notin> set VALID_STATUSES) then (Inl InvalidStatus, db)
      else if status = None \<and> pid = None \<and> started_at = None \<and> finished_at = None \<and> error_msg = None then (Inr (), db)
      else checkout_job (\<lambda>db.
        if tcount (\<lambda>j. j_id j = job_id) (jobs db) = 0 then (Inl JobNotFound, db)
        else (Inr (), db\<lparr>jobs := tupdate (\<lambda>j. j_id j = job_id) (set_job status pid started_at finished_at error_msg) (jobs db)\<rparr>)) db)"

definition list_running_jobs :: "job list jio" where
  "list_running_jobs = checkout_job (\<lambda>db. (Inr (sort_key j_created_at (filter (\<lambda>j. j_status j = ''running'') (jobs db))), db))"

text \<open>Among rows of the same instant the order is the server's choice; here the youngest row comes first.\<close>

definition newest_first :: "job list \<Rightarrow> job list" where
  "newest_first js = rev (sort_key j_created_at js)"

definition get_last_job :: "string \<Rightarrow> job option jio" where
  "get_last_job profile_name = checkout_job (\<lambda>db.
     (Inr (case newest_first (filter (\<lambda>j. j_profile_name j = profile_name) (jobs db)) of [] \<Rightarrow> None | j # _ \<Rightarrow> Some j), db))"

definition list_all_jobs :: "job list jio" where
  "list_all_jobs = checkout_job (\<lambda>db. (Inr (newest_first (jobs db)), db))"

section \<open>Jobs left over by a crash\<close>

datatype kill_result = ProcessExists | ProcessLookupError | PermissionDenied

definition death_note :: "int \<Rightarrow> string" where
  "death_note pid = ''Process died unexpectedly (PID '' @ show_int pid @ '' not found at server startup)''"

text \<open>The loop over the rows read at the start; each dead job is its own update.\<close>

fun mark_rows :: "(int \<Rightarrow> kill_result) \<Rightarrow> time \<Rightarrow> job list \<Rightarrow> nat \<Rightarrow> nat jio" where
  "mark_rows kill now [] count db = (Inr count, db)"
| "mark_rows kill now (row # rows) count db =
     (case j_pid row of
        None \<Rightarrow> mark_rows kill now rows count db
      | Some pid \<Rightarrow>
         (case kill pid of
            ProcessExists \<Rightarrow> mark_rows kill now rows count db
          | PermissionDenied \<Rightarrow> mark_rows kill now rows count db
          | ProcessLookupError \<Rightarrow>
             (case update_job (j_id row) (Some ''error'') None None (Some now) (Some (death_note pid)) db of
                (Inl e, db) \<Rightarrow> (Inl e, db)
              | (Inr _, db) \<Rightarrow> mark_rows kill now rows (count + 1) db)))"

definition open_jobs :: "job list \<Rightarrow> job list" where
  "open_jobs js = sort_key j_created_at (filter (\<lambda>j. j_status j \<in> {''running'', ''queued''}) js)"

definition mark_dead_jobs :: "(int \<Rightarrow> kill_result) \<Rightarrow> time \<Rightarrow> nat jio" where
  "mark_dead_jobs kill now = checkout_job (\<lambda>db. mark_rows kill now (open_jobs (jobs db)) 0 db)"

section \<open>What the store guarantees\<close>

definition job_inv :: "job_db \<Rightarrow> bool" where
  "job_inv db \<longleftrightarrow> distinct (map j_id (jobs db)) \<and>
     (\<forall>j \<in> set (jobs db). j_id j < next_job db \<and> j_status j \<in> set VALID_STATUSES)"

datatype job_op = CreateJob time string
  | UpdateJob int "string option" "int option" "time option" "time option" "string option"
  | MarkDeadJobs "int \<Rightarrow> kill_result" time

fun job_step :: "job_op \<Rightarrow> job_db \<Rightarrow> job_db" where
  "job_step (CreateJob now p) db = snd (create_job now p db)"
| "job_step (UpdateJob i s p t f m) db = snd (update_job i s p t f m db)"
| "job_step (MarkDeadJobs kill now) db = snd (mark_dead_jobs kill now db)"

definition empty_jobs :: job_db where
  "empty_jobs = \<lparr>jd_up = True, jobs = [], next_job = 1\<rparr>"

lemma job_inv_update: "job_inv db \<Longrightarrow> job_inv (snd (update_job i s p t f m db))"
  by (auto simp: update_job_def checkout_job_def job_inv_def map_tupdate ball_tupdate set_job_def VALID_STATUSES_def
      split: option.splits)

lemma job_inv_mark_rows: "job_inv db \<Longrightarrow> job_inv (snd (mark_rows kill now rows n db))"
proof (induction kill now rows n db rule: mark_rows.induct)
  case (2 kill now row rows count db)
  then show ?case
    using job_inv_update [of db "j_id row" "Some ''error''" None None "Some now"]
    by (auto split: option.split kill_result.split prod.split sum.split) (metis snd_conv)+
qed simp

lemma job_inv_step: "job_inv db \<Longrightarrow> job_inv (job_step op db)"
proof (cases op)
  case (CreateJob now p)
  assume "job_inv db"
  then show ?thesis using CreateJob by (fastforce simp: create_job_def checkout_job_def job_inv_def VALID_STATUSES_def)
qed (simp_all add: job_inv_update job_inv_mark_rows mark_dead_jobs_def checkout_job_def)

interpretation job_store: op_store job_step "\<lambda>_. True" job_inv
  by unfold_locales (rule job_inv_step)

lemma insort_key_snoc: "f y \<le> f x \<Longrightarrow> insort_key f y (zs @ [x]) = insort_key f y zs @ [x]"
  by (induction zs) auto

lemma sort_key_snoc: "(\<And>y. y \<in> set xs \<Longrightarrow> f y \<le> f x) \<Longrightarrow> sort_key f (xs @ [x]) = sort_key f xs @ [x]"
  unfolding sort_key_def by (induction xs) (simp_all add: insort_key_snoc)

lemma newest_first_snoc:
  assumes "\<And>j. j \<in> set js \<Longrightarrow> j_created_at j \<le> j_created_at x"
  shows "newest_first (js @ [x]) = x # newest_first js"
  using assms by (simp add: newest_first_def sort_key_snoc)

lemma set_newest_first: "set (newest_first js) = set js"
  by (simp add: newest_first_def)

lemma newest_first_max: "j \<in> set js \<Longrightarrow> newest_first js = x # xs \<Longrightarrow> j_created_at j \<le> j_created_at x"
proof -
  assume a: "j \<in> set js" "newest_first js = x # xs"
  then have s: "sort_key j_created_at js = rev xs @ [x]" by (simp add: newest_first_def rev_swap)
  have "sorted (map j_created_at (rev xs @ [x]))" unfolding s [symmetric] by simp
  moreover have "j \<in> set (rev xs @ [x])" unfolding s [symmetric] using a(1) by simp
  ultimately show ?thesis by (auto simp: sorted_append)
qed

text \<open>
  The job table stays sound under any sequence of calls: ids are unique and every status is
  one of the four that the schema allows. A job that \<open>create_job\<close> returns is queued, and it is
  the one \<open>get_last_job\<close> gives for its profile exactly when no job of the profile is from a
  later time than the clock showed.
\<close>
theorem jobs_sound:
  "job_inv (fold job_step ops empty_jobs) \<and>
   (let db = fold job_step ops empty_jobs; (r, db') = create_job now p db
    in fst (get_job (next_job db) db') = (if jd_up db then Inr (Some \<lparr>j_id = next_job db, j_profile_name = p, j_status = ''queued'',
          j_pid = None, j_started_at = None, j_finished_at = None, j_error_msg = None, j_created_at = now\<rparr>) else Inl JobDbFailure) \<and>
       ({j \<in> set (jobs db). j_profile_name j = p \<and> now < j_created_at j} = {} \<and> jd_up db \<longleftrightarrow>
        (\<exists>j. fst (get_last_job p db') = Inr (Some j) \<and> j_id j = next_job db)))"
proof -
  let ?db = "fold job_step ops empty_jobs"
  let ?j = "\<lparr>j_id = next_job ?db, j_profile_name = p, j_status = ''queued'',
          j_pid = None, j_started_at = None, j_finished_at = None, j_error_msg = None, j_created_at = now\<rparr>"
  have inv: "job_inv ?db"
    by (rule job_store.run) (simp_all add: job_inv_def empty_jobs_def)
  have fresh: "j \<in> set (jobs ?db) \<Longrightarrow> j_id j \<noteq> next_job ?db" for j using inv by (auto simp: job_inv_def)
  let ?mine = "filter (\<lambda>j. j_profile_name j = p) (jobs ?db)"
  have last: "{j \<in> set (jobs ?db). j_profile_name j = p \<and> now < j_created_at j} = {} \<longleftrightarrow>
      (\<exists>j. (case newest_first (?mine @ [?j]) of [] \<Rightarrow> None | j # _ \<Rightarrow> Some j) = Some j \<and> j_id j = next_job ?db)"
  proof (cases "{j \<in> set (jobs ?db). j_profile_name j = p \<and> now < j_created_at j} = {}")
    case True
    then have "newest_first (?mine @ [?j]) = ?j # newest_first ?mine" by (intro newest_first_snoc) force
    then show ?thesis using True by simp
  next
    case False
    then obtain y where y: "y \<in> set ?mine" "now < j_created_at y" by auto
    have "newest_first (?mine @ [?j]) \<noteq> []"
      unfolding set_empty [symmetric] set_newest_first by simp
    then obtain x xs where x: "newest_first (?mine @ [?j]) = x # xs" by (meson list.exhaust)
    then have "x \<in> set (?mine @ [?j])" using set_newest_first [of "?mine @ [?j]"] by (metis list.set_intros(1))
    moreover have "now < j_created_at x" using newest_first_max [OF _ x, of y] y by auto
    ultimately show ?thesis using False x fresh by auto
  qed
  have "tselect (\<lambda>j. j_id j = next_job ?db) (jobs ?db @ [?j]) = Some ?j"
    using fresh by (auto simp: tselect_append tselect_Cons tselect_None split: option.split dest: tselect_Some)
  then show ?thesis
    using inv last by (simp add: create_job_def get_job_def get_last_job_def checkout_job_def Let_def)
qed

definition dead :: "(int \<Rightarrow> kill_result) \<Rightarrow> job \<Rightarrow> bool" where
  "dead kill j \<longleftrightarrow> (case j_pid j of None \<Rightarrow> False | Some pid \<Rightarrow> kill pid = ProcessLookupError)"

definition bury :: "time \<Rightarrow> job \<Rightarrow> job \<Rightarrow> job" where
  "bury now row = set_job (Some ''error'') None None (Some now) (Some (death_note (the (j_pid row))))"

lemma mark_rows_effect:
  assumes "jd_up db" "distinct (map j_id rows)" "j_id ` set rows \<subseteq> j_id ` set (jobs db)"
  shows "mark_rows kill now rows n db = (Inr (n + length (filter (dead kill) rows)),
     db\<lparr>jobs := map (\<lambda>j. case find (\<lambda>r. j_id r = j_id j \<and> dead kill r) rows of None \<Rightarrow> j | Some r \<Rightarrow> bury now r j) (jobs db)\<rparr>)"
  using assms
proof (induction rows arbitrary: n db)
  case Nil
  then show ?case by simp
next
  case (Cons row rows)
  show ?case
  proof (cases "dead kill row")
    case False
    then have "mark_rows kill now (row # rows) n db = mark_rows kill now rows n db"
      by (simp add: dead_def split: option.splits kill_result.splits)
    then show ?thesis using Cons False by simp
  next
    case True
    let ?db = "db\<lparr>jobs := tupdate (\<lambda>j. j_id j = j_id row) (bury now row) (jobs db)\<rparr>"
    have "0 < tcount (\<lambda>j. j_id j = j_id row) (jobs db)" using Cons.prems(3) by (auto simp: tcount_pos)
    then have "update_job (j_id row) (Some ''error'') None None (Some now) (Some (death_note (the (j_pid row)))) db = (Inr (), ?db)"
      using Cons.prems(1) by (simp add: update_job_def checkout_job_def VALID_STATUSES_def bury_def)
    then have m: "mark_rows kill now (row # rows) n db = mark_rows kill now rows (n + 1) ?db"
      using True by (auto simp: dead_def split: option.splits)
    have ids: "j_id (bury now r j) = j_id j" for r j by (simp add: bury_def set_job_def)
    have "j_id ` set (jobs ?db) = j_id ` set (jobs db)" using ids by (simp add: image_tupdate)
    then have "mark_rows kill now rows (n + 1) ?db = (Inr (n + 1 + length (filter (dead kill) rows)),
       ?db\<lparr>jobs := map (\<lambda>j. case find (\<lambda>r. j_id r = j_id j \<and> dead kill r) rows of None \<Rightarrow> j | Some r \<Rightarrow> bury now r j) (jobs ?db)\<rparr>)"
      using Cons.prems by (intro Cons.IH) auto
    moreover have "find (\<lambda>r. j_id r = j_id row \<and> dead kill r) rows = None"
      using Cons.prems(2) unfolding find_None_iff by (auto simp: image_iff)
    ultimately show ?thesis using True unfolding m by (simp add: tupdate_def ids cong: if_cong)
  qed
qed

text \<open>
  Cleaning up after a crash. Exactly the running or queued jobs whose recorded process is
  gone become errors, finished now; all other rows, jobs without a process id among them, stay
  as they are. The result is the number of those jobs, and a second call finds none.
\<close>
theorem mark_dead_jobs_effect:
  assumes "job_inv db" "jd_up db" "mark_dead_jobs kill now db = (r, db')"
  shows "jobs db' = map (\<lambda>j. if j_status j \<in> {''running'', ''queued''} \<and> dead kill j then bury now j j else j) (jobs db) \<and>
    r = Inr (length (filter (\<lambda>j. j_status j \<in> {''running'', ''queued''} \<and> dead kill j) (jobs db))) \<and>
    mark_dead_jobs kill now2 db' = (Inr 0, db')"
proof -
  have d: "distinct (map j_id (jobs db))" using assms(1) by (simp add: job_inv_def)
  have rows: "set (open_jobs js) = {j \<in> set js. j_status j \<in> {''running'', ''queued''}}" for js
    by (auto simp: open_jobs_def)
  have dr: "distinct (map j_id js) \<Longrightarrow> distinct (map j_id (open_jobs js))" for js
    by (simp add: open_jobs_def distinct_map inj_on_def)
  have len: "length (filter P (open_jobs js)) = length (filter (\<lambda>j. j_status j \<in> {''running'', ''queued''} \<and> P j) js)" for P js
    by (simp add: open_jobs_def filter_sort conj_commute)
  have fnd: "find (\<lambda>r. j_id r = j_id j \<and> dead kill r) (open_jobs (jobs db)) =
      (if j_status j \<in> {''running'', ''queued''} \<and> dead kill j then Some j else None)" if j: "j \<in> set (jobs db)" for j
  proof (cases "find (\<lambda>r. j_id r = j_id j \<and> dead kill r) (open_jobs (jobs db))")
    case None
    then show ?thesis using j by (auto simp: find_None_iff rows)
  next
    case (Some r)
    then have "r \<in> set (open_jobs (jobs db))" "j_id r = j_id j" "dead kill r" by (auto simp: find_Some_iff)
    moreover from this have "r = j" using distinct_col_eq [OF d _ j] by (simp add: rows)
    ultimately show ?thesis using Some by (simp add: rows)
  qed
  let ?f = "\<lambda>j. if j_status j \<in> {''running'', ''queued''} \<and> dead kill j then bury now j j else j"
  have run: "mark_dead_jobs kill now db = (Inr (length (filter (\<lambda>j. j_status j \<in> {''running'', ''queued''} \<and> dead kill j) (jobs db))),
      db\<lparr>jobs := map ?f (jobs db)\<rparr>)"
  proof -
    have "map (\<lambda>j. case find (\<lambda>r. j_id r = j_id j \<and> dead kill r) (open_jobs (jobs db)) of None \<Rightarrow> j | Some r \<Rightarrow> bury now r j) (jobs db)
      = map ?f (jobs db)" by (rule map_cong [OF refl]) (simp add: fnd)
    then show ?thesis
      using mark_rows_effect [OF assms(2) dr [OF d], of kill now 0] assms(2)
      by (simp add: mark_dead_jobs_def checkout_job_def rows len image_subset_iff)
  qed
  then have db': "db' = db\<lparr>jobs := map ?f (jobs db)\<rparr>" using assms(3) by simp
  have ids: "map j_id (map ?f (jobs db)) = map j_id (jobs db)" by (simp add: bury_def set_job_def)
  have none: "\<not> dead kill j" if "j \<in> set (open_jobs (jobs db'))" for j
    using that unfolding db' by (auto simp: rows bury_def set_job_def split: if_splits)
  then have "find (\<lambda>r. j_id r = j_id j \<and> dead kill r) (open_jobs (jobs db')) = None" "filter (dead kill) (open_jobs (jobs db')) = []" for j :: job
    by (auto simp: filter_empty_conv find_None_iff)
  moreover from this have "map (\<lambda>j. case find (\<lambda>r. j_id r = j_id j \<and> dead kill r) (open_jobs (jobs db')) of None \<Rightarrow> j | Some r \<Rightarrow> bury now2 r j) (jobs db') = jobs db'"
    by (intro map_idI) simp
  moreover have "j_id ` set (open_jobs (jobs db')) \<subseteq> j_id ` set (jobs db')" by (auto simp: rows)
  moreover have "map j_id (jobs db') = map j_id (jobs db)" unfolding db' using ids by simp
  then have "distinct (map j_id (open_jobs (jobs db')))" using dr d by metis
  moreover have "jd_up db'" using assms(2) unfolding db' by simp
  ultimately have "mark_dead_jobs kill now2 db' = (Inr 0, db')"
    using mark_rows_effect [of db' "open_jobs (jobs db')" kill now2 0] by (simp add: mark_dead_jobs_def checkout_job_def)
  then show ?thesis using run assms(3) by simp
qed

definition ex_jobs :: job_db where
  "ex_jobs = fold job_step [CreateJob 1 ''odoo_17'', UpdateJob 1 (Some ''running'') (Some 77) (Some 2) None None,
     CreateJob 3 ''shop'', CreateJob 4 ''odoo_18'', UpdateJob 3 (Some ''done'') (Some 77) None (Some 5) None] empty_jobs"

theorem mark_dead_jobs_effect_witness:
  "\<exists>db'. mark_dead_jobs (\<lambda>_. ProcessLookupError) 9 ex_jobs = (Inr 1, db') \<and>
     map j_status (jobs db') = [''error'', ''queued'', ''done''] \<and>
     mark_dead_jobs (\<lambda>_. ProcessLookupError) 10 db' = (Inr 0, db')"
proof -
  have inv: "job_inv ex_jobs" unfolding ex_jobs_def
    by (rule job_store.run) (simp_all add: job_inv_def empty_jobs_def)
  have v: "fst (mark_dead_jobs (\<lambda>_. ProcessLookupError) 9 ex_jobs) = Inr 1"
    "map j_status (jobs (snd (mark_dead_jobs (\<lambda>_. ProcessLookupError) 9 ex_jobs))) = [''error'', ''queued'', ''done'']"
    and up: "jd_up ex_jobs" by code_simp+
  obtain r db' where m: "mark_dead_jobs (\<lambda>_. ProcessLookupError) 9 ex_jobs = (r, db')" by fastforce
  from mark_dead_jobs_effect [OF inv up m, of 10] v m show ?thesis by auto
qed

end
