(* ===== verification/PropertyGraph.thy ===== *)
theory PropertyGraph
  imports PyText
begin

text \<open>
  The property graph that the Cypher statements of \<open>src/indexer/writer_neo4j.py\<close> write: nodes
  with a label and properties, typed relationships with properties. A property that is null is
  absent. A statement binds a variable to the list of nodes that match; MERGE binds all matches
  or creates one node (or relationship), and runs ON MATCH or ON CREATE accordingly. Node
  identities come from a counter.
\<close>

section \<open>Graphs\<close>

datatype gval = GStr string | GBool bool | GInt int | GList "string list"

type_synonym props = "string \<Rightarrow> gval option"

record gnode =
  g_id :: nat
  g_label :: string
  g_props :: props

record grel =
  e_src :: nat
  e_type :: string
  e_dst :: nat
  e_props :: props

record pgraph =
  gnodes :: "gnode list"
  grels :: "grel list"
  g_next :: nat

definition empty_graph :: pgraph where
  "empty_graph = \<lparr>gnodes = [], grels = [], g_next = 0\<rparr>"

definition gstr :: "string option \<Rightarrow> gval option" where
  "gstr s = map_option GStr s"

text \<open>The key map of a pattern, \<open>{name: $name, odoo_version: $v}\<close>.\<close>

type_synonym keymap = "(string \<times> gval) list"

definition has_keys :: "keymap \<Rightarrow> props \<Rightarrow> bool" where
  "has_keys ks p \<longleftrightarrow> list_all (\<lambda>(k, v). p k = Some v) ks"

definition is_node :: "string \<Rightarrow> keymap \<Rightarrow> gnode \<Rightarrow> bool" where
  "is_node l ks n \<longleftrightarrow> g_label n = l \<and> has_keys ks (g_props n)"

section \<open>Clauses\<close>

definition match_nodes :: "(gnode \<Rightarrow> bool) \<Rightarrow> pgraph \<Rightarrow> nat list" where
  "match_nodes q g = map g_id (filter q (gnodes g))"

definition set_nodes :: "nat list \<Rightarrow> (props \<Rightarrow> props) \<Rightarrow> pgraph \<Rightarrow> pgraph" where
  "set_nodes ids f g = g\<lparr>gnodes := tupdate (\<lambda>n. g_id n \<in> set ids) (\<lambda>n. n\<lparr>g_props := f (g_props n)\<rparr>) (gnodes g)\<rparr>"

definition create_node :: "string \<Rightarrow> props \<Rightarrow> pgraph \<Rightarrow> nat list \<times> pgraph" where
  "create_node l p g = ([g_next g], g\<lparr>gnodes := gnodes g @ [\<lparr>g_id = g_next g, g_label = l, g_props = p\<rparr>], g_next := g_next g + 1\<rparr>)"

definition merge_node :: "string \<Rightarrow> keymap \<Rightarrow> (props \<Rightarrow> props) \<Rightarrow> (props \<Rightarrow> props) \<Rightarrow> pgraph \<Rightarrow> nat list \<times> pgraph" where
  "merge_node l ks on_create on_match g =
     (case match_nodes (is_node l ks) g of
        [] \<Rightarrow> create_node l (on_create (map_of ks)) g
      | ids \<Rightarrow> (ids, set_nodes ids on_match g))"

definition is_rel :: "nat \<Rightarrow> string \<Rightarrow> keymap \<Rightarrow> nat \<Rightarrow> grel \<Rightarrow> bool" where
  "is_rel a t ks b e \<longleftrightarrow> e_src e = a \<and> e_type e = t \<and> e_dst e = b \<and> has_keys ks (e_props e)"

definition merge_rel :: "string \<Rightarrow> keymap \<Rightarrow> (props \<Rightarrow> props) \<Rightarrow> (props \<Rightarrow> props) \<Rightarrow> nat \<times> nat \<Rightarrow> pgraph \<Rightarrow> pgraph" where
  "merge_rel t ks on_create on_match = (\<lambda>(a, b) g.
     if \<exists>e \<in> set (grels g). is_rel a t ks b e
     then g\<lparr>grels := tupdate (is_rel a t ks b) (\<lambda>e. e\<lparr>e_props := on_match (e_props e)\<rparr>) (grels g)\<rparr>
     else g\<lparr>grels := grels g @ [\<lparr>e_src = a, e_type = t, e_dst = b, e_props = on_create (map_of ks)\<rparr>]\<rparr>)"

text \<open>MERGE of a relationship between all bound pairs, one row after the other.\<close>

definition merge_rels :: "string \<Rightarrow> keymap \<Rightarrow> (props \<Rightarrow> props) \<Rightarrow> (props \<Rightarrow> props) \<Rightarrow> nat list \<Rightarrow> nat list \<Rightarrow> pgraph \<Rightarrow> pgraph" where
  "merge_rels t ks on_create on_match as bs g = fold (merge_rel t ks on_create on_match) (List.product as bs) g"

abbreviation link :: "string \<Rightarrow> nat list \<Rightarrow> nat list \<Rightarrow> pgraph \<Rightarrow> pgraph" where
  "link t \<equiv> merge_rels t [] id id"

definition detach_delete :: "nat list \<Rightarrow> pgraph \<Rightarrow> pgraph" where
  "detach_delete ids g = g\<lparr>gnodes := tdelete (\<lambda>n. g_id n \<in> set ids) (gnodes g),
     grels := tdelete (\<lambda>e. e_src e \<in> set ids \<or> e_dst e \<in> set ids) (grels g)\<rparr>"

section \<open>Properties that statements share\<close>

text \<open>\<open>[x IN coalesce(n.profile, []) WHERE NOT x IN $profiles] + $profiles\<close>.\<close>

definition profile_of :: "props \<Rightarrow> string list" where
  "profile_of p = (case p ''profile'' of Some (GList xs) \<Rightarrow> xs | _ \<Rightarrow> [])"

definition set_profile :: "string list \<Rightarrow> props \<Rightarrow> props" where
  "set_profile profiles p = p(''profile'' \<mapsto> GList profiles)"

definition union_profile :: "string list \<Rightarrow> props \<Rightarrow> props" where
  "union_profile profiles p = p(''profile'' \<mapsto> GList (filter (\<lambda>x. x \<notin> set profiles) (profile_of p) @ profiles))"

abbreviation is_unresolved :: "gnode \<Rightarrow> bool" where
  "is_unresolved n \<equiv> g_props n ''unresolved'' = Some (GBool True)"

section \<open>Laws\<close>

definition ids_ok :: "pgraph \<Rightarrow> bool" where
  "ids_ok g \<longleftrightarrow> distinct (map g_id (gnodes g)) \<and> (\<forall>n \<in> set (gnodes g). g_id n < g_next g) \<and>
     (\<forall>e \<in> set (grels g). e_src e \<in> g_id ` set (gnodes g) \<and> e_dst e \<in> g_id ` set (gnodes g))"

lemma union_profile_idem [simp]: "union_profile ps (union_profile ps p) = union_profile ps p"
  by (simp add: union_profile_def profile_of_def)

lemma union_profile_set [simp]: "union_profile ps (set_profile ps p) = set_profile ps p"
  by (simp add: union_profile_def set_profile_def profile_of_def)

lemma profile_of_union: "set (profile_of (union_profile ps p)) = set (profile_of p) \<union> set ps"
  by (auto simp: union_profile_def profile_of_def)

lemma set_nodes_fields [simp]:
  "grels (set_nodes ids f g) = grels g" "g_next (set_nodes ids f g) = g_next g"
  "map g_id (gnodes (set_nodes ids f g)) = map g_id (gnodes g)"
  "g_id ` set (gnodes (set_nodes ids f g)) = g_id ` set (gnodes g)"
  by (simp_all add: set_nodes_def map_tupdate image_tupdate)

lemma merge_rel_fields [simp]:
  "gnodes (merge_rel t ks oc om ab g) = gnodes g" "g_next (merge_rel t ks oc om ab g) = g_next g"
  by (simp_all add: merge_rel_def split: prod.split)

lemma merge_rels_fields [simp]:
  "gnodes (merge_rels t ks oc om as bs g) = gnodes g" "g_next (merge_rels t ks oc om as bs g) = g_next g"
proof -
  have "gnodes (fold (merge_rel t ks oc om) abs g) = gnodes g \<and> g_next (fold (merge_rel t ks oc om) abs g) = g_next g" for abs
    by (induction abs arbitrary: g) simp_all
  then show "gnodes (merge_rels t ks oc om as bs g) = gnodes g" "g_next (merge_rels t ks oc om as bs g) = g_next g"
    by (simp_all add: merge_rels_def)
qed

lemma merge_rels_Nil [simp]: "merge_rels t ks oc om [] bs g = g" "merge_rels t ks oc om as [] g = g"
proof -
  have "List.product as ([] :: nat list) = []" by (induction as) simp_all
  then show "merge_rels t ks oc om [] bs g = g" "merge_rels t ks oc om as [] g = g" by (simp_all add: merge_rels_def)
qed

lemma set_match_nodes: "set (match_nodes q g) = g_id ` {n \<in> set (gnodes g). q n}"
  by (auto simp: match_nodes_def)

lemma ids_ok_set_nodes: "ids_ok g \<Longrightarrow> ids_ok (set_nodes ids f g)"
  by (auto simp: ids_ok_def set_nodes_def map_tupdate ball_tupdate image_tupdate)

lemma ids_ok_create: "ids_ok g \<Longrightarrow> ids_ok (snd (create_node l p g))"
  by (auto simp: ids_ok_def create_node_def)

lemma ids_ok_merge_node: "ids_ok g \<Longrightarrow> ids_ok (snd (merge_node l ks oc om g))"
  by (simp add: merge_node_def ids_ok_create ids_ok_set_nodes split: list.split)

lemma ids_ok_merge_rel:
  assumes "ids_ok g" "a \<in> g_id ` set (gnodes g)" "b \<in> g_id ` set (gnodes g)"
  shows "ids_ok (merge_rel t ks oc om (a, b) g)"
  using assms by (auto simp: ids_ok_def merge_rel_def ball_tupdate)

lemma ids_ok_merge_rels:
  assumes "ids_ok g" "set as \<subseteq> g_id ` set (gnodes g)" "set bs \<subseteq> g_id ` set (gnodes g)"
  shows "ids_ok (merge_rels t ks oc om as bs g)"
proof -
  have "ids_ok (fold (merge_rel t ks oc om) abs g)" if "set abs \<subseteq> g_id ` set (gnodes g) \<times> g_id ` set (gnodes g)" for abs
    using assms(1) that by (induction abs arbitrary: g) (auto simp: ids_ok_merge_rel)
  moreover have "set (List.product as bs) \<subseteq> g_id ` set (gnodes g) \<times> g_id ` set (gnodes g)" using assms(2,3) by auto
  ultimately show ?thesis by (simp add: merge_rels_def)
qed

lemma ids_ok_detach: "ids_ok g \<Longrightarrow> ids_ok (detach_delete ids g)"
  by (auto simp: ids_ok_def detach_delete_def set_tdelete distinct_map_tdelete)

lemma match_nodes_ids: "set (match_nodes q g) \<subseteq> g_id ` set (gnodes g)"
  by (auto simp: set_match_nodes)

lemma merge_node_ids: "set (fst (merge_node l ks oc om g)) \<subseteq> g_id ` set (gnodes (snd (merge_node l ks oc om g)))"
proof (cases "match_nodes (is_node l ks) g")
  case Nil
  then show ?thesis by (simp add: merge_node_def create_node_def)
next
  case (Cons a as)
  then show ?thesis using match_nodes_ids [of "is_node l ks" g] by (simp add: merge_node_def)
qed

text \<open>Nothing but a deletion loses nodes.\<close>

definition grows :: "pgraph \<Rightarrow> pgraph \<Rightarrow> bool" where
  "grows g h \<longleftrightarrow> g_id ` set (gnodes g) \<subseteq> g_id ` set (gnodes h)"

lemma grows_merge: "grows g (snd (merge_node l ks oc om g))" "grows g (merge_rels t ks' oc' om' as bs g)"
  by (auto simp: grows_def merge_node_def create_node_def split: list.split)

section \<open>Keys\<close>

text \<open>No two nodes of a label agree on the key properties.\<close>

definition of_label :: "string \<Rightarrow> pgraph \<Rightarrow> gnode set" where
  "of_label l g = {n \<in> set (gnodes g). g_label n = l}"

definition key_of :: "string list \<Rightarrow> props \<Rightarrow> gval option list" where
  "key_of K p = map p K"

definition keyed :: "string \<Rightarrow> string list \<Rightarrow> pgraph \<Rightarrow> bool" where
  "keyed l K g \<longleftrightarrow> (\<forall>m \<in> of_label l g. \<forall>n \<in> of_label l g. key_of K (g_props m) = key_of K (g_props n) \<longrightarrow> g_id m = g_id n)"

definition keeps :: "string list \<Rightarrow> (props \<Rightarrow> props) \<Rightarrow> bool" where
  "keeps K f \<longleftrightarrow> (\<forall>p. key_of K (f p) = key_of K p)"

lemma keeps_intros [intro, simp]:
  "keeps K id" "keeps K (\<lambda>p. p)"
  "\<lbrakk> keeps K f; keeps K g \<rbrakk> \<Longrightarrow> keeps K (\<lambda>p. f (g p))"
  "\<lbrakk> keeps K f; keeps K g \<rbrakk> \<Longrightarrow> keeps K (f \<circ> g)"
  "''profile'' \<notin> set K \<Longrightarrow> keeps K (set_profile ps)"
  "''profile'' \<notin> set K \<Longrightarrow> keeps K (union_profile ps)"
  "k \<notin> set K \<Longrightarrow> keeps K f \<Longrightarrow> keeps K (\<lambda>p. (f p)(k := v p))"
  by (auto simp: keeps_def key_of_def set_profile_def union_profile_def)

lemma of_label_set_nodes_other:
  assumes "\<And>n. n \<in> set (gnodes g) \<Longrightarrow> g_id n \<in> set ids \<Longrightarrow> g_label n \<noteq> l"
  shows "of_label l (set_nodes ids f g) = of_label l g"
proof -
  have "filter (\<lambda>n. g_label n = l) (tupdate (\<lambda>n. g_id n \<in> set ids) (\<lambda>n. n\<lparr>g_props := f (g_props n)\<rparr>) ns) = filter (\<lambda>n. g_label n = l) ns"
    if "\<forall>n \<in> set ns. g_id n \<in> set ids \<longrightarrow> g_label n \<noteq> l" for ns :: "gnode list"
    using that by (induction ns) (simp_all add: tupdate_def)
  then have "filter (\<lambda>n. g_label n = l) (gnodes (set_nodes ids f g)) = filter (\<lambda>n. g_label n = l) (gnodes g)"
    using assms by (simp add: set_nodes_def)
  then show ?thesis unfolding of_label_def by (metis set_filter)
qed

lemma keyed_merge_other:
  assumes "keyed l K g" "ids_ok g" "l' \<noteq> l"
  shows "keyed l K (snd (merge_node l' ks oc om g))"
proof -
  have "of_label l (snd (merge_node l' ks oc om g)) = of_label l g"
  proof (cases "match_nodes (is_node l' ks) g")
    case Nil
    then show ?thesis using assms(3) by (auto simp: of_label_def merge_node_def create_node_def)
  next
    case (Cons a as)
    have lab: "g_label n = l'" if n: "n \<in> set (gnodes g)" "g_id n \<in> set (a # as)" for n
    proof -
      obtain m where "m \<in> set (gnodes g)" "g_id m = g_id n" "is_node l' ks m"
        using n(2) by (auto simp: Cons [symmetric] set_match_nodes)
      then show ?thesis using n(1) assms(2) by (metis distinct_col_eq ids_ok_def is_node_def)
    qed
    have "of_label l (set_nodes (a # as) om g) = of_label l g" by (intro of_label_set_nodes_other) (use lab assms(3) in blast)
    then show ?thesis using Cons by (simp add: merge_node_def)
  qed
  then show ?thesis using assms(1) unfolding keyed_def by (simp only:)
qed

lemma no_node_no_key:
  assumes "match_nodes (is_node l ks) g = []" "distinct (map fst ks)" "n \<in> of_label l g"
  shows "key_of (map fst ks) (map_of ks) \<noteq> key_of (map fst ks) (g_props n)"
proof
  assume eq: "key_of (map fst ks) (map_of ks) = key_of (map fst ks) (g_props n)"
  have "g_props n k = Some v" if "(k, v) \<in> set ks" for k v
  proof -
    have "map_of ks k = g_props n k" using eq that by (force simp: key_of_def)
    then show ?thesis using that assms(2) by simp
  qed
  then have "is_node l ks n" using assms(3) by (auto simp: is_node_def has_keys_def list_all_iff of_label_def)
  then show False using assms(1,3) by (auto simp: match_nodes_def filter_empty_conv of_label_def)
qed

lemma of_label_set_nodes:
  assumes "keeps K f" "n' \<in> of_label l (set_nodes ids f g)"
  shows "\<exists>n \<in> of_label l g. g_id n = g_id n' \<and> key_of K (g_props n) = key_of K (g_props n')"
  using assms by (auto simp: of_label_def set_nodes_def set_tupdate keeps_def split: if_splits)

lemma keyed_set_nodes:
  assumes "keyed l K g" "keeps K f"
  shows "keyed l K (set_nodes ids f g)"
  unfolding keyed_def
proof (intro ballI impI)
  fix m' n' assume m': "m' \<in> of_label l (set_nodes ids f g)" and n': "n' \<in> of_label l (set_nodes ids f g)"
    and eq: "key_of K (g_props m') = key_of K (g_props n')"
  obtain m where m: "m \<in> of_label l g" "g_id m = g_id m'" "key_of K (g_props m) = key_of K (g_props m')"
    using of_label_set_nodes [OF assms(2) m'] by blast
  obtain n where n: "n \<in> of_label l g" "g_id n = g_id n'" "key_of K (g_props n) = key_of K (g_props n')"
    using of_label_set_nodes [OF assms(2) n'] by blast
  have "g_id m = g_id n" using assms(1) [unfolded keyed_def, rule_format, OF m(1) n(1)] m(3) n(3) eq by simp
  then show "g_id m' = g_id n'" using m(2) n(2) by simp
qed

lemma keyed_merge_same:
  assumes "keyed l K g" "map fst ks = K" "keeps K oc" "keeps K om" "distinct K"
  shows "keyed l K (snd (merge_node l ks oc om g))"
proof (cases "match_nodes (is_node l ks) g")
  case Nil
  let ?n = "\<lparr>g_id = g_next g, g_label = l, g_props = oc (map_of ks)\<rparr>"
  have of: "of_label l (snd (merge_node l ks oc om g)) = insert ?n (of_label l g)"
    using Nil by (auto simp: of_label_def merge_node_def create_node_def)
  have new: "key_of K (g_props ?n) \<noteq> key_of K (g_props n)" if "n \<in> of_label l g" for n
    using no_node_no_key [OF Nil _ that] assms(2,3,5) by (simp add: keeps_def)
  show ?thesis
    unfolding keyed_def of using assms(1) [unfolded keyed_def] new by (metis insertE)
next
  case (Cons a as)
  then have "snd (merge_node l ks oc om g) = set_nodes (a # as) om g" by (simp add: merge_node_def)
  moreover have "keyed l K (set_nodes (a # as) om g)" by (rule keyed_set_nodes [OF assms(1,4)])
  ultimately show ?thesis by simp
qed

lemma keyed_merge_rels [simp]: "keyed l K (merge_rels t ks oc om as bs g) = keyed l K g"
  by (simp add: keyed_def of_label_def)

lemma keyed_detach: "keyed l K g \<Longrightarrow> keyed l K (detach_delete ids g)"
  by (auto simp: keyed_def of_label_def detach_delete_def set_tdelete)

end
