(* ===== verification/Writer.thy ===== *)
theory Writer
  imports PropertyGraph Resolver Indexer
begin

text \<open>
  The graph writer, \<open>src/indexer/writer_neo4j.py\<close>: what the parsers return
  (\<open>src/indexer/models.py\<close>) and one definition per
  function of the writer, statement by statement. A function that runs in a transaction maps
  the graph to the graph; errors of the driver are modelled by the callers. The relationship
  names are the constants of \<open>src/constants.py\<close>.
\<close>

section \<open>What the parsers return\<close>

record field_info =
  fi_name :: string
  fi_ttype :: string
  fi_related :: "string option"
  fi_compute :: "string option"
  fi_stored :: bool
  fi_required :: bool
  fi_comodel_name :: "string option"
  fi_source_definition :: "string option"

record method_info =
  me_name :: string
  me_has_super_call :: bool
  me_decorators :: "string list"
  me_core_symbol_refs :: "string list"
  me_convention_kind :: string
  me_super_safety :: string
  me_return_required :: bool
  me_signature :: "string option"
  me_depends :: "string list"
  me_source_code :: "string option"

record model_info =
  mo_name :: string
  mo_module :: string
  mo_odoo_version :: string
  mo_inherit :: "string list"
  mo_inherits :: "(string, string) pydict"
  mo_fields :: "field_info list"
  mo_methods :: "method_info list"
  mo_is_abstract :: bool
  mo_is_transient :: bool
  mo_had_explicit_name :: bool

record parse_result =
  pr_module :: module_info
  pr_models :: "model_info list"

record view_info =
  vi_xmlid :: string
  vi_name :: string
  vi_model :: string
  vi_module :: string
  vi_odoo_version :: string
  vi_view_type :: string
  vi_mode :: string
  vi_inherit_xmlid :: "string option"
  vi_xpaths :: "(string \<times> string) list"
  vi_arch :: "string option"
  vi_file_path :: "string option"

record qweb_info =
  qw_xmlid :: string
  qw_module :: string
  qw_odoo_version :: string
  qw_inherit_xmlid :: "string option"
  qw_content :: "string option"
  qw_file_path :: "string option"

record view_parse_result =
  vp_module :: module_info
  vp_views :: "view_info list"
  vp_qweb :: "qweb_info list"

record js_patch_info =
  jp_target :: string
  jp_patch_name :: string
  jp_module :: string
  jp_odoo_version :: string
  jp_era :: string
  jp_file_path :: string

record owl_comp_info =
  oc_name :: string
  oc_module :: string
  oc_odoo_version :: string
  oc_template :: "string option"
  oc_extends :: "string option"
  oc_bound_model :: "string option"
  oc_file_path :: string

record js_graph_result =
  jr_module :: module_info
  jr_patches :: "js_patch_info list"
  jr_components :: "owl_comp_info list"

record stylesheet_info =
  si_file_path :: string
  si_module :: string
  si_odoo_version :: string
  si_language :: string
  si_selector_count :: int
  si_variable_count :: int
  si_import_count :: int
  si_mixin_count :: int
  si_imports :: "string list"

section \<open>Modules and models\<close>

definition UNRESOLVED :: gval where
  "UNRESOLVED = GStr ''__unresolved__''"

definition module_key :: "string \<Rightarrow> string \<Rightarrow> keymap" where
  "module_key name v = [(''name'', GStr name), (''odoo_version'', GStr v)]"

definition model_key :: "string \<Rightarrow> gval \<Rightarrow> string \<Rightarrow> keymap" where
  "model_key name module v = [(''name'', GStr name), (''module'', module), (''odoo_version'', GStr v)]"

definition member_key :: "string \<Rightarrow> string \<Rightarrow> string \<Rightarrow> string \<Rightarrow> keymap" where
  "member_key name model module v =
     [(''name'', GStr name), (''model'', GStr model), (''module'', GStr module), (''odoo_version'', GStr v)]"

definition module_props :: "module_info \<Rightarrow> props \<Rightarrow> props" where
  "module_props m p = p(''repo'' := Some (GStr (mi_repo m)), ''path'' := Some (GStr (mi_path m)),
     ''version_raw'' := Some (GStr (mi_version_raw m)), ''edition'' := Some (GStr (mi_edition m)),
     ''viindoo_equivalent_qname'' := gstr (mi_viindoo_equivalent_qname m), ''last_commit_sha'' := gstr (mi_commit_sha m))"

definition write_module :: "string list \<Rightarrow> module_info \<Rightarrow> pgraph \<Rightarrow> pgraph" where
  "write_module ps m g = snd (merge_node ''Module'' (module_key (mi_name m) (mi_odoo_version m))
     (\<lambda>p. module_props m (set_profile ps p)) (\<lambda>p. module_props m (union_profile ps p)) g)"

definition write_dep :: "string list \<Rightarrow> module_info \<Rightarrow> string \<Rightarrow> pgraph \<Rightarrow> pgraph" where
  "write_dep ps m dep g =
     (let ms = match_nodes (is_node ''Module'' (module_key (mi_name m) (mi_odoo_version m))) g in
      if ms = [] then g
      else let (ds, g) = merge_node ''Module'' (module_key dep (mi_odoo_version m)) (set_profile ps) (union_profile ps) g
           in link ''DEPENDS_ON'' ms ds g)"

definition gbool :: "props \<Rightarrow> string \<Rightarrow> bool" where
  "gbool p k \<longleftrightarrow> p k = Some (GBool True)"

definition model_created :: "string list \<Rightarrow> model_info \<Rightarrow> props \<Rightarrow> props" where
  "model_created ps m p = set_profile ps (p(''is_transient'' \<mapsto> GBool (mo_is_transient m),
     ''is_abstract'' \<mapsto> GBool (mo_is_abstract m), ''had_explicit_name'' \<mapsto> GBool (mo_had_explicit_name m),
     ''is_definition'' \<mapsto> GBool (mo_had_explicit_name m \<and> mo_name m \<notin> set (mo_inherit m))))"

definition model_matched :: "string list \<Rightarrow> model_info \<Rightarrow> props \<Rightarrow> props" where
  "model_matched ps m p = union_profile ps (p(''is_abstract'' \<mapsto> GBool (mo_is_abstract m),
     ''is_transient'' \<mapsto> GBool (mo_is_transient m),
     ''had_explicit_name'' \<mapsto> GBool (gbool p ''had_explicit_name'' \<or> mo_had_explicit_name m),
     ''is_definition'' \<mapsto> GBool (gbool p ''is_definition'' \<or> mo_had_explicit_name m \<and> mo_name m \<notin> set (mo_inherit m))))"

abbreviation own_key :: "model_info \<Rightarrow> keymap" where
  "own_key m \<equiv> model_key (mo_name m) (GStr (mo_module m)) (mo_odoo_version m)"

definition write_model_node :: "string list \<Rightarrow> model_info \<Rightarrow> pgraph \<Rightarrow> pgraph" where
  "write_model_node ps m g =
     (let (mods, g) = merge_node ''Module'' (module_key (mo_module m) (mo_odoo_version m)) id id g;
          (ms, g) = merge_node ''Model'' (own_key m) (model_created ps m) (model_matched ps m) g
      in link ''DEFINED_IN'' ms mods g)"

definition set_order :: "int \<Rightarrow> props \<Rightarrow> props" where
  "set_order i p = p(''order'' \<mapsto> GInt i)"

definition coalesce_order :: "int \<Rightarrow> props \<Rightarrow> props" where
  "coalesce_order i p = (case p ''order'' of None \<Rightarrow> set_order i p | Some _ \<Rightarrow> p)"

definition placeholder :: "string list \<Rightarrow> props \<Rightarrow> props" where
  "placeholder ps p = set_profile ps (p(''unresolved'' \<mapsto> GBool True, ''is_definition'' \<mapsto> GBool False))"

definition write_inherit :: "string list \<Rightarrow> model_info \<Rightarrow> int \<times> string \<Rightarrow> pgraph \<Rightarrow> pgraph" where
  "write_inherit ps m = (\<lambda>(idx, parent_name) g.
     let v = mo_odoo_version m; ms = match_nodes (is_node ''Model'' (own_key m)) g
     in if parent_name = mo_name m then
          merge_rels ''INHERITS'' [] (set_order idx) (coalesce_order idx) ms
            (match_nodes (\<lambda>n. is_node ''Model'' [(''name'', GStr (mo_name m)), (''odoo_version'', GStr v)] n \<and>
               (case g_props n ''module'' of None \<Rightarrow> False | Some x \<Rightarrow> x \<noteq> GStr (mo_module m))) g) g
        else
          let parents = match_nodes (\<lambda>n. is_node ''Model'' [(''name'', GStr parent_name), (''odoo_version'', GStr v)] n \<and> \<not> is_unresolved n) g
          in if ms \<noteq> [] \<and> parents \<noteq> [] then merge_rels ''INHERITS'' [] (set_order idx) (set_order idx) ms parents g
             else if ms = [] then g
             else let (phs, g) = merge_node ''Model'' (model_key parent_name UNRESOLVED v) (placeholder ps) (union_profile ps) g
                  in merge_rels ''INHERITS'' [(''unresolved'', GBool True)] (set_order idx) (set_order idx) ms phs g)"

definition write_delegate :: "string list \<Rightarrow> model_info \<Rightarrow> string \<times> string \<Rightarrow> pgraph \<Rightarrow> pgraph" where
  "write_delegate ps m = (\<lambda>(delegated, via_field) g.
     let v = mo_odoo_version m; ms = match_nodes (is_node ''Model'' (own_key m)) g;
         ds = match_nodes (\<lambda>n. is_node ''Model'' [(''name'', GStr delegated), (''odoo_version'', GStr v)] n \<and> \<not> is_unresolved n) g
     in if ms \<noteq> [] \<and> ds \<noteq> [] then merge_rels ''DELEGATES_TO'' [(''via_field'', GStr via_field)] id id ms ds g
        else if ms = [] then g
        else let (phs, g) = merge_node ''Model'' (model_key delegated UNRESOLVED v) (placeholder ps) (union_profile ps) g
             in merge_rels ''DELEGATES_TO'' [(''via_field'', GStr via_field), (''unresolved'', GBool True)] id id ms phs g)"

definition field_props :: "field_info \<Rightarrow> props \<Rightarrow> props" where
  "field_props f p = p(''ttype'' := Some (GStr (fi_ttype f)), ''related'' := gstr (fi_related f), ''compute'' := gstr (fi_compute f),
     ''stored'' := Some (GBool (fi_stored f)), ''required'' := Some (GBool (fi_required f)), ''comodel_name'' := gstr (fi_comodel_name f))"

definition write_field :: "string list \<Rightarrow> model_info \<Rightarrow> field_info \<Rightarrow> pgraph \<Rightarrow> pgraph" where
  "write_field ps m f g =
     (let ms = match_nodes (is_node ''Model'' (own_key m)) g in
      if ms = [] then g
      else let (fs, g) = merge_node ''Field'' (member_key (fi_name f) (mo_name m) (mo_module m) (mo_odoo_version m))
                 (\<lambda>p. field_props f (set_profile ps p)) (\<lambda>p. field_props f (union_profile ps p)) g
           in link ''BELONGS_TO'' fs ms g)"

definition method_props :: "method_info \<Rightarrow> props \<Rightarrow> props" where
  "method_props f p = p(''has_super_call'' := Some (GBool (me_has_super_call f)), ''decorators'' := Some (GList (me_decorators f)),
     ''convention_kind'' := Some (GStr (me_convention_kind f)), ''super_safety'' := Some (GStr (me_super_safety f)),
     ''return_required'' := Some (GBool (me_return_required f)), ''signature'' := gstr (me_signature f),
     ''depends'' := Some (GList (me_depends f)))"

text \<open>\<open>s ENDS WITH t\<close>; null does not.\<close>

definition ends_with :: "gval option \<Rightarrow> string \<Rightarrow> bool" where
  "ends_with v t = (case v of Some (GStr s) \<Rightarrow> startswith (rev s) (rev t) | _ \<Rightarrow> False)"

definition write_method_node :: "string list \<Rightarrow> model_info \<Rightarrow> method_info \<Rightarrow> pgraph \<Rightarrow> pgraph" where
  "write_method_node ps m f g =
     (let ms = match_nodes (is_node ''Model'' (own_key m)) g in
      if ms = [] then g
      else let (fs, g) = merge_node ''Method'' (member_key (me_name f) (mo_name m) (mo_module m) (mo_odoo_version m))
                 (\<lambda>p. method_props f (set_profile ps p)) (\<lambda>p. method_props f (union_profile ps p)) g
           in link ''BELONGS_TO'' fs ms g)"

definition write_symbol_ref :: "model_info \<Rightarrow> method_info \<Rightarrow> string \<Rightarrow> pgraph \<Rightarrow> pgraph" where
  "write_symbol_ref m f ref g =
     link ''USES_CORE_SYMBOL''
       (match_nodes (is_node ''Method'' (member_key (me_name f) (mo_name m) (mo_module m) (mo_odoo_version m))) g)
       (match_nodes (\<lambda>n. is_node ''CoreSymbol'' [(''odoo_version'', GStr (mo_odoo_version m))] n \<and>
          ends_with (g_props n ''qualified_name'') (CHR ''.'' # ref) \<and>
          g_props n ''status'' \<in> {Some (GStr ''deprecated''), Some (GStr ''removed'')}) g) g"

definition write_method :: "string list \<Rightarrow> model_info \<Rightarrow> method_info \<Rightarrow> pgraph \<Rightarrow> pgraph" where
  "write_method ps m f g = fold (write_symbol_ref m f) (me_core_symbol_refs f) (write_method_node ps m f g)"

definition write_model :: "string list \<Rightarrow> model_info \<Rightarrow> pgraph \<Rightarrow> pgraph" where
  "write_model ps m g = (
     let g = write_model_node ps m g;
         g = fold (write_inherit ps m) (map (\<lambda>(i, p). (int i, p)) (enumerate 0 (mo_inherit m))) g;
         g = fold (write_delegate ps m) (mo_inherits m) g;
         g = fold (write_field ps m) (mo_fields m) g
     in fold (write_method ps m) (mo_methods m) g)"

definition write_parse_result :: "string list \<Rightarrow> parse_result \<Rightarrow> pgraph \<Rightarrow> pgraph" where
  "write_parse_result ps r g = (
     let g = write_module ps (pr_module r) g;
         g = fold (write_dep ps (pr_module r)) (mi_depends (pr_module r)) g
     in fold (write_model ps) (pr_models r) g)"

section \<open>Views and templates\<close>

definition xml_key :: "string \<Rightarrow> string \<Rightarrow> keymap" where
  "xml_key xmlid v = [(''xmlid'', GStr xmlid), (''odoo_version'', GStr v)]"

definition view_props :: "view_info \<Rightarrow> props \<Rightarrow> props" where
  "view_props w p = p(''name'' := Some (GStr (vi_name w)), ''model'' := Some (GStr (vi_model w)), ''module'' := Some (GStr (vi_module w)),
     ''type'' := Some (GStr (vi_view_type w)), ''mode'' := Some (GStr (vi_mode w)),
     ''xpaths_exprs'' := Some (GList (map fst (vi_xpaths w))), ''xpaths_positions'' := Some (GList (map snd (vi_xpaths w))))"

definition stub :: "string list \<Rightarrow> props \<Rightarrow> props" where
  "stub ps p = set_profile ps (p(''unresolved'' \<mapsto> GBool True))"

text \<open>The extension statement that views and templates share: link to the base, or to a
  placeholder whose key has the module in it.\<close>

definition write_extends :: "string \<Rightarrow> string \<Rightarrow> string list \<Rightarrow> string \<Rightarrow> string \<Rightarrow> string \<Rightarrow> pgraph \<Rightarrow> pgraph" where
  "write_extends label rel ps xmlid base v g =
     (let es = match_nodes (is_node label (xml_key xmlid v)) g;
          bs = match_nodes (\<lambda>n. is_node label (xml_key base v) n \<and> \<not> is_unresolved n) g
      in if es \<noteq> [] \<and> bs \<noteq> [] then link rel es bs g
         else if es = [] then g
         else let (phs, g) = merge_node label [(''xmlid'', GStr base), (''module'', UNRESOLVED), (''odoo_version'', GStr v)]
                     (stub ps) (union_profile ps) g
              in merge_rels rel [(''unresolved'', GBool True)] id id es phs g)"

definition write_view_node :: "string list \<Rightarrow> view_info \<Rightarrow> pgraph \<Rightarrow> pgraph" where
  "write_view_node ps w g =
     (let (vs, g) = merge_node ''View'' (xml_key (vi_xmlid w) (vi_odoo_version w))
            (\<lambda>p. view_props w (set_profile ps p)) (\<lambda>p. view_props w (union_profile ps p)) g;
          (mods, g) = merge_node ''Module'' (module_key (vi_module w) (vi_odoo_version w)) id id g
      in link ''DEFINED_IN'' vs mods g)"

definition write_view :: "string list \<Rightarrow> view_info \<Rightarrow> pgraph \<Rightarrow> pgraph" where
  "write_view ps w g =
     (let v = vi_odoo_version w; g = write_view_node ps w g;
          g = (if vi_model w = [] then g
               else link ''TARGETS_MODEL'' (match_nodes (is_node ''View'' (xml_key (vi_xmlid w) v)) g)
                      (match_nodes (is_node ''Model'' [(''name'', GStr (vi_model w)), (''odoo_version'', GStr v)]) g) g)
      in case vi_inherit_xmlid w of
           None \<Rightarrow> g
         | Some base \<Rightarrow> if base = [] then g else write_extends ''View'' ''INHERITS_VIEW'' ps (vi_xmlid w) base v g)"

definition write_qweb_node :: "string list \<Rightarrow> qweb_info \<Rightarrow> pgraph \<Rightarrow> pgraph" where
  "write_qweb_node ps q g =
     (let (ts, g) = merge_node ''QWebTmpl'' (xml_key (qw_xmlid q) (qw_odoo_version q))
            (\<lambda>p. (set_profile ps p)(''module'' \<mapsto> GStr (qw_module q))) (\<lambda>p. (union_profile ps p)(''module'' \<mapsto> GStr (qw_module q))) g;
          (mods, g) = merge_node ''Module'' (module_key (qw_module q) (qw_odoo_version q)) id id g
      in link ''DEFINED_IN'' ts mods g)"

definition write_qweb :: "string list \<Rightarrow> qweb_info \<Rightarrow> pgraph \<Rightarrow> pgraph" where
  "write_qweb ps q g =
     (let g = write_qweb_node ps q g in
      case qw_inherit_xmlid q of
        None \<Rightarrow> g
      | Some base \<Rightarrow> if base = [] then g else write_extends ''QWebTmpl'' ''EXTENDS_TMPL'' ps (qw_xmlid q) base (qw_odoo_version q) g)"

definition write_view_parse_result :: "string list \<Rightarrow> view_parse_result \<Rightarrow> pgraph \<Rightarrow> pgraph" where
  "write_view_parse_result ps r g = fold (write_qweb ps) (vp_qweb r) (fold (write_view ps) (vp_views r) g)"

section \<open>JavaScript\<close>

definition comp_key :: "owl_comp_info \<Rightarrow> keymap" where
  "comp_key c = model_key (oc_name c) (GStr (oc_module c)) (oc_odoo_version c)"

definition comp_props :: "owl_comp_info \<Rightarrow> props \<Rightarrow> props" where
  "comp_props c p = p(''template'' := gstr (oc_template c), ''extends'' := gstr (oc_extends c),
     ''bound_model'' := gstr (oc_bound_model c), ''file_path'' := Some (GStr (oc_file_path c)))"

text \<open>A value that is tested with \<open>if x:\<close>: None and '' do not count.\<close>

definition truthy :: "string option \<Rightarrow> string option" where
  "truthy s = (case s of Some [] \<Rightarrow> None | _ \<Rightarrow> s)"

definition write_component :: "string list \<Rightarrow> owl_comp_info \<Rightarrow> pgraph \<Rightarrow> pgraph" where
  "write_component ps c g =
     (let v = oc_odoo_version c; self = match_nodes (is_node ''OWLComp'' (comp_key c));
          named = (\<lambda>l n. match_nodes (is_node l [(''name'', GStr n), (''odoo_version'', GStr v)]));
          (mods, g) = merge_node ''Module'' (module_key (oc_module c) v) id id g;
          (cs, g) = merge_node ''OWLComp'' (comp_key c) (\<lambda>p. comp_props c (set_profile ps p)) (\<lambda>p. comp_props c (union_profile ps p)) g;
          g = link ''DEFINED_IN'' cs mods g;
          g = (case truthy (oc_extends c) of None \<Rightarrow> g | Some par \<Rightarrow> link ''EXTENDS'' (self g) (named ''OWLComp'' par g) g)
      in (case truthy (oc_bound_model c) of None \<Rightarrow> g | Some b \<Rightarrow> link ''BOUND_TO'' (self g) (named ''Model'' b g) g))"

definition patch_key :: "js_patch_info \<Rightarrow> keymap" where
  "patch_key j = [(''target'', GStr (jp_target j)), (''patch_name'', GStr (jp_patch_name j)), (''module'', GStr (jp_module j)),
     (''odoo_version'', GStr (jp_odoo_version j))]"

definition patch_props :: "js_patch_info \<Rightarrow> props \<Rightarrow> props" where
  "patch_props j p = p(''era'' := Some (GStr (jp_era j)), ''file_path'' := Some (GStr (jp_file_path j)))"

definition write_patch :: "string list \<Rightarrow> js_patch_info \<Rightarrow> pgraph \<Rightarrow> pgraph" where
  "write_patch ps j g =
     (let v = jp_odoo_version j;
          (mods, g) = merge_node ''Module'' (module_key (jp_module j) v) id id g;
          (js, g) = merge_node ''JSPatch'' (patch_key j) (\<lambda>p. patch_props j (set_profile ps p)) (\<lambda>p. patch_props j (union_profile ps p)) g;
          g = link ''DEFINED_IN'' js mods g;
          js = match_nodes (is_node ''JSPatch'' (patch_key j)) g;
          cs = match_nodes (\<lambda>n. is_node ''OWLComp'' [(''name'', GStr (jp_target j)), (''odoo_version'', GStr v)] n \<and> \<not> is_unresolved n) g
      in if js \<noteq> [] \<and> cs \<noteq> [] then link ''PATCHES'' js cs g
         else if js = [] then g
         else let (phs, g) = merge_node ''OWLComp'' (model_key (jp_target j) UNRESOLVED v) (stub ps) (union_profile ps) g
              in merge_rels ''PATCHES'' [(''unresolved'', GBool True)] id id js phs g)"

definition write_js_graph_result :: "string list \<Rightarrow> js_graph_result \<Rightarrow> pgraph \<Rightarrow> pgraph" where
  "write_js_graph_result ps r g = fold (write_patch ps) (jr_patches r) (fold (write_component ps) (jr_components r) g)"

section \<open>Stylesheets\<close>

definition sheet_key :: "stylesheet_info \<Rightarrow> keymap" where
  "sheet_key s = [(''file_path'', GStr (si_file_path s)), (''module'', GStr (si_module s)), (''odoo_version'', GStr (si_odoo_version s))]"

definition sheet_props :: "stylesheet_info \<Rightarrow> props \<Rightarrow> props" where
  "sheet_props s p = p(''language'' := Some (GStr (si_language s)), ''selector_count'' := Some (GInt (si_selector_count s)),
     ''variable_count'' := Some (GInt (si_variable_count s)), ''import_count'' := Some (GInt (si_import_count s)),
     ''mixin_count'' := Some (GInt (si_mixin_count s)))"

definition write_stylesheet :: "string list \<Rightarrow> stylesheet_info \<Rightarrow> pgraph \<Rightarrow> pgraph" where
  "write_stylesheet ps s g =
     (let v = si_odoo_version s;
          (ss, g) = merge_node ''Stylesheet'' (sheet_key s) (\<lambda>p. set_profile ps (sheet_props s p)) (\<lambda>p. union_profile ps (sheet_props s p)) g;
          (mods, g) = merge_node ''Module'' (module_key (si_module s) v) (set_profile ps) (union_profile ps) g;
          g = link ''DEFINED_IN'' ss mods g
      in fold (\<lambda>import_path g. link ''IMPORTS'' (match_nodes (is_node ''Stylesheet'' (sheet_key s)) g)
           (match_nodes (is_node ''Stylesheet'' [(''file_path'', GStr import_path), (''odoo_version'', GStr v)]) g) g) (si_imports s) g)"

section \<open>The writer's methods\<close>

definition write_results :: "parse_result list \<Rightarrow> string list \<Rightarrow> pgraph \<Rightarrow> pgraph" where
  "write_results results profiles g = fold (write_parse_result profiles) results g"

definition write_view_results :: "view_parse_result list \<Rightarrow> string list \<Rightarrow> pgraph \<Rightarrow> pgraph" where
  "write_view_results results profiles g = fold (write_view_parse_result profiles) results g"

definition write_js_graph_results :: "js_graph_result list \<Rightarrow> string list \<Rightarrow> pgraph \<Rightarrow> pgraph" where
  "write_js_graph_results results profiles g = fold (write_js_graph_result profiles) results g"

text \<open>\<open>write_stylesheets\<close> commits in batches of \<open>NEO4J_WRITE_BATCH_SIZE\<close>; \<open>chunked\<close> is \<open>_chunked\<close>
  for a positive size (Python raises on 0).\<close>

function chunked :: "'a list \<Rightarrow> nat \<Rightarrow> 'a list list" where
  "chunked items n = (if items = [] \<or> n = 0 then [] else take n items # chunked (drop n items) n)"
  by pat_completeness auto
termination by (relation "measure (\<lambda>(items, _). length items)") auto

declare chunked.simps [simp del]

definition write_stylesheets :: "nat \<Rightarrow> stylesheet_info list \<Rightarrow> string list \<Rightarrow> pgraph \<Rightarrow> pgraph" where
  "write_stylesheets batch_size stylesheets profiles g =
     fold (fold (write_stylesheet profiles)) (chunked stylesheets batch_size) g"

text \<open>The labels that \<open>delete_modules_scoped\<close> treats as children of a module.\<close>

definition CHILD_LABELS :: "string list" where
  "CHILD_LABELS = [''Model'', ''Field'', ''Method'', ''View'', ''QWebTmpl'', ''JSPatch'', ''OWLComp'']"

definition delete_modules_scoped :: "string \<Rightarrow> string \<Rightarrow> pgraph \<Rightarrow> (nat \<times> nat) \<times> pgraph" where
  "delete_modules_scoped repo v g =
     (let is_mod = is_node ''Module'' [(''repo'', GStr repo), (''odoo_version'', GStr v)];
          names = List.map_filter (\<lambda>n. g_props n ''name'') (filter is_mod (gnodes g))
      in if names = [] then ((0, 0), g)
         else
           let children = match_nodes (\<lambda>n. g_label n \<in> set CHILD_LABELS \<and> g_props n ''odoo_version'' = Some (GStr v) \<and>
                    g_props n ''module'' \<in> Some ` set names) g;
               g = detach_delete children g;
               mods = match_nodes is_mod g
           in ((length mods, length children), detach_delete mods g))"

definition gc_stale_modules :: "string \<Rightarrow> string \<Rightarrow> string set \<Rightarrow> pgraph \<Rightarrow> nat \<times> pgraph" where
  "gc_stale_modules repo v live_paths g =
     (let stale = match_nodes (\<lambda>n. is_node ''Module'' [(''repo'', GStr repo), (''odoo_version'', GStr v)] n \<and>
            (case g_props n ''path'' of None \<Rightarrow> False | Some p \<Rightarrow> p \<notin> GStr ` live_paths)) g
      in (length stale, detach_delete stale g))"

end
