(* ===== verification/Embeddings.thy ===== *)
theory Embeddings
  imports Writer
begin

text \<open>
  The texts that are embedded and the table they are stored in: \<open>src/indexer/writer_pgvector.py\<close>
  and the loop of \<open>_sliding_chunks\<close> that \<open>parser_css.py\<close> and \<open>parser_js.py\<close> share with it. A vector is
  of any type; the embedding service is the argument \<open>emb\<close>, which returns the vectors or
  raises.
\<close>

section \<open>Windows\<close>

definition WINDOW_CHARS :: nat where
  "WINDOW_CHARS = 2048"

definition OVERLAP_CHARS :: nat where
  "OVERLAP_CHARS = 256"

text \<open>The loop over \<open>start\<close>; a window is \<open>raw[start:end]\<close>.\<close>

function windows :: "nat \<Rightarrow> 'a list \<Rightarrow> 'a list list" where
  "windows start raw =
     (if start < length raw then
        let end' = min (start + WINDOW_CHARS) (length raw); w = take (end' - start) (drop start raw)
        in if end' = length raw then [w] else w # windows (end' - OVERLAP_CHARS) raw
      else [])"
  by pat_completeness auto
termination
  by (relation "measure (\<lambda>(start, raw). length raw - start)")
    (auto simp: WINDOW_CHARS_def OVERLAP_CHARS_def min_def split: if_splits)

declare windows.simps [simp del]

record embedding_chunk =
  ec_chunk_type :: string
  ec_module :: string
  ec_odoo_version :: string
  ec_entity_name :: string
  ec_model_name :: "string option"
  ec_file_path :: string
  ec_chunk_idx :: nat
  ec_content :: string

definition sliding :: "string \<Rightarrow> string \<Rightarrow> string \<Rightarrow> string \<Rightarrow> string \<Rightarrow> string \<Rightarrow> string option \<Rightarrow> embedding_chunk list" where
  "sliding raw entity_name chunk_type module version file_path model_name =
     (let chunk = (\<lambda>(idx, content). \<lparr>ec_chunk_type = chunk_type, ec_module = module, ec_odoo_version = version,
            ec_entity_name = entity_name, ec_model_name = model_name, ec_file_path = file_path,
            ec_chunk_idx = idx, ec_content = content\<rparr>)
      in if length (py_chars raw) \<le> WINDOW_CHARS then [chunk (0, raw)]
         else map chunk (enumerate 0 (map concat (windows 0 (py_chars raw)))))"

section \<open>Chunks of a module\<close>

abbreviation newline :: char where
  "newline \<equiv> CHR 0x0A"

definition or_text :: "string option \<Rightarrow> string \<Rightarrow> string" where
  "or_text s d = (case truthy s of None \<Rightarrow> d | Some x \<Rightarrow> x)"

definition capitalize :: "string \<Rightarrow> string" where
  "capitalize s = (case lower s of [] \<Rightarrow> [] | c # cs \<Rightarrow> char_upper c # cs)"

definition method_chunks :: "string \<Rightarrow> string \<Rightarrow> string \<Rightarrow> model_info \<Rightarrow> method_info \<Rightarrow> embedding_chunk list" where
  "method_chunks module version path m f =
     (let prefix = ''['' @ module @ ''] '' @ mo_name m @ ''.'' @ me_name f @ '' ('' @ version @ '')'';
          body = or_text (me_source_code f) (''def '' @ me_name f @ ''(self): ...'')
      in sliding (prefix @ [newline] @ body) (mo_name m @ ''.'' @ me_name f) ''method'' module version path (Some (mo_name m)))"

definition field_chunks :: "string \<Rightarrow> string \<Rightarrow> string \<Rightarrow> model_info \<Rightarrow> field_info \<Rightarrow> embedding_chunk list" where
  "field_chunks module version path m f =
     (let prefix = ''['' @ module @ ''] '' @ mo_name m @ '': '' @ fi_name f @ '' ('' @ fi_ttype f @ '')'';
          body = or_text (fi_source_definition f) (fi_name f @ '' = fields.'' @ capitalize (fi_ttype f) @ ''(...)'')
      in sliding (prefix @ [newline] @ body) (mo_name m @ ''.'' @ fi_name f) ''field'' module version path (Some (mo_name m)))"

definition view_chunks :: "string \<Rightarrow> string \<Rightarrow> string \<Rightarrow> view_info \<Rightarrow> embedding_chunk list" where
  "view_chunks module version path w =
     (let inherit_str = (case truthy (vi_inherit_xmlid w) of None \<Rightarrow> [] | Some i \<Rightarrow> '', inherit='' @ i);
          prefix = ''['' @ module @ ''] '' @ vi_xmlid w @ '' ('' @ vi_view_type w @ inherit_str @ '')'';
          body = or_text (vi_arch w) (''<!-- arch missing for '' @ vi_xmlid w @ '' -->'')
      in sliding (prefix @ [newline] @ body) (vi_xmlid w) ''view'' module version (or_text (vi_file_path w) path) (Some (vi_model w)))"

definition qweb_chunks :: "string \<Rightarrow> string \<Rightarrow> string \<Rightarrow> qweb_info \<Rightarrow> embedding_chunk list" where
  "qweb_chunks module version path q =
     (let prefix = ''['' @ module @ ''] '' @ qw_xmlid q;
          body = or_text (qw_content q) (''<!-- content missing for '' @ qw_xmlid q @ '' -->'')
      in sliding (prefix @ [newline] @ body) (qw_xmlid q) ''qweb'' module version (or_text (qw_file_path q) path) None)"

record js_chunk =
  jc_file_path :: string
  jc_era :: string
  jc_entity_name :: string
  jc_chunk_idx :: nat
  jc_content :: string

definition js_embedding :: "string \<Rightarrow> string \<Rightarrow> js_chunk \<Rightarrow> embedding_chunk" where
  "js_embedding module version j = \<lparr>ec_chunk_type = ''js_'' @ jc_era j, ec_module = module, ec_odoo_version = version,
     ec_entity_name = jc_entity_name j, ec_model_name = None, ec_file_path = jc_file_path j,
     ec_chunk_idx = jc_chunk_idx j, ec_content = jc_content j\<rparr>"

definition make_chunks :: "string \<Rightarrow> string \<Rightarrow> parse_result \<Rightarrow> view_parse_result option \<Rightarrow> js_chunk list \<Rightarrow> embedding_chunk list" where
  "make_chunks module version r view_result js_chunks =
     (let path = mi_path (pr_module r) in
      concat (map (\<lambda>m. concat (map (method_chunks module version path m) (mo_methods m)) @
                       concat (map (field_chunks module version path m) (mo_fields m))) (pr_models r)) @
      (case view_result of None \<Rightarrow> []
       | Some vr \<Rightarrow> concat (map (view_chunks module version path) (vp_views vr)) @
                    concat (map (qweb_chunks module version path) (vp_qweb vr))) @
      map (js_embedding module version) js_chunks)"

text \<open>A chunk of a stylesheet; CSS files have no chunk kind in the entity name.\<close>

record sheet_chunk =
  sc_module :: string
  sc_odoo_version :: string
  sc_file_path :: string
  sc_chunk_kind :: string
  sc_entity_name :: string
  sc_chunk_idx :: nat
  sc_content :: string

definition sheet_embedding :: "string \<Rightarrow> string \<Rightarrow> sheet_chunk \<Rightarrow> embedding_chunk" where
  "sheet_embedding chunk_type entity c = \<lparr>ec_chunk_type = chunk_type, ec_module = sc_module c, ec_odoo_version = sc_odoo_version c,
     ec_entity_name = entity, ec_model_name = None, ec_file_path = sc_file_path c, ec_chunk_idx = sc_chunk_idx c,
     ec_content = sc_content c\<rparr>"

definition make_css_chunks :: "sheet_chunk list \<Rightarrow> embedding_chunk list" where
  "make_css_chunks cs = map (\<lambda>c. sheet_embedding ''css'' (sc_entity_name c) c) cs"

definition make_scss_chunks :: "sheet_chunk list \<Rightarrow> embedding_chunk list" where
  "make_scss_chunks cs = map (\<lambda>c. sheet_embedding ''scss'' (sc_chunk_kind c @ '':'' @ sc_entity_name c) c) cs"

definition make_less_chunks :: "sheet_chunk list \<Rightarrow> embedding_chunk list" where
  "make_less_chunks cs = map (\<lambda>c. sheet_embedding ''less'' (sc_chunk_kind c @ '':'' @ sc_entity_name c) c) cs"

section \<open>The table\<close>

record 'v embedding_row =
  er_chunk :: embedding_chunk
  er_vec :: 'v

type_synonym chunk_key = "string \<times> string \<times> string \<times> nat"

definition chunk_key :: "embedding_chunk \<Rightarrow> chunk_key" where
  "chunk_key c = (ec_chunk_type c, ec_entity_name c, ec_file_path c, ec_chunk_idx c)"

text \<open>The columns of \<open>ux_embeddings_chunk\<close>.\<close>

definition row_key :: "embedding_chunk \<Rightarrow> string \<times> string \<times> chunk_key" where
  "row_key c = (ec_module c, ec_odoo_version c, chunk_key c)"

text \<open>The dict \<open>seen\<close>: one chunk per key, the last one, at the place of the first.\<close>

definition dedup :: "embedding_chunk list \<Rightarrow> embedding_chunk list" where
  "dedup chunks = map snd (fold (\<lambda>c. dset (chunk_key c) c) chunks [])"

text \<open>ON CONFLICT DO UPDATE SET content, vec.\<close>

definition insert_row :: "'v embedding_row \<Rightarrow> 'v embedding_row list \<Rightarrow> 'v embedding_row list" where
  "insert_row r t =
     (if \<exists>x \<in> set t. row_key (er_chunk x) = row_key (er_chunk r)
      then tupdate (\<lambda>x. row_key (er_chunk x) = row_key (er_chunk r))
             (\<lambda>x. x\<lparr>er_chunk := (er_chunk x)\<lparr>ec_content := ec_content (er_chunk r)\<rparr>, er_vec := er_vec r\<rparr>) t
      else t @ [r])"

definition write_module_embeddings :: "(string list \<Rightarrow> string + 'v list) \<Rightarrow> string \<Rightarrow> string \<Rightarrow> embedding_chunk list
     \<Rightarrow> 'v embedding_row list \<Rightarrow> (string + nat) \<times> 'v embedding_row list" where
  "write_module_embeddings emb module version chunks table =
     (if chunks = [] then (Inr 0, table)
      else let chunks = dedup chunks in
        case emb (map ec_content chunks) of
          Inl e \<Rightarrow> (Inl e, table)
        | Inr vecs \<Rightarrow>
           (if length vecs < length chunks then (Inl ''list index out of range'', table)
            else (Inr 1, fold insert_row (map (\<lambda>(c, v). \<lparr>er_chunk = c, er_vec = v\<rparr>) (zip chunks vecs))
                    (tdelete (\<lambda>r. ec_module (er_chunk r) = module \<and> ec_odoo_version (er_chunk r) = version) table))))"

section \<open>What is stored\<close>

text \<open>Windows put back together: the first, then each next one without the overlap.\<close>

definition stitch :: "nat \<Rightarrow> 'a list list \<Rightarrow> 'a list" where
  "stitch n ws = (case ws of [] \<Rightarrow> [] | w # rest \<Rightarrow> w @ concat (map (drop n) rest))"

lemma windows_step:
  "length raw \<le> start \<Longrightarrow> windows start raw = []"
  "start < length raw \<Longrightarrow> length raw \<le> start + WINDOW_CHARS \<Longrightarrow> windows start raw = [drop start raw]"
  "start + WINDOW_CHARS < length raw \<Longrightarrow>
     windows start raw = take WINDOW_CHARS (drop start raw) # windows (start + WINDOW_CHARS - OVERLAP_CHARS) raw"
  by (subst windows.simps, simp add: Let_def min_def)+

lemma windows_bounds: "w \<in> set (windows start raw) \<Longrightarrow> length w \<le> WINDOW_CHARS \<and> w \<noteq> []"
proof (induction start raw rule: windows.induct)
  case (1 start raw)
  consider "length raw \<le> start" | "start < length raw" "length raw \<le> start + WINDOW_CHARS" | "start + WINDOW_CHARS < length raw" by linarith
  then show ?case
  proof cases
    case 3
    then have "w = take WINDOW_CHARS (drop start raw) \<or> w \<in> set (windows (start + WINDOW_CHARS - OVERLAP_CHARS) raw)"
      using 1(2) by (simp add: windows_step(3))
    then show ?thesis
    proof
      assume "w = take WINDOW_CHARS (drop start raw)"
      then show ?thesis using 3 by (auto simp: WINDOW_CHARS_def)
    next
      assume "w \<in> set (windows (start + WINDOW_CHARS - OVERLAP_CHARS) raw)"
      then show ?thesis using 1(1) [of "min (start + WINDOW_CHARS) (length raw)"] 3 by (simp add: min_def)
    qed
  qed (use 1(2) in \<open>auto simp: windows_step(1,2)\<close>)
qed

lemma stitch_windows:
  "start \<le> length raw \<Longrightarrow> stitch OVERLAP_CHARS (windows start raw) = drop start raw"
proof (induction start raw rule: windows.induct)
  case (1 start raw)
  show ?case
  proof (cases "start + WINDOW_CHARS < length raw")
    case False
    then show ?thesis using 1(2) windows_step(1) [of raw start] windows_step(2) [of start raw] by (cases "start = length raw") (simp_all add: stitch_def)
  next
    case True
    let ?e = "start + WINDOW_CHARS"
    have lt: "OVERLAP_CHARS < WINDOW_CHARS" by (simp add: OVERLAP_CHARS_def WINDOW_CHARS_def)
    have w: "windows start raw = take WINDOW_CHARS (drop start raw) # windows (?e - OVERLAP_CHARS) raw"
      using windows_step(3) [OF True] .
    have ih: "stitch OVERLAP_CHARS (windows (?e - OVERLAP_CHARS) raw) = drop (?e - OVERLAP_CHARS) raw"
      using 1(1) [of "min ?e (length raw)"] True by (simp add: min_def)
    obtain w' ws where ws: "windows (?e - OVERLAP_CHARS) raw = w' # ws" "OVERLAP_CHARS \<le> length w'"
    proof (cases "?e - OVERLAP_CHARS + WINDOW_CHARS < length raw")
      case True
      then show ?thesis using that windows_step(3) [OF True] lt by simp
    next
      case False
      then show ?thesis using that windows_step(2) [of "?e - OVERLAP_CHARS" raw] lt True by simp
    qed
    have "drop OVERLAP_CHARS w' @ concat (map (drop OVERLAP_CHARS) ws) = drop OVERLAP_CHARS (drop (?e - OVERLAP_CHARS) raw)"
      using arg_cong [OF ih, of "drop OVERLAP_CHARS"] ws by (simp add: stitch_def del: drop_drop)
    also have "\<dots> = drop ?e raw" using lt by (simp add: add.commute)
    finally show ?thesis unfolding w stitch_def using ws
      by (simp add: add.commute append_take_drop_id flip: drop_drop)
  qed
qed

text \<open>
  C23. Nothing of a text is lost by chunking. The chunks of a text are numbered from 0, each has
  at most 2048 characters (code points), and put together without their overlaps of 256
  they are the text.
\<close>
theorem sliding_covers:
  "\<exists>ws. map ec_content (sliding raw en ct md v fp mn) = map concat ws \<and> stitch OVERLAP_CHARS ws = py_chars raw \<and>
     list_all (\<lambda>w. length w \<le> WINDOW_CHARS) ws \<and>
     map ec_chunk_idx (sliding raw en ct md v fp mn) = [0..<length ws]"
proof (cases "length (py_chars raw) \<le> WINDOW_CHARS")
  case True
  then show ?thesis by (intro exI [of _ "[py_chars raw]"]) (simp add: sliding_def stitch_def)
next
  case False
  then show ?thesis
    by (intro exI [of _ "windows 0 (py_chars raw)"])
      (auto simp: sliding_def stitch_windows list_all_iff windows_bounds comp_def split_def enumerate_eq_zip
        simp flip: map_map intro: nth_equalityI)
qed

lemma dedup_keys: "distinct (map chunk_key (dedup chunks))"
proof -
  have keep: "\<forall>(k, c) \<in> set (fold (\<lambda>c. dset (chunk_key c) c) chunks d). k = chunk_key c"
    if "\<forall>(k, c) \<in> set d. k = chunk_key c" for d
    using that
  proof (induction chunks arbitrary: d)
    case (Cons c cs)
    have "\<forall>(k, x) \<in> set (dset (chunk_key c) c d). k = chunk_key x"
      using Cons.prems by (induction d) auto
    then show ?case using Cons.IH by simp
  qed simp
  have "\<forall>(k, c) \<in> set (fold (\<lambda>c. dset (chunk_key c) c) chunks []). k = chunk_key c" by (rule keep) simp
  then have "map chunk_key (dedup chunks) = dkeys (fold (\<lambda>c. dset (chunk_key c) c) chunks [])"
    by (auto simp: dedup_def)
  then show ?thesis using distinct_fold_dset [of "[]" chunk_key "\<lambda>c. c" chunks] by simp
qed

lemma dedup_subset: "set (dedup chunks) \<subseteq> set chunks"
proof -
  have "snd ` set (fold (\<lambda>c. dset (chunk_key c) c) chunks d) \<subseteq> snd ` set d \<union> set chunks" for d
  proof (induction chunks arbitrary: d)
    case (Cons c cs)
    have h: "snd ` set (dset (chunk_key c) c d) \<subseteq> insert c (snd ` set d)" by (induction d) auto
    show ?case using subset_trans [OF Cons.IH [of "dset (chunk_key c) c d"] Un_mono [OF h subset_refl]] by simp
  qed simp
  from this [of "[]"] show ?thesis by (simp add: dedup_def)
qed

lemma fold_insert_row:
  assumes "distinct (map (row_key \<circ> er_chunk) (t @ rows))"
  shows "fold insert_row rows t = t @ rows"
  using assms
proof (induction rows arbitrary: t)
  case (Cons r rows)
  have "row_key (er_chunk r) \<notin> (row_key \<circ> er_chunk) ` set t" using Cons.prems by simp
  then have "\<not> (\<exists>x \<in> set t. row_key (er_chunk x) = row_key (er_chunk r))" by (metis comp_apply imageI)
  then have "insert_row r t = t @ [r]" by (simp add: insert_row_def)
  then show ?case using Cons.IH [of "t @ [r]"] Cons.prems by simp
qed simp

lemma find_snoc:
  "find P (xs @ [x]) = (case find P xs of None \<Rightarrow> (if P x then Some x else None) | Some y \<Rightarrow> Some y)"
  by (induction xs) (auto split: option.split)

lemma find_rev_fold:
  "map_of (fold (\<lambda>c. dset (chunk_key c) c) chunks d) k =
     (case find (\<lambda>c. chunk_key c = k) (rev chunks) of None \<Rightarrow> map_of d k | Some c \<Rightarrow> Some c)"
proof (induction chunks arbitrary: d)
  case (Cons c cs)
  have "find (\<lambda>c. chunk_key c = k) (rev cs @ [c]) =
      (case find (\<lambda>c. chunk_key c = k) (rev cs) of None \<Rightarrow> (if chunk_key c = k then Some c else None) | Some x \<Rightarrow> Some x)"
    by (simp add: find_snoc)
  then show ?case using Cons.IH by (auto split: option.split)
qed simp

lemma dedup_last: "c \<in> set (dedup chunks) \<longleftrightarrow> find (\<lambda>x. chunk_key x = chunk_key c) (rev chunks) = Some c"
proof -
  let ?d = "fold (\<lambda>c. dset (chunk_key c) c) chunks []"
  have dist: "distinct (dkeys ?d)" using distinct_fold_dset [of "[]" chunk_key "\<lambda>c. c" chunks] by simp
  have key: "\<forall>(k, x) \<in> set ?d. k = chunk_key x"
  proof (rule ballI, clarify)
    fix k x assume "(k, x) \<in> set ?d"
    then have "map_of ?d k = Some x" using dist by simp
    then have "find (\<lambda>c. chunk_key c = k) (rev chunks) = Some x" unfolding find_rev_fold by (simp split: option.splits)
    then show "k = chunk_key x" by (auto simp: find_Some_iff)
  qed
  have "c \<in> set (dedup chunks) \<longleftrightarrow> (chunk_key c, c) \<in> set ?d"
    using key by (force simp: dedup_def)
  also have "\<dots> \<longleftrightarrow> map_of ?d (chunk_key c) = Some c" using dist by simp
  also have "\<dots> \<longleftrightarrow> find (\<lambda>x. chunk_key x = chunk_key c) (rev chunks) = Some c"
    by (simp add: find_rev_fold split: option.split)
  finally show ?thesis .
qed

text \<open>
  C24. Writing the embeddings of a module replaces them as a whole. With a service that embeds
  each text by itself (\<open>f\<close>), whatever texts it refuses: when the service accepts the texts the
  call answers 1 and the rows of the module's version are one for each key that occurs among the chunks,
  holding the chunk that comes last with that key and the vector of that chunk's own text; when
  it raises, or there are no chunks, nothing has changed, so that a module with no chunks left
  keeps its old rows: the function returns before the DELETE. It raises exactly when the service
  refuses. All rows of other modules and versions are as before, and the unique key holds.
\<close>
theorem write_module_embeddings_effect:
  assumes "distinct (map (row_key \<circ> er_chunk) table)"
    and "list_all (\<lambda>c. ec_module c = module \<and> ec_odoo_version c = version) chunks"
    and "\<forall>texts vs. emb texts = Inr vs \<longrightarrow> vs = map f texts"
    and "write_module_embeddings emb module version chunks table = (r, table')"
  shows "distinct (map (row_key \<circ> er_chunk) table') \<and>
    (let own = (\<lambda>x. ec_module (er_chunk x) = module \<and> ec_odoo_version (er_chunk x) = version);
         latest = (\<lambda>c. find (\<lambda>x. chunk_key x = chunk_key c) (rev chunks) = Some c) in
     filter (\<lambda>x. \<not> own x) table' = filter (\<lambda>x. \<not> own x) table \<and>
     (if chunks = [] then r = Inr 0 \<and> table' = table
      else \<exists>texts. set texts = ec_content ` {c. latest c} \<and>
        (case emb texts of
           Inl e \<Rightarrow> r = Inl e \<and> table' = table
         | Inr _ \<Rightarrow> r = Inr 1 \<and> set (filter own table') = {\<lparr>er_chunk = c, er_vec = f (ec_content c)\<rparr> | c. latest c})))"
proof -
  let ?own = "\<lambda>x. ec_module (er_chunk x) = module \<and> ec_odoo_version (er_chunk x) = version"
  let ?latest = "\<lambda>c. find (\<lambda>x. chunk_key x = chunk_key c) (rev chunks) = Some c"
  let ?texts = "map ec_content (dedup chunks)"
  have set: "set (dedup chunks) = {c. ?latest c}" using dedup_last by blast
  then have texts: "set ?texts = ec_content ` {c. ?latest c}" by (simp only: set_map)
  show ?thesis
  proof (cases "chunks \<noteq> [] \<and> (\<exists>vs. emb ?texts = Inr vs)")
    case False
    show ?thesis
    proof (cases "chunks = []")
      case True
      then have "table' = table \<and> r = Inr 0" using assms(4) by (simp add: write_module_embeddings_def)
      then show ?thesis using assms(1) True by (simp add: Let_def)
    next
      case ne: False
      then obtain e where e: "emb ?texts = Inl e" using False by (cases "emb ?texts") auto
      then have "table' = table" "r = Inl e" using assms(4) ne by (auto simp: write_module_embeddings_def Let_def)
      then have "\<exists>texts. set texts = ec_content ` {c. ?latest c} \<and>
        (case emb texts of
           Inl e \<Rightarrow> r = Inl e \<and> table' = table
         | Inr _ \<Rightarrow> r = Inr 1 \<and> set (filter ?own table') = {\<lparr>er_chunk = c, er_vec = f (ec_content c)\<rparr> | c. ?latest c})"
        using texts e by (intro exI [of _ ?texts]) simp
      then show ?thesis using assms(1) ne \<open>table' = table\<close> unfolding Let_def by simp
    qed
  next
    case True
    then obtain vs where vs: "chunks \<noteq> []" "emb ?texts = Inr vs" by blast
    then have v: "chunks \<noteq> []" "emb ?texts = Inr (map f ?texts)" using assms(3) by blast+
    define rows where "rows = map (\<lambda>c. \<lparr>er_chunk = c, er_vec = f (ec_content c)\<rparr>) (dedup chunks)"
    define rest where "rest = tdelete ?own table"
    have z: "map (\<lambda>(c, v). \<lparr>er_chunk = c, er_vec = v\<rparr>) (zip (dedup chunks) (map f ?texts)) = rows"
      unfolding rows_def by (rule nth_equalityI) simp_all
    have rw: "map er_chunk rows = dedup chunks" by (simp add: rows_def comp_def)
    then have rc: "list_all ?own rows"
      using dedup_subset [of chunks] assms(2) by (auto simp: list_all_iff simp flip: rw)
    have "distinct (map (row_key \<circ> er_chunk) rows)"
    proof -
      have "map (row_key \<circ> er_chunk) rows = map row_key (dedup chunks)" by (simp flip: rw)
      moreover have "distinct (map row_key (dedup chunks))"
        using dedup_keys [of chunks] by (auto simp: distinct_map row_key_def inj_on_def)
      ultimately show ?thesis by simp
    qed
    moreover have "distinct (map (row_key \<circ> er_chunk) rest)" unfolding rest_def by (rule distinct_map_tdelete [OF assms(1)])
    moreover have "(row_key \<circ> er_chunk) ` set rest \<inter> (row_key \<circ> er_chunk) ` set rows = {}"
      using rc by (auto simp: rest_def set_tdelete list_all_iff row_key_def)
    ultimately have dist: "distinct (map (row_key \<circ> er_chunk) (rest @ rows))" by simp
    have t: "table' = rest @ rows" "r = Inr 1"
      using assms(4) v fold_insert_row [OF dist] z unfolding rest_def by (simp_all add: write_module_embeddings_def Let_def del: map_map)
    have fl: "filter ?own rows = rows" "filter (\<lambda>x. \<not> ?own x) rows = []" "filter ?own rest = []"
      "filter (\<lambda>x. \<not> ?own x) rest = filter (\<lambda>x. \<not> ?own x) table"
      using rc by (simp_all add: rest_def tdelete_def list_all_iff filter_empty_conv)
    have "set rows = {\<lparr>er_chunk = c, er_vec = f (ec_content c)\<rparr> | c. ?latest c}"
      using set by (auto simp: rows_def)
    then have "\<exists>texts. set texts = ec_content ` {c. ?latest c} \<and>
        (case emb texts of
           Inl e \<Rightarrow> r = Inl e \<and> table' = table
         | Inr _ \<Rightarrow> r = Inr 1 \<and> set (filter ?own table') = {\<lparr>er_chunk = c, er_vec = f (ec_content c)\<rparr> | c. ?latest c})"
      using texts v by (intro exI [of _ ?texts]) (simp add: t fl)
    then show ?thesis using dist fl v(1) unfolding Let_def t(1) by simp
  qed
qed

definition ex_chunk :: "string \<Rightarrow> nat \<Rightarrow> string \<Rightarrow> embedding_chunk" where
  "ex_chunk md n content = \<lparr>ec_chunk_type = ''method'', ec_module = md, ec_odoo_version = ''17.0'', ec_entity_name = ''m.f'',
     ec_model_name = None, ec_file_path = ''sale'', ec_chunk_idx = n, ec_content = content\<rparr>"

theorem write_module_embeddings_effect_witness:
  "\<exists>t'. write_module_embeddings (\<lambda>ts. if list_all (\<lambda>t. t \<noteq> []) ts then Inr (map length ts) else Inl ''empty text'')
        ''sale'' ''17.0'' [ex_chunk ''sale'' 0 ''b'', ex_chunk ''sale'' 1 ''ccc'', ex_chunk ''sale'' 0 ''dd'']
        [\<lparr>er_chunk = ex_chunk ''sale'' 7 ''a'', er_vec = 1\<rparr>, \<lparr>er_chunk = ex_chunk ''web'' 0 ''a'', er_vec = 1\<rparr>] = (Inr 1, t') \<and>
    \<lparr>er_chunk = ex_chunk ''sale'' 0 ''dd'', er_vec = 2\<rparr> \<in> set t' \<and>
    \<lparr>er_chunk = ex_chunk ''sale'' 1 ''ccc'', er_vec = 3\<rparr> \<in> set t' \<and>
    \<lparr>er_chunk = ex_chunk ''sale'' 7 ''a'', er_vec = 1\<rparr> \<notin> set t' \<and>
    \<lparr>er_chunk = ex_chunk ''web'' 0 ''a'', er_vec = 1\<rparr> \<in> set t'"
proof -
  define emb :: "string list \<Rightarrow> string + nat list" where "emb = (\<lambda>ts. if list_all (\<lambda>t. t \<noteq> []) ts then Inr (map length ts) else Inl ''empty text'')"
  define chunks where "chunks = [ex_chunk ''sale'' 0 ''b'', ex_chunk ''sale'' 1 ''ccc'', ex_chunk ''sale'' 0 ''dd'']"
  define table where "table = [\<lparr>er_chunk = ex_chunk ''sale'' 7 ''a'', er_vec = 1 :: nat\<rparr>, \<lparr>er_chunk = ex_chunk ''web'' 0 ''a'', er_vec = 1\<rparr>]"
  define w where "w = write_module_embeddings emb ''sale'' ''17.0'' chunks table"
  define own where "own = (\<lambda>x :: nat embedding_row. ec_module (er_chunk x) = ''sale'' \<and> ec_odoo_version (er_chunk x) = ''17.0'')"
  have a: "distinct (map (row_key \<circ> er_chunk) table)"
    "list_all (\<lambda>c. ec_module c = ''sale'' \<and> ec_odoo_version c = ''17.0'') chunks"
    "\<forall>texts vs. emb texts = Inr vs \<longrightarrow> vs = map length texts" "chunks \<noteq> []"
       apply (unfold table_def chunks_def, code_simp, code_simp)
     apply (simp_all add: emb_def)
    done
  have "fst w = Inr 1" unfolding w_def emb_def chunks_def table_def by code_simp
  then have w: "write_module_embeddings emb ''sale'' ''17.0'' chunks table = (Inr 1, snd w)" unfolding w_def by (metis prod.collapse)
  have l: "find (\<lambda>x. chunk_key x = chunk_key (ex_chunk ''sale'' 0 ''dd'')) (rev chunks) = Some (ex_chunk ''sale'' 0 ''dd'')"
    "find (\<lambda>x. chunk_key x = chunk_key (ex_chunk ''sale'' 1 ''ccc'')) (rev chunks) = Some (ex_chunk ''sale'' 1 ''ccc'')"
    "find (\<lambda>x. chunk_key x = chunk_key (ex_chunk ''sale'' 7 ''a'')) (rev chunks) = None"
    unfolding chunks_def by code_simp+
  have o: "own \<lparr>er_chunk = ex_chunk ''sale'' 7 ''a'', er_vec = 1\<rparr>" "\<not> own \<lparr>er_chunk = ex_chunk ''web'' 0 ''a'', er_vec = 1\<rparr>"
    "\<lparr>er_chunk = ex_chunk ''web'' 0 ''a'', er_vec = 1\<rparr> \<in> set table"
    unfolding own_def table_def by code_simp+
  have len: "ec_content (ex_chunk m n s) = s" for m n s by (simp add: ex_chunk_def)
  note E = write_module_embeddings_effect [OF a(1,2,3) w, unfolded Let_def]
  have set: "set (filter own (snd w)) = {\<lparr>er_chunk = c, er_vec = length (ec_content c)\<rparr> | c.
      find (\<lambda>x. chunk_key x = chunk_key c) (rev chunks) = Some c}"
  proof -
    let ?X = "{\<lparr>er_chunk = c, er_vec = length (ec_content c)\<rparr> | c. find (\<lambda>x. chunk_key x = chunk_key c) (rev chunks) = Some c}"
    obtain texts where "case emb texts of Inl e \<Rightarrow> Inr 1 = (Inl e :: string + nat) \<and> snd w = table
        | Inr _ \<Rightarrow> (Inr 1 :: string + nat) = Inr 1 \<and> set (filter own (snd w)) = ?X"
      using E a(4) unfolding own_def by (simp only: if_False) blast
    then show ?thesis by (cases "emb texts") auto
  qed
  have other: "filter (\<lambda>x. \<not> own x) (snd w) = filter (\<lambda>x. \<not> own x) table"
    using E unfolding own_def by blast
  have mem: "x \<in> set (snd w) \<longleftrightarrow> (if own x then x \<in> set (filter own (snd w)) else x \<in> set (filter (\<lambda>x. \<not> own x) (snd w)))" for x by simp
  have "\<lparr>er_chunk = ex_chunk ''sale'' 0 ''dd'', er_vec = 2\<rparr> \<in> set (filter own (snd w))"
    "\<lparr>er_chunk = ex_chunk ''sale'' 1 ''ccc'', er_vec = 3\<rparr> \<in> set (filter own (snd w))"
    "\<lparr>er_chunk = ex_chunk ''sale'' 7 ''a'', er_vec = 1\<rparr> \<notin> set (filter own (snd w))"
    unfolding set using l by (auto simp: len)
  moreover have "\<lparr>er_chunk = ex_chunk ''web'' 0 ''a'', er_vec = 1\<rparr> \<in> set (filter (\<lambda>x. \<not> own x) (snd w))"
    unfolding other using o by simp
  ultimately show ?thesis
    using w o(1,2) unfolding emb_def chunks_def table_def by (intro exI [of _ "snd w"]) (simp only: set_filter mem_Collect_eq, blast)
qed

end
