(* ===== verification/SpecWriter.thy ===== *)
theory SpecWriter
  imports Writer
begin

text \<open>
  The specification layer of the graph: core symbols, lint rules, commands and flags per Odoo
  version and their life-cycle (\<open>writer_neo4j.py\<close>, the methods from \<open>write_core_symbols\<close> on), and
  \<open>index_core\<close> of \<open>src/indexer/pipeline.py\<close> over them. What the parsers of the spec sources return
  is an argument.
\<close>

section \<open>Records\<close>

record lint_rule =
  lr_rule_id :: string
  lr_odoo_version :: string
  lr_kind :: string
  lr_message :: "string option"
  lr_severity :: string
  lr_file_pattern :: "string option"
  lr_fix_template :: "string option"
  lr_core_symbol_qname :: "string option"

record cli_command =
  cc_name :: string
  cc_odoo_version :: string
  cc_description :: "string option"
  cc_file_path :: "string option"

record cli_flag =
  cf_flag_name :: string
  cf_command_name :: string
  cf_odoo_version :: string
  cf_status :: string
  cf_default :: "string option"
  cf_type :: "string option"
  cf_help :: "string option"
  cf_replacement_flag_name :: "string option"
  cf_env_name :: "string option"
  cf_posix_only :: bool

record pattern_example =
  pe_pattern_id :: string
  pe_intent_keywords :: "string list"
  pe_file_ref :: string
  pe_snippet_text :: string
  pe_gotchas :: "string list"
  pe_odoo_version_min :: string
  pe_language :: string
  pe_core_symbol_names :: "string list"

section \<open>Batches\<close>

text \<open>MERGE on the key, then SET, for a new node and an old one alike.\<close>

definition upsert_node :: "string \<Rightarrow> keymap \<Rightarrow> (props \<Rightarrow> props) \<Rightarrow> pgraph \<Rightarrow> pgraph" where
  "upsert_node l ks f g = snd (merge_node l ks f f g)"

definition symbol_key :: "string \<Rightarrow> string \<Rightarrow> keymap" where
  "symbol_key qn v = [(''qualified_name'', GStr qn), (''odoo_version'', GStr v)]"

definition symbol_props :: "core_symbol \<Rightarrow> props \<Rightarrow> props" where
  "symbol_props s p = p(''kind'' := Some (GStr (cs_kind s)), ''signature'' := gstr (cs_signature s),
     ''file_path'' := gstr (cs_file_path s), ''line'' := map_option GInt (cs_line s), ''status'' := Some (GStr (cs_status s)),
     ''replacement_qname'' := gstr (cs_replacement_qname s))"

definition write_core_symbol :: "core_symbol \<Rightarrow> pgraph \<Rightarrow> pgraph" where
  "write_core_symbol s = upsert_node ''CoreSymbol'' (symbol_key (cs_qualified_name s) (cs_odoo_version s)) (symbol_props s)"

definition symbols_at :: "string \<Rightarrow> string \<Rightarrow> pgraph \<Rightarrow> nat list" where
  "symbols_at qn v g = match_nodes (is_node ''CoreSymbol'' (symbol_key qn v)) g"

definition write_replaced_by_edges :: "(string \<times> string) list \<Rightarrow> string \<Rightarrow> string \<Rightarrow> pgraph \<Rightarrow> pgraph" where
  "write_replaced_by_edges replaced from_version to_version g =
     fold (\<lambda>(old_qn, new_qn) g. link ''REPLACED_BY'' (symbols_at old_qn from_version g) (symbols_at new_qn to_version g) g) replaced g"

definition rule_props :: "lint_rule \<Rightarrow> props \<Rightarrow> props" where
  "rule_props r p = p(''kind'' := Some (GStr (lr_kind r)), ''message'' := gstr (lr_message r),
     ''severity'' := Some (GStr (lr_severity r)), ''file_pattern'' := gstr (lr_file_pattern r),
     ''fix_template'' := gstr (lr_fix_template r), ''core_symbol_qname'' := gstr (lr_core_symbol_qname r))"

definition write_lint_rule :: "lint_rule \<Rightarrow> pgraph \<Rightarrow> pgraph" where
  "write_lint_rule r g =
     (let ks = [(''rule_id'', GStr (lr_rule_id r)), (''odoo_version'', GStr (lr_odoo_version r))];
          g = upsert_node ''LintRule'' ks (rule_props r) g
      in case truthy (lr_core_symbol_qname r) of
           None \<Rightarrow> g
         | Some qn \<Rightarrow> link ''CHECKS'' (match_nodes (is_node ''LintRule'' ks) g) (symbols_at qn (lr_odoo_version r) g) g)"

definition command_key :: "string \<Rightarrow> string \<Rightarrow> keymap" where
  "command_key n v = [(''name'', GStr n), (''odoo_version'', GStr v)]"

definition write_cli_command :: "cli_command \<Rightarrow> pgraph \<Rightarrow> pgraph" where
  "write_cli_command c = upsert_node ''CLICommand'' (command_key (cc_name c) (cc_odoo_version c))
     (\<lambda>p. p(''description'' := gstr (cc_description c), ''file_path'' := gstr (cc_file_path c)))"

definition flag_key :: "string \<Rightarrow> string \<Rightarrow> string \<Rightarrow> keymap" where
  "flag_key fn cmd v = [(''flag_name'', GStr fn), (''command_name'', GStr cmd), (''odoo_version'', GStr v)]"

definition flag_props :: "cli_flag \<Rightarrow> props \<Rightarrow> props" where
  "flag_props f p = p(''status'' := Some (GStr (cf_status f)), ''default'' := gstr (cf_default f), ''type'' := gstr (cf_type f),
     ''help'' := gstr (cf_help f), ''replacement_flag_name'' := gstr (cf_replacement_flag_name f),
     ''env_name'' := gstr (cf_env_name f), ''posix_only'' := Some (GBool (cf_posix_only f)))"

definition write_cli_flag :: "cli_flag \<Rightarrow> pgraph \<Rightarrow> pgraph" where
  "write_cli_flag f g =
     (let ks = flag_key (cf_flag_name f) (cf_command_name f) (cf_odoo_version f);
          g = upsert_node ''CLIFlag'' ks (flag_props f) g
      in link ''OF_COMMAND'' (match_nodes (is_node ''CLIFlag'' ks) g)
           (match_nodes (is_node ''CLICommand'' (command_key (cf_command_name f) (cf_odoo_version f))) g) g)"

definition pattern_props :: "pattern_example \<Rightarrow> props \<Rightarrow> props" where
  "pattern_props e p = p(''intent_keywords'' := Some (GList (pe_intent_keywords e)), ''file_ref'' := Some (GStr (pe_file_ref e)),
     ''snippet_text'' := Some (GStr (pe_snippet_text e)), ''gotchas'' := Some (GList (pe_gotchas e)),
     ''odoo_version_min'' := Some (GStr (pe_odoo_version_min e)), ''language'' := Some (GStr (pe_language e)))"

definition write_pattern_example :: "pattern_example \<Rightarrow> pgraph \<Rightarrow> pgraph" where
  "write_pattern_example e g =
     (let ks = [(''pattern_id'', GStr (pe_pattern_id e))];
          g = upsert_node ''PatternExample'' ks (pattern_props e) g
      in fold (\<lambda>cs g. link ''USES_CORE_SYMBOL'' (match_nodes (is_node ''PatternExample'' ks) g)
             (match_nodes (\<lambda>n. is_node ''CoreSymbol'' [(''odoo_version'', GStr (pe_odoo_version_min e))] n \<and>
                (g_props n ''qualified_name'' = Some (GStr cs) \<or> ends_with (g_props n ''qualified_name'') (CHR ''.'' # cs))) g) g)
           (pe_core_symbol_names e) g)"

definition write_cli_flag_replacements :: "(string \<times> string) list \<Rightarrow> string \<Rightarrow> string \<Rightarrow> string \<Rightarrow> pgraph \<Rightarrow> pgraph" where
  "write_cli_flag_replacements replaced command_name from_version to_version g =
     fold (\<lambda>(old_fn, new_fn) g. link ''REPLACED_BY''
         (match_nodes (is_node ''CLIFlag'' (flag_key old_fn command_name from_version)) g)
         (match_nodes (is_node ''CLIFlag'' (flag_key new_fn command_name to_version)) g) g) replaced g"

text \<open>A batch is committed as a whole; without an error the batches together write every item in order.\<close>

definition batched :: "nat \<Rightarrow> ('a \<Rightarrow> pgraph \<Rightarrow> pgraph) \<Rightarrow> 'a list \<Rightarrow> pgraph \<Rightarrow> pgraph" where
  "batched n write items g = fold (fold write) (chunked items n) g"

section \<open>Reading symbols back\<close>

definition str_prop :: "props \<Rightarrow> string \<Rightarrow> string option" where
  "str_prop p k = (case p k of Some (GStr s) \<Rightarrow> Some s | _ \<Rightarrow> None)"

definition or_else :: "string option \<Rightarrow> string \<Rightarrow> string" where
  "or_else s d = (case truthy s of None \<Rightarrow> d | Some x \<Rightarrow> x)"

definition symbol_of :: "props \<Rightarrow> core_symbol" where
  "symbol_of p = \<lparr>cs_qualified_name = or_else (str_prop p ''qualified_name'') [], cs_kind = or_else (str_prop p ''kind'') ''function'',
     cs_odoo_version = or_else (str_prop p ''odoo_version'') [], cs_signature = str_prop p ''signature'',
     cs_file_path = str_prop p ''file_path'', cs_line = (case p ''line'' of Some (GInt i) \<Rightarrow> Some i | _ \<Rightarrow> None),
     cs_status = or_else (str_prop p ''status'') ''stable'', cs_replacement_qname = str_prop p ''replacement_qname''\<rparr>"

definition fetch_core_symbols :: "string \<Rightarrow> pgraph \<Rightarrow> core_symbol list" where
  "fetch_core_symbols v g = map (symbol_of \<circ> g_props) (filter (is_node ''CoreSymbol'' [(''odoo_version'', GStr v)]) (gnodes g))"

section \<open>The life cycle of symbols\<close>

definition mark_symbols :: "string \<Rightarrow> string \<Rightarrow> (string \<times> string) list \<Rightarrow> pgraph \<Rightarrow> pgraph" where
  "mark_symbols property value qns g =
     fold (\<lambda>(qn, v) g. set_nodes (symbols_at qn v g) (\<lambda>p. p(property \<mapsto> GStr value)) g) qns g"

definition write_lifecycle_properties :: "diff_result \<Rightarrow> string \<Rightarrow> string \<Rightarrow> pgraph \<Rightarrow> pgraph" where
  "write_lifecycle_properties diff from_version to_version g = (
     let g = mark_symbols ''added_in'' to_version (map (\<lambda>s. (cs_qualified_name s, cs_odoo_version s)) (dr_added diff)) g;
         g = mark_symbols ''removed_in'' to_version (map (\<lambda>s. (cs_qualified_name s, from_version)) (dr_removed diff)) g
     in mark_symbols ''deprecated_in'' to_version (map (\<lambda>s. (cs_qualified_name s, cs_odoo_version s)) (dr_deprecated diff)) g)"

definition write_spec_metadata :: "string \<Rightarrow> string \<Rightarrow> string \<Rightarrow> pgraph \<Rightarrow> pgraph" where
  "write_spec_metadata kind v curate_status =
     upsert_node ''SpecMetadata'' [(''kind'', GStr kind), (''odoo_version'', GStr v)] (\<lambda>p. p(''curate_status'' \<mapsto> GStr curate_status))"

text \<open>\<open>int(p) for p in current_version.split('.')[:2]\<close>, unpacked into exactly two numbers.\<close>

definition two_ints :: "string \<Rightarrow> (int \<times> int) option" where
  "two_ints v = (case take 2 (split_on (CHR ''.'') v) of
     [a, b] \<Rightarrow> (case (py_int a, py_int b) of (Some i, Some j) \<Rightarrow> Some (i, j) | _ \<Rightarrow> None)
   | _ \<Rightarrow> None)"

definition ver_key :: "string \<Rightarrow> int \<times> int" where
  "ver_key v = (case split_on (CHR ''.'') v of
     [a] \<Rightarrow> (case py_int a of Some i \<Rightarrow> (i, 0) | None \<Rightarrow> (0, 0))
   | a # b # _ \<Rightarrow> (case (py_int a, py_int b) of (Some i, Some j) \<Rightarrow> (i, j) | _ \<Rightarrow> (0, 0))
   | [] \<Rightarrow> (0, 0))"

definition key_less :: "int \<times> int \<Rightarrow> int \<times> int \<Rightarrow> bool" where
  "key_less a b \<longleftrightarrow> fst a < fst b \<or> fst a = fst b \<and> snd a < snd b"

text \<open>\<open>max(candidates, key=...)\<close>: the first of the largest.\<close>

definition first_max :: "('a \<Rightarrow> int \<times> int) \<Rightarrow> 'a list \<Rightarrow> 'a option" where
  "first_max k xs = (case xs of [] \<Rightarrow> None
     | x # rest \<Rightarrow> Some (foldl (\<lambda>m y. if key_less (k m) (k y) then y else m) x rest))"

definition find_previous_indexed_version :: "string \<Rightarrow> pgraph \<Rightarrow> string option" where
  "find_previous_indexed_version current g =
     (case two_ints current of
        None \<Rightarrow> None
      | Some cur_key \<Rightarrow>
          (let versions = remdups (List.map_filter (\<lambda>n. str_prop (g_props n) ''odoo_version'')
                 (filter (\<lambda>n. g_label n = ''CoreSymbol'') (gnodes g)))
           in first_max ver_key (filter (\<lambda>v. v \<noteq> current \<and> key_less (ver_key v) cur_key) versions)))"

text \<open>What the spec parsers find for a version.\<close>

record spec_source =
  sp_symbols :: "core_symbol list"
  sp_tool_symbols :: "core_symbol list"
  sp_rules :: "lint_rule list"
  sp_lint_status :: string
  sp_commands :: "cli_command list"
  sp_flags :: "cli_flag list"
  sp_cli_status :: string

definition merged_symbols :: "spec_source \<Rightarrow> core_symbol list" where
  "merged_symbols sp = sp_symbols sp @
     filter (\<lambda>s. cs_qualified_name s \<notin> cs_qualified_name ` set (sp_symbols sp)) (sp_tool_symbols sp)"

definition index_core :: "(string set \<Rightarrow> string list) \<Rightarrow> nat \<Rightarrow> spec_source \<Rightarrow> string \<Rightarrow> pgraph \<Rightarrow> pgraph" where
  "index_core iter batch_size sp odoo_version g = (
     let symbols = merged_symbols sp;
         g = batched batch_size write_core_symbol symbols g;
         g = batched batch_size write_lint_rule (sp_rules sp) g;
         g = write_spec_metadata ''lint'' odoo_version (sp_lint_status sp) g;
         g = batched batch_size write_cli_command (sp_commands sp) g;
         g = batched batch_size write_cli_flag (sp_flags sp) g;
         g = write_spec_metadata ''cli'' odoo_version (sp_cli_status sp) g
     in case find_previous_indexed_version odoo_version g of
          None \<Rightarrow> g
        | Some previous \<Rightarrow>
           (if previous = [] then g
            else
              let old_symbols = fetch_core_symbols previous g;
                  diff = compute_diff iter old_symbols symbols;
                  g = write_replaced_by_edges (dr_replaced diff) previous odoo_version g
              in write_lifecycle_properties diff previous odoo_version g))"

end
