(* ===== verification/WriterProps.thy ===== *)
theory WriterProps
  imports SpecWriter
begin

text \<open>
  What the writer guarantees of the graph: keys stay unique whatever is written, indexed again,
  deleted or collected, except for views and templates whose base came later; what a deletion
  takes with it; and what can be read back.
\<close>

section \<open>Unique keys\<close>

text \<open>The composite keys of \<open>setup_indexes\<close> that identify a node. Views and templates are not among
  them: see below.\<close>

definition schema :: "(string \<times> string list) list" where
  "schema = [(''Module'', [''name'', ''odoo_version'']), (''Model'', [''name'', ''module'', ''odoo_version'']),
     (''Field'', [''name'', ''model'', ''module'', ''odoo_version'']), (''Method'', [''name'', ''model'', ''module'', ''odoo_version'']),
     (''OWLComp'', [''name'', ''module'', ''odoo_version'']), (''JSPatch'', [''target'', ''patch_name'', ''module'', ''odoo_version'']),
     (''Stylesheet'', [''file_path'', ''module'', ''odoo_version'']), (''CoreSymbol'', [''qualified_name'', ''odoo_version'']),
     (''LintRule'', [''rule_id'', ''odoo_version'']), (''CLICommand'', [''name'', ''odoo_version'']),
     (''CLIFlag'', [''flag_name'', ''command_name'', ''odoo_version'']), (''SpecMetadata'', [''kind'', ''odoo_version'']),
     (''PatternExample'', [''pattern_id''])]"

definition graph_ok :: "pgraph \<Rightarrow> bool" where
  "graph_ok g \<longleftrightarrow> ids_ok g \<and> list_all (\<lambda>(l, K). keyed l K g) schema"

definition fits :: "string \<Rightarrow> keymap \<Rightarrow> (props \<Rightarrow> props) \<Rightarrow> (props \<Rightarrow> props) \<Rightarrow> bool" where
  "fits l ks oc om \<longleftrightarrow> (case map_of schema l of None \<Rightarrow> True | Some K \<Rightarrow> map fst ks = K \<and> keeps K oc \<and> keeps K om)"

lemma distinct_schema: "distinct (map fst schema)" "list_all (\<lambda>(l, K). distinct K) schema"
  by code_simp+

lemma merge_ok:
  assumes "merge_node l ks oc om g = (ids, h)" "graph_ok g" "fits l ks oc om"
  shows "graph_ok h" "set ids \<subseteq> g_id ` set (gnodes h)" "g_id ` set (gnodes g) \<subseteq> g_id ` set (gnodes h)"
proof -
  have h: "h = snd (merge_node l ks oc om g)" "ids = fst (merge_node l ks oc om g)" using assms(1) by simp_all
  have "keyed l' K h" if "(l', K) \<in> set schema" for l' K
  proof (cases "l' = l")
    case True
    then have "map_of schema l = Some K" using that distinct_schema(1) by simp
    then have "map fst ks = K" "keeps K oc" "keeps K om" using assms(3) by (simp_all add: fits_def)
    moreover have "keyed l K g" "distinct K"
      using that True assms(2) distinct_schema(2) by (auto simp: graph_ok_def list_all_iff)
    ultimately show ?thesis unfolding h(1) True by (intro keyed_merge_same)
  next
    case False
    then show ?thesis unfolding h(1) using that assms(2) by (intro keyed_merge_other) (auto simp: graph_ok_def list_all_iff)
  qed
  then show "graph_ok h" using assms(2) by (auto simp: graph_ok_def list_all_iff h(1) ids_ok_merge_node)
  show "set ids \<subseteq> g_id ` set (gnodes h)" unfolding h by (rule merge_node_ids)
  show "g_id ` set (gnodes g) \<subseteq> g_id ` set (gnodes h)" using grows_merge(1) [of g l ks oc om] by (simp add: grows_def h(1))
qed

lemma rels_ok: "graph_ok g \<Longrightarrow> set as \<subseteq> g_id ` set (gnodes g) \<Longrightarrow> set bs \<subseteq> g_id ` set (gnodes g) \<Longrightarrow>
    graph_ok (merge_rels t ks oc om as bs g)"
  by (simp add: graph_ok_def ids_ok_merge_rels)

lemma set_ok:
  assumes "graph_ok g" "\<And>K. map_of schema l = Some K \<Longrightarrow> keeps K f"
    and "\<And>n. n \<in> set (gnodes g) \<Longrightarrow> g_id n \<in> set ids \<Longrightarrow> g_label n = l"
  shows "graph_ok (set_nodes ids f g)"
proof -
  have "keyed l' K (set_nodes ids f g)" if lk: "(l', K) \<in> set schema" for l' K
  proof (cases "l' = l")
    case True
    have "keyed l K g" "keeps K f" using lk True assms(1,2) distinct_schema(1) by (auto simp: graph_ok_def list_all_iff)
    then show ?thesis unfolding True by (rule keyed_set_nodes)
  next
    case False
    then have "of_label l' (set_nodes ids f g) = of_label l' g"
      by (intro of_label_set_nodes_other) (use assms(3) in blast)
    moreover have "keyed l' K g" using lk assms(1) by (auto simp: graph_ok_def list_all_iff)
    ultimately show ?thesis unfolding keyed_def by (simp only:)
  qed
  then show ?thesis using assms(1) by (auto simp: graph_ok_def list_all_iff ids_ok_set_nodes)
qed

lemma detach_ok: "graph_ok g \<Longrightarrow> graph_ok (detach_delete ids g)"
  by (auto simp: graph_ok_def list_all_iff ids_ok_detach keyed_detach)

lemma fold_ok: "(\<And>x g. graph_ok g \<Longrightarrow> graph_ok (f x g)) \<Longrightarrow> graph_ok g \<Longrightarrow> graph_ok (fold f xs g)"
  by (induction xs arbitrary: g) auto

lemma keeps_alt: "keeps K f \<longleftrightarrow> (\<forall>p. list_all (\<lambda>k. f p k = p k) K)"
  by (simp add: keeps_def key_of_def list_all_iff)

lemmas fits_simps = fits_def schema_def keeps_alt set_profile_def union_profile_def module_key_def model_key_def member_key_def
  module_props_def model_created_def model_matched_def placeholder_def field_props_def method_props_def xml_key_def view_props_def
  stub_def comp_key_def comp_props_def patch_key_def patch_props_def sheet_key_def sheet_props_def symbol_key_def symbol_props_def
  rule_props_def command_key_def flag_key_def flag_props_def pattern_props_def

lemma in_ids: "set (match_nodes q g) \<subseteq> g_id ` set (gnodes h)" if "g_id ` set (gnodes g) \<subseteq> g_id ` set (gnodes h)"
  using match_nodes_ids [of q g] that by blast

text \<open>One statement MERGE, MERGE, relationship; and MATCH, MERGE, relationship.\<close>

lemma merge2_ok:
  assumes "graph_ok g" "merge_node l ks oc om g = (as, g1)" "merge_node l' ks' oc' om' g1 = (bs, g2)"
    and "fits l ks oc om" "fits l' ks' oc' om'"
  shows "graph_ok (merge_rels t kt oe me as bs g2)" "graph_ok (merge_rels t kt oe me bs as g2)" "graph_ok g2"
proof -
  note one = merge_ok [OF assms(2,1,4)]
  note two = merge_ok [OF assms(3) one(1) assms(5)]
  have "set as \<subseteq> g_id ` set (gnodes g2)" using one(2) two(3) by blast
  then show "graph_ok (merge_rels t kt oe me as bs g2)" "graph_ok (merge_rels t kt oe me bs as g2)" "graph_ok g2"
    using rels_ok two by simp_all
qed

lemma match_merge_ok:
  assumes "graph_ok g" "merge_node l ks oc om g = (as, h)" "fits l ks oc om"
  shows "graph_ok (merge_rels t kt oe me as (match_nodes q g) h)" "graph_ok (merge_rels t kt oe me (match_nodes q g) as h)"
  using merge_ok [OF assms(2,1,3)] in_ids [of g h q] by (simp_all add: rels_ok)

lemma match_match_ok: "graph_ok g \<Longrightarrow> graph_ok (merge_rels t kt oe me (match_nodes q g) (match_nodes q' g) g)"
  by (simp add: rels_ok in_ids)

lemma write_module_ok: "graph_ok g \<Longrightarrow> graph_ok (write_module ps m g)"
  unfolding write_module_def by (rule merge_ok(1) [OF prod.collapse [symmetric]]) (simp_all add: fits_simps)

lemma write_dep_ok: "graph_ok g \<Longrightarrow> graph_ok (write_dep ps m d g)"
  by (auto simp: write_dep_def Let_def fits_simps split: prod.split intro!: match_merge_ok(2))

lemma write_model_node_ok: "graph_ok g \<Longrightarrow> graph_ok (write_model_node ps m g)"
  by (auto simp: write_model_node_def Let_def fits_simps split: prod.split intro!: merge2_ok(2))

lemma write_inherit_ok: "graph_ok g \<Longrightarrow> graph_ok (write_inherit ps m p g)"
  by (auto simp: write_inherit_def Let_def fits_simps split: prod.split intro!: match_match_ok match_merge_ok(2))

lemma write_delegate_ok: "graph_ok g \<Longrightarrow> graph_ok (write_delegate ps m p g)"
  by (auto simp: write_delegate_def Let_def fits_simps split: prod.split intro!: match_match_ok match_merge_ok(2))

lemma write_field_ok: "graph_ok g \<Longrightarrow> graph_ok (write_field ps m f g)"
  by (auto simp: write_field_def Let_def fits_simps split: prod.split intro!: match_merge_ok(1))

lemma write_method_ok: "graph_ok g \<Longrightarrow> graph_ok (write_method ps m f g)"
proof -
  assume "graph_ok g"
  then have "graph_ok (write_method_node ps m f g)"
    by (auto simp: write_method_node_def Let_def fits_simps split: prod.split intro!: match_merge_ok(1))
  then show ?thesis unfolding write_method_def by (rule fold_ok [rotated]) (simp add: write_symbol_ref_def match_match_ok)
qed

lemma write_model_ok: "graph_ok g \<Longrightarrow> graph_ok (write_model ps m g)"
  unfolding write_model_def Let_def
  by (intro fold_ok) (simp_all add: write_model_node_ok write_inherit_ok write_delegate_ok write_field_ok write_method_ok)

lemma write_parse_result_ok: "graph_ok g \<Longrightarrow> graph_ok (write_parse_result ps r g)"
  unfolding write_parse_result_def Let_def
  by (intro fold_ok) (simp_all add: write_module_ok write_dep_ok write_model_ok)

lemma write_extends_ok: "map_of schema l = None \<Longrightarrow> graph_ok g \<Longrightarrow> graph_ok (write_extends l rel ps x b v g)"
  by (auto simp: write_extends_def Let_def fits_def split: prod.split intro!: match_match_ok match_merge_ok(2))

lemma write_view_ok: "graph_ok g \<Longrightarrow> graph_ok (write_view ps w g)"
proof -
  assume "graph_ok g"
  then have "graph_ok (write_view_node ps w g)"
    by (auto simp: write_view_node_def Let_def fits_simps split: prod.split intro!: merge2_ok(1))
  then show ?thesis unfolding write_view_def Let_def
    by (auto simp: match_match_ok schema_def split: option.split intro!: write_extends_ok)
qed

lemma write_qweb_ok: "graph_ok g \<Longrightarrow> graph_ok (write_qweb ps q g)"
proof -
  assume "graph_ok g"
  then have "graph_ok (write_qweb_node ps q g)"
    by (auto simp: write_qweb_node_def Let_def fits_simps split: prod.split intro!: merge2_ok(1))
  then show ?thesis unfolding write_qweb_def Let_def
    by (auto simp: schema_def split: option.split intro!: write_extends_ok)
qed

lemma write_component_ok: "graph_ok g \<Longrightarrow> graph_ok (write_component ps c g)"
proof -
  assume g: "graph_ok g"
  obtain mods g1 where m: "merge_node ''Module'' (module_key (oc_module c) (oc_odoo_version c)) id id g = (mods, g1)" by fastforce
  obtain cs g2 where o: "merge_node ''OWLComp'' (comp_key c) (\<lambda>p. comp_props c (set_profile ps p)) (\<lambda>p. comp_props c (union_profile ps p)) g1 = (cs, g2)"
    by fastforce
  have "graph_ok (link ''DEFINED_IN'' cs mods g2)" by (rule merge2_ok(2) [OF g m o]) (simp_all add: fits_simps)
  then show ?thesis unfolding write_component_def Let_def m o prod.case
    by (auto simp: match_match_ok split: option.split)
qed

lemma write_patch_ok: "graph_ok g \<Longrightarrow> graph_ok (write_patch ps j g)"
proof -
  assume g: "graph_ok g"
  obtain mods g1 where m: "merge_node ''Module'' (module_key (jp_module j) (jp_odoo_version j)) id id g = (mods, g1)" by fastforce
  obtain js g2 where o: "merge_node ''JSPatch'' (patch_key j) (\<lambda>p. patch_props j (set_profile ps p)) (\<lambda>p. patch_props j (union_profile ps p)) g1 = (js, g2)"
    by fastforce
  have h: "graph_ok (link ''DEFINED_IN'' js mods g2)" by (rule merge2_ok(2) [OF g m o]) (simp_all add: fits_simps)
  obtain phs g3 where p: "merge_node ''OWLComp'' (model_key (jp_target j) UNRESOLVED (jp_odoo_version j)) (stub ps) (union_profile ps)
      (link ''DEFINED_IN'' js mods g2) = (phs, g3)" by fastforce
  have "graph_ok (merge_rels ''PATCHES'' [(''unresolved'', GBool True)] id id (match_nodes q (link ''DEFINED_IN'' js mods g2)) phs g3)" for q
    by (rule match_merge_ok(2) [OF h p]) (simp add: fits_simps)
  then show ?thesis unfolding write_patch_def Let_def m o p prod.case using h by (auto simp: match_match_ok)
qed

lemma write_stylesheet_ok: "graph_ok g \<Longrightarrow> graph_ok (write_stylesheet ps s g)"
proof -
  assume g: "graph_ok g"
  obtain ss g1 where a: "merge_node ''Stylesheet'' (sheet_key s) (\<lambda>p. set_profile ps (sheet_props s p)) (\<lambda>p. union_profile ps (sheet_props s p)) g = (ss, g1)"
    by fastforce
  obtain mods g2 where m: "merge_node ''Module'' (module_key (si_module s) (si_odoo_version s)) (set_profile ps) (union_profile ps) g1 = (mods, g2)" by fastforce
  have "graph_ok (link ''DEFINED_IN'' ss mods g2)" by (rule merge2_ok(1) [OF g a m]) (simp_all add: fits_simps)
  then show ?thesis unfolding write_stylesheet_def Let_def a m prod.case by (intro fold_ok) (simp_all add: match_match_ok)
qed

lemma upsert_ok: "fits l ks f f \<Longrightarrow> graph_ok g \<Longrightarrow> graph_ok (upsert_node l ks f g)"
  unfolding upsert_node_def by (rule merge_ok(1) [OF prod.collapse [symmetric]])

lemma spec_ok:
  "graph_ok g \<Longrightarrow> graph_ok (write_core_symbol s g)"
  "graph_ok g \<Longrightarrow> graph_ok (write_lint_rule r g)"
  "graph_ok g \<Longrightarrow> graph_ok (write_cli_command c g)"
  "graph_ok g \<Longrightarrow> graph_ok (write_cli_flag f g)"
  "graph_ok g \<Longrightarrow> graph_ok (write_pattern_example e g)"
  "graph_ok g \<Longrightarrow> graph_ok (write_spec_metadata k v st g)"
  "graph_ok g \<Longrightarrow> graph_ok (write_replaced_by_edges rp fv tv g)"
  "graph_ok g \<Longrightarrow> graph_ok (write_cli_flag_replacements rp cmd fv tv g)"
proof -
  assume g: "graph_ok g"
  show "graph_ok (write_core_symbol s g)" using g by (simp add: write_core_symbol_def upsert_ok fits_simps)
  show "graph_ok (write_cli_command c g)" using g by (simp add: write_cli_command_def upsert_ok fits_simps)
  show "graph_ok (write_spec_metadata k v st g)" using g by (simp add: write_spec_metadata_def upsert_ok fits_simps)
  have "graph_ok (upsert_node ''LintRule'' [(''rule_id'', GStr (lr_rule_id r)), (''odoo_version'', GStr (lr_odoo_version r))] (rule_props r) g)"
    using g by (intro upsert_ok) (simp add: fits_simps)
  then show "graph_ok (write_lint_rule r g)" by (auto simp: write_lint_rule_def Let_def symbols_at_def match_match_ok split: option.split)
  have "graph_ok (upsert_node ''CLIFlag'' (flag_key (cf_flag_name f) (cf_command_name f) (cf_odoo_version f)) (flag_props f) g)"
    using g by (intro upsert_ok) (simp add: fits_simps)
  then show "graph_ok (write_cli_flag f g)" by (simp add: write_cli_flag_def Let_def match_match_ok)
  have "graph_ok (upsert_node ''PatternExample'' [(''pattern_id'', GStr (pe_pattern_id e))] (pattern_props e) g)"
    using g by (intro upsert_ok) (simp add: fits_simps)
  then show "graph_ok (write_pattern_example e g)" unfolding write_pattern_example_def Let_def by (intro fold_ok) (simp_all add: match_match_ok)
  show "graph_ok (write_replaced_by_edges rp fv tv g)"
    unfolding write_replaced_by_edges_def using g by (intro fold_ok) (auto simp: symbols_at_def match_match_ok)
  show "graph_ok (write_cli_flag_replacements rp cmd fv tv g)"
    unfolding write_cli_flag_replacements_def using g by (intro fold_ok) (auto simp: match_match_ok)
qed

lemma match_label:
  assumes "graph_ok g" "n \<in> set (gnodes g)" "g_id n \<in> set (match_nodes (is_node l ks) g)"
  shows "is_node l ks n"
proof -
  obtain m where "m \<in> set (gnodes g)" "g_id m = g_id n" "is_node l ks m" using assms(3) by (auto simp: set_match_nodes)
  then show ?thesis using assms(1,2) by (metis distinct_col_eq graph_ok_def ids_ok_def)
qed

lemma mark_symbols_ok:
  assumes "graph_ok g" "property \<notin> {''qualified_name'', ''odoo_version''}"
  shows "graph_ok (mark_symbols property value qns g)"
proof -
  have "graph_ok (set_nodes (symbols_at qn v h) (\<lambda>p. p(property \<mapsto> GStr value)) h)" if "graph_ok h" for qn v h
    using that assms(2) match_label [OF that, of _ "''CoreSymbol''" "symbol_key qn v"]
    by (intro set_ok [where l = "''CoreSymbol''"]) (auto simp: schema_def keeps_alt symbols_at_def is_node_def)
  then show ?thesis unfolding mark_symbols_def using assms(1) by (intro fold_ok) auto
qed

lemma batched_ok: "(\<And>x g. graph_ok g \<Longrightarrow> graph_ok (f x g)) \<Longrightarrow> graph_ok g \<Longrightarrow> graph_ok (batched n f xs g)"
  unfolding batched_def by (intro fold_ok)

lemma index_core_ok: "graph_ok g \<Longrightarrow> graph_ok (index_core iter n sp v g)"
  unfolding index_core_def Let_def write_lifecycle_properties_def
  by (auto simp: spec_ok batched_ok mark_symbols_ok split: option.split)

text \<open>Everything that writes the graph.\<close>

datatype graph_op = WriteResults "parse_result list" "string list" | WriteViews "view_parse_result list" "string list"
  | WriteJs "js_graph_result list" "string list" | WriteSheets nat "stylesheet_info list" "string list"
  | IndexCore "string set \<Rightarrow> string list" nat spec_source string | WritePatterns nat "pattern_example list"
  | ReplaceFlags "(string \<times> string) list" string string string
  | DeleteModules string string | CollectGarbage string string "string set"

fun graph_step :: "graph_op \<Rightarrow> pgraph \<Rightarrow> pgraph" where
  "graph_step (WriteResults rs ps) g = write_results rs ps g"
| "graph_step (WriteViews rs ps) g = write_view_results rs ps g"
| "graph_step (WriteJs rs ps) g = write_js_graph_results rs ps g"
| "graph_step (WriteSheets n ss ps) g = write_stylesheets n ss ps g"
| "graph_step (IndexCore iter n sp v) g = index_core iter n sp v g"
| "graph_step (WritePatterns n es) g = batched n write_pattern_example es g"
| "graph_step (ReplaceFlags rp cmd fv tv) g = write_cli_flag_replacements rp cmd fv tv g"
| "graph_step (DeleteModules repo v) g = snd (delete_modules_scoped repo v g)"
| "graph_step (CollectGarbage repo v live) g = snd (gc_stale_modules repo v live g)"

interpretation graph_store: op_store graph_step "\<lambda>_. True" graph_ok
proof unfold_locales
  fix op g
  assume g: "graph_ok g"
  have view: "graph_ok (write_view_parse_result ps r h)" if "graph_ok h" for ps r h
    unfolding write_view_parse_result_def using that by (intro fold_ok) (simp_all add: write_view_ok write_qweb_ok)
  have js: "graph_ok (write_js_graph_result ps r h)" if "graph_ok h" for ps r h
    unfolding write_js_graph_result_def using that by (intro fold_ok) (simp_all add: write_component_ok write_patch_ok)
  show "graph_ok (graph_step op g)"
    using g by (cases op) (auto simp: write_results_def write_view_results_def write_js_graph_results_def write_stylesheets_def
        delete_modules_scoped_def gc_stale_modules_def Let_def view js write_parse_result_ok write_stylesheet_ok index_core_ok
        spec_ok batched_ok detach_ok intro!: fold_ok)
qed

lemma empty_graph_ok: "graph_ok empty_graph"
  by (simp add: graph_ok_def ids_ok_def empty_graph_def keyed_def of_label_def list_all_iff case_prod_unfold)


section \<open>Views whose base comes later\<close>

lemma filter_map_other:
  "(\<And>x. x \<in> set xs \<Longrightarrow> f x = x \<or> \<not> q x \<and> \<not> q (f x)) \<Longrightarrow> filter q (map f xs) = filter q xs"
  by (induction xs) (simp, metis (no_types, lifting) filter.simps(2) list.set_intros list.simps(9))

lemma filter_map_same:
  "(\<And>x. x \<in> set xs \<Longrightarrow> q (f x) = q x \<and> (q x \<or> f x = x)) \<Longrightarrow> filter q (map f xs) = map f (filter q xs)"
  by (induction xs) simp_all

definition upd_node :: "(props \<Rightarrow> props) \<Rightarrow> gnode \<Rightarrow> gnode" where
  "upd_node f n = n\<lparr>g_props := f (g_props n)\<rparr>"

lemma gnodes_merge:
  "gnodes (snd (merge_node l ks oc om g)) =
     (if match_nodes (is_node l ks) g = [] then gnodes g @ [\<lparr>g_id = g_next g, g_label = l, g_props = oc (map_of ks)\<rparr>]
      else map (\<lambda>n. if g_id n \<in> set (match_nodes (is_node l ks) g) then upd_node om n else n) (gnodes g))"
  by (auto simp: merge_node_def create_node_def set_nodes_def tupdate_def upd_node_def split: list.split)

text \<open>A MERGE does not touch the nodes that another pattern \<open>q\<close> matches.\<close>

lemma filter_merge_other:
  assumes "graph_ok g" "\<And>n. is_node l ks n \<Longrightarrow> \<not> q n \<and> \<not> q (upd_node om n)" "\<And>i. \<not> q \<lparr>g_id = i, g_label = l, g_props = oc (map_of ks)\<rparr>"
  shows "filter q (gnodes (snd (merge_node l ks oc om g))) = filter q (gnodes g)"
proof (cases "match_nodes (is_node l ks) g = []")
  case False
  have "filter q (map (\<lambda>n. if g_id n \<in> set (match_nodes (is_node l ks) g) then upd_node om n else n) (gnodes g)) = filter q (gnodes g)"
  proof (rule filter_map_other)
    fix n assume "n \<in> set (gnodes g)"
    then show "(if g_id n \<in> set (match_nodes (is_node l ks) g) then upd_node om n else n) = n \<or>
        \<not> q n \<and> \<not> q (if g_id n \<in> set (match_nodes (is_node l ks) g) then upd_node om n else n)"
      using assms(2) [OF match_label [OF assms(1)]] by simp
  qed
  then show ?thesis using False by (simp add: gnodes_merge)
qed (simp add: gnodes_merge assms(3))

text \<open>On its own pattern it creates the node or updates all of them.\<close>

lemma filter_merge_same:
  assumes "graph_ok g" "\<And>n. is_node l ks n \<Longrightarrow> is_node l ks (upd_node om n)"
    and "\<And>i. is_node l ks \<lparr>g_id = i, g_label = l, g_props = oc (map_of ks)\<rparr>"
  shows "filter (is_node l ks) (gnodes (snd (merge_node l ks oc om g))) =
    (if filter (is_node l ks) (gnodes g) = [] then [\<lparr>g_id = g_next g, g_label = l, g_props = oc (map_of ks)\<rparr>]
     else map (upd_node om) (filter (is_node l ks) (gnodes g)))"
proof (cases "match_nodes (is_node l ks) g = []")
  case True
  then show ?thesis using assms(3) by (simp add: gnodes_merge match_nodes_def)
next
  case False
  let ?f = "\<lambda>n. if g_id n \<in> set (match_nodes (is_node l ks) g) then upd_node om n else n"
  have mem: "g_id n \<in> set (match_nodes (is_node l ks) g) \<longleftrightarrow> is_node l ks n" if "n \<in> set (gnodes g)" for n
    using that match_label [OF assms(1) that, of l ks] by (auto simp: set_match_nodes)
  have "filter (is_node l ks) (map ?f (gnodes g)) = map ?f (filter (is_node l ks) (gnodes g))"
    by (rule filter_map_same) (use mem assms(2) in auto)
  also have "\<dots> = map (upd_node om) (filter (is_node l ks) (gnodes g))" using mem by (simp add: map_eq_conv)
  finally show ?thesis using False by (simp add: gnodes_merge match_nodes_def)
qed

definition views_at :: "string \<Rightarrow> string \<Rightarrow> pgraph \<Rightarrow> gnode list" where
  "views_at xmlid v g = filter (is_node ''View'' (xml_key xmlid v)) (gnodes g)"

lemma views_at_rels [simp]: "views_at x v (merge_rels t ks oc om as bs g) = views_at x v g"
  by (simp add: views_at_def)

lemma view_key_simp: "is_node ''View'' (xml_key x v) n \<longleftrightarrow>
    g_label n = ''View'' \<and> g_props n ''xmlid'' = Some (GStr x) \<and> g_props n ''odoo_version'' = Some (GStr v)"
  by (auto simp: is_node_def has_keys_def xml_key_def)

lemma map_xml_key: "map_of (xml_key x v) = [''xmlid'' \<mapsto> GStr x, ''odoo_version'' \<mapsto> GStr v]"
  by (auto simp: xml_key_def)

lemmas view_simps = view_key_simp view_props_def set_profile_def union_profile_def upd_node_def stub_def map_xml_key

lemma write_view_node_views:
  assumes "graph_ok g"
  shows "views_at x v (write_view_node ps w g) =
    (if x = vi_xmlid w \<and> v = vi_odoo_version w then
       (if views_at x v g = [] then [\<lparr>g_id = g_next g, g_label = ''View'', g_props = view_props w (set_profile ps (map_of (xml_key x v)))\<rparr>]
        else map (upd_node (\<lambda>p. view_props w (union_profile ps p))) (views_at x v g))
     else views_at x v g)"
proof -
  obtain vs g1 where m: "merge_node ''View'' (xml_key (vi_xmlid w) (vi_odoo_version w))
      (\<lambda>p. view_props w (set_profile ps p)) (\<lambda>p. view_props w (union_profile ps p)) g = (vs, g1)" by fastforce
  obtain mods g2 where m2: "merge_node ''Module'' (module_key (vi_module w) (vi_odoo_version w)) id id g1 = (mods, g2)" by fastforce
  have g1: "graph_ok g1" by (rule merge_ok(1) [OF m assms]) (simp add: fits_simps)
  have "views_at x v (write_view_node ps w g) = views_at x v g2" by (simp add: write_view_node_def m m2)
  also have "\<dots> = views_at x v g1"
    using filter_merge_other [OF g1, of "''Module''" "module_key (vi_module w) (vi_odoo_version w)" "is_node ''View'' (xml_key x v)" id id] m2
    by (simp add: views_at_def is_node_def upd_node_def)
  also have "\<dots> = (if x = vi_xmlid w \<and> v = vi_odoo_version w then
       (if views_at x v g = [] then [\<lparr>g_id = g_next g, g_label = ''View'', g_props = view_props w (set_profile ps (map_of (xml_key x v)))\<rparr>]
        else map (upd_node (\<lambda>p. view_props w (union_profile ps p))) (views_at x v g))
     else views_at x v g)"
  proof (cases "x = vi_xmlid w \<and> v = vi_odoo_version w")
    case True
    let ?om = "\<lambda>p. view_props w (union_profile ps p)" and ?oc = "\<lambda>p. view_props w (set_profile ps p)"
    have "is_node ''View'' (xml_key x v) (upd_node ?om n)" if "is_node ''View'' (xml_key x v) n" for n using that by (simp add: view_simps)
    moreover have "is_node ''View'' (xml_key x v) \<lparr>g_id = i, g_label = ''View'', g_props = ?oc (map_of (xml_key x v))\<rparr>" for i by (simp add: view_simps)
    ultimately have "filter (is_node ''View'' (xml_key x v)) (gnodes (snd (merge_node ''View'' (xml_key x v) ?oc ?om g))) =
      (if filter (is_node ''View'' (xml_key x v)) (gnodes g) = [] then [\<lparr>g_id = g_next g, g_label = ''View'', g_props = ?oc (map_of (xml_key x v))\<rparr>]
       else map (upd_node ?om) (filter (is_node ''View'' (xml_key x v)) (gnodes g)))"
      by (rule filter_merge_same [OF assms])
    then show ?thesis using True m by (simp add: views_at_def)
  next
    case False
    then show ?thesis
      using filter_merge_other [OF assms, of "''View''" "xml_key (vi_xmlid w) (vi_odoo_version w)" "is_node ''View'' (xml_key x v)"
          "\<lambda>p. view_props w (union_profile ps p)" "\<lambda>p. view_props w (set_profile ps p)"] m
      by (auto simp: views_at_def view_simps)
  qed
  finally show ?thesis .
qed

lemma write_extends_views:
  assumes "views_at c v g \<noteq> []" "list_all is_unresolved (views_at b v g)"
    and "list_all (\<lambda>n. g_props n ''module'' \<noteq> Some UNRESOLVED) (views_at b v g)"
  shows "\<exists>n. views_at b v (write_extends ''View'' rel ps c b v g) = views_at b v g @ [n] \<and>
     is_unresolved n \<and> g_props n ''module'' = Some UNRESOLVED"
proof -
  let ?ks = "[(''xmlid'', GStr b), (''module'', UNRESOLVED), (''odoo_version'', GStr v)]"
  let ?n = "\<lparr>g_id = g_next g, g_label = ''View'', g_props = stub ps (map_of ?ks)\<rparr>"
  have ks: "is_node ''View'' ?ks n \<longleftrightarrow> is_node ''View'' (xml_key b v) n \<and> g_props n ''module'' = Some UNRESOLVED" for n
    by (auto simp: is_node_def has_keys_def xml_key_def)
  have none: "match_nodes (is_node ''View'' ?ks) g = []"
    using assms(3) by (auto simp: match_nodes_def filter_empty_conv ks views_at_def list_all_iff)
  have es: "match_nodes (is_node ''View'' (xml_key c v)) g \<noteq> []"
    using assms(1) by (simp add: match_nodes_def views_at_def)
  have bs: "match_nodes (\<lambda>n. is_node ''View'' (xml_key b v) n \<and> \<not> is_unresolved n) g = []"
    using assms(2) by (auto simp: match_nodes_def filter_empty_conv views_at_def list_all_iff)
  obtain phs h where m: "merge_node ''View'' ?ks (stub ps) (union_profile ps) g = (phs, h)" by fastforce
  have h: "gnodes h = gnodes g @ [?n]" using m none by (auto simp: merge_node_def create_node_def)
  have "views_at b v (write_extends ''View'' rel ps c b v g) = views_at b v h"
    using es bs m by (simp add: write_extends_def Let_def)
  also have "\<dots> = views_at b v g @ [?n]" by (simp add: views_at_def h view_key_simp stub_def set_profile_def)
  finally show ?thesis by (auto simp: stub_def set_profile_def)
qed

lemma write_view_views:
  assumes "graph_ok g" "vi_inherit_xmlid w = None"
  shows "views_at x v (write_view ps w g) = views_at x v (write_view_node ps w g)"
  using assms by (simp add: write_view_def Let_def)

text \<open>
  A view indexed before its base forks the base. The extension creates a placeholder for the
  missing base under the key (id, module, version); but a view's own key is (id, version), so
  the base, when it is indexed, takes over the placeholder node and stays marked as unresolved;
  and when the extension is indexed again it does not link to the base but creates a second
  node with the base's id and version. (The design says that the real node lives under another
  key than the placeholder, which holds for models, not for views and templates.)
\<close>
theorem late_base_forks:
  assumes "graph_ok g" "views_at b v g = []" "b \<noteq> []" "vi_xmlid w \<noteq> b"
    and "vi_inherit_xmlid w = Some b" "vi_odoo_version w = v"
    and "vi_xmlid w' = b" "vi_odoo_version w' = v" "vi_inherit_xmlid w' = None" "vi_module w' \<noteq> ''__unresolved__''"
  shows "\<exists>real ph. views_at b v (fold (write_view ps) [w, w', w] g) = [real, ph] \<and>
     is_unresolved real \<and> g_props real ''module'' = Some (GStr (vi_module w')) \<and>
     is_unresolved ph \<and> g_props ph ''module'' = Some UNRESOLVED"
proof -
  have node: "views_at (vi_xmlid w) v (write_view_node ps w h) \<noteq> []" "views_at b v (write_view_node ps w h) = views_at b v h"
    if "graph_ok h" for h using write_view_node_views [OF that, of _ v ps w] assms(4,6) by auto
  have child: "\<exists>n. views_at b v (write_view ps w h) = views_at b v h @ [n] \<and> is_unresolved n \<and> g_props n ''module'' = Some UNRESOLVED"
    if h: "graph_ok h" "list_all is_unresolved (views_at b v h)" "list_all (\<lambda>n. g_props n ''module'' \<noteq> Some UNRESOLVED) (views_at b v h)" for h
  proof -
    let ?h = "if vi_model w = [] then write_view_node ps w h
      else link ''TARGETS_MODEL'' (match_nodes (is_node ''View'' (xml_key (vi_xmlid w) v)) (write_view_node ps w h))
        (match_nodes (is_node ''Model'' [(''name'', GStr (vi_model w)), (''odoo_version'', GStr v)]) (write_view_node ps w h)) (write_view_node ps w h)"
    have "views_at x v ?h = views_at x v (write_view_node ps w h)" for x by simp
    then have "\<exists>n. views_at b v (write_extends ''View'' ''INHERITS_VIEW'' ps (vi_xmlid w) b v ?h) = views_at b v h @ [n] \<and>
        is_unresolved n \<and> g_props n ''module'' = Some UNRESOLVED"
      using write_extends_views [of "vi_xmlid w" v ?h b "''INHERITS_VIEW''" ps] node [OF h(1)] h(2,3) by simp
    then show ?thesis using assms(3,5,6) by (simp add: write_view_def Let_def)
  qed
  obtain n where n: "views_at b v (write_view ps w g) = [n]" "is_unresolved n" "g_props n ''module'' = Some UNRESOLVED"
    using child [OF assms(1)] assms(2) by auto
  let ?om = "\<lambda>p. view_props w' (union_profile ps p)"
  have g1: "graph_ok (write_view ps w g)" by (rule write_view_ok [OF assms(1)])
  have g2: "graph_ok (write_view ps w' (write_view ps w g))" by (rule write_view_ok [OF g1])
  have real: "views_at b v (write_view ps w' (write_view ps w g)) = [upd_node ?om n]"
    using write_view_node_views [OF g1, of b v ps w'] n(1) assms(7-9) by (simp add: write_view_views [OF g1 assms(9)])
  have r: "is_unresolved (upd_node ?om n)" "g_props (upd_node ?om n) ''module'' = Some (GStr (vi_module w'))"
    using n(2) by (simp_all add: view_simps)
  obtain ph where "views_at b v (write_view ps w (write_view ps w' (write_view ps w g))) = [upd_node ?om n, ph]"
      "is_unresolved ph" "g_props ph ''module'' = Some UNRESOLVED"
    using child [OF g2] real r assms(10) by (auto simp: UNRESOLVED_def)
  then show ?thesis using r by auto
qed

definition ex_view :: "string \<Rightarrow> string \<Rightarrow> string option \<Rightarrow> view_info" where
  "ex_view x m i = \<lparr>vi_xmlid = x, vi_name = x, vi_model = ''sale.order'', vi_module = m, vi_odoo_version = ''17.0'', vi_view_type = ''form'',
     vi_mode = ''primary'', vi_inherit_xmlid = i, vi_xpaths = [], vi_arch = None, vi_file_path = None\<rparr>"

theorem late_base_forks_witness:
  "length (views_at ''sale.form'' ''17.0''
     (fold (write_view [''viindoo_17'']) [ex_view ''ext.form'' ''ext'' (Some ''sale.form''), ex_view ''sale.form'' ''sale'' None,
        ex_view ''ext.form'' ''ext'' (Some ''sale.form'')] empty_graph)) = 2"
proof -
  have a: "views_at ''sale.form'' ''17.0'' empty_graph = []" "''sale.form'' \<noteq> []" "vi_xmlid (ex_view ''ext.form'' ''ext'' (Some ''sale.form'')) \<noteq> ''sale.form''"
    "vi_inherit_xmlid (ex_view ''ext.form'' ''ext'' (Some ''sale.form'')) = Some ''sale.form''"
    "vi_odoo_version (ex_view ''ext.form'' ''ext'' (Some ''sale.form'')) = ''17.0''" "vi_xmlid (ex_view ''sale.form'' ''sale'' None) = ''sale.form''"
    "vi_odoo_version (ex_view ''sale.form'' ''sale'' None) = ''17.0''" "vi_inherit_xmlid (ex_view ''sale.form'' ''sale'' None) = None"
    "vi_module (ex_view ''sale.form'' ''sale'' None) \<noteq> ''__unresolved__''"
    by code_simp+
  from late_base_forks [OF empty_graph_ok a, of "[''viindoo_17'']"] show ?thesis by auto
qed

section \<open>Reading symbols back\<close>

lemma concat_chunked [simp]: "0 < n \<Longrightarrow> concat (chunked xs n) = xs"
  by (induction xs n rule: chunked.induct) (subst chunked.simps, auto)

lemma batched_fold: "0 < n \<Longrightarrow> batched n f xs g = fold f xs g"
proof -
  have "fold (fold f) xss g = fold f (concat xss) g" for xss by (induction xss arbitrary: g) simp_all
  then show "0 < n \<Longrightarrow> batched n f xs g = fold f xs g" by (simp add: batched_def)
qed

abbreviation symbol_node :: "nat \<Rightarrow> core_symbol \<Rightarrow> gnode" where
  "symbol_node i s \<equiv> \<lparr>g_id = i, g_label = ''CoreSymbol'',
     g_props = symbol_props s (map_of (symbol_key (cs_qualified_name s) (cs_odoo_version s)))\<rparr>"

lemma symbol_of_node:
  assumes "cs_kind s \<noteq> []" "cs_status s \<noteq> []"
  shows "symbol_of (g_props (symbol_node i s)) = s"
  using assms
  by (cases "cs_signature s"; cases "cs_file_path s"; cases "cs_line s"; cases "cs_replacement_qname s")
    (auto simp: symbol_of_def symbol_props_def symbol_key_def str_prop_def or_else_def truthy_def gstr_def split: list.split)

lemma write_new_symbol:
  assumes "\<forall>n \<in> set (gnodes g). g_label n = ''CoreSymbol'' \<and> g_props n ''odoo_version'' = Some (GStr (cs_odoo_version s)) \<longrightarrow>
      g_props n ''qualified_name'' \<noteq> Some (GStr (cs_qualified_name s))"
  shows "gnodes (write_core_symbol s g) = gnodes g @ [symbol_node (g_next g) s]"
proof -
  have "match_nodes (is_node ''CoreSymbol'' (symbol_key (cs_qualified_name s) (cs_odoo_version s))) g = []"
    using assms by (auto simp: match_nodes_def filter_empty_conv is_node_def has_keys_def symbol_key_def)
  then show ?thesis by (simp add: write_core_symbol_def upsert_node_def gnodes_merge)
qed

text \<open>
  The life cycle reads what was written. After the symbols of a version that was not indexed
  before are written, in batches of any size, \<open>fetch_core_symbols\<close> returns exactly
  these symbols, in order, whatever else the graph holds; so the diff of the next version
  compares with what the parser had found.
\<close>
theorem symbols_roundtrip:
  assumes "0 < n" "list_all (\<lambda>s. cs_odoo_version s = v \<and> cs_kind s \<noteq> [] \<and> cs_status s \<noteq> []) ss"
    and "distinct (map cs_qualified_name ss)" "fetch_core_symbols v g = []"
  shows "fetch_core_symbols v (batched n write_core_symbol ss g) = ss"
proof -
  have "\<exists>new. gnodes (fold write_core_symbol ss g) = gnodes g @ new \<and> map (symbol_of \<circ> g_props) new = ss \<and>
      list_all (is_node ''CoreSymbol'' [(''odoo_version'', GStr v)]) new \<and>
      list_all2 (\<lambda>n s. g_props n ''qualified_name'' = Some (GStr (cs_qualified_name s))) new ss"
    using assms(2,3)
  proof (induction ss rule: rev_induct)
    case (snoc s ss)
    have "list_all (\<lambda>s. cs_odoo_version s = v \<and> cs_kind s \<noteq> [] \<and> cs_status s \<noteq> []) ss" "distinct (map cs_qualified_name ss)"
      using snoc.prems by simp_all
    from snoc.IH [OF this] obtain new where new: "gnodes (fold write_core_symbol ss g) = gnodes g @ new" "map (symbol_of \<circ> g_props) new = ss"
        "list_all (is_node ''CoreSymbol'' [(''odoo_version'', GStr v)]) new"
        "list_all2 (\<lambda>n s. g_props n ''qualified_name'' = Some (GStr (cs_qualified_name s))) new ss" by blast
    let ?h = "fold write_core_symbol ss g"
    have s: "cs_odoo_version s = v" "cs_kind s \<noteq> []" "cs_status s \<noteq> []" using snoc.prems(1) by simp_all
    have "\<forall>n \<in> set (gnodes ?h). g_label n = ''CoreSymbol'' \<and> g_props n ''odoo_version'' = Some (GStr (cs_odoo_version s)) \<longrightarrow>
        g_props n ''qualified_name'' \<noteq> Some (GStr (cs_qualified_name s))"
    proof (intro ballI impI)
      fix n assume n: "n \<in> set (gnodes ?h)" "g_label n = ''CoreSymbol'' \<and> g_props n ''odoo_version'' = Some (GStr (cs_odoo_version s))"
      have "n \<notin> set (gnodes g)"
        using assms(4) n(2) s(1) by (auto simp: fetch_core_symbols_def filter_empty_conv is_node_def has_keys_def)
      then have "n \<in> set new" using n(1) new(1) by auto
      then obtain i where i: "i < length new" "new ! i = n" by (auto simp: in_set_conv_nth)
      then have "ss ! i \<in> set ss" "g_props n ''qualified_name'' = Some (GStr (cs_qualified_name (ss ! i)))"
        using new(4) by (auto simp: list_all2_conv_all_nth)
      moreover have "cs_qualified_name (ss ! i) \<noteq> cs_qualified_name s"
        using calculation(1) snoc.prems(2) by (metis distinct_append image_eqI map_append not_distinct_conv_prefix distinct.simps(2) disjoint_insert(1) list.simps(15) list.simps(9) list.set_map)
      ultimately show "g_props n ''qualified_name'' \<noteq> Some (GStr (cs_qualified_name s))" by simp
    qed
    then have w: "gnodes (fold write_core_symbol (ss @ [s]) g) = gnodes g @ new @ [symbol_node (g_next ?h) s]"
      using new(1) by (simp add: write_new_symbol)
    have "is_node ''CoreSymbol'' [(''odoo_version'', GStr v)] (symbol_node (g_next ?h) s)"
      "g_props (symbol_node (g_next ?h) s) ''qualified_name'' = Some (GStr (cs_qualified_name s))"
      using s(1) by (simp_all add: is_node_def has_keys_def symbol_props_def symbol_key_def)
    then show ?case using w new symbol_of_node [OF s(2,3)] by (intro exI [of _ "new @ [symbol_node (g_next ?h) s]"]) (simp add: list_all2_appendI comp_def)
  qed simp
  then obtain new where new: "gnodes (fold write_core_symbol ss g) = gnodes g @ new" "map (symbol_of \<circ> g_props) new = ss"
      "list_all (is_node ''CoreSymbol'' [(''odoo_version'', GStr v)]) new" by blast
  have "filter (is_node ''CoreSymbol'' [(''odoo_version'', GStr v)]) (gnodes g) = []" using assms(4) by (simp add: fetch_core_symbols_def)
  then show ?thesis using new assms(1) by (simp add: fetch_core_symbols_def batched_fold list_all_iff)
qed

section \<open>Deleting\<close>

lemma gnodes_detach: "gnodes (detach_delete ids g) = filter (\<lambda>n. g_id n \<notin> set ids) (gnodes g)"
  by (simp add: detach_delete_def tdelete_def)

lemma in_match:
  assumes "graph_ok g" "n \<in> set (gnodes g)"
  shows "g_id n \<in> set (match_nodes q g) \<longleftrightarrow> q n"
proof
  assume "g_id n \<in> set (match_nodes q g)"
  then obtain m where "m \<in> set (gnodes g)" "g_id m = g_id n" "q m" by (auto simp: set_match_nodes)
  then show "q n" using assms by (metis distinct_col_eq graph_ok_def ids_ok_def)
qed (use assms(2) in \<open>auto simp: set_match_nodes\<close>)

lemma detach_matches: "graph_ok g \<Longrightarrow> gnodes (detach_delete (match_nodes q g) g) = filter (\<lambda>n. \<not> q n) (gnodes g)"
  unfolding gnodes_detach by (rule filter_cong) (simp_all add: in_match)

definition module_in :: "string \<Rightarrow> string \<Rightarrow> gnode \<Rightarrow> bool" where
  "module_in repo v n \<longleftrightarrow> is_node ''Module'' [(''repo'', GStr repo), (''odoo_version'', GStr v)] n"

definition child_in :: "string \<Rightarrow> string \<Rightarrow> pgraph \<Rightarrow> gnode \<Rightarrow> bool" where
  "child_in repo v g n \<longleftrightarrow> g_label n \<in> {''Model'', ''Field'', ''Method'', ''View'', ''QWebTmpl'', ''JSPatch'', ''OWLComp''} \<and>
     g_props n ''odoo_version'' = Some (GStr v) \<and>
     (\<exists>m \<in> set (gnodes g). module_in repo v m \<and> g_props m ''name'' \<noteq> None \<and> g_props n ''module'' = g_props m ''name'')"

text \<open>The relationships of \<open>g\<close> whose two ends are nodes of \<open>g'\<close>.\<close>

definition rels_between :: "pgraph \<Rightarrow> pgraph \<Rightarrow> grel list" where
  "rels_between g' g = filter (\<lambda>e. e_src e \<in> g_id ` set (gnodes g') \<and> e_dst e \<in> g_id ` set (gnodes g')) (grels g)"

lemma grels_detach:
  assumes "graph_ok g"
  shows "grels (detach_delete ids g) = rels_between (detach_delete ids g) g"
proof -
  have "e_src e \<in> g_id ` set (gnodes g) \<and> e_dst e \<in> g_id ` set (gnodes g)" if "e \<in> set (grels g)" for e
    using assms that by (simp add: graph_ok_def ids_ok_def)
  moreover have "g_id ` set (gnodes (detach_delete ids g)) = g_id ` set (gnodes g) - set ids"
    by (auto simp: detach_delete_def set_tdelete)
  ultimately show ?thesis unfolding rels_between_def by (auto simp: detach_delete_def tdelete_def intro!: filter_cong)
qed

lemma rels_between_trans:
  assumes "set (gnodes k) \<subseteq> set (gnodes h)" "grels h = rels_between h g" "grels k = rels_between k h"
  shows "grels k = rels_between k g"
  unfolding assms(3) unfolding rels_between_def [of k] assms(2) using assms(1)
  by (auto simp: rels_between_def intro!: filter_cong)

lemma delete_modules_nodes:
  assumes "graph_ok g" "list_all (\<lambda>n. g_label n = ''Module'' \<longrightarrow> g_props n ''name'' \<noteq> None) (gnodes g)"
    and "delete_modules_scoped repo v g = ((m, c), g')"
  shows "gnodes g' = filter (\<lambda>n. \<not> module_in repo v n \<and> \<not> child_in repo v g n) (gnodes g) \<and>
    m = tcount (module_in repo v) (gnodes g) \<and> c = tcount (child_in repo v g) (gnodes g) \<and> ids_ok g' \<and>
    grels g' = rels_between g' g"
proof -
  let ?mod = "is_node ''Module'' [(''repo'', GStr repo), (''odoo_version'', GStr v)]"
  let ?names = "List.map_filter (\<lambda>n. g_props n ''name'') (filter ?mod (gnodes g))"
  let ?child = "\<lambda>n. g_label n \<in> set CHILD_LABELS \<and> g_props n ''odoo_version'' = Some (GStr v) \<and> g_props n ''module'' \<in> Some ` set ?names"
  have mod: "?mod = module_in repo v" by (simp add: module_in_def fun_eq_iff)
  have "g_props n ''module'' \<in> Some ` set ?names \<longleftrightarrow>
      (\<exists>m \<in> set (gnodes g). module_in repo v m \<and> g_props m ''name'' \<noteq> None \<and> g_props n ''module'' = g_props m ''name'')" for n :: gnode
    by (force simp: in_map_filter mod image_iff)
  then have child: "?child = child_in repo v g" by (auto simp: child_in_def fun_eq_iff CHILD_LABELS_def)
  have named: "g_props n ''name'' \<noteq> None" if "n \<in> set (gnodes g)" "module_in repo v n" for n
    using that assms(2) by (auto simp: list_all_iff module_in_def is_node_def)
  have no_mod: "module_in repo v n \<Longrightarrow> g_label n = ''Module''" for n by (simp add: module_in_def is_node_def)
  have no_child: "child_in repo v g n \<Longrightarrow> g_label n \<in> set CHILD_LABELS" for n by (simp add: child_in_def CHILD_LABELS_def)
  have excl: "\<not> (module_in repo v n \<and> child_in repo v g n)" for n
    using no_mod [of n] no_child [of n] by (auto simp: CHILD_LABELS_def)
  show "gnodes g' = filter (\<lambda>n. \<not> module_in repo v n \<and> \<not> child_in repo v g n) (gnodes g) \<and>
    m = tcount (module_in repo v) (gnodes g) \<and> c = tcount (child_in repo v g) (gnodes g) \<and> ids_ok g' \<and>
    grels g' = rels_between g' g"
  proof (cases "?names = []")
    case True
    then have none: "\<not> module_in repo v n" if "n \<in> set (gnodes g)" for n
      using named [OF that] that by (auto simp: mod filter_empty_conv List.map_filter_def)
    then have nc: "\<not> child_in repo v g n" for n by (auto simp: child_in_def)
    have "g' = g" "m = 0" "c = 0" using assms(3) True by (simp_all add: delete_modules_scoped_def Let_def)
    moreover have "grels g = rels_between g g" using assms(1) by (auto simp: rels_between_def graph_ok_def ids_ok_def intro!: filter_True [symmetric])
    ultimately show ?thesis using none nc assms(1) by (simp add: tcount_def filter_empty_conv graph_ok_def)
  next
    case False
    define h where "h = detach_delete (match_nodes ?child g) g"
    have g1: "gnodes h = filter (\<lambda>n. \<not> child_in repo v g n) (gnodes g)" unfolding h_def child by (rule detach_matches [OF assms(1)])
    have ok1: "graph_ok h" unfolding h_def by (rule detach_ok [OF assms(1)])
    have d: "g' = detach_delete (match_nodes ?mod h) h" "m = length (match_nodes ?mod h)" "c = length (match_nodes ?child g)"
      using assms(3) False by (simp_all add: delete_modules_scoped_def Let_def h_def)
    have "match_nodes ?mod h = match_nodes (module_in repo v) g"
      unfolding match_nodes_def g1 mod filter_filter
      by (rule arg_cong [where f = "map g_id"], rule filter_cong) (use excl in auto)
    then have "m = tcount (module_in repo v) (gnodes g)" using d(2) by (simp add: match_nodes_def tcount_def)
    moreover have "c = tcount (child_in repo v g) (gnodes g)" unfolding d(3) child by (simp add: match_nodes_def tcount_def)
    moreover have "gnodes g' = filter (\<lambda>n. \<not> module_in repo v n \<and> \<not> child_in repo v g n) (gnodes g)"
      unfolding d(1) detach_matches [OF ok1] mod g1 filter_filter by (rule filter_cong) auto
    moreover have "ids_ok g'" using detach_ok [OF ok1] by (simp add: d(1) graph_ok_def)
    moreover have "grels g' = rels_between g' g"
    proof (rule rels_between_trans)
      show "set (gnodes g') \<subseteq> set (gnodes h)" by (auto simp: d(1) detach_delete_def set_tdelete)
      show "grels h = rels_between h g" unfolding h_def by (rule grels_detach [OF assms(1)])
      show "grels g' = rels_between g' h" unfolding d(1) by (rule grels_detach [OF ok1])
    qed
    ultimately show ?thesis by blast
  qed
qed

text \<open>
  C26. What deleting a repository takes with it: exactly its modules of the version and the models,
  fields, methods, views, templates, patches and components that carry the name of one of them
  in that version; the counts that the administrator sees are the numbers of these nodes; the
  relationships that stay are exactly those between two nodes that stay, and none dangles. The
  stylesheets of the modules are not among the deleted nodes: they stay.
\<close>
theorem delete_modules_effect:
  assumes "graph_ok g" "list_all (\<lambda>n. g_label n = ''Module'' \<longrightarrow> g_props n ''name'' \<noteq> None) (gnodes g)"
    and "delete_modules_scoped repo v g = ((m, c), g')"
  shows "gnodes g' = filter (\<lambda>n. \<not> module_in repo v n \<and> \<not> child_in repo v g n) (gnodes g) \<and>
    m = tcount (module_in repo v) (gnodes g) \<and> c = tcount (child_in repo v g) (gnodes g) \<and> ids_ok g' \<and>
    grels g' = filter (\<lambda>e. \<exists>a \<in> set (gnodes g'). \<exists>b \<in> set (gnodes g'). e_src e = g_id a \<and> e_dst e = g_id b) (grels g) \<and>
    filter (\<lambda>n. g_label n = ''Stylesheet'') (gnodes g') = filter (\<lambda>n. g_label n = ''Stylesheet'') (gnodes g)"
proof -
  have "\<not> module_in repo v n \<and> \<not> child_in repo v g n" if "g_label n = ''Stylesheet''" for n
    using that by (auto simp: module_in_def is_node_def child_in_def)
  with delete_modules_nodes [OF assms] show ?thesis by (auto simp: rels_between_def intro!: filter_cong)
qed

definition ex_symbol :: "string \<Rightarrow> core_symbol" where
  "ex_symbol qn = \<lparr>cs_qualified_name = qn, cs_kind = ''class'', cs_odoo_version = ''17.0'', cs_signature = None, cs_file_path = Some ''models.py'',
     cs_line = Some 7, cs_status = ''stable'', cs_replacement_qname = None\<rparr>"

theorem symbols_roundtrip_witness:
  "fetch_core_symbols ''17.0'' (batched 1 write_core_symbol [ex_symbol ''odoo.models.Model'', ex_symbol ''odoo.fields.Char''] empty_graph) =
     [ex_symbol ''odoo.models.Model'', ex_symbol ''odoo.fields.Char'']"
  by (rule symbols_roundtrip) code_simp+

definition ex_indexed :: pgraph where
  "ex_indexed = \<lparr>gnodes =
     [\<lparr>g_id = 0, g_label = ''Module'', g_props = [''name'' \<mapsto> GStr ''sale'', ''odoo_version'' \<mapsto> GStr ''17.0'', ''repo'' \<mapsto> GStr ''shop'']\<rparr>,
      \<lparr>g_id = 1, g_label = ''Model'', g_props = [''name'' \<mapsto> GStr ''sale.order'', ''module'' \<mapsto> GStr ''sale'', ''odoo_version'' \<mapsto> GStr ''17.0'']\<rparr>,
      \<lparr>g_id = 2, g_label = ''Stylesheet'', g_props = [''file_path'' \<mapsto> GStr ''a.css'', ''module'' \<mapsto> GStr ''sale'', ''odoo_version'' \<mapsto> GStr ''17.0'']\<rparr>],
     grels = [\<lparr>e_src = 1, e_type = ''DEFINED_IN'', e_dst = 0, e_props = Map.empty\<rparr>], g_next = 3\<rparr>"

theorem delete_modules_effect_witness:
  "fst (delete_modules_scoped ''shop'' ''17.0'' ex_indexed) = (1, 1) \<and>
   map g_label (gnodes (snd (delete_modules_scoped ''shop'' ''17.0'' ex_indexed))) = [''Stylesheet'']"
proof -
  let ?d = "delete_modules_scoped ''shop'' ''17.0'' ex_indexed"
  have "distinct (map g_label (gnodes ex_indexed))" by code_simp
  then have "m = n" if "m \<in> of_label l ex_indexed" "n \<in> of_label l ex_indexed" for l m n
    using that distinct_col_eq [of g_label "gnodes ex_indexed" m n] by (simp add: of_label_def)
  then have "keyed l K ex_indexed" for l K unfolding keyed_def by blast
  moreover have "ids_ok ex_indexed" by code_simp
  ultimately have ok: "graph_ok ex_indexed" by (simp add: graph_ok_def list_all_iff)
  have n: "list_all (\<lambda>n. g_label n = ''Module'' \<longrightarrow> g_props n ''name'' \<noteq> None) (gnodes ex_indexed)" by code_simp
  have d: "?d = ((fst (fst ?d), snd (fst ?d)), snd ?d)" by simp
  have c: "tcount (module_in ''shop'' ''17.0'') (gnodes ex_indexed) = 1" "tcount (child_in ''shop'' ''17.0'' ex_indexed) (gnodes ex_indexed) = 1"
    "map g_label (filter (\<lambda>n. \<not> module_in ''shop'' ''17.0'' n \<and> \<not> child_in ''shop'' ''17.0'' ex_indexed n) (gnodes ex_indexed)) = [''Stylesheet'']"
    by code_simp+
  note e = delete_modules_effect [OF ok n d]
  have "fst (fst ?d) = 1" "snd (fst ?d) = 1" using e c(1,2) by (simp_all only:)
  moreover have "map g_label (gnodes (snd ?d)) = [''Stylesheet'']" using e c(3) by (simp only:)
  ultimately show ?thesis by (simp only: prod_eq_iff fst_conv snd_conv)
qed

end
