(* ===== verification/IndexState.thy ===== *)
theory IndexState
  imports RepoStore SpecWriter Embeddings
begin

text \<open>
  The state an indexer run works on, and the world it runs in. The three stores are the tables
  of \<open>RepoStore\<close>, the graph and the table of embeddings; the advisory locks of PostgreSQL are
  pairs of a session and a number. What git, the file system, the parsers and the embedding
  service answer is the environment. An operation maps the state to a result, an exception or a
  value, and the state it leaves: what was committed before an exception stays.

  A call of the graph writer commits one transaction after the other; \<open>ev_commits\<close> says after
  how many of them the connection is lost, None that it is not.
\<close>

section \<open>State and environment\<close>

record 'v index_state =
  ix_db :: repo_db
  ix_graph :: pgraph
  ix_table :: "'v embedding_row list"
  ix_locks :: "(int \<times> int) list"

datatype index_exc = NoLocalPath string | StoreError repo_exc | ParserError string | KeyError string | GraphError
  | EmbedError string | IndexerRunning string | NoPassword | ReposFailed "(int \<times> string) list"

datatype graph_call = CallIndexes | CallResults | CallViews | CallJs | CallSheets | CallGc | CallDependents
  | CallSeedRead string | CallPatterns | CallSeedWrite string

record 'v index_env =
  ev_is_dir :: "string \<Rightarrow> bool"
  ev_head :: "string \<Rightarrow> string option"
  ev_is_ancestor :: "string \<Rightarrow> string \<Rightarrow> string \<Rightarrow> bool"
  ev_diff :: "string \<Rightarrow> string \<Rightarrow> string \<Rightarrow> string list option"
  ev_has_manifest :: "string \<Rightarrow> string list \<Rightarrow> bool"
  ev_world :: world
  ev_py :: "module_info \<Rightarrow> string + parse_result"
  ev_xml :: "module_info \<Rightarrow> string + view_info list"
  ev_qweb :: "module_info \<Rightarrow> string + qweb_info list"
  ev_js_graph :: "module_info \<Rightarrow> string + js_graph_result"
  ev_js :: "module_info \<Rightarrow> string + js_chunk list"
  ev_css :: "module_info \<Rightarrow> string + sheet_chunk list \<times> stylesheet_info list"
  ev_scss :: "module_info \<Rightarrow> string + sheet_chunk list \<times> stylesheet_info list"
  ev_less :: "module_info \<Rightarrow> string + sheet_chunk list \<times> stylesheet_info list"
  ev_vector :: bool
  ev_embed :: "(string list \<Rightarrow> string + 'v list) option"
  ev_commits :: "graph_call \<Rightarrow> nat option"
  ev_batch :: nat
  ev_now :: time
  ev_session :: int
  ev_md5 :: "string \<Rightarrow> int"
  ev_password :: bool
  ev_str :: "index_exc \<Rightarrow> string"

type_synonym ('v, 'a) act = "'v index_state \<Rightarrow> (index_exc + 'a) \<times> 'v index_state"

section \<open>Sequencing\<close>

definition ret :: "'a \<Rightarrow> ('v, 'a) act" where
  "ret x s = (Inr x, s)"

definition raise_exc :: "index_exc \<Rightarrow> ('v, 'a) act" where
  "raise_exc e s = (Inl e, s)"

definition andthen :: "('v, 'a) act \<Rightarrow> ('a \<Rightarrow> ('v, 'b) act) \<Rightarrow> ('v, 'b) act" where
  "andthen m f s = (case m s of (Inl e, s) \<Rightarrow> (Inl e, s) | (Inr x, s) \<Rightarrow> f x s)"

primrec each :: "('a \<Rightarrow> 'b \<Rightarrow> ('v, 'b) act) \<Rightarrow> 'a list \<Rightarrow> 'b \<Rightarrow> ('v, 'b) act" where
  "each f [] b = ret b"
| "each f (x # xs) b = andthen (f x b) (each f xs)"

definition on_db :: "'a rio \<Rightarrow> ('v, 'a) act" where
  "on_db f s = (case f (ix_db s) of (r, db) \<Rightarrow> (map_sum StoreError id r, s\<lparr>ix_db := db\<rparr>))"

definition of_parser :: "string + 'a \<Rightarrow> ('v, 'a) act" where
  "of_parser r = (case r of Inl e \<Rightarrow> raise_exc (ParserError e) | Inr x \<Rightarrow> ret x)"

text \<open>A writer method: one transaction per item. A statement of its own (\<open>session.run\<close>).\<close>

definition commit_each :: "'v index_env \<Rightarrow> graph_call \<Rightarrow> ('a \<Rightarrow> pgraph \<Rightarrow> pgraph) \<Rightarrow> 'a list \<Rightarrow> ('v, unit) act" where
  "commit_each env c f xs s =
     (case ev_commits env c of
        None \<Rightarrow> (Inr (), s\<lparr>ix_graph := fold f xs (ix_graph s)\<rparr>)
      | Some k \<Rightarrow> (if length xs \<le> k then Inr () else Inl GraphError, s\<lparr>ix_graph := fold f (take k xs) (ix_graph s)\<rparr>))"

definition on_graph :: "'v index_env \<Rightarrow> graph_call \<Rightarrow> (pgraph \<Rightarrow> 'a \<times> pgraph) \<Rightarrow> ('v, 'a) act" where
  "on_graph env c f s =
     (if ev_commits env c \<noteq> Some 0 then (case f (ix_graph s) of (x, g) \<Rightarrow> (Inr x, s\<lparr>ix_graph := g\<rparr>)) else (Inl GraphError, s))"

text \<open>\<open>s[:n]\<close>, on code points.\<close>

definition clip :: "nat \<Rightarrow> string \<Rightarrow> string" where
  "clip n s = concat (take n (py_chars s))"

section \<open>Advisory locks\<close>

definition try_lock :: "int \<Rightarrow> int \<Rightarrow> (int \<times> int) list \<Rightarrow> bool \<times> (int \<times> int) list" where
  "try_lock session n locks =
     (if \<exists>(s, m) \<in> set locks. m = n \<and> s \<noteq> session then (False, locks) else (True, (session, n) # locks))"

definition unlock :: "int \<Rightarrow> int \<Rightarrow> (int \<times> int) list \<Rightarrow> (int \<times> int) list" where
  "unlock session n locks = remove1 (session, n) locks"

definition profile_lock_id :: "'v index_env \<Rightarrow> string \<Rightarrow> int" where
  "profile_lock_id env name = ev_md5 env (''odoo-semantic-'' @ name) mod 2 ^ 31"

text \<open>The body under the lock; the lock goes when the body ends, by a value or an exception.\<close>

definition with_indexer_lock :: "'v index_env \<Rightarrow> string \<Rightarrow> ('v, 'a) act \<Rightarrow> ('v, 'a) act" where
  "with_indexer_lock env name body s =
     (let n = profile_lock_id env name in
      case try_lock (ev_session env) n (ix_locks s) of
        (False, _) \<Rightarrow> (Inl (IndexerRunning name), s)
      | (True, locks) \<Rightarrow>
          (case body (s\<lparr>ix_locks := locks\<rparr>) of (r, s) \<Rightarrow> (r, s\<lparr>ix_locks := unlock (ev_session env) n (ix_locks s)\<rparr>)))"

text \<open>\<open>indexer_is_running\<close>: acquire, then release.\<close>

definition peek_acquire :: "'v index_env \<Rightarrow> string \<Rightarrow> 'v index_state \<Rightarrow> bool \<times> 'v index_state" where
  "peek_acquire env name s =
     (case try_lock (ev_session env) (profile_lock_id env name) (ix_locks s) of (ok, locks) \<Rightarrow> (ok, s\<lparr>ix_locks := locks\<rparr>))"

definition peek_release :: "'v index_env \<Rightarrow> string \<Rightarrow> bool \<Rightarrow> 'v index_state \<Rightarrow> 'v index_state" where
  "peek_release env name acquired s =
     (if acquired then s\<lparr>ix_locks := unlock (ev_session env) (profile_lock_id env name) (ix_locks s)\<rparr> else s)"

definition indexer_is_running :: "'v index_env \<Rightarrow> string \<Rightarrow> 'v index_state \<Rightarrow> bool \<times> 'v index_state" where
  "indexer_is_running env name s =
     (case peek_acquire env name s of (acquired, s) \<Rightarrow> (\<not> acquired, peek_release env name acquired s))"

section \<open>Laws of sequencing\<close>

lemma andthen_ret [simp]: "andthen (ret x) f = f x"
  by (rule ext) (simp add: andthen_def ret_def)

lemma andthen_Inl: "m s = (Inl e, s') \<Longrightarrow> andthen m f s = (Inl e, s')"
  by (simp add: andthen_def)

lemma andthen_Inr: "m s = (Inr x, s') \<Longrightarrow> andthen m f s = f x s'"
  by (simp add: andthen_def)

lemma andthen_eq_Inr:
  "andthen m f s = (Inr y, s'') \<longleftrightarrow> (\<exists>x s'. m s = (Inr x, s') \<and> f x s' = (Inr y, s''))"
  by (auto simp: andthen_def split: prod.splits sum.splits)

lemma andthen_eq_Inl:
  "andthen m f s = (Inl e, s'') \<longleftrightarrow> m s = (Inl e, s'') \<or> (\<exists>x s'. m s = (Inr x, s') \<and> f x s' = (Inl e, s''))"
  by (auto simp: andthen_def split: prod.splits sum.splits)

text \<open>An operation that leaves a part of the state alone: closed under sequencing.\<close>

definition leaves :: "('v index_state \<Rightarrow> 'p) \<Rightarrow> ('v, 'a) act \<Rightarrow> bool" where
  "leaves part m \<longleftrightarrow> (\<forall>s. part (snd (m s)) = part s)"

lemma leavesD: "leaves part m \<Longrightarrow> m s = (r, s') \<Longrightarrow> part s' = part s"
  by (metis leaves_def snd_conv)

lemma leaves_andthen: "leaves part m \<Longrightarrow> (\<And>x. leaves part (f x)) \<Longrightarrow> leaves part (andthen m f)"
  by (simp add: leaves_def andthen_def split: prod.splits sum.splits) (metis snd_conv)

lemma leaves_each: "(\<And>x b. leaves part (f x b)) \<Longrightarrow> leaves part (each f xs b)"
  by (induction xs arbitrary: b) (simp_all add: leaves_andthen, simp add: leaves_def ret_def)

lemma leaves_basic [simp]: "leaves part (ret x)" "leaves part (raise_exc e)" "leaves part (of_parser r)"
  by (auto simp: leaves_def ret_def raise_exc_def of_parser_def split: sum.splits)

lemma leaves_if: "leaves part m \<Longrightarrow> leaves part n \<Longrightarrow> leaves part (if b then m else n)"
  by simp

lemma leaves_prod: "(\<And>a b. leaves part (f a b)) \<Longrightarrow> leaves part (case x of (a, b) \<Rightarrow> f a b)"
  by (cases x) simp

lemma leaves_stores [simp]:
  "leaves ix_graph (on_db f)" "leaves ix_table (on_db f)" "leaves ix_locks (on_db f)"
  "leaves ix_db (commit_each env c g xs)" "leaves ix_table (commit_each env c g xs)" "leaves ix_locks (commit_each env c g xs)"
  "leaves ix_db (on_graph env c h)" "leaves ix_table (on_graph env c h)" "leaves ix_locks (on_graph env c h)"
  by (auto simp: leaves_def on_db_def commit_each_def on_graph_def split: prod.splits option.splits)

end
