(* ===== verification/Pipeline.thy ===== *)
theory Pipeline
  imports IndexState
begin

text \<open>
  \<open>src/indexer/pipeline.py\<close>: the indexing of one repository, of the repositories of a profile
  and of all profiles (the sequential paths; the parallel ones run the same functions in
  threads), and the catch-up of missing embeddings. Logging, the progress bar and the timers are
  left out; so are reads whose result is only logged.
\<close>

section \<open>Counters and options\<close>

record counters =
  ct_modules :: nat
  ct_views :: nat
  ct_qweb :: nat
  ct_embeddings :: nat
  ct_embed_calls :: nat
  ct_js_patches :: nat
  ct_owl_comps :: nat
  ct_stylesheets :: nat

definition zero_counters :: counters where
  "zero_counters = \<lparr>ct_modules = 0, ct_views = 0, ct_qweb = 0, ct_embeddings = 0, ct_embed_calls = 0, ct_js_patches = 0,
     ct_owl_comps = 0, ct_stylesheets = 0\<rparr>"

definition add_counters :: "counters \<Rightarrow> counters \<Rightarrow> counters" where
  "add_counters a b = \<lparr>ct_modules = ct_modules a + ct_modules b, ct_views = ct_views a + ct_views b,
     ct_qweb = ct_qweb a + ct_qweb b, ct_embeddings = ct_embeddings a + ct_embeddings b,
     ct_embed_calls = ct_embed_calls a + ct_embed_calls b, ct_js_patches = ct_js_patches a + ct_js_patches b,
     ct_owl_comps = ct_owl_comps a + ct_owl_comps b, ct_stylesheets = ct_stylesheets a + ct_stylesheets b\<rparr>"

record index_options =
  op_pg :: bool
  op_full :: bool
  op_gc :: bool
  op_profiles :: "string list"

section \<open>What to index\<close>

datatype run_plan = Unchanged | Since "string option"

text \<open>\<open>last_head\<close> after the incremental check; \<open>Unchanged\<close> is the early return.\<close>

definition plan_repo :: "'v index_env \<Rightarrow> index_options \<Rightarrow> repo \<Rightarrow> ('v, run_plan) act" where
  "plan_repo env opts r =
     (if \<not> op_full opts \<and> op_pg opts then
        andthen (on_db (get_repo_head_sha (r_id r))) (\<lambda>last_head.
          ret (case (truthy last_head, truthy (ev_head env (r_local_path r))) of
                 (Some old, Some new) \<Rightarrow>
                   (if new = old then Unchanged
                    else if \<not> ev_is_ancestor env (r_local_path r) old new then Since None else Since last_head)
               | _ \<Rightarrow> Since last_head))
      else ret (Since None))"

definition repo_registry :: "'v index_env \<Rightarrow> repo \<Rightarrow> string \<Rightarrow> registry" where
  "repo_registry env r version = build_registry (ev_world env) [(r_local_path r, version)]"

definition live_paths :: "registry \<Rightarrow> string set" where
  "live_paths reg = set (concat (map (\<lambda>(v, mods). map (mi_path \<circ> snd) mods) reg))"

definition total_modules :: "registry \<Rightarrow> nat" where
  "total_modules reg = sum_list (map (\<lambda>(v, mods). length mods) reg)"

definition changed_paths :: "'v index_env \<Rightarrow> string \<Rightarrow> string \<Rightarrow> string \<Rightarrow> string set" where
  "changed_paths env local_path old new =
     path_join local_path ` compute_changed_module_paths (ev_has_manifest env local_path) (ev_diff env local_path old new)"

definition filter_registry :: "string set \<Rightarrow> registry \<Rightarrow> registry" where
  "filter_registry changed reg = map (\<lambda>(v, mods). (v, filter_modules_by_changed mods changed)) reg"

text \<open>The two heads when the diff filter applies.\<close>

definition diff_range :: "'v index_env \<Rightarrow> index_options \<Rightarrow> repo \<Rightarrow> string option \<Rightarrow> (string \<times> string) option" where
  "diff_range env opts r last_head =
     (case (truthy last_head, truthy (ev_head env (r_local_path r))) of
        (Some old, Some new) \<Rightarrow> if op_full opts then None else Some (old, new)
      | _ \<Rightarrow> None)"

definition selected_modules :: "'v index_env \<Rightarrow> index_options \<Rightarrow> repo \<Rightarrow> string option \<Rightarrow> registry \<Rightarrow> registry" where
  "selected_modules env opts r last_head reg =
     (case diff_range env opts r last_head of
        None \<Rightarrow> reg
      | Some (old, new) \<Rightarrow> filter_registry (changed_paths env (r_local_path r) old new) reg)"

section \<open>Parsing and embedding\<close>

record artefacts =
  ar_py :: parse_result
  ar_views :: view_parse_result
  ar_js :: js_graph_result
  ar_css :: "sheet_chunk list \<times> stylesheet_info list"
  ar_scss :: "sheet_chunk list \<times> stylesheet_info list"
  ar_less :: "sheet_chunk list \<times> stylesheet_info list"

definition parse_artefacts :: "'v index_env \<Rightarrow> module_info \<Rightarrow> ('v, artefacts) act" where
  "parse_artefacts env info =
     andthen (of_parser (ev_py env info)) (\<lambda>py.
     andthen (of_parser (ev_xml env info)) (\<lambda>views.
     andthen (of_parser (ev_qweb env info)) (\<lambda>qweb.
     andthen (of_parser (ev_js_graph env info)) (\<lambda>js.
     andthen (of_parser (ev_css env info)) (\<lambda>css.
     andthen (of_parser (ev_scss env info)) (\<lambda>scss.
     andthen (of_parser (ev_less env info)) (\<lambda>less.
       ret \<lparr>ar_py = py, ar_views = \<lparr>vp_module = info, vp_views = views, vp_qweb = qweb\<rparr>, ar_js = js,
            ar_css = css, ar_scss = scss, ar_less = less\<rparr>)))))))"

definition sheets_of :: "artefacts \<Rightarrow> stylesheet_info list" where
  "sheets_of a = snd (ar_css a) @ snd (ar_scss a) @ snd (ar_less a)"

definition module_chunks :: "string \<Rightarrow> string \<Rightarrow> artefacts \<Rightarrow> js_chunk list \<Rightarrow> embedding_chunk list" where
  "module_chunks name version a js_chunks =
     make_chunks name version (ar_py a) (Some (ar_views a)) js_chunks @ make_css_chunks (fst (ar_css a)) @
     make_scss_chunks (fst (ar_scss a)) @ make_less_chunks (fst (ar_less a))"

definition store_embeddings :: "(string list \<Rightarrow> string + 'v list) \<Rightarrow> string \<Rightarrow> string \<Rightarrow> embedding_chunk list \<Rightarrow> ('v, nat) act" where
  "store_embeddings emb name version chunks s =
     (case write_module_embeddings emb name version chunks (ix_table s) of (r, t) \<Rightarrow> (map_sum EmbedError id r, s\<lparr>ix_table := t\<rparr>))"

text \<open>\<open>embed_enabled\<close>, with the service.\<close>

definition embedder_of :: "'v index_env \<Rightarrow> index_options \<Rightarrow> (string list \<Rightarrow> string + 'v list) option" where
  "embedder_of env opts = (if op_pg opts \<and> ev_vector env then ev_embed env else None)"

definition embed_module :: "'v index_env \<Rightarrow> index_options \<Rightarrow> string \<Rightarrow> string \<Rightarrow> module_info \<Rightarrow> artefacts \<Rightarrow> ('v, nat \<times> nat) act" where
  "embed_module env opts name version info a =
     (case embedder_of env opts of
        None \<Rightarrow> ret (0, 0)
      | Some emb \<Rightarrow>
         (if version = ''unknown'' then ret (0, 0)
          else andthen (of_parser (ev_js env info)) (\<lambda>js_chunks.
            let chunks = module_chunks name version a js_chunks
            in andthen (store_embeddings emb name version chunks) (\<lambda>calls. ret (length chunks, calls)))))"

record parsed =
  pd_py :: "parse_result list"
  pd_views :: "view_parse_result list"
  pd_js :: "js_graph_result list"
  pd_sheets :: "stylesheet_info list"
  pd_counts :: counters

definition no_results :: parsed where
  "no_results = \<lparr>pd_py = [], pd_views = [], pd_js = [], pd_sheets = [], pd_counts = zero_counters\<rparr>"

definition counts_of :: "artefacts \<Rightarrow> nat \<times> nat \<Rightarrow> counters" where
  "counts_of a = (\<lambda>(n, calls). \<lparr>ct_modules = 1, ct_views = length (vp_views (ar_views a)), ct_qweb = length (vp_qweb (ar_views a)),
     ct_embeddings = n, ct_embed_calls = calls, ct_js_patches = length (jr_patches (ar_js a)),
     ct_owl_comps = length (jr_components (ar_js a)), ct_stylesheets = length (sheets_of a)\<rparr>)"

definition add_results :: "artefacts \<Rightarrow> nat \<times> nat \<Rightarrow> parsed \<Rightarrow> parsed" where
  "add_results a embedded acc = \<lparr>pd_py = pd_py acc @ [ar_py a], pd_views = pd_views acc @ [ar_views a], pd_js = pd_js acc @ [ar_js a],
     pd_sheets = pd_sheets acc @ sheets_of a, pd_counts = add_counters (pd_counts acc) (counts_of a embedded)\<rparr>"

definition parse_module :: "'v index_env \<Rightarrow> index_options \<Rightarrow> string \<Rightarrow> modules \<Rightarrow> string \<Rightarrow> parsed \<Rightarrow> ('v, parsed) act" where
  "parse_module env opts version mods name acc =
     (case dget mods name of
        None \<Rightarrow> raise_exc (KeyError name)
      | Some info \<Rightarrow>
          andthen (parse_artefacts env info) (\<lambda>a.
          andthen (embed_module env opts name version info a) (\<lambda>embedded.
            ret (add_results a embedded acc))))"

definition parse_registry :: "'v index_env \<Rightarrow> index_options \<Rightarrow> registry \<Rightarrow> ('v, parsed) act" where
  "parse_registry env opts reg =
     each (\<lambda>(version, mods). each (parse_module env opts version mods) (topological_sort mods)) reg no_results"

section \<open>Writing\<close>

definition write_parsed :: "'v index_env \<Rightarrow> index_options \<Rightarrow> parsed \<Rightarrow> ('v, unit) act" where
  "write_parsed env opts p =
     andthen (commit_each env CallResults (write_parse_result (op_profiles opts)) (pd_py p)) (\<lambda>_.
     andthen (commit_each env CallViews (write_view_parse_result (op_profiles opts)) (pd_views p)) (\<lambda>_.
     andthen (commit_each env CallJs (write_js_graph_result (op_profiles opts)) (pd_js p)) (\<lambda>_.
       commit_each env CallSheets (fold (write_stylesheet (op_profiles opts))) (chunked (pd_sheets p) (ev_batch env)))))"

definition collect :: "'v index_env \<Rightarrow> index_options \<Rightarrow> repo \<Rightarrow> string \<Rightarrow> string set \<Rightarrow> ('v, nat) act" where
  "collect env opts r version live =
     (if op_gc opts \<and> live \<noteq> {} then on_graph env CallGc (gc_stale_modules (path_name (r_local_path r)) version live) else ret 0)"

definition advance_head :: "'v index_env \<Rightarrow> index_options \<Rightarrow> repo \<Rightarrow> ('v, unit) act" where
  "advance_head env opts r =
     (case truthy (ev_head env (r_local_path r)) of
        None \<Rightarrow> ret ()
      | Some head \<Rightarrow> if op_pg opts then on_db (update_repo_head_sha (ev_now env) (r_id r) head) else ret ())"

section \<open>Propagation\<close>

text \<open>The rows that the pattern (:Module)-[:DEPENDS_ON]->(:Module) of \<open>cross_repo.py\<close> binds; a
  module without a name or version satisfies none of its conditions.\<close>

definition module_row_of :: "gnode \<Rightarrow> module_row option" where
  "module_row_of n =
     (if g_label n = ''Module'' then
        (case (str_prop (g_props n) ''name'', str_prop (g_props n) ''odoo_version'') of
           (Some name, Some v) \<Rightarrow> Some \<lparr>mr_name = name, mr_version = v, mr_repo = str_prop (g_props n) ''repo''\<rparr>
         | _ \<Rightarrow> None)
      else None)"

definition node_by_id :: "pgraph \<Rightarrow> nat \<Rightarrow> gnode option" where
  "node_by_id g i = tselect (\<lambda>n. g_id n = i) (gnodes g)"

definition depends_on_rows :: "pgraph \<Rightarrow> (module_row \<times> module_row) list" where
  "depends_on_rows g = List.map_filter (\<lambda>e. if e_type e = ''DEPENDS_ON'' then
       (case (Option.bind (node_by_id g (e_src e)) module_row_of, Option.bind (node_by_id g (e_dst e)) module_row_of) of
          (Some a, Some b) \<Rightarrow> Some (a, b) | _ \<Rightarrow> None)
     else None) (grels g)"

definition module_names :: "registry \<Rightarrow> string set" where
  "module_names reg = set (concat (map (\<lambda>(v, mods). dkeys mods) reg))"

definition propagate :: "'v index_env \<Rightarrow> index_options \<Rightarrow> repo \<Rightarrow> string \<Rightarrow> string option \<Rightarrow> registry \<Rightarrow> ('v, unit) act" where
  "propagate env opts r version last_head selected =
     (if last_head \<noteq> None \<and> ev_head env (r_local_path r) \<noteq> None \<and> \<not> op_full opts \<and> op_pg opts \<and> module_names selected \<noteq> {} then
        andthen (on_graph env CallDependents (\<lambda>g. (find_dependent_repos (depends_on_rows g) version (module_names selected), g))) (\<lambda>found.
          let dependents = filter (\<lambda>b. b \<noteq> path_name (r_local_path r)) found
          in if dependents = [] then ret ()
             else andthen (on_db (get_repo_ids_by_local_path_basenames dependents)) (\<lambda>ids.
               if ids = [] then ret () else andthen (on_db (reset_head_sha ids)) (\<lambda>_. ret ())))
      else ret ())"

section \<open>One repository\<close>

text \<open>From the parse loop to the end.\<close>

definition index_modules :: "'v index_env \<Rightarrow> index_options \<Rightarrow> repo \<Rightarrow> string \<Rightarrow> string option \<Rightarrow> registry \<Rightarrow> string set \<Rightarrow> ('v, counters) act" where
  "index_modules env opts r version last_head selected live =
     andthen (parse_registry env opts selected) (\<lambda>p.
     andthen (write_parsed env opts p) (\<lambda>_.
     andthen (collect env opts r version live) (\<lambda>_.
     andthen (advance_head env opts r) (\<lambda>_.
     andthen (propagate env opts r version last_head selected) (\<lambda>_.
       ret (pd_counts p))))))"

definition index_repo :: "'v index_env \<Rightarrow> index_options \<Rightarrow> repo \<times> profile \<Rightarrow> ('v, counters) act" where
  "index_repo env opts = (\<lambda>(r, p).
     if \<not> ev_is_dir env (r_local_path r) then raise_exc (NoLocalPath (r_local_path r))
     else andthen (plan_repo env opts r) (\<lambda>plan.
       case plan of
         Unchanged \<Rightarrow> ret zero_counters
       | Since last_head \<Rightarrow>
          (let version = p_version p; reg = repo_registry env r version; selected = selected_modules env opts r last_head reg
           in if diff_range env opts r last_head \<noteq> None \<and> total_modules selected = 0
              then andthen (advance_head env opts r) (\<lambda>_. ret zero_counters)
              else index_modules env opts r version last_head selected (live_paths reg))))"

end
