(* ===== verification/Seeding.thy ===== *)
theory Seeding
  imports IndexState
begin

text \<open>
  \<open>src/indexer/seed_patterns.py\<close>: the pattern catalogue goes into the graph and, embedded, into
  the table of embeddings; two \<open>_SeedMeta\<close> nodes remember the hash of the file that each store was
  seeded from. \<open>run_seed\<close> is \<open>run\<close>, which the pipeline calls, \<open>seed_main\<close> the command (without the
  job row that it reports to). The catalogue file is an argument: its hash and what loading it gives.
\<close>

record seed_file =
  sf_exists :: bool
  sf_sha :: string
  sf_patterns :: "string + pattern_example list"

section \<open>Chunks\<close>

definition pattern_chunk :: "pattern_example \<Rightarrow> embedding_chunk" where
  "pattern_chunk p = \<lparr>ec_chunk_type = ''pattern_example'', ec_module = ''__patterns__'', ec_odoo_version = pe_odoo_version_min p,
     ec_entity_name = pe_language p @ ''__'' @ pe_pattern_id p, ec_model_name = None, ec_file_path = pe_file_ref p, ec_chunk_idx = 0,
     ec_content = join [newline] (pe_snippet_text p # (if pe_gotchas p = [] then [] else ''---'' # pe_gotchas p))\<rparr>"

definition make_pattern_chunks :: "pattern_example list \<Rightarrow> embedding_chunk list" where
  "make_pattern_chunks patterns = map pattern_chunk patterns"

definition is_pattern_row :: "'v embedding_row \<Rightarrow> bool" where
  "is_pattern_row x \<longleftrightarrow> ec_chunk_type (er_chunk x) = ''pattern_example'' \<and> ec_module (er_chunk x) = ''__patterns__''"

text \<open>One transaction: DELETE, then one INSERT of all rows, which PostgreSQL refuses when two of
  them have the same key.\<close>

definition replace_patterns :: "(string list \<Rightarrow> string + 'v list) \<Rightarrow> embedding_chunk list \<Rightarrow> ('v, unit) act" where
  "replace_patterns emb chunks s =
     (case emb (map ec_content chunks) of
        Inl e \<Rightarrow> (Inl (EmbedError e), s)
      | Inr vecs \<Rightarrow>
         (if length vecs < length chunks then (Inl (EmbedError ''list index out of range''), s)
          else if \<not> distinct (map row_key chunks) then (Inl (StoreError DbFailure), s)
          else (Inr (), s\<lparr>ix_table := tdelete is_pattern_row (ix_table s)
                 @ map (\<lambda>(c, v). \<lparr>er_chunk = c, er_vec = v\<rparr>) (zip chunks vecs)\<rparr>)))"

section \<open>Sentinels\<close>

definition seed_meta :: "string \<Rightarrow> pgraph \<Rightarrow> gnode option" where
  "seed_meta key g = tselect (is_node ''_SeedMeta'' [(''key'', GStr key)]) (gnodes g)"

definition stored_sha :: "string \<Rightarrow> pgraph \<Rightarrow> string option" where
  "stored_sha key g =
     (case seed_meta key g of
        Some n \<Rightarrow> str_prop (g_props n) ''sha256''
      | None \<Rightarrow> if key = ''patterns_neo4j'' then Option.bind (seed_meta ''patterns'' g) (\<lambda>n. str_prop (g_props n) ''sha256'') else None)"

definition sentinel_props :: "string \<Rightarrow> time \<Rightarrow> props \<Rightarrow> props" where
  "sentinel_props sha now p = p(''sha256'' \<mapsto> GStr sha, ''updated_at'' \<mapsto> GInt now)"

definition set_sentinel :: "string \<Rightarrow> string \<Rightarrow> time \<Rightarrow> pgraph \<Rightarrow> pgraph" where
  "set_sentinel key sha now = upsert_node ''_SeedMeta'' [(''key'', GStr key)] (sentinel_props sha now)"

definition get_stored_patterns_sha :: "'v index_env \<Rightarrow> string \<Rightarrow> ('v, string option) act" where
  "get_stored_patterns_sha env key = on_graph env (CallSeedRead key) (\<lambda>g. (stored_sha key g, g))"

definition set_stored_patterns_sha :: "'v index_env \<Rightarrow> string \<Rightarrow> string \<Rightarrow> ('v, unit) act" where
  "set_stored_patterns_sha env sha key = on_graph env (CallSeedWrite key) (\<lambda>g. ((), set_sentinel key sha (ev_now env) g))"

section \<open>Loading and writing\<close>

definition load_patterns :: "seed_file \<Rightarrow> string option \<Rightarrow> ('v, pattern_example list) act" where
  "load_patterns f version_filter =
     andthen (of_parser (sf_patterns f)) (\<lambda>raw.
       ret (case truthy version_filter of None \<Rightarrow> raw | Some v \<Rightarrow> filter (\<lambda>p. pe_odoo_version_min p = v) raw))"

definition write_patterns :: "'v index_env \<Rightarrow> pattern_example list \<Rightarrow> ('v, unit) act" where
  "write_patterns env patterns = commit_each env CallPatterns (fold write_pattern_example) (chunked patterns 200)"

definition seed_graph :: "'v index_env \<Rightarrow> seed_file \<Rightarrow> pattern_example list \<Rightarrow> ('v, unit) act" where
  "seed_graph env f patterns =
     andthen (write_patterns env patterns) (\<lambda>_. set_stored_patterns_sha env (sf_sha f) ''patterns_neo4j'')"

definition seed_vectors :: "'v index_env \<Rightarrow> seed_file \<Rightarrow> (string list \<Rightarrow> string + 'v list) \<Rightarrow> pattern_example list \<Rightarrow> ('v, unit) act" where
  "seed_vectors env f emb patterns =
     andthen (replace_patterns emb (make_pattern_chunks patterns)) (\<lambda>_. set_stored_patterns_sha env (sf_sha f) ''patterns_pgvector'')"

record seed_summary =
  ss_patterns :: nat
  ss_embeddings :: nat
  ss_skipped :: bool

definition skipped :: seed_summary where
  "skipped = \<lparr>ss_patterns = 0, ss_embeddings = 0, ss_skipped = True\<rparr>"

text \<open>\<open>neo4j_needs_update\<close> and \<open>pgvector_needs_update\<close>.\<close>

definition needs_update :: "'v index_env \<Rightarrow> seed_file \<Rightarrow> bool \<Rightarrow> ('v, bool \<times> bool) act" where
  "needs_update env f force =
     (if force then ret (True, ev_embed env \<noteq> None)
      else andthen (get_stored_patterns_sha env ''patterns_neo4j'') (\<lambda>stored_neo4j.
        if ev_embed env = None then ret (stored_neo4j \<noteq> Some (sf_sha f), False)
        else andthen (get_stored_patterns_sha env ''patterns_pgvector'') (\<lambda>stored_pgvec.
          ret (stored_neo4j \<noteq> Some (sf_sha f), stored_pgvec \<noteq> Some (sf_sha f)))))"

definition run_seed :: "'v index_env \<Rightarrow> seed_file \<Rightarrow> bool \<Rightarrow> string option \<Rightarrow> ('v, seed_summary) act" where
  "run_seed env f force version_filter =
     (if \<not> sf_exists f then ret skipped
      else andthen (needs_update env f force) (\<lambda>(neo4j_needs, pgvector_needs).
        if \<not> neo4j_needs \<and> \<not> pgvector_needs then ret skipped
        else andthen (load_patterns f version_filter) (\<lambda>patterns.
          andthen (if neo4j_needs then seed_graph env f patterns else ret ()) (\<lambda>_.
          andthen (case ev_embed env of Some emb \<Rightarrow> if pgvector_needs then seed_vectors env f emb patterns else ret () | None \<Rightarrow> ret ()) (\<lambda>_.
            ret \<lparr>ss_patterns = (if neo4j_needs then length patterns else 0),
                 ss_embeddings = (if pgvector_needs then length patterns else 0), ss_skipped = False\<rparr>)))))"

section \<open>The command\<close>

text \<open>The gate of the command: True when there is nothing to do. Without a password there is no writer.\<close>

definition seed_gate :: "'v index_env \<Rightarrow> seed_file \<Rightarrow> bool \<Rightarrow> bool \<Rightarrow> ('v, bool) act" where
  "seed_gate env f no_embed force =
     (if force \<or> \<not> ev_password env then ret False
      else andthen (get_stored_patterns_sha env ''patterns_neo4j'') (\<lambda>neo4j_sha.
        if no_embed then ret (neo4j_sha = Some (sf_sha f))
        else andthen (get_stored_patterns_sha env ''patterns_pgvector'') (\<lambda>pgvec_sha.
          ret (neo4j_sha = Some (sf_sha f) \<and> pgvec_sha = Some (sf_sha f)))))"

definition seed_main :: "'v index_env \<Rightarrow> seed_file \<Rightarrow> (string list \<Rightarrow> string + 'v list) \<Rightarrow> string option \<Rightarrow> bool \<Rightarrow> bool \<Rightarrow> ('v, int) act" where
  "seed_main env f emb version no_embed force =
     (if \<not> sf_exists f then ret 2
      else andthen (seed_gate env f no_embed force) (\<lambda>unchanged.
        if unchanged then ret 0
        else andthen (load_patterns f version) (\<lambda>patterns.
          if patterns = [] then ret 0
          else if \<not> ev_password env then raise_exc NoPassword
          else andthen (on_graph env CallIndexes (\<lambda>g. ((), g))) (\<lambda>_.
               andthen (seed_graph env f patterns) (\<lambda>_.
                 if no_embed then ret 0 else andthen (seed_vectors env f emb patterns) (\<lambda>_. ret 0))))))"

end
