(* ===== verification/PipelineRuns.thy ===== *)
theory PipelineRuns
  imports Pipeline Seeding "HOL-Library.List_Lexorder" "HOL-Library.Char_ord"
begin

text \<open>
  The runs of \<open>src/indexer/pipeline.py\<close> over many repositories: \<open>index_profile\<close> and \<open>index_all\<close>
  (one after the other; of the parallel paths, how the outcomes of the threads are put
  together), the catch-up of missing embeddings and the audit of a profile. A run over a profile is an
  option: None says that the query for the profile's ancestors does not return.
\<close>

section \<open>A profile\<close>

text \<open>The totals of a run leave two counters of a repository out.\<close>

definition totalled :: "counters \<Rightarrow> counters" where
  "totalled c = c\<lparr>ct_embed_calls := 0, ct_stylesheets := 0\<rparr>"

type_synonym loop_state = "counters \<times> (int \<times> string) list"

definition index_one :: "'v index_env \<Rightarrow> index_options \<Rightarrow> repo \<times> profile \<Rightarrow> loop_state \<Rightarrow> ('v, loop_state) act" where
  "index_one env opts rp acc s =
     (let i = r_id (fst rp) in
      case andthen (index_repo env opts rp) (\<lambda>c.
             andthen (on_db (update_repo_status (ev_now env) i ''indexed'' None)) (\<lambda>_. ret c)) s of
        (Inr c, s) \<Rightarrow> (Inr (add_counters (fst acc) (totalled c), snd acc), s)
      | (Inl e, s) \<Rightarrow>
          andthen (on_db (update_repo_status (ev_now env) i ''error'' (Some (clip 500 (ev_str env e))))) (\<lambda>_.
            ret (fst acc, snd acc @ [(i, clip 200 (ev_str env e))])) s)"

definition index_loop :: "'v index_env \<Rightarrow> index_options \<Rightarrow> (repo \<times> profile) list \<Rightarrow> ('v, loop_state) act" where
  "index_loop env opts rps = each (index_one env opts) rps (zero_counters, [])"

definition best_effort :: "('v, 'a) act \<Rightarrow> ('v, unit) act" where
  "best_effort m s = (Inr (), snd (m s))"

definition profile_body :: "'v index_env \<Rightarrow> index_options \<Rightarrow> seed_file \<Rightarrow> (repo \<times> profile) list \<Rightarrow> ('v, counters) act" where
  "profile_body env opts f rps =
     (if \<not> ev_password env then raise_exc NoPassword
      else andthen (on_graph env CallIndexes (\<lambda>g. ((), g))) (\<lambda>_.
           andthen (index_loop env opts rps) (\<lambda>(totals, failed).
             if failed \<noteq> [] then raise_exc (ReposFailed failed)
             else andthen (best_effort (run_seed env f False None)) (\<lambda>_. ret totals))))"

definition run_options :: "bool \<Rightarrow> bool \<Rightarrow> string list \<Rightarrow> index_options" where
  "run_options full_reindex gc ancestor_profiles =
     \<lparr>op_pg = True, op_full = full_reindex, op_gc = gc, op_profiles = ancestor_profiles\<rparr>"

definition index_profile :: "'v index_env \<Rightarrow> seed_file \<Rightarrow> bool \<Rightarrow> bool \<Rightarrow> string \<Rightarrow> 'v index_state
     \<Rightarrow> ((index_exc + counters) \<times> 'v index_state) option" where
  "index_profile env f full_reindex gc name s =
     (case on_db (get_repos_for_profile name) s of
        (Inl e, s) \<Rightarrow> Some (Inl e, s)
      | (Inr rps, s) \<Rightarrow>
         (if rps = [] then Some (Inr zero_counters, s)
          else Option.bind (get_ancestor_profile_names name (ix_db s)) (\<lambda>r.
            case r of
              Inl e \<Rightarrow> Some (Inl (StoreError e), s)
            | Inr names \<Rightarrow>
                Some (with_indexer_lock env name
                  (profile_body env (run_options full_reindex gc (if names = [] then [name] else names)) f rps) s))))"

text \<open>The parallel path: the futures in the order in which they complete.\<close>

definition gather_repos :: "'v index_env \<Rightarrow> (int \<times> (index_exc + counters)) list \<Rightarrow> index_exc + counters" where
  "gather_repos env futures =
     (let failed = List.map_filter (\<lambda>(i, r). case r of Inl e \<Rightarrow> Some (i, clip 200 (ev_str env e)) | Inr _ \<Rightarrow> None) futures;
          totals = fold (\<lambda>(i, r) acc. case r of Inl _ \<Rightarrow> acc | Inr c \<Rightarrow> add_counters acc (totalled c)) futures zero_counters
      in if failed = [] then Inr totals else Inl (ReposFailed failed))"

section \<open>All profiles\<close>

record all_summary =
  as_ok :: nat
  as_failed :: "string list"
  as_counts :: counters

definition no_profiles :: all_summary where
  "no_profiles = \<lparr>as_ok = 0, as_failed = [], as_counts = zero_counters\<rparr>"

definition add_profile_result :: "string \<Rightarrow> index_exc + counters \<Rightarrow> all_summary \<Rightarrow> all_summary" where
  "add_profile_result name r acc =
     (case r of Inl _ \<Rightarrow> acc\<lparr>as_failed := as_failed acc @ [name]\<rparr>
              | Inr c \<Rightarrow> acc\<lparr>as_ok := as_ok acc + 1, as_counts := add_counters (as_counts acc) c\<rparr>)"

primrec index_profiles :: "'v index_env \<Rightarrow> seed_file \<Rightarrow> bool \<Rightarrow> bool \<Rightarrow> string list \<Rightarrow> all_summary \<Rightarrow> 'v index_state
     \<Rightarrow> (all_summary \<times> 'v index_state) option" where
  "index_profiles env f full gc [] acc s = Some (acc, s)"
| "index_profiles env f full gc (name # names) acc s =
     Option.bind (index_profile env f full gc name s) (\<lambda>(r, s).
       index_profiles env f full gc names (add_profile_result name r acc) s)"

definition index_all :: "'v index_env \<Rightarrow> seed_file \<Rightarrow> bool \<Rightarrow> bool \<Rightarrow> 'v index_state
     \<Rightarrow> ((index_exc + all_summary) \<times> 'v index_state) option" where
  "index_all env f full_reindex gc s =
     (case on_db list_profiles s of
        (Inl e, s) \<Rightarrow> Some (Inl e, s)
      | (Inr ps, s) \<Rightarrow> map_option (\<lambda>(acc, s). (Inr acc, s)) (index_profiles env f full_reindex gc (map p_name ps) no_profiles s))"

text \<open>The parallel path: \<open>first_exc\<close> is raised after all futures are done.\<close>

definition gather_profiles :: "(string \<times> (index_exc + counters)) list \<Rightarrow> index_exc + all_summary" where
  "gather_profiles futures =
     (case List.map_filter (\<lambda>(_, r). case r of Inl e \<Rightarrow> Some e | Inr _ \<Rightarrow> None) futures of
        e # _ \<Rightarrow> Inl e
      | [] \<Rightarrow> Inr (fold (\<lambda>(name, r). add_profile_result name r) futures no_profiles))"

section \<open>Missing embeddings\<close>

text \<open>Module nodes of a version that a profile sees: their names, and the count of rows per module.\<close>

definition profile_modules :: "string \<Rightarrow> string \<Rightarrow> pgraph \<Rightarrow> gnode list" where
  "profile_modules version name g =
     filter (\<lambda>n. is_node ''Module'' [(''odoo_version'', GStr version)] n \<and> name \<in> set (profile_of (g_props n))) (gnodes g)"

definition embedding_count :: "string \<Rightarrow> string \<Rightarrow> 'v embedding_row list \<Rightarrow> nat" where
  "embedding_count version module t = tcount (\<lambda>x. ec_odoo_version (er_chunk x) = version \<and> ec_module (er_chunk x) = module) t"

definition modules_map :: "registry \<Rightarrow> modules" where
  "modules_map reg = fold (\<lambda>(v, mods) d. fold (\<lambda>(n, m). dset n m) mods d) reg []"

record reembed_summary =
  re_checked :: nat
  re_reembedded :: nat
  re_calls :: nat

text \<open>\<open>module_chunks\<close> of the freshly parsed module: what is inside the try block before the write.\<close>

definition reparse :: "'v index_env \<Rightarrow> string \<Rightarrow> string \<Rightarrow> module_info \<Rightarrow> ('v, embedding_chunk list) act" where
  "reparse env name version info =
     andthen (of_parser (ev_py env info)) (\<lambda>py.
     andthen (of_parser (ev_xml env info)) (\<lambda>views.
     andthen (of_parser (ev_qweb env info)) (\<lambda>qweb.
     andthen (of_parser (ev_js env info)) (\<lambda>js_chunks.
     andthen (of_parser (ev_css env info)) (\<lambda>css.
     andthen (of_parser (ev_scss env info)) (\<lambda>scss.
     andthen (of_parser (ev_less env info)) (\<lambda>less.
       ret (make_chunks name version py (Some \<lparr>vp_module = info, vp_views = views, vp_qweb = qweb\<rparr>) js_chunks @
            make_css_chunks (fst css) @ make_scss_chunks (fst scss) @ make_less_chunks (fst less)))))))))"

text \<open>One row: \<open>counts\<close> were read before the loop over the rows; an exception skips the module.\<close>

definition reembed_module :: "'v index_env \<Rightarrow> (string list \<Rightarrow> string + 'v list) \<Rightarrow> string \<Rightarrow> modules \<Rightarrow> (string \<Rightarrow> nat) \<Rightarrow> string
     \<Rightarrow> reembed_summary \<Rightarrow> ('v, reembed_summary) act" where
  "reembed_module env emb version mods counts name acc s =
     (let acc = acc\<lparr>re_checked := re_checked acc + 1\<rparr> in
      if 0 < counts name then (Inr acc, s)
      else case dget mods name of
        None \<Rightarrow> (Inr acc, s)
      | Some info \<Rightarrow>
         (case reparse env name version info s of
            (Inl _, s) \<Rightarrow> (Inr acc, s)
          | (Inr chunks, s) \<Rightarrow>
             (if chunks = [] then (Inr acc, s)
              else (case store_embeddings emb name version chunks s of
                      (Inl _, s) \<Rightarrow> (Inr acc, s)
                    | (Inr calls, s) \<Rightarrow> (Inr (acc\<lparr>re_reembedded := re_reembedded acc + 1, re_calls := re_calls acc + calls\<rparr>), s)))))"

definition reembed_repo :: "'v index_env \<Rightarrow> (string list \<Rightarrow> string + 'v list) \<Rightarrow> string \<Rightarrow> repo \<times> profile \<Rightarrow> reembed_summary
     \<Rightarrow> ('v, reembed_summary) act" where
  "reembed_repo env emb name = (\<lambda>(r, p) acc s.
     if \<not> ev_is_dir env (r_local_path r) then (Inr acc, s)
     else
       let version = p_version p;
           names = List.map_filter (\<lambda>n. str_prop (g_props n) ''name'') (profile_modules version name (ix_graph s));
           mods = modules_map (repo_registry env r version);
           counts = (\<lambda>m. embedding_count version m (ix_table s))
       in if ev_commits env CallDependents = Some 0 then (Inl GraphError, s)
          else each (reembed_module env emb version mods counts) names acc s)"

definition reembed_stubs_for_profile :: "'v index_env \<Rightarrow> (string list \<Rightarrow> string + 'v list) \<Rightarrow> string \<Rightarrow> ('v, reembed_summary) act" where
  "reembed_stubs_for_profile env emb name =
     (let none = \<lparr>re_checked = 0, re_reembedded = 0, re_calls = 0\<rparr> in
      if \<not> ev_vector env then ret none
      else andthen (on_db (get_repos_for_profile name)) (\<lambda>rps.
        if rps = [] then ret none
        else if \<not> ev_password env then raise_exc NoPassword
        else each (reembed_repo env emb name) rps none))"

section \<open>Audit\<close>

record audit_row =
  au_module :: string
  au_version :: string
  au_models :: nat
  au_fields :: nat
  au_methods :: nat
  au_views :: nat
  au_embeddings :: nat

definition count_of :: "string \<Rightarrow> string \<Rightarrow> string \<Rightarrow> pgraph \<Rightarrow> nat" where
  "count_of label module version g =
     length (filter (is_node label [(''module'', GStr module), (''odoo_version'', GStr version)]) (gnodes g))"

definition audit_module :: "'v index_env \<Rightarrow> 'v index_state \<Rightarrow> string \<Rightarrow> string \<Rightarrow> audit_row" where
  "audit_module env s version name =
     (let g = ix_graph s in
      \<lparr>au_module = name, au_version = version, au_models = count_of ''Model'' name version g, au_fields = count_of ''Field'' name version g,
       au_methods = count_of ''Method'' name version g, au_views = count_of ''View'' name version g,
       au_embeddings = (if ev_vector env then embedding_count version name (ix_table s) else 0)\<rparr>)"

text \<open>\<open>results.sort(key=lambda r: (r["odoo_version"], r["module"]))\<close> as two stable sorts.\<close>

definition audit_repo_for_profile :: "'v index_env \<Rightarrow> string \<Rightarrow> ('v, audit_row list) act" where
  "audit_repo_for_profile env name =
     andthen (on_db (get_repos_for_profile name)) (\<lambda>rps.
       if rps = [] then ret []
       else if \<not> ev_password env then raise_exc NoPassword
       else (\<lambda>s. if ev_commits env CallDependents = Some 0 then (Inl GraphError, s)
             else (Inr (sort_key au_version (sort_key au_module (concat (map (\<lambda>version.
                   map (audit_module env s version)
                     (List.map_filter (\<lambda>n. str_prop (g_props n) ''name'') (profile_modules version name (ix_graph s))))
                   (remdups (map (p_version \<circ> snd) rps)))))), s)))"

end
