(* ===== verification/PipelineProps.thy ===== *)
theory PipelineProps
  imports PipelineRuns WriterProps RepoProps "HOL-Library.Sublist"
begin

text \<open>
  What an indexer run guarantees: the indexed commit of a repository moves only after everything
  of it is in the graph, and what it does not guarantee: the propagation to dependent repositories
  after a failure, and the collection of stale modules.
\<close>

section \<open>What each phase touches\<close>

lemma leaves_parse_module: "leaves ix_db (parse_module env opts v mods n acc)" "leaves ix_graph (parse_module env opts v mods n acc)"
proof -
  have e: "leaves ix_db (store_embeddings emb n v cs)" "leaves ix_graph (store_embeddings emb n v cs)" for emb :: "string list \<Rightarrow> string + 'a list" and cs
    by (auto simp: leaves_def store_embeddings_def split: prod.splits)
  show "leaves ix_db (parse_module env opts v mods n acc)" "leaves ix_graph (parse_module env opts v mods n acc)"
    unfolding parse_module_def parse_artefacts_def embed_module_def
    by (auto simp: Let_def e split: option.split intro!: leaves_andthen)
qed

lemma leaves_parse_registry [simp]: "leaves ix_db (parse_registry env opts reg)" "leaves ix_graph (parse_registry env opts reg)"
  unfolding parse_registry_def by (auto intro!: leaves_each leaves_parse_module)

lemma leaves_write [simp]: "leaves ix_db (write_parsed env opts p)" "leaves ix_db (collect env opts r v live)"
  unfolding write_parsed_def collect_def by (auto intro!: leaves_andthen)

lemma leaves_advance [simp]: "leaves ix_graph (advance_head env opts r)"
  unfolding advance_head_def by (auto split: option.split)

lemma leaves_ask [simp]: "leaves ix_graph (on_graph env c (\<lambda>g. (f g, g)))"
  by (auto simp: leaves_def on_graph_def)

lemma leaves_propagate [simp]: "leaves ix_graph (propagate env opts r v lh sel)"
  unfolding propagate_def Let_def by (intro leaves_if leaves_andthen leaves_ask leaves_stores leaves_basic)

lemma leaves_tail [simp]:
  "leaves ix_table (advance_head env opts r)" "leaves ix_table (propagate env opts r v lh sel)"
  "leaves ix_graph (andthen (advance_head env opts r) (\<lambda>_. andthen (propagate env opts r v lh sel) (\<lambda>_. ret c)))"
  "leaves ix_table (andthen (advance_head env opts r) (\<lambda>_. andthen (propagate env opts r v lh sel) (\<lambda>_. ret c)))"
proof -
  show a: "leaves ix_table (advance_head env opts r)" unfolding advance_head_def by (auto split: option.split)
  show b: "leaves ix_table (propagate env opts r v lh sel)"
    unfolding propagate_def Let_def by (intro leaves_if leaves_andthen leaves_ask leaves_stores leaves_basic)
  show "leaves ix_graph (andthen (advance_head env opts r) (\<lambda>_. andthen (propagate env opts r v lh sel) (\<lambda>_. ret c)))"
    "leaves ix_table (andthen (advance_head env opts r) (\<lambda>_. andthen (propagate env opts r v lh sel) (\<lambda>_. ret c)))"
    by (intro leaves_andthen leaves_advance leaves_propagate leaves_basic a b)+
qed

lemma plan_repo_same: "plan_repo env opts r s = (res, s') \<Longrightarrow> s' = s"
  by (auto simp: plan_repo_def andthen_def on_db_def get_repo_head_sha_def checkout_repo_def ret_def split: prod.splits sum.splits if_splits)

section \<open>The graph after a complete write\<close>

definition write_all :: "'v index_env \<Rightarrow> index_options \<Rightarrow> parsed \<Rightarrow> pgraph \<Rightarrow> pgraph" where
  "write_all env opts p g = write_stylesheets (ev_batch env) (pd_sheets p) (op_profiles opts)
     (write_js_graph_results (pd_js p) (op_profiles opts) (write_view_results (pd_views p) (op_profiles opts)
       (write_results (pd_py p) (op_profiles opts) g)))"

lemma commit_each_Inr: "commit_each env c f xs s = (Inr u, s') \<Longrightarrow> s' = s\<lparr>ix_graph := fold f xs (ix_graph s)\<rparr>"
  by (auto simp: commit_each_def split: option.splits if_splits)

lemma write_parsed_Inr: "write_parsed env opts p s = (Inr u, s') \<Longrightarrow> s' = s\<lparr>ix_graph := write_all env opts p (ix_graph s)\<rparr>"
  unfolding write_parsed_def write_all_def write_results_def write_view_results_def write_js_graph_results_def write_stylesheets_def
  by (auto simp: andthen_eq_Inr dest!: commit_each_Inr)

definition collected :: "index_options \<Rightarrow> repo \<Rightarrow> string \<Rightarrow> string set \<Rightarrow> pgraph \<Rightarrow> pgraph" where
  "collected opts r v live g = (if op_gc opts \<and> live \<noteq> {} then snd (gc_stale_modules (path_name (r_local_path r)) v live g) else g)"

lemma collect_Inr: "collect env opts r v live s = (Inr n, s') \<Longrightarrow> s' = s\<lparr>ix_graph := collected opts r v live (ix_graph s)\<rparr>"
  by (auto simp: collect_def collected_def on_graph_def ret_def split: prod.splits if_splits)

text \<open>What is complete when the commit is stored: parsing, writing, collecting.\<close>

definition completed :: "'v index_env \<Rightarrow> index_options \<Rightarrow> repo \<Rightarrow> string \<Rightarrow> registry \<Rightarrow> string set \<Rightarrow> 'v index_state \<Rightarrow> 'v index_state \<Rightarrow> bool" where
  "completed env opts r v selected live s s' \<longleftrightarrow> (\<exists>p s1. parse_registry env opts selected s = (Inr p, s1) \<and>
     ix_table s' = ix_table s1 \<and> ix_graph s' = collected opts r v live (write_all env opts p (ix_graph s)))"

lemma index_modules_cases:
  assumes "index_modules env opts r v lh sel live s = (res, s')"
  obtains (early) e where "res = Inl e" "ix_db s' = ix_db s"
  | (late) s2 and p :: parsed where "completed env opts r v sel live s s2" "ix_db s2 = ix_db s"
     "andthen (advance_head env opts r) (\<lambda>_. andthen (propagate env opts r v lh sel) (\<lambda>_. ret (pd_counts p))) s2 = (res, s')"
proof (cases "parse_registry env opts sel s")
  case (Pair x s1)
  have db1: "ix_db s1 = ix_db s" "ix_graph s1 = ix_graph s" using leavesD [OF leaves_parse_registry(1) Pair] leavesD [OF leaves_parse_registry(2) Pair] by simp_all
  show thesis
  proof (cases x)
    case (Inl e)
    then have "(res, s') = (Inl e, s1)" using assms Pair by (simp add: index_modules_def andthen_Inl)
    then show thesis using db1 by (intro early) simp_all
  next
    case (Inr p)
    note parse = Pair [unfolded Inr]
    obtain y s2 where w: "write_parsed env opts p s1 = (y, s2)" by fastforce
    have db2: "ix_db s2 = ix_db s1" using leavesD [OF leaves_write(1) w] by simp
    show thesis
    proof (cases y)
      case (Inl e)
      then have "(res, s') = (Inl e, s2)" using assms parse w by (simp add: index_modules_def andthen_Inl andthen_Inr)
      then show thesis using db1 db2 by (intro early) simp_all
    next
      case w': (Inr u)
      have g2: "ix_graph s2 = write_all env opts p (ix_graph s)" "ix_table s2 = ix_table s1"
        using write_parsed_Inr [OF w [unfolded w']] db1 by simp_all
      obtain z s3 where c: "collect env opts r v live s2 = (z, s3)" by fastforce
      have db3: "ix_db s3 = ix_db s2" using leavesD [OF leaves_write(2) c] by simp
      show thesis
      proof (cases z)
        case (Inl e)
        then have "(res, s') = (Inl e, s3)" using assms parse w c w' by (simp add: index_modules_def andthen_Inl andthen_Inr)
        then show thesis using db1 db2 db3 by (intro early) simp_all
      next
        case c': (Inr n)
        have g3: "ix_graph s3 = collected opts r v live (ix_graph s2)" "ix_table s3 = ix_table s2"
          using collect_Inr [OF c [unfolded c']] by simp_all
        have "completed env opts r v sel live s s3"
          unfolding completed_def using parse g2 g3 by auto
        moreover have "andthen (advance_head env opts r) (\<lambda>_. andthen (propagate env opts r v lh sel) (\<lambda>_. ret (pd_counts p))) s3 = (res, s')"
          using assms parse w c w' c' by (simp add: index_modules_def andthen_Inr)
        ultimately show thesis using db1 db2 db3 by (intro late [of s3 p]) simp_all
      qed
    qed
  qed
qed

section \<open>The indexed commit\<close>

lemma index_repo_cases:
  assumes "index_repo env opts (r, p) s = (res, s')"
  obtains (same) "s' = s" "(\<exists>e. res = Inl e) \<or> res = Inr zero_counters \<and> plan_repo env opts r s = (Inr Unchanged, s)"
  | (none) lh where "plan_repo env opts r s = (Inr (Since lh), s)" "diff_range env opts r lh \<noteq> None"
      "total_modules (selected_modules env opts r lh (repo_registry env r (p_version p))) = 0"
      "andthen (advance_head env opts r) (\<lambda>_. ret zero_counters) s = (res, s')"
  | (some) lh where "plan_repo env opts r s = (Inr (Since lh), s)"
      "\<not> (diff_range env opts r lh \<noteq> None \<and> total_modules (selected_modules env opts r lh (repo_registry env r (p_version p))) = 0)"
      "index_modules env opts r (p_version p) lh (selected_modules env opts r lh (repo_registry env r (p_version p)))
         (live_paths (repo_registry env r (p_version p))) s = (res, s')"
proof (cases "ev_is_dir env (r_local_path r)")
  case False
  then show thesis using assms by (intro same) (auto simp: index_repo_def raise_exc_def)
next
  case True
  obtain plan where pl: "plan_repo env opts r s = (plan, s)" using plan_repo_same by (metis surj_pair)
  consider e where "plan = Inl e" | "plan = Inr Unchanged" | lh where "plan = Inr (Since lh)"
    by (metis run_plan.exhaust sum.exhaust)
  then show thesis
  proof cases
    case 3
    let ?sel = "selected_modules env opts r lh (repo_registry env r (p_version p))"
    have i: "(if diff_range env opts r lh \<noteq> None \<and> total_modules ?sel = 0 then andthen (advance_head env opts r) (\<lambda>_. ret zero_counters)
        else index_modules env opts r (p_version p) lh ?sel (live_paths (repo_registry env r (p_version p)))) s = (res, s')"
      using assms pl 3 True unfolding index_repo_def prod.case
      by (subst (asm) (1) if_not_P, simp, subst (asm) andthen_Inr [where m = "plan_repo env opts r"], simp) (simp only: run_plan.case Let_def)
    show thesis
    proof (cases "diff_range env opts r lh \<noteq> None \<and> total_modules ?sel = 0")
      case True
      then show thesis using i pl 3 by (intro none [of lh]) simp_all
    next
      case False
      then have "index_modules env opts r (p_version p) lh ?sel (live_paths (repo_registry env r (p_version p))) s = (res, s')"
        using i by (simp only: if_False)
      then show thesis using False pl 3 by (intro some [of lh]) simp_all
    qed
  qed (use assms pl True in \<open>auto simp: index_repo_def andthen_def ret_def intro!: same\<close>)
qed

text \<open>
  C27. The commit of a repository moves only when its work is done. Whatever fails and wherever: when a
  run has changed the tables, then either no module of the diff was left to index and the graph is
  as before, or every selected module was parsed, everything was written and the stale
  modules were collected.
\<close>
theorem head_after_writes:
  assumes "index_repo env opts (r, p) s = (res, s')" "ix_db s' \<noteq> ix_db s"
  shows "\<exists>lh. plan_repo env opts r s = (Inr (Since lh), s) \<and>
    (let reg = repo_registry env r (p_version p); sel = selected_modules env opts r lh reg in
     if diff_range env opts r lh \<noteq> None \<and> total_modules sel = 0 then ix_graph s' = ix_graph s
     else completed env opts r (p_version p) sel (live_paths reg) s s')"
  using assms(1)
proof (cases rule: index_repo_cases)
  case same
  then show ?thesis using assms(2) by simp
next
  case (none lh)
  have "leaves ix_graph (andthen (advance_head env opts r) (\<lambda>_. ret zero_counters))" by (intro leaves_andthen) simp_all
  then show ?thesis using none leavesD unfolding Let_def by metis
next
  case (some lh)
  from some(3) show ?thesis
  proof (cases rule: index_modules_cases)
    case (early e)
    then show ?thesis using assms(2) by simp
  next
    case (late s2 q)
    note t = leavesD [OF leaves_tail(3) late(3)] leavesD [OF leaves_tail(4) late(3)]
    have "completed env opts r (p_version p) (selected_modules env opts r lh (repo_registry env r (p_version p)))
        (live_paths (repo_registry env r (p_version p))) s s'"
      using late(1) unfolding completed_def t .
    then show ?thesis unfolding Let_def by (intro exI [of _ lh]) (simp only: some(1,2) if_False simp_thms)
  qed
qed

section \<open>Propagation\<close>

lemma truthy_Some: "truthy x = Some h \<Longrightarrow> x = Some h \<and> truthy (Some h) = Some h"
  by (auto simp: truthy_def split: option.splits list.splits)

lemma propagate_Inl: "propagate env opts r v lh sel s = (Inl e, s') \<Longrightarrow> ix_db s' = ix_db s"
  by (auto simp: propagate_def Let_def andthen_eq_Inl andthen_eq_Inr on_graph_def on_db_def ret_def
      get_repo_ids_by_local_path_basenames_def reset_head_sha_def checkout_repo_def split: if_splits)

lemma update_head_Inr:
  assumes "on_db (update_repo_head_sha now i h) s = (Inr u, s')"
  shows "rd_up (ix_db s)" "s' = s\<lparr>ix_db := (ix_db s)\<lparr>repos := tupdate (\<lambda>r. r_id r = i) (\<lambda>r. r\<lparr>r_head_sha := Some h, r_last_indexed_at := Some now\<rparr>) (repos (ix_db s))\<rparr>\<rparr>"
    "\<exists>x \<in> set (repos (ix_db s)). r_id x = i"
  using assms by (auto simp: on_db_def update_repo_head_sha_def update_row_def checkout_repo_def tcount_0 split: if_splits)

lemma update_head_Inl: "on_db (update_repo_head_sha now i h) s = (Inl e, s') \<Longrightarrow> ix_db s' = ix_db s"
  by (auto simp: on_db_def update_repo_head_sha_def update_row_def checkout_repo_def split: if_splits)

lemma advance_cases:
  assumes "advance_head env opts r s = (res, s')" "ix_db s' \<noteq> ix_db s"
  obtains h where "truthy (ev_head env (r_local_path r)) = Some h" "op_pg opts" "res = Inr ()"
    "on_db (update_repo_head_sha (ev_now env) (r_id r) h) s = (Inr (), s')"
  using assms update_head_Inl [of "ev_now env" "r_id r" _ s]
  by (cases res) (auto simp: advance_head_def ret_def split: option.splits if_splits)

text \<open>The stored commit after its update; the other rows.\<close>

lemma head_after_update:
  assumes "on_db (update_repo_head_sha now i h) s = (Inr u, s')"
  shows "\<And>t :: 'w index_state. ix_db t = ix_db s' \<Longrightarrow> on_db (get_repo_head_sha i) t = (Inr (Some h), t)"
    "\<And>j. j \<noteq> i \<Longrightarrow> repo_by_id (ix_db s') j = repo_by_id (ix_db s) j"
proof -
  note u = update_head_Inr [OF assms]
  obtain x where "repo_by_id (ix_db s) i = Some x" "r_id x = i"
    using u(3) by (cases "repo_by_id (ix_db s) i") (auto simp: repo_by_id_def tselect_None dest: tselect_Some)
  then have "repo_by_id (ix_db s') i = Some (x\<lparr>r_head_sha := Some h, r_last_indexed_at := Some now\<rparr>)"
    unfolding u(2) by (simp add: repo_by_id_def tselect_tupdate)
  then show "on_db (get_repo_head_sha i) t = (Inr (Some h), t)" if "ix_db t = ix_db s'" for t :: "'w index_state"
    using u(1) that unfolding u(2) by (simp add: on_db_def get_repo_head_sha_def checkout_repo_def)
  fix j assume "j \<noteq> i"
  then show "repo_by_id (ix_db s') j = repo_by_id (ix_db s) j"
    unfolding u(2) by (cases "repo_by_id (ix_db s) j") (auto simp: repo_by_id_def tselect_tupdate dest!: tselect_Some)
qed

text \<open>
  A failed propagation is lost. When a run fails after the commit was stored (which the code's
  comment calls the last statement), that is, while it looks for the dependent repositories or
  resets them, then no dependent was reset, and the next run finds the repository unchanged
  and returns at once, whatever the world is by then: the dependents stay as they are.
\<close>
theorem lost_propagation:
  fixes s :: "'v index_state"
  assumes "index_repo env opts (r, p) s = (Inl e, s1)" "ix_db s1 \<noteq> ix_db s"
    and "ev_is_dir env' = ev_is_dir env" "ev_head env' = ev_head env" "op_pg opts'" "\<not> op_full opts'"
  shows "index_repo env' opts' (r, p) s1 = (Inr zero_counters, s1) \<and>
    (j \<noteq> r_id r \<longrightarrow> repo_by_id (ix_db s1) j = repo_by_id (ix_db s) j)"
proof -
  have dir: "ev_is_dir env (r_local_path r)" using assms by (auto simp: index_repo_def raise_exc_def split: if_splits)
  have "\<exists>(s2 :: 'v index_state) (s3 :: 'v index_state) h. truthy (ev_head env (r_local_path r)) = Some h \<and> ix_db s2 = ix_db s \<and> ix_db s3 = ix_db s1 \<and>
      on_db (update_repo_head_sha (ev_now env) (r_id r) h) s2 = (Inr (), s3)"
    using assms(1)
  proof (cases rule: index_repo_cases)
    case same
    then show ?thesis using assms(2) by simp
  next
    case (none lh)
    then have a: "advance_head env opts r s = (Inl e, s1)" by (auto simp: andthen_eq_Inl ret_def)
    show ?thesis by (rule advance_cases [OF a assms(2)]) blast
  next
    case (some lh)
    from some(3) show ?thesis
    proof (cases rule: index_modules_cases)
      case (early e')
      then show ?thesis using assms(2) by simp
    next
      case (late s2 q)
      then consider "advance_head env opts r s2 = (Inl e, s1)"
        | s3 where "advance_head env opts r s2 = (Inr (), s3)" "ix_db s1 = ix_db s3"
        by (auto simp: andthen_eq_Inl andthen_eq_Inr ret_def dest: propagate_Inl)
      then show ?thesis
      proof cases
        case 1
        show ?thesis by (rule advance_cases [OF 1]) (use assms(2) late(2) in auto)
      next
        case 2
        have ne: "ix_db s3 \<noteq> ix_db s2" and eq: "ix_db s3 = ix_db s1" using assms(2) late(2) 2(2) by simp_all
        show ?thesis by (rule advance_cases [OF 2(1) ne]) (use late(2) eq in blast)
      qed
    qed
  qed
  then obtain s2 s3 :: "'v index_state" and h where h: "truthy (ev_head env (r_local_path r)) = Some h" "ix_db s2 = ix_db s" "ix_db s3 = ix_db s1"
    and u: "on_db (update_repo_head_sha (ev_now env) (r_id r) h) s2 = (Inr (), s3)" by blast
  note after = head_after_update [OF u]
  have "on_db (get_repo_head_sha (r_id r)) s1 = (Inr (Some h), s1)"
    by (rule after(1)) (simp only: h(3))
  then have "plan_repo env' opts' r s1 = (Inr Unchanged, s1)"
    using h(1) truthy_Some [OF h(1)] assms(4-6) by (simp add: plan_repo_def andthen_Inr ret_def)
  then have "index_repo env' opts' (r, p) s1 = (Inr zero_counters, s1)"
    using dir assms(3) by (simp add: index_repo_def andthen_Inr ret_def)
  then show ?thesis using after(2) h(2,3) by metis
qed

lemma total_modules_names: "total_modules reg = 0 \<Longrightarrow> module_names reg = {}"
  by (induction reg) (auto simp: total_modules_def module_names_def)

definition dependents_of :: "repo \<Rightarrow> string \<Rightarrow> registry \<Rightarrow> pgraph \<Rightarrow> string list" where
  "dependents_of r v sel g = filter (\<lambda>b. b \<noteq> path_name (r_local_path r)) (find_dependent_repos (depends_on_rows g) v (module_names sel))"

lemma propagate_Inr:
  assumes "propagate env opts r v lh sel s = (Inr u, s')"
    and "lh \<noteq> None" "ev_head env (r_local_path r) \<noteq> None" "op_pg opts" "\<not> op_full opts" "module_names sel \<noteq> {}"
    and "distinct (map r_id (repos (ix_db s)))"
  shows "map r_head_sha (repos (ix_db s')) = map (\<lambda>x. if after_slash (r_local_path x) \<in> set (dependents_of r v sel (ix_graph s))
     then None else r_head_sha x) (repos (ix_db s))"
proof -
  let ?deps = "dependents_of r v sel (ix_graph s)"
  let ?ids = "map r_id (filter (\<lambda>x. after_slash (r_local_path x) \<in> set ?deps) (repos (ix_db s)))"
  have sets: "r_id x \<in> set ?ids \<longleftrightarrow> after_slash (r_local_path x) \<in> set ?deps" if "x \<in> set (repos (ix_db s))" for x
    using that assms(7) by (auto dest: distinct_col_eq)
  show ?thesis
  proof (cases "?deps = []")
    case True
    then show ?thesis
      using assms by (auto simp: propagate_def andthen_eq_Inr on_graph_def ret_def Let_def dependents_of_def split: if_splits)
  next
    case False
    then have c: "andthen (on_db (get_repo_ids_by_local_path_basenames ?deps)) (\<lambda>ids.
        if ids = [] then ret () else andthen (on_db (reset_head_sha ids)) (\<lambda>_. ret ())) s = (Inr u, s')"
      using assms(1-6) by (auto simp: propagate_def andthen_eq_Inr on_graph_def dependents_of_def Let_def split: if_splits)
    have up: "rd_up (ix_db s)"
      using c False by (auto simp: andthen_eq_Inr on_db_def get_repo_ids_by_local_path_basenames_def checkout_repo_def split: if_splits)
    have g: "on_db (get_repo_ids_by_local_path_basenames ?deps) s = (Inr ?ids, s)"
      using False up by (simp add: on_db_def get_repo_ids_by_local_path_basenames_def checkout_repo_def)
    show ?thesis
    proof (cases "?ids = []")
      case True
      then have "s' = s" using c g by (simp add: andthen_def ret_def)
      then show ?thesis using True by (auto simp: filter_empty_conv)
    next
      case False
      then have "(Inr u, s') = andthen (on_db (reset_head_sha ?ids)) (\<lambda>_. ret ()) s"
        using c g by (simp add: andthen_def)
      then have "repos (ix_db s') = tupdate (\<lambda>x. r_id x \<in> set ?ids) (\<lambda>x. x\<lparr>r_head_sha := None\<rparr>) (repos (ix_db s))"
        using up False by (auto simp: andthen_def on_db_def reset_head_sha_def checkout_repo_def ret_def split: if_splits)
      then show ?thesis using sets by (simp add: tupdate_def)
    qed
  qed
qed

text \<open>
  C28. A successful incremental run reaches its dependents. After it the repository has the new commit,
  and no commit is stored for exactly the repositories, other than itself, whose directory has
  the name of one with an unchanged module that depends on a changed one, in the graph as it
  is after the run; they are indexed in full next time. All others keep theirs.
\<close>
theorem propagation_effect:
  fixes s :: "'v index_state"
  assumes "index_repo env opts (r, p) s = (Inr c, s')" "plan_repo env opts r s = (Inr (Since (Some old)), s)"
    and "truthy (ev_head env (r_local_path r)) = Some h" "op_pg opts" "\<not> op_full opts" "repo_inv (ix_db s)"
    and "sel = selected_modules env opts r (Some old) (repo_registry env r (p_version p))" "module_names sel \<noteq> {}"
  shows "map r_head_sha (repos (ix_db s')) =
    map (\<lambda>x. if after_slash (r_local_path x) \<in> set (dependents_of r (p_version p) sel (ix_graph s')) then None
             else if r_id x = r_id r then Some h else r_head_sha x) (repos (ix_db s))"
  using assms(1)
proof (cases rule: index_repo_cases)
  case same
  then show ?thesis using assms(2) by simp
next
  case (none lh)
  then show ?thesis using assms(2,7,8) total_modules_names by auto
next
  case (some lh)
  then have lh: "lh = Some old" using assms(2) by simp
  note m = some(3) [unfolded lh, folded assms(7)]
  from m show ?thesis
  proof (cases rule: index_modules_cases)
    case (early e)
    then show ?thesis by simp
  next
    case (late s2 q)
    from late(3) obtain s3 where a: "advance_head env opts r s2 = (Inr (), s3)"
      and pr: "propagate env opts r (p_version p) (Some old) sel s3 = (Inr (), s')"
      by (auto simp: andthen_eq_Inr ret_def)
    have u: "on_db (update_repo_head_sha (ev_now env) (r_id r) h) s2 = (Inr (), s3)"
      using a assms(3,4) by (simp add: advance_head_def)
    have r3: "repos (ix_db s3) = tupdate (\<lambda>x. r_id x = r_id r) (\<lambda>x. x\<lparr>r_head_sha := Some h, r_last_indexed_at := Some (ev_now env)\<rparr>) (repos (ix_db s))"
      using update_head_Inr(2) [OF u] late(2) by simp
    have "distinct (map r_id (repos (ix_db s3)))" using assms(6) unfolding r3 by (simp add: map_tupdate repo_inv_def)
    moreover have "ev_head env (r_local_path r) \<noteq> None" using truthy_Some [OF assms(3)] by simp
    ultimately have "map r_head_sha (repos (ix_db s')) = map (\<lambda>x. if after_slash (r_local_path x) \<in> set (dependents_of r (p_version p) sel (ix_graph s3))
       then None else r_head_sha x) (repos (ix_db s3))"
      using propagate_Inr [OF pr _ _ assms(4,5,8)] by simp
    moreover have "ix_graph s3 = ix_graph s'" using leavesD [OF leaves_propagate pr] by simp
    ultimately show ?thesis unfolding r3 by (simp add: tupdate_def comp_def cong: map_cong if_cong)
  qed
qed

section \<open>Collecting stale modules\<close>

lemma write_all_ok: "graph_ok g \<Longrightarrow> graph_ok (write_all env opts p g)"
proof -
  note step = graph_store.preserved [OF TrueI]
  assume g: "graph_ok g"
  let ?ps = "op_profiles opts"
  have 1: "graph_ok (write_results (pd_py p) ?ps g)" using step [OF g, of "WriteResults (pd_py p) ?ps"] by simp
  have 2: "graph_ok (write_view_results (pd_views p) ?ps (write_results (pd_py p) ?ps g))" using step [OF 1, of "WriteViews (pd_views p) ?ps"] by simp
  have 3: "graph_ok (write_js_graph_results (pd_js p) ?ps (write_view_results (pd_views p) ?ps (write_results (pd_py p) ?ps g)))"
    using step [OF 2, of "WriteJs (pd_js p) ?ps"] by simp
  show ?thesis using step [OF 3, of "WriteSheets (ev_batch env) (pd_sheets p) ?ps"] by (simp add: write_all_def)
qed

definition stale_module :: "string \<Rightarrow> string \<Rightarrow> string set \<Rightarrow> gnode \<Rightarrow> bool" where
  "stale_module repo v live n \<longleftrightarrow> is_node ''Module'' [(''repo'', GStr repo), (''odoo_version'', GStr v)] n \<and>
     (case g_props n ''path'' of None \<Rightarrow> False | Some p \<Rightarrow> p \<notin> GStr ` live)"

lemma gnodes_gc: "graph_ok g \<Longrightarrow> gnodes (snd (gc_stale_modules repo v live g)) = filter (\<lambda>n. \<not> stale_module repo v live n) (gnodes g)"
  by (simp add: gc_stale_modules_def Let_def detach_matches stale_module_def cong: filter_cong)

text \<open>
  C29. The collection that was asked for may not take place, and may take too much. A run that finds
  the commit unchanged, or a diff in which no module is left (modules were only deleted), leaves the
  graph as it is, also with \<open>gc\<close>, and the second stores the new commit, so later runs
  skip the repository too. A successful run otherwise leaves no module node of the directory's name and
  version whose path the scan has not seen: also none of another checkout with the same
  directory name.
\<close>
theorem gc_verdict:
  assumes "index_repo env opts (r, p) s = (res, s')" "graph_ok (ix_graph s)" "op_gc opts"
    and "plan_repo env opts r s = (Inr plan, s)" "reg = repo_registry env r (p_version p)"
  shows "if case plan of Unchanged \<Rightarrow> True
           | Since lh \<Rightarrow> diff_range env opts r lh \<noteq> None \<and> total_modules (selected_modules env opts r lh reg) = 0
    then ix_graph s' = ix_graph s
    else \<not> is_ok res \<or> live_paths reg = {} \<or>
      list_all (\<lambda>n. \<not> stale_module (path_name (r_local_path r)) (p_version p) (live_paths reg) n) (gnodes (ix_graph s'))"
  using assms(1)
proof (cases rule: index_repo_cases)
  case same
  then show ?thesis using assms(4) by (auto split: run_plan.split)
next
  case (none lh)
  have "leaves ix_graph (andthen (advance_head env opts r) (\<lambda>_. ret zero_counters))" by (intro leaves_andthen) simp_all
  then have "ix_graph s' = ix_graph s" using none(4) leavesD by metis
  then show ?thesis using none(1-3) assms(4,5) by simp
next
  case (some lh)
  have plan: "plan = Since lh" using some(1) assms(4) by simp
  from some(3) show ?thesis
  proof (cases rule: index_modules_cases)
    case (early e)
    then show ?thesis using some(2) plan assms(5) by auto
  next
    case (late s2 q)
    have "ix_graph s' = ix_graph s2" using leavesD [OF leaves_tail(3) late(3)] .
    moreover from late(1) obtain q where "ix_graph s2 = collected opts r (p_version p) (live_paths reg) (write_all env opts q (ix_graph s))"
      unfolding completed_def assms(5) by blast
    ultimately have "live_paths reg = {} \<or>
        list_all (\<lambda>n. \<not> stale_module (path_name (r_local_path r)) (p_version p) (live_paths reg) n) (gnodes (ix_graph s'))"
      using gnodes_gc [OF write_all_ok [OF assms(2), of env opts q], of "path_name (r_local_path r)" "p_version p" "live_paths reg"] assms(3)
      by (simp add: collected_def list_all_iff)
    then show ?thesis using some(2) plan assms(5) by auto
  qed
qed

section \<open>Many repositories\<close>

text \<open>What a run never changes in the tables, and the statuses.\<close>

definition blank :: "repo \<Rightarrow> repo" where
  "blank x = x\<lparr>r_status := [], r_last_indexed_at := None, r_head_sha := None, r_error_msg := None\<rparr>"

definition fixed_part :: "repo_db \<Rightarrow> repo_db" where
  "fixed_part db = db\<lparr>repos := map blank (repos db)\<rparr>"

definition statuses :: "repo_db \<Rightarrow> (int \<times> string) list" where
  "statuses db = map (\<lambda>x. (r_id x, r_status x)) (repos db)"

lemma fixed_part_inv: "fixed_part db' = fixed_part db \<Longrightarrow> repo_inv db' = repo_inv db"
proof -
  have "repo_inv (fixed_part db) = repo_inv db" for db
    by (simp add: repo_inv_def fixed_part_def blank_def comp_def)
  then show "fixed_part db' = fixed_part db \<Longrightarrow> repo_inv db' = repo_inv db" by metis
qed

lemma fixed_part_fields:
  assumes "fixed_part db' = fixed_part db"
  shows "rd_up db' = rd_up db" "profiles db' = profiles db" "map r_id (repos db') = map r_id (repos db)"
    "r_id ` set (repos db') = r_id ` set (repos db)"
proof -
  have "map (r_id \<circ> blank) (repos db') = map (r_id \<circ> blank) (repos db)"
    using arg_cong [OF assms, of "\<lambda>d. map r_id (repos d)"] by (simp add: fixed_part_def)
  then show m: "map r_id (repos db') = map r_id (repos db)" by (simp add: blank_def comp_def)
  show "r_id ` set (repos db') = r_id ` set (repos db)" using arg_cong [OF m, of set] by simp
  show "rd_up db' = rd_up db" "profiles db' = profiles db"
    using arg_cong [OF assms, of rd_up] arg_cong [OF assms, of profiles] by (simp_all add: fixed_part_def)
qed

lemma map_tupdate_same: "(\<And>r. h (f r) = h r) \<Longrightarrow> map h (tupdate P f t) = map h t"
  by (rule map_tupdate)

lemma leaves_of_db: "leaves ix_db m \<Longrightarrow> leaves (\<lambda>s. h (ix_db s)) m"
  by (simp add: leaves_def)

lemma leaves_update_row:
  assumes "\<And>x. blank (f x) = blank x"
  shows "leaves (\<lambda>s. fixed_part (ix_db s)) (on_db (update_row i f))"
  using assms by (auto simp: leaves_def on_db_def update_row_def checkout_repo_def fixed_part_def map_tupdate)

lemma leaves_fixed [simp]:
  "leaves (\<lambda>s. fixed_part (ix_db s)) (on_db (update_repo_head_sha now i h))"
  "leaves (\<lambda>s. fixed_part (ix_db s)) (on_db (update_repo_status now i st e))"
  "leaves (\<lambda>s. fixed_part (ix_db s)) (on_db (reset_head_sha is))"
  "leaves (\<lambda>s. statuses (ix_db s)) (on_db (update_repo_head_sha now i h))"
  "leaves (\<lambda>s. statuses (ix_db s)) (on_db (reset_head_sha is))"
  unfolding update_repo_head_sha_def update_repo_status_def
  by (auto simp: blank_def intro!: leaves_update_row)
    (auto simp: leaves_def on_db_def reset_head_sha_def update_row_def checkout_repo_def fixed_part_def statuses_def map_tupdate blank_def)

lemma leaves_reads [simp]:
  "leaves ix_db (on_db (get_repo_head_sha i))" "leaves ix_db (on_db (get_repo_ids_by_local_path_basenames bs))"
  by (auto simp: leaves_def on_db_def get_repo_head_sha_def get_repo_ids_by_local_path_basenames_def checkout_repo_def)

lemma leaves_plan: "leaves part m \<Longrightarrow> (\<And>lh. leaves part (f lh)) \<Longrightarrow> leaves part (case pl of Unchanged \<Rightarrow> m | Since lh \<Rightarrow> f lh)"
  by (cases pl) simp_all

lemma leaves_index_repo:
  assumes "\<And>now i h. leaves (\<lambda>s :: 'v index_state. h' (ix_db s)) (on_db (update_repo_head_sha now i h))"
    and "\<And>is. leaves (\<lambda>s :: 'v index_state. h' (ix_db s)) (on_db (reset_head_sha is))"
  shows "leaves (\<lambda>s :: 'v index_state. h' (ix_db s)) (index_repo env opts rp)"
proof -
  let ?L = "leaves (\<lambda>s :: 'v index_state. h' (ix_db s))"
  have plan: "?L (plan_repo env opts r)" for r
    unfolding plan_repo_def by (intro leaves_if leaves_andthen leaves_basic) (simp add: leaves_of_db)
  have adv: "?L (advance_head env opts r)" for r
    unfolding advance_head_def by (auto split: option.split intro!: leaves_if assms)
  have spread: "?L (propagate env opts r v lh sel)" for r v lh sel
    unfolding propagate_def Let_def
    by (intro leaves_if leaves_andthen leaves_basic assms) (simp_all add: leaves_of_db)
  have mods: "?L (index_modules env opts r v lh sel live)" for r v lh sel live
    unfolding index_modules_def
    by (intro leaves_andthen adv spread leaves_basic) (simp_all add: leaves_of_db)
  show ?thesis
    unfolding index_repo_def Let_def
    by (cases rp) (simp only: prod.case, intro leaves_if leaves_andthen leaves_plan plan adv mods leaves_basic)
qed

lemmas index_repo_fixed = leaves_index_repo [OF leaves_fixed(1,3)]
lemmas index_repo_statuses = leaves_index_repo [OF leaves_fixed(4,5)]

text \<open>One repository of the loop: its status says what happened, the others keep theirs.\<close>

definition set_status :: "int \<Rightarrow> string \<Rightarrow> (int \<times> string) list \<Rightarrow> (int \<times> string) list" where
  "set_status i st xs = map (\<lambda>(j, old). (j, if j = i then st else old)) xs"

lemma update_status_ok:
  assumes "rd_up (ix_db s)" "i \<in> r_id ` set (repos (ix_db s))"
  shows "\<exists>s'. on_db (update_repo_status now i st e) s = (Inr (), s') \<and> statuses (ix_db s') = set_status i st (statuses (ix_db s)) \<and>
    fixed_part (ix_db s') = fixed_part (ix_db s)"
proof -
  have "tcount (\<lambda>r. r_id r = i) (repos (ix_db s)) \<noteq> 0" using assms(2) by (auto simp: tcount_0)
  then show ?thesis
    using assms(1) by (simp add: on_db_def update_repo_status_def update_row_def checkout_repo_def statuses_def set_status_def
        fixed_part_def map_tupdate blank_def) (simp add: tupdate_def)
qed

lemma index_one_effect:
  fixes s :: "'v index_state"
  assumes "rd_up (ix_db s)" "r_id (fst rp) \<in> r_id ` set (repos (ix_db s))"
  shows "\<exists>tot more s'. index_one env opts rp acc s = (Inr (tot, snd acc @ more), s') \<and> fixed_part (ix_db s') = fixed_part (ix_db s) \<and>
    (more = [] \<and> statuses (ix_db s') = set_status (r_id (fst rp)) ''indexed'' (statuses (ix_db s)) \<or>
     map fst more = [r_id (fst rp)] \<and> statuses (ix_db s') = set_status (r_id (fst rp)) ''error'' (statuses (ix_db s)))"
proof -
  let ?i = "r_id (fst rp)"
  obtain x s1 where x: "index_repo env opts rp s = (x, s1)" by fastforce
  have f1: "fixed_part (ix_db s1) = fixed_part (ix_db s)" and st1: "statuses (ix_db s1) = statuses (ix_db s)"
    using leavesD [OF index_repo_fixed x] leavesD [OF index_repo_statuses x] by simp_all
  have up: "rd_up (ix_db s1)" and row: "?i \<in> r_id ` set (repos (ix_db s1))"
    using fixed_part_fields [OF f1] assms by simp_all
  show ?thesis
  proof (cases x)
    case (Inl e)
    obtain s2 where "on_db (update_repo_status (ev_now env) ?i ''error'' (Some (clip 500 (ev_str env e)))) s1 = (Inr (), s2)"
      "statuses (ix_db s2) = set_status ?i ''error'' (statuses (ix_db s1))" "fixed_part (ix_db s2) = fixed_part (ix_db s1)"
      using update_status_ok [OF up row] by blast
    then show ?thesis using x Inl f1 st1
     
      by (simp add: index_one_def Let_def andthen_def ret_def)
  next
    case (Inr c)
    obtain s2 where "on_db (update_repo_status (ev_now env) ?i ''indexed'' None) s1 = (Inr (), s2)"
      "statuses (ix_db s2) = set_status ?i ''indexed'' (statuses (ix_db s1))" "fixed_part (ix_db s2) = fixed_part (ix_db s1)"
      using update_status_ok [OF up row] by blast
    then show ?thesis using x Inr f1 st1 by (simp add: index_one_def Let_def andthen_def ret_def)
  qed
qed

definition outcome :: "int list \<Rightarrow> (int \<times> string) list \<Rightarrow> (int \<times> string) list \<Rightarrow> (int \<times> string) list" where
  "outcome ids failed xs = map (\<lambda>(j, old). (j, if j \<in> fst ` set failed then ''error'' else if j \<in> set ids then ''indexed'' else old)) xs"

lemma index_loop_effect:
  fixes s :: "'v index_state"
  assumes "rd_up (ix_db s)" "r_id ` fst ` set rps \<subseteq> r_id ` set (repos (ix_db s))" "distinct (map (r_id \<circ> fst) rps)"
  shows "\<exists>tot more s'. each (index_one env opts) rps acc s = (Inr (tot, snd acc @ more), s') \<and> fixed_part (ix_db s') = fixed_part (ix_db s) \<and>
    set (map fst more) \<subseteq> r_id ` fst ` set rps \<and> statuses (ix_db s') = outcome (map (r_id \<circ> fst) rps) more (statuses (ix_db s))"
  using assms
proof (induction rps arbitrary: acc s)
  case Nil
  then show ?case by (intro exI [of _ "fst acc"] exI [of _ "[]"] exI [of _ s]) (simp add: ret_def outcome_def)
next
  case (Cons rp rps)
  let ?i = "r_id (fst rp)"
  have i: "r_id (fst rp) \<in> r_id ` set (repos (ix_db s))" using Cons.prems(2) by simp
  obtain tot m1 s1 where one: "index_one env opts rp acc s = (Inr (tot, snd acc @ m1), s1)" "fixed_part (ix_db s1) = fixed_part (ix_db s)"
    and m1: "m1 = [] \<and> statuses (ix_db s1) = set_status ?i ''indexed'' (statuses (ix_db s)) \<or>
      map fst m1 = [?i] \<and> statuses (ix_db s1) = set_status ?i ''error'' (statuses (ix_db s))"
    using index_one_effect [OF Cons.prems(1) i, of env opts acc] by (elim exE conjE)
  have up: "rd_up (ix_db s1)" and rows: "r_id ` fst ` set rps \<subseteq> r_id ` set (repos (ix_db s1))"
    using fixed_part_fields [OF one(2)] Cons.prems(1,2) by simp_all
  have d: "distinct (map (r_id \<circ> fst) rps)" using Cons.prems(3) unfolding list.map distinct.simps by blast
  obtain tot' m2 s2 where rest: "each (index_one env opts) rps (tot, snd acc @ m1) s1 = (Inr (tot', (snd acc @ m1) @ m2), s2)"
    "fixed_part (ix_db s2) = fixed_part (ix_db s1)" "set (map fst m2) \<subseteq> r_id ` fst ` set rps"
    "statuses (ix_db s2) = outcome (map (r_id \<circ> fst) rps) m2 (statuses (ix_db s1))"
    using Cons.IH [OF up rows d, of "(tot, snd acc @ m1)"] unfolding snd_conv by (elim exE conjE)
  have ni: "?i \<notin> r_id ` fst ` set rps" using Cons.prems(3) by (auto simp: image_image)
  then have ni2: "?i \<notin> fst ` set m2" using rest(3) by auto
  have "statuses (ix_db s2) = outcome (map (r_id \<circ> fst) (rp # rps)) (m1 @ m2) (statuses (ix_db s))"
    using m1
  proof
    assume "m1 = [] \<and> statuses (ix_db s1) = set_status ?i ''indexed'' (statuses (ix_db s))"
    then show ?thesis unfolding rest(4) using ni ni2 by (auto simp: outcome_def set_status_def image_image)
  next
    assume "map fst m1 = [?i] \<and> statuses (ix_db s1) = set_status ?i ''error'' (statuses (ix_db s))"
    moreover from this have "fst ` set m1 = {?i}" by (metis image_set list.set(1,2))
    ultimately show ?thesis unfolding rest(4) using ni ni2 by (auto simp: outcome_def set_status_def image_image image_Un)
  qed
  moreover have "set (map fst (m1 @ m2)) \<subseteq> r_id ` fst ` set (rp # rps)"
    using m1 rest(3) by auto
  ultimately show ?case
    using one rest(1,2) by (intro exI [of _ tot'] exI [of _ "m1 @ m2"] exI [of _ s2]) (simp add: andthen_def comp_def)
qed

section \<open>A profile\<close>

lemma leaves_seed [simp]: "leaves ix_db (run_seed env f force v)" "leaves ix_locks (run_seed env f force v)"
proof -
  have r: "leaves part (replace_patterns emb cs)" if "\<And>t s. part (s\<lparr>ix_table := t\<rparr>) = part s" for part :: "'a index_state \<Rightarrow> 'p" and emb :: "string list \<Rightarrow> string + 'a list" and cs
    using that by (auto simp: leaves_def replace_patterns_def split: sum.splits)
  have sv: "leaves ix_db (seed_vectors env f emb ps)" "leaves ix_locks (seed_vectors env f emb ps)" for emb ps
    unfolding seed_vectors_def set_stored_patterns_sha_def by (auto intro!: leaves_andthen r)
  have sg: "leaves ix_db (seed_graph env f ps)" "leaves ix_locks (seed_graph env f ps)" for ps
    unfolding seed_graph_def write_patterns_def set_stored_patterns_sha_def by (auto intro!: leaves_andthen)
  have n: "leaves ix_db (needs_update env f force)" "leaves ix_locks (needs_update env f force)"
    unfolding needs_update_def get_stored_patterns_sha_def by (intro leaves_if leaves_andthen leaves_basic leaves_stores)+
  show "leaves ix_db (run_seed env f force v)" "leaves ix_locks (run_seed env f force v)"
    unfolding run_seed_def load_patterns_def
    by (auto simp: sv sg split: option.split prod.split intro!: leaves_if leaves_andthen n)
qed

lemma leaves_locks_repo: "leaves ix_locks (index_repo env opts rp)"
proof -
  have em: "leaves ix_locks (store_embeddings emb n v cs)" for emb :: "string list \<Rightarrow> string + 'a list" and n v cs
    by (auto simp: leaves_def store_embeddings_def split: prod.splits)
  have pm: "leaves ix_locks (parse_module env opts v mods n acc)" for v mods n acc
    unfolding parse_module_def parse_artefacts_def embed_module_def
    by (auto simp: Let_def em split: option.split intro!: leaves_andthen)
  have pr: "leaves ix_locks (parse_registry env opts reg)" for reg
    unfolding parse_registry_def by (auto intro!: leaves_each pm)
  have w: "leaves ix_locks (write_parsed env opts q)" "leaves ix_locks (collect env opts r v live)" for q r v live
    unfolding write_parsed_def collect_def by (auto intro!: leaves_andthen)
  have a: "leaves ix_locks (advance_head env opts r)" for r unfolding advance_head_def by (auto split: option.split)
  have sp: "leaves ix_locks (propagate env opts r v lh sel)" for r v lh sel
    unfolding propagate_def Let_def by (intro leaves_if leaves_andthen leaves_stores leaves_basic)
  have pl: "leaves ix_locks (plan_repo env opts r)" for r
    unfolding plan_repo_def by (intro leaves_if leaves_andthen leaves_stores leaves_basic)
  show ?thesis
    unfolding index_repo_def index_modules_def Let_def
    by (cases rp) (simp only: prod.case, intro leaves_if leaves_andthen leaves_plan pl pr w a sp leaves_basic)
qed

lemma leaves_loop:
  assumes "\<And>rp. leaves part (index_repo env opts rp)" "\<And>now i st e. leaves part (on_db (update_repo_status now i st e))"
  shows "leaves part (each (index_one env opts) rps acc)"
proof (rule leaves_each)
  fix rp and b :: loop_state
  have ok: "leaves part (andthen (index_repo env opts rp) (\<lambda>c. andthen (on_db (update_repo_status (ev_now env) (r_id (fst rp)) ''indexed'' None)) (\<lambda>_. ret c)))"
    by (intro leaves_andthen assms leaves_basic)
  have err: "leaves part (andthen (on_db (update_repo_status (ev_now env) (r_id (fst rp)) ''error'' (Some (clip 500 (ev_str env e)))))
      (\<lambda>_. ret (fst b, snd b @ [(r_id (fst rp), clip 200 (ev_str env e))])) :: ('a, loop_state) act)" for e
    by (intro leaves_andthen assms leaves_basic)
  show "leaves part (index_one env opts rp b)"
    unfolding leaves_def
  proof
    fix s
    obtain x s1 where x: "andthen (index_repo env opts rp) (\<lambda>c. andthen (on_db (update_repo_status (ev_now env) (r_id (fst rp)) ''indexed'' None)) (\<lambda>_. ret c)) s = (x, s1)"
      by fastforce
    then show "part (snd (index_one env opts rp b s)) = part s"
      using leavesD [OF ok x] err [unfolded leaves_def] by (cases x) (simp_all add: index_one_def Let_def)
  qed
qed

lemma profile_ids:
  assumes "repo_inv (ix_db s)" "rps = filter (\<lambda>(r, p). p_name p = name) (joined (ix_db s))"
  shows "r_id ` fst ` set rps \<subseteq> r_id ` set (repos (ix_db s))" "distinct (map (r_id \<circ> fst) rps)"
proof -
  show "r_id ` fst ` set rps \<subseteq> r_id ` set (repos (ix_db s))" using assms(2) by (auto simp: in_joined)
  have "map (r_id \<circ> fst) (joined db) = map r_id (filter (\<lambda>r. Option.bind (r_profile_id r) (profile_by_id db) \<noteq> None) (sort_key r_id (repos db)))" for db
    unfolding joined_def by (induction "sort_key r_id (repos db)" rule: list.induct) (auto simp: List.map_filter_def)
  moreover have "distinct (map r_id (sort_key r_id (repos (ix_db s))))"
    using assms(1) by (simp add: repo_inv_def distinct_map)
  ultimately have "distinct (map (r_id \<circ> fst) (joined (ix_db s)))" by (simp only: distinct_map_filter)
  then show "distinct (map (r_id \<circ> fst) rps)" unfolding assms(2) by (rule distinct_map_filter)
qed

text \<open>The lock: the body runs exactly when no other session has it, and the locks are as before.\<close>

lemma with_lock_run:
  assumes "leaves ix_locks body"
  shows "with_indexer_lock env name body s =
    (if \<exists>x \<in> set (ix_locks s). snd x = profile_lock_id env name \<and> fst x \<noteq> ev_session env then (Inl (IndexerRunning name), s)
     else case body (s\<lparr>ix_locks := (ev_session env, profile_lock_id env name) # ix_locks s\<rparr>) of
       (r, s2) \<Rightarrow> (r, s2\<lparr>ix_locks := ix_locks s\<rparr>))"
proof (cases "\<exists>x \<in> set (ix_locks s). snd x = profile_lock_id env name \<and> fst x \<noteq> ev_session env")
  case True
  then have "try_lock (ev_session env) (profile_lock_id env name) (ix_locks s) = (False, ix_locks s)" by (auto simp: try_lock_def)
  then show ?thesis using True by (simp add: with_indexer_lock_def Let_def)
next
  case False
  let ?l = "(ev_session env, profile_lock_id env name)" and ?s1 = "s\<lparr>ix_locks := (ev_session env, profile_lock_id env name) # ix_locks s\<rparr>"
  have t: "try_lock (ev_session env) (profile_lock_id env name) (ix_locks s) = (True, ?l # ix_locks s)" using False by (auto simp: try_lock_def)
  obtain x s2 where b: "body ?s1 = (x, s2)" by fastforce
  then have "ix_locks s2 = ?l # ix_locks s" using leavesD [OF assms b] by simp
  then show ?thesis using t b False by (auto simp: with_indexer_lock_def Let_def unlock_def)
qed

lemma leaves_best: "leaves part m \<Longrightarrow> leaves part (best_effort m)"
  by (simp add: leaves_def best_effort_def)

lemma leaves_body:
  "leaves ix_locks (profile_body env opts f rps)"
  unfolding profile_body_def index_loop_def
  by (intro leaves_if leaves_andthen leaves_prod leaves_loop leaves_locks_repo leaves_best leaves_seed leaves_stores leaves_basic)

lemma leaves_fixed_body:
  "leaves (\<lambda>s. fixed_part (ix_db s)) (profile_body env opts f rps)"
  unfolding profile_body_def index_loop_def
  by (intro leaves_if leaves_andthen leaves_prod leaves_loop [OF index_repo_fixed leaves_fixed(2)] leaves_best leaves_basic)
    (simp_all add: leaves_of_db)

text \<open>A run over a profile returns, with all but the status columns of the repositories as they were.\<close>

lemma index_profile_form:
  fixes s :: "'v index_state"
  assumes "repo_inv (ix_db s)" "rd_up (ix_db s)" "filter (\<lambda>(r, p). p_name p = name) (joined (ix_db s)) = rps"
  obtains names where "get_ancestor_profile_names name (ix_db s) = Some (Inr names)"
    "index_profile env f full gc name s = Some (if rps = [] then (Inr zero_counters, s)
       else with_indexer_lock env name (profile_body env (run_options full gc (if names = [] then [name] else names)) f rps) s)"
proof -
  obtain names where n: "get_ancestor_profile_names name (ix_db s) = Some (Inr names)"
    using names_total [OF assms(1), of name] assms(2) by (auto simp: get_ancestor_profile_names_def)
  have "on_db (get_repos_for_profile name) s = (Inr rps, s)"
    using assms(2,3) by (simp add: on_db_def get_repos_for_profile_def checkout_repo_def)
  then show thesis using n by (intro that [OF n]) (simp add: index_profile_def)
qed

lemma index_profile_returns:
  fixes s :: "'v index_state"
  assumes "repo_inv (ix_db s)" "rd_up (ix_db s)"
  shows "\<exists>res s'. index_profile env f full gc name s = Some (res, s') \<and> ix_locks s' = ix_locks s \<and>
    fixed_part (ix_db s') = fixed_part (ix_db s)"
proof -
  obtain names where i: "index_profile env f full gc name s = Some (if filter (\<lambda>(r, p). p_name p = name) (joined (ix_db s)) = [] then (Inr zero_counters, s)
       else with_indexer_lock env name (profile_body env (run_options full gc (if names = [] then [name] else names)) f
         (filter (\<lambda>(r, p). p_name p = name) (joined (ix_db s)))) s)"
    using index_profile_form [OF assms refl] by metis
  show ?thesis
    unfolding i with_lock_run [OF leaves_body] using leavesD [OF leaves_fixed_body]
    by (fastforce split: prod.split)
qed

text \<open>
  What is promised of the loop, without its accumulators: the repositories are indexed one after
  the other, each from the state the one before has left with its status written.
\<close>

definition marked :: "time \<Rightarrow> int \<Rightarrow> string \<Rightarrow> string option \<Rightarrow> 'v index_state \<Rightarrow> 'v index_state" where
  "marked now i st msg s = s\<lparr>ix_db := (ix_db s)\<lparr>repos := map (\<lambda>x. if r_id x = i
     then x\<lparr>r_status := st, r_error_msg := msg, r_last_indexed_at := (if st = ''indexed'' then Some now else r_last_indexed_at x)\<rparr>
     else x) (repos (ix_db s))\<rparr>\<rparr>"

fun repo_outcomes :: "'v index_env \<Rightarrow> index_options \<Rightarrow> (repo \<times> profile) list \<Rightarrow> 'v index_state
     \<Rightarrow> (index_exc + counters) list \<times> 'v index_state" where
  "repo_outcomes env opts [] s = ([], s)"
| "repo_outcomes env opts (rp # rps) s =
     (case index_repo env opts rp s of
        (x, s1) \<Rightarrow> (case repo_outcomes env opts rps
            (case x of Inl e \<Rightarrow> marked (ev_now env) (r_id (fst rp)) ''error'' (Some (clip 500 (ev_str env e))) s1
                     | Inr _ \<Rightarrow> marked (ev_now env) (r_id (fst rp)) ''indexed'' None s1) of
          (xs, s2) \<Rightarrow> (x # xs, s2)))"

fun failures :: "'v index_env \<Rightarrow> (repo \<times> profile) list \<Rightarrow> (index_exc + counters) list \<Rightarrow> (int \<times> string) list" where
  "failures env (rp # rps) (Inl e # xs) = (r_id (fst rp), clip 200 (ev_str env e)) # failures env rps xs"
| "failures env (rp # rps) (Inr c # xs) = failures env rps xs"
| "failures env _ _ = []"

definition totals_of :: "(index_exc + counters) list \<Rightarrow> counters \<Rightarrow> counters" where
  "totals_of = fold (\<lambda>x acc. case x of Inl _ \<Rightarrow> acc | Inr c \<Rightarrow> add_counters acc (totalled c))"

lemma update_status_marks:
  assumes "rd_up (ix_db s)" "i \<in> r_id ` set (repos (ix_db s))"
  shows "on_db (update_repo_status now i st e) s = (Inr (), marked now i st e s)"
proof -
  have "tcount (\<lambda>r. r_id r = i) (repos (ix_db s)) \<noteq> 0" using assms(2) by (auto simp: tcount_0)
  then show ?thesis
    using assms(1) by (simp add: on_db_def update_repo_status_def update_row_def checkout_repo_def marked_def tupdate_def)
qed

lemma marked_fixed [simp]: "fixed_part (ix_db (marked now i st e s)) = fixed_part (ix_db s)"
  by (auto simp: marked_def fixed_part_def blank_def)

lemma index_loop_outcomes:
  fixes s :: "'v index_state"
  assumes "rd_up (ix_db s)" "r_id ` fst ` set rps \<subseteq> r_id ` set (repos (ix_db s))"
  shows "each (index_one env opts) rps acc s =
    (case repo_outcomes env opts rps s of (xs, s2) \<Rightarrow> (Inr (totals_of xs (fst acc), snd acc @ failures env rps xs), s2))"
  using assms
proof (induction rps arbitrary: acc s)
  case (Cons rp rps)
  let ?i = "r_id (fst rp)"
  obtain x s1 where x: "index_repo env opts rp s = (x, s1)" by fastforce
  have f: "fixed_part (ix_db s1) = fixed_part (ix_db s)" using leavesD [OF index_repo_fixed x] by simp
  have row: "rd_up (ix_db s1)" "?i \<in> r_id ` set (repos (ix_db s1))"
    using fixed_part_fields [OF f] Cons.prems by simp_all
  note mark = update_status_marks [OF row]
  have later: "rd_up (ix_db (marked now ?i st e s1))" "r_id ` fst ` set rps \<subseteq> r_id ` set (repos (ix_db (marked now ?i st e s1)))" for now st e
    using fixed_part_fields [of "ix_db (marked now ?i st e s1)" "ix_db s"] f Cons.prems by simp_all
  show ?case
  proof (cases x)
    case (Inl e)
    then have "index_one env opts rp acc s =
        (Inr (fst acc, snd acc @ [(?i, clip 200 (ev_str env e))]), marked (ev_now env) ?i ''error'' (Some (clip 500 (ev_str env e))) s1)"
      using x mark by (simp add: index_one_def Let_def andthen_def ret_def)
    then show ?thesis using Cons.IH [OF later] x Inl by (simp add: andthen_def totals_of_def split: prod.split)
  next
    case (Inr c)
    then have "index_one env opts rp acc s =
        (Inr (add_counters (fst acc) (totalled c), snd acc), marked (ev_now env) ?i ''indexed'' None s1)"
      using x mark by (simp add: index_one_def Let_def andthen_def ret_def)
    then show ?thesis using Cons.IH [OF later] x Inr by (simp add: andthen_def totals_of_def split: prod.split)
  qed
qed (simp add: ret_def totals_of_def)

text \<open>
  C30. A run over a profile reports what happened to every repository. It returns; the locks and
  all columns but commit, status, time and message are as before. It is refused while another
  session holds the profile's lock, and stops at once without the password or the indexes. Else
  the repositories are indexed one after the other, whatever fails: a repository whose
  indexing raised is \<open>error\<close> with the message, one whose indexing returned is \<open>indexed\<close>; the
  failures reported are exactly those whose indexing raised, in order, each with its message;
  and when none raised the result is the sum of the counters.
\<close>
theorem index_profile_effect:
  fixes s :: "'v index_state"
  assumes "repo_inv (ix_db s)" "rd_up (ix_db s)"
    and "rps = filter (\<lambda>(r, p). p_name p = name) (joined (ix_db s))"
  shows "\<exists>res s' names outs s2. index_profile env f full gc name s = Some (res, s') \<and> ix_locks s' = ix_locks s \<and>
    fixed_part (ix_db s') = fixed_part (ix_db s) \<and> get_ancestor_profile_names name (ix_db s) = Some (Inr names) \<and>
    repo_outcomes env (run_options full gc (if names = [] then [name] else names)) rps
      (s\<lparr>ix_locks := (ev_session env, profile_lock_id env name) # ix_locks s\<rparr>) = (outs, s2) \<and>
    (if rps = [] then res = Inr zero_counters \<and> s' = s
     else if \<exists>x \<in> set (ix_locks s). snd x = profile_lock_id env name \<and> fst x \<noteq> ev_session env
       then res = Inl (IndexerRunning name) \<and> s' = s
     else if \<not> ev_password env then res = Inl NoPassword \<and> s' = s
     else if ev_commits env CallIndexes = Some 0 then res = Inl GraphError \<and> s' = s
     else ix_db s' = ix_db s2 \<and>
       statuses (ix_db s') = outcome (map (r_id \<circ> fst) rps) (failures env rps outs) (statuses (ix_db s)) \<and>
       res = (if failures env rps outs = [] then Inr (totals_of outs zero_counters) else Inl (ReposFailed (failures env rps outs))) \<and>
       (failures env rps outs \<noteq> [] \<longrightarrow> ix_graph s' = ix_graph s2 \<and> ix_table s' = ix_table s2))"
proof -
  obtain names where n: "get_ancestor_profile_names name (ix_db s) = Some (Inr names)"
    and i: "index_profile env f full gc name s = Some (if rps = [] then (Inr zero_counters, s)
       else with_indexer_lock env name (profile_body env (run_options full gc (if names = [] then [name] else names)) f rps) s)"
    using index_profile_form [OF assms(1,2) assms(3) [symmetric]] by metis
  define opts where "opts = run_options full gc (if names = [] then [name] else names)"
  define s1 where "s1 = s\<lparr>ix_locks := (ev_session env, profile_lock_id env name) # ix_locks s\<rparr>"
  obtain outs s2 where o: "repo_outcomes env opts rps s1 = (outs, s2)" by fastforce
  obtain res s' where r: "index_profile env f full gc name s = Some (res, s')" "ix_locks s' = ix_locks s" "fixed_part (ix_db s') = fixed_part (ix_db s)"
    using index_profile_returns [OF assms(1,2), of env f full gc name] by blast
  have sub: "rd_up (ix_db s1)" "r_id ` fst ` set rps \<subseteq> r_id ` set (repos (ix_db s1))" "distinct (map (r_id \<circ> fst) rps)"
    using assms(2) profile_ids [OF assms(1,3)] by (simp_all add: s1_def)
  have loop: "index_loop env opts rps s1 = (Inr (totals_of outs zero_counters, failures env rps outs), s2)"
    using index_loop_outcomes [OF sub(1,2), of env opts "(zero_counters, [])"] o by (simp add: index_loop_def)
  have st: "statuses (ix_db s2) = outcome (map (r_id \<circ> fst) rps) (failures env rps outs) (statuses (ix_db s))"
    using index_loop_effect [OF sub, of env opts "(zero_counters, [])"] loop by (auto simp: index_loop_def s1_def)
  define held where "held = (\<exists>x \<in> set (ix_locks s). snd x = profile_lock_id env name \<and> fst x \<noteq> ev_session env)"
  have w: "(res, s') = (if rps = [] then (Inr zero_counters, s) else if held then (Inl (IndexerRunning name), s)
      else case profile_body env opts f rps s1 of (r, s2) \<Rightarrow> (r, s2\<lparr>ix_locks := ix_locks s\<rparr>))"
    using i r(1) unfolding with_lock_run [OF leaves_body] opts_def s1_def held_def by simp
  have same: "s1\<lparr>ix_locks := ix_locks s\<rparr> = s" by (simp add: s1_def)
  have seed: "ix_db (snd (run_seed env f False None s2)) = ix_db s2" using leaves_seed(1) [of env f False None] unfolding leaves_def by blast
  have "if rps = [] then res = Inr zero_counters \<and> s' = s
     else if held then res = Inl (IndexerRunning name) \<and> s' = s
     else if \<not> ev_password env then res = Inl NoPassword \<and> s' = s
     else if ev_commits env CallIndexes = Some 0 then res = Inl GraphError \<and> s' = s
     else ix_db s' = ix_db s2 \<and> statuses (ix_db s') = outcome (map (r_id \<circ> fst) rps) (failures env rps outs) (statuses (ix_db s)) \<and>
       res = (if failures env rps outs = [] then Inr (totals_of outs zero_counters) else Inl (ReposFailed (failures env rps outs))) \<and>
       (failures env rps outs \<noteq> [] \<longrightarrow> ix_graph s' = ix_graph s2 \<and> ix_table s' = ix_table s2)"
    using w same loop seed st
    by (simp add: profile_body_def andthen_def on_graph_def raise_exc_def best_effort_def ret_def split: if_splits)
  then show ?thesis using r n o unfolding opts_def s1_def held_def by blast
qed

section \<open>A repository that is deleted meanwhile\<close>

lemma andthen_assoc: "andthen (andthen m g) h = andthen m (\<lambda>x. andthen (g x) h)"
  by (rule ext) (simp add: andthen_def split: prod.split sum.split)

lemma each_append: "each f (xs @ ys) b = andthen (each f xs b) (each f ys)"
proof (induction xs arbitrary: b)
  case (Cons x xs)
  have "each f (xs @ ys) = (\<lambda>b. andthen (each f xs b) (each f ys))" by (rule ext) (rule Cons.IH)
  then show ?case by (simp add: andthen_assoc)
qed simp

lemma update_status_gone:
  assumes "i \<notin> r_id ` set (repos (ix_db s))" "rd_up (ix_db s)"
  shows "on_db (update_repo_status now i st e) s = (Inl (StoreError RepoGone), s)"
proof -
  have "tcount (\<lambda>r. r_id r = i) (repos (ix_db s)) = 0" using assms(1) by (auto simp: tcount_0)
  then show ?thesis using assms(2) by (simp add: on_db_def update_repo_status_def update_row_def checkout_repo_def)
qed

text \<open>
  One repository that is deleted while its profile is indexed ends the whole run. The handler of
  its failure writes the status of the missing row, which raises again: the repositories after it
  are not indexed and not marked, and the failures before it are not reported.
\<close>
theorem deleted_repo_ends_run:
  fixes s :: "'v index_state"
  assumes "rd_up (ix_db s)" "r_id ` fst ` set before \<subseteq> r_id ` set (repos (ix_db s))" "distinct (map (r_id \<circ> fst) before)"
    and "r_id r \<notin> r_id ` set (repos (ix_db s))"
  shows "\<exists>failed s'. index_loop env opts (before @ (r, p) # after) s = (Inl (StoreError RepoGone), s') \<and>
    fst ` set failed \<subseteq> r_id ` fst ` set before \<and>
    statuses (ix_db s') = outcome (map (r_id \<circ> fst) before) failed (statuses (ix_db s))"
proof -
  obtain tot more s1 where l: "each (index_one env opts) before (zero_counters, []) s = (Inr (tot, snd (zero_counters, []) @ more), s1)"
    "fixed_part (ix_db s1) = fixed_part (ix_db s)" "set (map fst more) \<subseteq> r_id ` fst ` set before"
    "statuses (ix_db s1) = outcome (map (r_id \<circ> fst) before) more (statuses (ix_db s))"
    using index_loop_effect [OF assms(1-3), of env opts "(zero_counters, [])"] by (elim exE conjE)
  obtain x s2 where x: "index_repo env opts (r, p) s1 = (x, s2)" by fastforce
  have f2: "fixed_part (ix_db s2) = fixed_part (ix_db s)" "statuses (ix_db s2) = statuses (ix_db s1)"
    using leavesD [OF index_repo_fixed x] leavesD [OF index_repo_statuses x] l(2) by simp_all
  have gone: "on_db (update_repo_status now (r_id r) st e) s2 = (Inl (StoreError RepoGone), s2)" for now st e
    using update_status_gone [of "r_id r" s2] fixed_part_fields [OF f2(1)] assms(1,4) by simp
  have "index_one env opts (r, p) acc s1 = (Inl (StoreError RepoGone), s2)" for acc
    using x gone by (cases x) (simp_all add: index_one_def Let_def andthen_def)
  then have "index_loop env opts (before @ (r, p) # after) s = (Inl (StoreError RepoGone), s2)"
    using l(1) by (simp add: index_loop_def each_append andthen_def)
  then show ?thesis using l(3,4) f2(2) by auto
qed

section \<open>All profiles\<close>

text \<open>What is promised of the loop over profiles: every profile is run, from the state the one before left.\<close>

fun profile_outcomes :: "'v index_env \<Rightarrow> seed_file \<Rightarrow> bool \<Rightarrow> bool \<Rightarrow> string list \<Rightarrow> 'v index_state
     \<Rightarrow> ((index_exc + counters) list \<times> 'v index_state) option" where
  "profile_outcomes env f full gc [] s = Some ([], s)"
| "profile_outcomes env f full gc (name # names) s =
     (case index_profile env f full gc name s of
        None \<Rightarrow> None
      | Some (x, s1) \<Rightarrow> map_option (\<lambda>(xs, s2). (x # xs, s2)) (profile_outcomes env f full gc names s1))"

definition successes :: "(index_exc + counters) list \<Rightarrow> counters list" where
  "successes outs = List.map_filter (\<lambda>x. case x of Inl _ \<Rightarrow> None | Inr c \<Rightarrow> Some c) outs"

lemma index_profiles_outcomes:
  fixes s :: "'v index_state"
  assumes "repo_inv (ix_db s)" "rd_up (ix_db s)"
  shows "\<exists>outs s'. profile_outcomes env f full gc names s = Some (outs, s') \<and> length outs = length names \<and>
    fixed_part (ix_db s') = fixed_part (ix_db s) \<and>
    index_profiles env f full gc names acc s = Some (fold (\<lambda>(name, r). add_profile_result name r) (zip names outs) acc, s')"
  using assms
proof (induction names arbitrary: acc s)
  case (Cons name names)
  obtain x s1 where x: "index_profile env f full gc name s = Some (x, s1)" "fixed_part (ix_db s1) = fixed_part (ix_db s)"
    using index_profile_returns [OF Cons.prems, of env f full gc name] by blast
  have i: "repo_inv (ix_db s1)" "rd_up (ix_db s1)"
    using fixed_part_inv [OF x(2)] fixed_part_fields [OF x(2)] Cons.prems by simp_all
  obtain outs s' where "profile_outcomes env f full gc names s1 = Some (outs, s')" "length outs = length names"
    "fixed_part (ix_db s') = fixed_part (ix_db s1)"
    "index_profiles env f full gc names (add_profile_result name x acc) s1 =
       Some (fold (\<lambda>(name, r). add_profile_result name r) (zip names outs) (add_profile_result name x acc), s')"
    using Cons.IH [OF i, of "add_profile_result name x acc"] by blast
  then show ?case using x by (intro exI [of _ "x # outs"] exI [of _ s']) simp
qed simp

lemma summary_of:
  "fold (\<lambda>(name, r). add_profile_result name r) nrs acc =
     \<lparr>as_ok = as_ok acc + length (filter (is_ok \<circ> snd) nrs),
      as_failed = as_failed acc @ map fst (filter (\<lambda>nr. \<not> is_ok (snd nr)) nrs),
      as_counts = fold (\<lambda>c t. add_counters t c) (successes (map snd nrs)) (as_counts acc)\<rparr>"
  by (induction nrs arbitrary: acc)
    (auto simp: add_profile_result_def successes_def List.map_filter_simps is_ok_def split: sum.splits)

lemma add_counters_order:
  "mset cs = mset ds \<Longrightarrow> fold (\<lambda>c t. add_counters t c) cs = fold (\<lambda>c t. add_counters t c) ds"
  by (rule fold_multiset_equiv) (simp_all add: fun_eq_iff add_counters_def)

text \<open>
  C31. Indexing all profiles runs every one, whatever fails in those before, and its summary is
  true: the number done is that of the runs that returned, the failed ones named are those whose run
  raised, in order, and the counters are the sums over the runs that returned. With several
  profile workers the outcomes of the same runs, in whichever order they complete, give the
  same summary when none raised; when one did, the documented promise does not hold: its exception is
  raised and the summary is lost.
\<close>
theorem index_all_counts:
  assumes "repo_inv (ix_db s)" "rd_up (ix_db s)"
    and "names = map p_name (sort_key p_id (profiles (ix_db s)))"
  shows "\<exists>outs acc s'. profile_outcomes env f full gc names s = Some (outs, s') \<and> length outs = length names \<and>
    index_all env f full gc s = Some (Inr acc, s') \<and> repo_inv (ix_db s') \<and>
    as_ok acc = length (filter is_ok outs) \<and>
    as_failed acc = map fst (filter (\<lambda>(name, r). \<not> is_ok r) (zip names outs)) \<and>
    as_counts acc = fold (\<lambda>c t. add_counters t c) (successes outs) zero_counters \<and>
    (\<forall>futures. mset futures = mset (zip names outs) \<longrightarrow>
       (if as_failed acc = [] then gather_profiles futures = Inr acc
        else \<exists>e. Inl e \<in> set outs \<and> gather_profiles futures = Inl e))"
proof -
  have l: "on_db list_profiles s = (Inr (sort_key p_id (profiles (ix_db s))), s)"
    using assms(2) by (simp add: on_db_def list_profiles_def checkout_repo_def)
  obtain outs s' where r: "profile_outcomes env f full gc names s = Some (outs, s')" "length outs = length names"
    "fixed_part (ix_db s') = fixed_part (ix_db s)"
    "index_profiles env f full gc names no_profiles s = Some (fold (\<lambda>(name, r). add_profile_result name r) (zip names outs) no_profiles, s')"
    using index_profiles_outcomes [OF assms(1,2), of env f full gc names no_profiles] by blast
  define acc where "acc = fold (\<lambda>(name, r). add_profile_result name r) (zip names outs) no_profiles"
  have i: "index_all env f full gc s = Some (Inr acc, s')"
    using l r(4) assms(3) by (simp add: index_all_def acc_def)
  have z: "map snd (zip names outs) = outs" using r(2) by simp
  have "length (filter (is_ok \<circ> snd) (zip names outs)) = length (filter is_ok outs)"
    using arg_cong [OF z, of "\<lambda>xs. length (filter is_ok xs)"] by (simp add: filter_map comp_def)
  then have a: "as_ok acc = length (filter is_ok outs)" "as_failed acc = map fst (filter (\<lambda>nr. \<not> is_ok (snd nr)) (zip names outs))"
    "as_counts acc = fold (\<lambda>c t. add_counters t c) (successes outs) zero_counters"
    by (simp_all add: acc_def summary_of no_profiles_def z)
  have g: "if as_failed acc = [] then gather_profiles futures = Inr acc
        else \<exists>e. Inl e \<in> set outs \<and> gather_profiles futures = Inl e" if m: "mset futures = mset (zip names outs)" for futures
  proof -
    let ?err = "\<lambda>(_ :: string, r :: index_exc + counters). case r of Inl e \<Rightarrow> Some e | Inr _ \<Rightarrow> None"
    have set: "set futures = set (zip names outs)" using m by (metis set_mset_mset)
    have out: "snd ` set (zip names outs) = set outs" using arg_cong [OF z, of set] by simp
    show ?thesis
    proof (cases "List.map_filter ?err futures")
      case Nil
      then have "is_ok (snd nr)" if "nr \<in> set futures" for nr
        using that by (cases nr; cases "snd nr") (auto simp: List.map_filter_def filter_empty_conv is_ok_def dest!: bspec)
      then have ok: "list_all (is_ok \<circ> snd) futures" "list_all (is_ok \<circ> snd) (zip names outs)" by (auto simp: list_all_iff set)
      have none: "filter (\<lambda>nr. \<not> is_ok (snd nr)) (zip names outs) = []" "filter (\<lambda>nr. \<not> is_ok (snd nr)) futures = []"
        using ok by (auto simp: list_all_iff filter_empty_conv)
      have "mset (successes (map snd futures)) = mset (successes outs)"
        unfolding successes_def List.map_filter_def using m z by (metis (no_types, lifting) mset_filter mset_map)
      from add_counters_order [OF this] have "fold (\<lambda>(name, r). add_profile_result name r) futures no_profiles = acc"
        unfolding acc_def summary_of z none using ok m
        by (simp add: list_all_iff filter_True flip: size_mset)
      then show ?thesis using Nil none a(2) by (simp add: gather_profiles_def)
    next
      case (Cons e es)
      then have "e \<in> set (List.map_filter ?err futures)" by simp
      then obtain n r where nr: "(n, r) \<in> set futures" "r = Inl e" by (auto simp: List.map_filter_def split: sum.splits)
      then have "Inl e \<in> set outs" "filter (\<lambda>nr. \<not> is_ok (snd nr)) (zip names outs) \<noteq> []"
        using set out by (force simp: filter_empty_conv is_ok_def)+
      then show ?thesis using Cons a(2) by (simp add: gather_profiles_def)
    qed
  qed
  have "repo_inv (ix_db s')" using fixed_part_inv [OF r(3)] assms(1) by simp
  then show ?thesis using r(1,2) i a g by (intro exI [of _ outs] exI [of _ acc] exI [of _ s']) (simp add: case_prod_unfold)
qed

section \<open>The lock\<close>

text \<open>
  Asking whether an indexer runs can keep one from running. While another session looks (it
  takes the lock and gives it back), a start of the profile's run is refused as if an indexer were
  running, although none is; nothing else is changed, and after the look the locks are as before.
\<close>
theorem peek_refuses_a_run:
  fixes s :: "'v index_state"
  assumes "repo_inv (ix_db s)" "rd_up (ix_db s)" "ev_session web \<noteq> ev_session env" "ev_md5 web = ev_md5 env"
    and "filter (\<lambda>(r, p). p_name p = name) (joined (ix_db s)) \<noteq> []" "peek_acquire web name s = (acquired, s1)"
  shows "peek_release web name acquired s1 = s \<and>
    (acquired \<longrightarrow> fst (indexer_is_running web name s) = False \<and> index_profile env f full gc name s1 = Some (Inl (IndexerRunning name), s1))"
proof
  have id: "profile_lock_id web name = profile_lock_id env name" using assms(4) by (simp add: profile_lock_id_def)
  show "peek_release web name acquired s1 = s"
    using assms(6) by (auto simp: peek_acquire_def peek_release_def try_lock_def unlock_def split: if_splits)
  show "acquired \<longrightarrow> fst (indexer_is_running web name s) = False \<and> index_profile env f full gc name s1 = Some (Inl (IndexerRunning name), s1)"
  proof
    assume a: acquired
    then have s1: "s1 = s\<lparr>ix_locks := (ev_session web, profile_lock_id env name) # ix_locks s\<rparr>"
      using assms(6) by (auto simp: peek_acquire_def try_lock_def id split: if_splits)
    obtain names where n: "get_ancestor_profile_names name (ix_db s) = Some (Inr names)"
      using names_total [OF assms(1), of name] assms(2) by (auto simp: get_ancestor_profile_names_def)
    have "try_lock (ev_session env) (profile_lock_id env name) (ix_locks s1) = (False, ix_locks s1)"
      using assms(3) by (simp add: try_lock_def s1)
    then have "with_indexer_lock env name b s1 = (Inl (IndexerRunning name), s1)" for b :: "('v, counters) act"
      by (simp add: with_indexer_lock_def Let_def)
    moreover have "on_db (get_repos_for_profile name) s1 = (Inr (filter (\<lambda>(r, p). p_name p = name) (joined (ix_db s))), s1)"
      using assms(2) by (simp add: on_db_def get_repos_for_profile_def checkout_repo_def s1)
    ultimately show "fst (indexer_is_running web name s) = False \<and> index_profile env f full gc name s1 = Some (Inl (IndexerRunning name), s1)"
      using a assms(5,6) n by (simp add: indexer_is_running_def index_profile_def s1)
  qed
qed

end
