(* ===== verification/SeedingProps.thy ===== *)
theory SeedingProps
  imports Seeding WriterProps
begin

text \<open>
  What the sentinels of the pattern catalogue say, and when they do not.
\<close>

section \<open>Sentinels\<close>

abbreviation meta_node :: "string \<Rightarrow> gnode \<Rightarrow> bool" where
  "meta_node key \<equiv> is_node ''_SeedMeta'' [(''key'', GStr key)]"

lemma meta_node_iff: "meta_node key n \<longleftrightarrow> g_label n = ''_SeedMeta'' \<and> g_props n ''key'' = Some (GStr key)"
  by (simp add: is_node_def has_keys_def)

lemma stored_cong:
  assumes "\<And>k. filter (meta_node k) (gnodes h) = filter (meta_node k) (gnodes g)"
  shows "stored_sha key h = stored_sha key g"
proof -
  have sm: "seed_meta k h = seed_meta k g" for k
    using assms [of k] by (simp add: seed_meta_def tselect_def find_filter_hd)
  show ?thesis unfolding stored_sha_def sm by (rule refl)
qed

text \<open>Writing patterns leaves the sentinels alone.\<close>

definition metas :: "pgraph \<Rightarrow> string \<Rightarrow> gnode list" where
  "metas g k = filter (meta_node k) (gnodes g)"

lemma metas_stored: "metas h = metas g \<Longrightarrow> stored_sha key h = stored_sha key g"
  by (rule stored_cong) (metis metas_def)

lemma metas_rels [simp]: "metas (merge_rels t ks oc om as bs g) = metas g"
  by (rule ext) (simp add: metas_def)

lemma metas_upsert:
  assumes "graph_ok g" "l \<noteq> ''_SeedMeta''"
  shows "metas (upsert_node l ks f g) = metas g"
  using assms(2) unfolding metas_def upsert_node_def
  by (intro ext filter_merge_other [OF assms(1)]) (auto simp: is_node_def upd_node_def)

lemma write_pattern_meta:
  assumes "graph_ok g"
  shows "graph_ok (write_pattern_example e g) \<and> metas (write_pattern_example e g) = metas g"
proof
  show "graph_ok (write_pattern_example e g)" by (rule spec_ok(5) [OF assms])
  have f: "metas (fold (\<lambda>cs g. link t (q cs g) (q' cs g) g) css h) = metas h" for t css q q' and h :: pgraph
    by (induction css arbitrary: h) simp_all
  show "metas (write_pattern_example e g) = metas g"
    unfolding write_pattern_example_def Let_def f by (rule metas_upsert [OF assms]) simp
qed

lemma write_patterns_meta:
  assumes "graph_ok (ix_graph s)" "write_patterns env ps s = (r, s')"
  shows "graph_ok (ix_graph s')" "metas (ix_graph s') = metas (ix_graph s)" "ix_table s' = ix_table s"
proof -
  have one: "graph_ok g \<Longrightarrow> graph_ok (fold write_pattern_example b g) \<and> metas (fold write_pattern_example b g) = metas g" for b g
    by (induction b arbitrary: g) (auto simp: write_pattern_meta)
  have all: "graph_ok g \<Longrightarrow> graph_ok (fold (fold write_pattern_example) bs g) \<and> metas (fold (fold write_pattern_example) bs g) = metas g" for bs g
    by (induction bs arbitrary: g) (auto simp: one)
  show "graph_ok (ix_graph s')" "metas (ix_graph s') = metas (ix_graph s)" "ix_table s' = ix_table s"
    using assms(2) all [OF assms(1)] by (auto simp: write_patterns_def commit_each_def split: option.splits if_splits)
qed

text \<open>Setting one.\<close>

lemma set_sentinel_ok: "graph_ok g \<Longrightarrow> graph_ok (set_sentinel key sha now g)"
  unfolding set_sentinel_def by (rule upsert_ok) (simp_all add: fits_def schema_def)

lemma set_sentinel_other:
  assumes "graph_ok g" "k \<noteq> key"
  shows "metas (set_sentinel key sha now g) k = metas g k"
  using assms(2) unfolding metas_def set_sentinel_def upsert_node_def
  by (intro filter_merge_other [OF assms(1)]) (auto simp: is_node_def has_keys_def upd_node_def sentinel_props_def)

lemma set_sentinel_same:
  assumes "graph_ok g"
  shows "\<exists>n ns. metas (set_sentinel key sha now g) key = n # ns \<and> g_props n ''sha256'' = Some (GStr sha)"
proof -
  have "metas (set_sentinel key sha now g) key =
    (if metas g key = [] then [\<lparr>g_id = g_next g, g_label = ''_SeedMeta'', g_props = sentinel_props sha now (map_of [(''key'', GStr key)])\<rparr>]
     else map (upd_node (sentinel_props sha now)) (metas g key))"
    unfolding metas_def set_sentinel_def upsert_node_def
    by (rule filter_merge_same [OF assms]) (auto simp: is_node_def has_keys_def upd_node_def sentinel_props_def)
  then show ?thesis by (cases "metas g key") (auto simp: sentinel_props_def upd_node_def)
qed

lemma seed_meta_metas: "seed_meta key g = (case metas g key of [] \<Rightarrow> None | n # _ \<Rightarrow> Some n)"
  by (simp add: seed_meta_def metas_def tselect_def find_filter_hd)

lemma stored_set: "graph_ok g \<Longrightarrow> stored_sha key (set_sentinel key sha now g) = Some sha"
  using set_sentinel_same [of g key sha now] by (auto simp: stored_sha_def seed_meta_metas str_prop_def)

lemma stored_set_other:
  assumes "graph_ok g" "key \<noteq> key'" "key \<noteq> ''patterns''"
  shows "stored_sha key' (set_sentinel key sha now g) = stored_sha key' g"
proof -
  have sm: "seed_meta key' (set_sentinel key sha now g) = seed_meta key' g"
    "seed_meta ''patterns'' (set_sentinel key sha now g) = seed_meta ''patterns'' g"
    using assms set_sentinel_other [OF assms(1)] by (simp_all add: seed_meta_metas)
  show ?thesis unfolding stored_sha_def sm by (rule refl)
qed

section \<open>The table\<close>

lemma replace_patterns_Inr:
  assumes "replace_patterns emb (make_pattern_chunks ps) s = (Inr u, s')"
  shows "map er_chunk (filter is_pattern_row (ix_table s')) = make_pattern_chunks ps" "ix_graph s' = ix_graph s"
proof -
  let ?cs = "make_pattern_chunks ps"
  obtain vecs where v: "length ?cs \<le> length vecs"
    "s' = s\<lparr>ix_table := tdelete is_pattern_row (ix_table s) @ map (\<lambda>(c, v). \<lparr>er_chunk = c, er_vec = v\<rparr>) (zip ?cs vecs)\<rparr>"
    using assms by (auto simp: replace_patterns_def not_less split: sum.splits if_splits)
  have ch: "map er_chunk (map (\<lambda>(c, v). \<lparr>er_chunk = c, er_vec = v\<rparr>) (zip ?cs vecs)) = ?cs"
    using v(1) by (simp add: comp_def split_def map_fst_zip_take)
  have "list_all is_pattern_row (map (\<lambda>(c, v). \<lparr>er_chunk = c, er_vec = v\<rparr>) (zip ?cs vecs))"
    by (auto simp: list_all_iff is_pattern_row_def make_pattern_chunks_def pattern_chunk_def dest!: set_zip_leftD)
  then have "filter is_pattern_row (ix_table s') = map (\<lambda>(c, v). \<lparr>er_chunk = c, er_vec = v\<rparr>) (zip ?cs vecs)"
    unfolding v(2) by (simp add: tdelete_def filter_id_conv list_all_iff)
  then show "map er_chunk (filter is_pattern_row (ix_table s')) = ?cs" using ch by simp
  show "ix_graph s' = ix_graph s" using v(2) by simp
qed

lemma replace_patterns_Inl: "replace_patterns emb cs s = (Inl e, s') \<Longrightarrow> s' = s"
  by (auto simp: replace_patterns_def split: sum.splits if_splits)

section \<open>What a sentinel says\<close>

definition vectors_true :: "seed_file \<Rightarrow> pattern_example list \<Rightarrow> 'v index_state \<Rightarrow> bool" where
  "vectors_true f ps s \<longleftrightarrow> (stored_sha ''patterns_pgvector'' (ix_graph s) = Some (sf_sha f) \<longrightarrow>
     map er_chunk (filter is_pattern_row (ix_table s)) = make_pattern_chunks ps)"

lemma set_stored_Inr:
  "set_stored_patterns_sha env sha key s = (Inr u, s') \<Longrightarrow> s' = s\<lparr>ix_graph := set_sentinel key sha (ev_now env) (ix_graph s)\<rparr>"
  "set_stored_patterns_sha env sha key s = (Inl e, s') \<Longrightarrow> s' = s"
  by (auto simp: set_stored_patterns_sha_def on_graph_def split: if_splits)

lemma seed_graph_keeps:
  assumes "graph_ok (ix_graph s)" "seed_graph env f qs s = (r, s')"
  shows "graph_ok (ix_graph s')" "stored_sha ''patterns_pgvector'' (ix_graph s') = stored_sha ''patterns_pgvector'' (ix_graph s)"
    "ix_table s' = ix_table s" "r = Inr () \<Longrightarrow> stored_sha ''patterns_neo4j'' (ix_graph s') = Some (sf_sha f)"
proof -
  obtain x s1 where w: "write_patterns env qs s = (x, s1)" by fastforce
  note m = write_patterns_meta [OF assms(1) w]
  have st: "stored_sha k (ix_graph s1) = stored_sha k (ix_graph s)" for k by (rule metas_stored [OF m(2)])
  have "graph_ok (ix_graph s') \<and> stored_sha ''patterns_pgvector'' (ix_graph s') = stored_sha ''patterns_pgvector'' (ix_graph s) \<and>
    ix_table s' = ix_table s \<and> (r = Inr () \<longrightarrow> stored_sha ''patterns_neo4j'' (ix_graph s') = Some (sf_sha f))"
  proof (cases x)
    case (Inl e)
    then show ?thesis using assms(2) w m st by (auto simp: seed_graph_def andthen_def)
  next
    case (Inr u)
    then have set: "set_stored_patterns_sha env (sf_sha f) ''patterns_neo4j'' s1 = (r, s')"
      using assms(2) w by (simp add: seed_graph_def andthen_def)
    show ?thesis
    proof (cases r)
      case (Inl e)
      then have "s' = s1" using set_stored_Inr(2) set by metis
      then show ?thesis using Inl m st by simp
    next
      case (Inr u)
      then have "s' = s1\<lparr>ix_graph := set_sentinel ''patterns_neo4j'' (sf_sha f) (ev_now env) (ix_graph s1)\<rparr>"
        using set_stored_Inr(1) set by metis
      then show ?thesis using m st by (simp add: set_sentinel_ok stored_set stored_set_other)
    qed
  qed
  then show "graph_ok (ix_graph s')" "stored_sha ''patterns_pgvector'' (ix_graph s') = stored_sha ''patterns_pgvector'' (ix_graph s)"
    "ix_table s' = ix_table s" "r = Inr () \<Longrightarrow> stored_sha ''patterns_neo4j'' (ix_graph s') = Some (sf_sha f)" by blast+
qed

lemma seed_vectors_effect:
  assumes "graph_ok (ix_graph s)" "seed_vectors env f emb ps s = (r, s')"
  shows "graph_ok (ix_graph s')" "stored_sha ''patterns_neo4j'' (ix_graph s') = stored_sha ''patterns_neo4j'' (ix_graph s)"
    "s' = s \<or> map er_chunk (filter is_pattern_row (ix_table s')) = make_pattern_chunks ps"
    "r = Inr () \<Longrightarrow> stored_sha ''patterns_pgvector'' (ix_graph s') = Some (sf_sha f) \<and>
       map er_chunk (filter is_pattern_row (ix_table s')) = make_pattern_chunks ps"
proof -
  obtain x s1 where w: "replace_patterns emb (make_pattern_chunks ps) s = (x, s1)" by fastforce
  have "graph_ok (ix_graph s') \<and> stored_sha ''patterns_neo4j'' (ix_graph s') = stored_sha ''patterns_neo4j'' (ix_graph s) \<and>
    (s' = s \<or> map er_chunk (filter is_pattern_row (ix_table s')) = make_pattern_chunks ps) \<and>
    (r = Inr () \<longrightarrow> stored_sha ''patterns_pgvector'' (ix_graph s') = Some (sf_sha f) \<and>
       map er_chunk (filter is_pattern_row (ix_table s')) = make_pattern_chunks ps)"
  proof (cases x)
    case (Inl e)
    then have "s1 = s" using replace_patterns_Inl w by metis
    then show ?thesis using assms w Inl by (auto simp: seed_vectors_def andthen_def)
  next
    case (Inr u)
    note t = replace_patterns_Inr [OF w [unfolded Inr]]
    have set: "set_stored_patterns_sha env (sf_sha f) ''patterns_pgvector'' s1 = (r, s')"
      using assms(2) w Inr by (simp add: seed_vectors_def andthen_def)
    show ?thesis
    proof (cases r)
      case (Inl e)
      then have "s' = s1" using set_stored_Inr(2) set by metis
      then show ?thesis using Inl t assms(1) by simp
    next
      case (Inr u)
      then have "s' = s1\<lparr>ix_graph := set_sentinel ''patterns_pgvector'' (sf_sha f) (ev_now env) (ix_graph s1)\<rparr>"
        using set_stored_Inr(1) set by metis
      then show ?thesis using t assms(1) by (simp add: set_sentinel_ok stored_set stored_set_other)
    qed
  qed
  then show "graph_ok (ix_graph s')" "stored_sha ''patterns_neo4j'' (ix_graph s') = stored_sha ''patterns_neo4j'' (ix_graph s)"
    "s' = s \<or> map er_chunk (filter is_pattern_row (ix_table s')) = make_pattern_chunks ps"
    "r = Inr () \<Longrightarrow> stored_sha ''patterns_pgvector'' (ix_graph s') = Some (sf_sha f) \<and>
       map er_chunk (filter is_pattern_row (ix_table s')) = make_pattern_chunks ps" by blast+
qed

lemma asks_same:
  "needs_update env f force s = (r, s') \<Longrightarrow> s' = s"
  "load_patterns f v s = (r', s') \<Longrightarrow> s' = s"
  "seed_gate env f ne force s = (r'', s') \<Longrightarrow> s' = s"
  by (auto simp: needs_update_def load_patterns_def seed_gate_def get_stored_patterns_sha_def on_graph_def andthen_def ret_def
      of_parser_def raise_exc_def split: if_splits sum.splits prod.splits)

text \<open>A run of \<open>run_seed\<close> that does something: the file was read, then the two stores one after the other.\<close>

lemma run_seed_cases:
  assumes "run_seed env f force v s = (r, s')"
  obtains (none) "s' = s" "(\<exists>e. r = Inl e) \<or> (\<forall>v'. run_seed env f force v' s = (Inr skipped, s))"
  | (work) n4 pg qs s1 x where "needs_update env f force s = (Inr (n4, pg), s)" "load_patterns f v s = (Inr qs, s)"
      "(if n4 then seed_graph env f qs else ret ()) s = (x, s1)"
      "x = Inr () \<and> (case ev_embed env of Some emb \<Rightarrow> if pg then seed_vectors env f emb qs else ret () | None \<Rightarrow> ret ()) s1
         = (case r of Inl e \<Rightarrow> Inl e | Inr _ \<Rightarrow> Inr (), s') \<or> (\<exists>e. x = Inl e \<and> r = Inl e) \<and> s' = s1"
proof (cases "sf_exists f")
  case False
  then show thesis using assms by (intro none) (simp_all add: run_seed_def ret_def)
next
  case True
  obtain y sn where n: "needs_update env f force s = (y, sn)" by fastforce
  then have sn: "sn = s" using asks_same(1) by metis
  obtain z sl where l: "load_patterns f v s = (z, sl)" by fastforce
  then have sl: "sl = s" using asks_same(2) by metis
  consider e where "y = Inl e" | "y = Inr (False, False)" | e where "z = Inl e" | n4 pg qs where "y = Inr (n4, pg)" "n4 \<or> pg" "z = Inr qs"
    by (metis sum.exhaust prod.exhaust)
  then show thesis
  proof cases
    case 4
    obtain x s1 where g: "(if n4 then seed_graph env f qs else ret ()) s = (x, s1)" by fastforce
    from 4 show thesis
      using assms True n sn l sl g
      by (intro work [of n4 pg qs x s1]) (auto simp: run_seed_def andthen_def ret_def split: sum.splits prod.splits)
  next
    case (3 e)
    then show thesis using assms True n sn l sl
      by (intro none) (auto simp: run_seed_def andthen_def ret_def split: sum.splits prod.splits if_splits)
  qed (use assms True n sn in \<open>auto simp: run_seed_def andthen_def ret_def intro: none\<close>)
qed

lemma needs_False:
  assumes "needs_update env f False s = (Inr (n4, pg), s'')"
  shows "ev_commits env (CallSeedRead ''patterns_neo4j'') \<noteq> Some 0" "n4 = (stored_sha ''patterns_neo4j'' (ix_graph s) \<noteq> Some (sf_sha f))"
    "ev_embed env = None \<Longrightarrow> \<not> pg"
    "ev_embed env \<noteq> None \<Longrightarrow> ev_commits env (CallSeedRead ''patterns_pgvector'') \<noteq> Some 0 \<and>
       pg = (stored_sha ''patterns_pgvector'' (ix_graph s) \<noteq> Some (sf_sha f))"
  using assms by (auto simp: needs_update_def get_stored_patterns_sha_def on_graph_def andthen_def ret_def split: if_splits)

lemma up_to_date:
  assumes "ev_commits env (CallSeedRead ''patterns_neo4j'') \<noteq> Some 0" "stored_sha ''patterns_neo4j'' (ix_graph s) = Some (sf_sha f)"
    and "ev_embed env \<noteq> None \<Longrightarrow> ev_commits env (CallSeedRead ''patterns_pgvector'') \<noteq> Some 0 \<and>
       stored_sha ''patterns_pgvector'' (ix_graph s) = Some (sf_sha f)"
  shows "run_seed env f False v s = (Inr skipped, s)"
proof -
  have "needs_update env f False s = (Inr (False, False), s)"
    using assms by (cases "ev_embed env") (simp_all add: needs_update_def get_stored_patterns_sha_def on_graph_def andthen_def ret_def)
  then show ?thesis by (simp add: run_seed_def andthen_def ret_def)
qed

text \<open>
  C32. The sentinel of the embeddings never lies, whatever fails in between: when it has the
  hash of the catalogue, the table has exactly the chunks of its patterns, in every state in which an
  unfiltered run ends, also by an exception; a run that was not interrupted leaves nothing to do for
  the next one.
\<close>
theorem sentinel_truth:
  fixes s :: "'v index_state"
  assumes "graph_ok (ix_graph s)" "sf_patterns f = Inr ps" "vectors_true f ps s" "run_seed env f force None s = (r, s')"
  shows "vectors_true f ps s' \<and> (is_ok r \<and> \<not> force \<longrightarrow> run_seed env f False v s' = (Inr skipped, s'))"
  using assms(4)
proof (cases rule: run_seed_cases)
  case none
  then show ?thesis using assms(3) by auto
next
  case (work n4 pg qs s1 x)
  have qs: "qs = ps" using work(2) assms(2) by (auto simp: load_patterns_def andthen_def of_parser_def ret_def truthy_def)
  have g1: "graph_ok (ix_graph s1)" and p1: "stored_sha ''patterns_pgvector'' (ix_graph s1) = stored_sha ''patterns_pgvector'' (ix_graph s)"
    and t1: "ix_table s1 = ix_table s"
    and n1: "x = Inr () \<Longrightarrow> n4 \<Longrightarrow> stored_sha ''patterns_neo4j'' (ix_graph s1) = Some (sf_sha f)"
    and m1: "\<not> n4 \<Longrightarrow> s1 = s"
    using work(3) assms(1) seed_graph_keeps [OF assms(1)] by (cases n4; simp add: ret_def)+
  have v1: "vectors_true f ps s1" using assms(3) p1 t1 by (simp add: vectors_true_def)
  show ?thesis
  proof (cases "x = Inr () \<and> (\<exists>emb. ev_embed env = Some emb) \<and> pg")
    case False
    then have s': "s' = s1" using work(4) by (cases "ev_embed env") (auto simp: ret_def split: sum.splits)
    have "run_seed env f False v s1 = (Inr skipped, s1)" if "is_ok r" "\<not> force"
    proof (rule up_to_date)
      have x: "x = Inr ()" using that(1) work(4) by auto
      note n = needs_False [of env f s n4 pg s]
      have nu: "needs_update env f False s = (Inr (n4, pg), s)" using work(1) that(2) by simp
      show "ev_commits env (CallSeedRead ''patterns_neo4j'') \<noteq> Some 0" using n(1) [OF nu] .
      show "stored_sha ''patterns_neo4j'' (ix_graph s1) = Some (sf_sha f)"
        using n1 [OF x] m1 n(2) [OF nu] by (cases n4) auto
      show "ev_commits env (CallSeedRead ''patterns_pgvector'') \<noteq> Some 0 \<and> stored_sha ''patterns_pgvector'' (ix_graph s1) = Some (sf_sha f)"
        if "ev_embed env \<noteq> None" using n(4) [OF nu that] False x p1 that by auto
    qed
    then show ?thesis using v1 s' by simp
  next
    case True
    then obtain emb where emb: "ev_embed env = Some emb" by blast
    then have sv: "seed_vectors env f emb ps s1 = (case r of Inl e \<Rightarrow> Inl e | Inr _ \<Rightarrow> Inr (), s')"
      using work(4) True qs by auto
    note eff = seed_vectors_effect [OF g1 sv]
    have "run_seed env f False v s' = (Inr skipped, s')" if "is_ok r" "\<not> force"
    proof (rule up_to_date)
      have ok: "(case r of Inl e \<Rightarrow> Inl e | Inr _ \<Rightarrow> Inr ()) = Inr ()" using that(1) by (cases r) simp_all
      note n = needs_False [of env f s n4 pg s]
      have nu: "needs_update env f False s = (Inr (n4, pg), s)" using work(1) that(2) by simp
      show "ev_commits env (CallSeedRead ''patterns_neo4j'') \<noteq> Some 0" using n(1) [OF nu] .
      show "stored_sha ''patterns_neo4j'' (ix_graph s') = Some (sf_sha f)"
        using n1 True m1 n(2) [OF nu] eff(2) by (cases n4) auto
      show "ev_commits env (CallSeedRead ''patterns_pgvector'') \<noteq> Some 0 \<and> stored_sha ''patterns_pgvector'' (ix_graph s') = Some (sf_sha f)"
        if "ev_embed env \<noteq> None" using n(4) [OF nu that] eff(4) [OF ok] by blast
    qed
    then show ?thesis using eff(3) v1 by (auto simp: vectors_true_def)
  qed
qed

text \<open>
  A filtered run hides the rest of the catalogue. After \<open>seed-patterns --version v\<close> the embeddings
  of all patterns of other versions are gone, both sentinels have the hash of the whole file, and
  later runs without the filter, by the command or at the end of an indexer run, skip.
\<close>
theorem filtered_seed_hides_rest:
  fixes s :: "'v index_state"
  assumes "graph_ok (ix_graph s)" "sf_exists f" "ev_password env" "sf_patterns f = Inr ps" "v \<noteq> []"
    and "list_ex (\<lambda>p. pe_odoo_version_min p = v) ps"
    and "seed_main env f emb (Some v) False True s = (Inr code, s')"
    and "list_all (\<lambda>k. ev_commits env (CallSeedRead k) \<noteq> Some 0) [''patterns_neo4j'', ''patterns_pgvector'']"
  shows "seed_main env f emb None False False s' = (Inr 0, s') \<and> run_seed env f False None s' = (Inr skipped, s') \<and>
    map er_chunk (filter is_pattern_row (ix_table s')) = make_pattern_chunks (filter (\<lambda>p. pe_odoo_version_min p = v) ps)"
proof -
  let ?qs = "filter (\<lambda>p. pe_odoo_version_min p = v) ps"
  have tv: "truthy (Some v) = Some v" using assms(5) by (cases v) (simp_all add: truthy_def)
  have ne: "?qs \<noteq> []" using assms(6) by (auto simp: filter_empty_conv list_ex_iff)
  have load: "load_patterns f (Some v) s = (Inr ?qs, s)" using assms(4) tv by (simp add: load_patterns_def andthen_def of_parser_def ret_def)
  have gate: "seed_gate env f False True s = (Inr False, s)" by (simp add: seed_gate_def ret_def)
  obtain s1 where i: "on_graph env CallIndexes (\<lambda>g. ((), g)) s = (Inr (), s1)" "s1 = s"
    using assms(7,2,3) load gate ne by (auto simp: seed_main_def andthen_eq_Inr on_graph_def split: if_splits)
  obtain s2 where g: "seed_graph env f ?qs s = (Inr (), s2)" and w: "seed_vectors env f emb ?qs s2 = (Inr (), s')"
    using assms(7,2,3) load gate ne i by (auto simp: seed_main_def andthen_eq_Inr ret_def)
  note k = seed_graph_keeps [OF assms(1) g] and e = seed_vectors_effect [OF _ w]
  have st: "stored_sha ''patterns_neo4j'' (ix_graph s') = Some (sf_sha f)" "stored_sha ''patterns_pgvector'' (ix_graph s') = Some (sf_sha f)"
    "map er_chunk (filter is_pattern_row (ix_table s')) = make_pattern_chunks ?qs"
    using k e [OF k(1)] by simp_all
  moreover have "seed_gate env f False False s' = (Inr True, s')"
    using st(1,2) assms(3,8) by (simp add: seed_gate_def get_stored_patterns_sha_def on_graph_def andthen_def ret_def)
  then have "seed_main env f emb None False False s' = (Inr 0, s')"
    using assms(2) by (simp add: seed_main_def andthen_def ret_def)
  moreover have "run_seed env f False None s' = (Inr skipped, s')"
    using st(1,2) assms(8) by (intro up_to_date) simp_all
  ultimately show ?thesis by simp
qed

end
