(* ===== verification/PipelineExamples.thy ===== *)
theory PipelineExamples
  imports PipelineProps SeedingProps
begin

text \<open>
  A small world in which the theorems of \<open>PipelineProps\<close> apply: a repository \<open>/a/odoo\<close> with the module
  \<open>sale\<close>, a repository \<open>/b/shop\<close> whose module \<open>shop\<close> depends on it, and in the graph also a
  module \<open>stock\<close> of a second checkout \<open>/c/odoo\<close>.
\<close>

definition ex_world :: world where
  "ex_world = \<lparr>w_rglob = (\<lambda>d f. if d = ''/a/odoo'' \<and> f = ''__manifest__.py'' then [''/a/odoo/sale/__manifest__.py''] else []),
     w_manifest = (\<lambda>_. Some \<lparr>mf_installable = True, mf_version = ''17.0.1.0.0'', mf_depends = [], mf_license = None\<rparr>),
     w_branch = (\<lambda>_. None), w_commit = (\<lambda>_ _. None)\<rparr>"

definition ex_env :: "(graph_call \<Rightarrow> nat option) \<Rightarrow> nat index_env" where
  "ex_env commits = \<lparr>ev_is_dir = (\<lambda>_. True), ev_head = (\<lambda>_. Some ''new''), ev_is_ancestor = (\<lambda>_ _ _. True),
     ev_diff = (\<lambda>_ _ _. Some [''sale/models.py'']), ev_has_manifest = (\<lambda>_ parts. parts = [''sale'']), ev_world = ex_world,
     ev_py = (\<lambda>i. Inr \<lparr>pr_module = i, pr_models = []\<rparr>), ev_xml = (\<lambda>_. Inr []), ev_qweb = (\<lambda>_. Inr []),
     ev_js_graph = (\<lambda>i. Inr \<lparr>jr_module = i, jr_patches = [], jr_components = []\<rparr>), ev_js = (\<lambda>_. Inr []),
     ev_css = (\<lambda>_. Inr ([], [])), ev_scss = (\<lambda>_. Inr ([], [])), ev_less = (\<lambda>_. Inr ([], [])),
     ev_vector = False, ev_embed = None, ev_commits = commits, ev_batch = 500, ev_now = 7, ev_session = 1, ev_md5 = (\<lambda>_. 3),
     ev_password = True, ev_str = (\<lambda>_. ''boom'')\<rparr>"

definition ex_node :: "nat \<Rightarrow> string \<Rightarrow> string \<Rightarrow> string \<Rightarrow> gnode" where
  "ex_node i name repo path = \<lparr>g_id = i, g_label = ''Module'', g_props = [''name'' \<mapsto> GStr name, ''odoo_version'' \<mapsto> GStr ''17.0'',
     ''repo'' \<mapsto> GStr repo, ''path'' \<mapsto> GStr path]\<rparr>"

definition ex_graph :: pgraph where
  "ex_graph = \<lparr>gnodes = [ex_node 0 ''sale'' ''odoo'' ''/a/odoo/sale'', ex_node 1 ''shop'' ''shop'' ''/b/shop/shop'',
       ex_node 2 ''stock'' ''odoo'' ''/c/odoo/stock''],
     grels = [\<lparr>e_src = 1, e_type = ''DEPENDS_ON'', e_dst = 0, e_props = Map.empty\<rparr>], g_next = 3\<rparr>"

definition ex_profile :: profile where
  "ex_profile = \<lparr>p_id = 1, p_name = ''std'', p_version = ''17.0'', p_description = None, p_parent = None\<rparr>"

definition ex_repo :: "int \<Rightarrow> string \<Rightarrow> string \<Rightarrow> repo" where
  "ex_repo i path head = \<lparr>r_id = i, r_profile_id = Some 1, r_url = path, r_branch = ''17.0'', r_local_path = path, r_status = ''pending'',
     r_last_indexed_at = None, r_head_sha = Some head, r_error_msg = None, r_ssh_key_id = None, r_clone_status = ''manual'',
     r_clone_error_msg = None\<rparr>"

definition ex_odoo :: repo where
  "ex_odoo = ex_repo 1 ''/a/odoo'' ''old''"

definition ex_state :: "nat index_state" where
  "ex_state = \<lparr>ix_db = \<lparr>rd_up = True, profiles = [ex_profile], repos = [ex_odoo, ex_repo 2 ''/b/shop'' ''head''], ssh_ids = [],
       next_profile = 2, next_repo = 3\<rparr>, ix_graph = ex_graph, ix_table = [], ix_locks = []\<rparr>"

definition fails_at :: "graph_call \<Rightarrow> graph_call \<Rightarrow> nat option" where
  "fails_at c d = (if d = c then Some 0 else None)"

lemma ex_graph_ok: "graph_ok ex_graph"
  by (auto simp: graph_ok_def ids_ok_def ex_graph_def ex_node_def keyed_def of_label_def schema_def key_of_def)

lemma ex_inv: "repo_inv (ix_db ex_state)"
  by (auto simp: repo_inv_def forest_def parent_edges_def ex_state_def ex_profile_def ex_odoo_def ex_repo_def acyclic_def)

lemma ex_world_run:
  "map r_head_sha (repos (ix_db (snd (index_repo (ex_env (\<lambda>_. None)) (run_options False False []) (ex_odoo, ex_profile) ex_state)))) = [Some ''new'', None]"
  "map r_head_sha (repos (ix_db (snd (index_repo (ex_env (fails_at CallDependents)) (run_options False False []) (ex_odoo, ex_profile) ex_state)))) = [Some ''new'', Some ''head'']"
  "fst (index_repo (ex_env (fails_at CallDependents)) (run_options False False []) (ex_odoo, ex_profile) ex_state) = Inl GraphError"
  by code_simp+

section \<open>One repository\<close>

abbreviation ex_opts :: index_options where
  "ex_opts \<equiv> run_options False False []"

abbreviation ex_index :: "(graph_call \<Rightarrow> nat option) \<Rightarrow> index_options \<Rightarrow> (index_exc + counters) \<times> nat index_state" where
  "ex_index commits opts \<equiv> index_repo (ex_env commits) opts (ex_odoo, ex_profile) ex_state"

lemma changed_db: "map r_head_sha (repos (ix_db t)) \<noteq> map r_head_sha (repos (ix_db s)) \<Longrightarrow> ix_db t \<noteq> ix_db s"
  by auto

lemma ex_version [simp]: "p_version ex_profile = ''17.0''"
  by (simp add: ex_profile_def)

lemma ex_heads: "map r_head_sha (repos (ix_db ex_state)) = [Some ''old'', Some ''head'']"
  by code_simp

lemma ex_plan: "plan_repo (ex_env c) ex_opts ex_odoo ex_state = (Inr (Since (Some ''old'')), ex_state)"
proof -
  have "fst (plan_repo (ex_env c) ex_opts ex_odoo ex_state) = Inr (Since (Some ''old''))"
    by (simp add: plan_repo_def andthen_def on_db_def get_repo_head_sha_def checkout_repo_def ret_def repo_by_id_def tselect_def
        ex_state_def ex_odoo_def ex_repo_def ex_env_def truthy_def run_options_def)
  then show ?thesis using plan_repo_same by (metis prod.collapse)
qed

lemma ex_selected:
  "module_names (selected_modules (ex_env (\<lambda>_. None)) ex_opts ex_odoo (Some ''old'') (repo_registry (ex_env (\<lambda>_. None)) ex_odoo ''17.0'')) = {''sale''}"
  "total_modules (selected_modules (ex_env (\<lambda>_. None)) ex_opts ex_odoo (Some ''old'') (repo_registry (ex_env (\<lambda>_. None)) ex_odoo ''17.0'')) = 1"
  by code_simp+

theorem head_after_writes_witness:
  "completed (ex_env (\<lambda>_. None)) ex_opts ex_odoo ''17.0''
       (selected_modules (ex_env (\<lambda>_. None)) ex_opts ex_odoo (Some ''old'') (repo_registry (ex_env (\<lambda>_. None)) ex_odoo ''17.0''))
       (live_paths (repo_registry (ex_env (\<lambda>_. None)) ex_odoo ''17.0'')) ex_state (snd (ex_index (\<lambda>_. None) ex_opts))"
proof -
  have r: "ex_index (\<lambda>_. None) ex_opts = (fst (ex_index (\<lambda>_. None) ex_opts), snd (ex_index (\<lambda>_. None) ex_opts))" by simp
  have d: "ix_db (snd (ex_index (\<lambda>_. None) ex_opts)) \<noteq> ix_db ex_state" by (rule changed_db) (simp add: ex_world_run(1) ex_heads)
  from head_after_writes [OF r d] show ?thesis
    using ex_selected(2) by (auto simp: ex_plan Let_def)
qed

theorem lost_propagation_witness:
  "\<exists>s1. ex_index (fails_at CallDependents) ex_opts = (Inl GraphError, s1) \<and>
     index_repo (ex_env (\<lambda>_. None)) ex_opts (ex_odoo, ex_profile) s1 = (Inr zero_counters, s1) \<and>
     repo_by_id (ix_db s1) 2 = repo_by_id (ix_db ex_state) 2"
proof -
  have r: "ex_index (fails_at CallDependents) ex_opts = (Inl GraphError, snd (ex_index (fails_at CallDependents) ex_opts))"
    by (rule prod_eqI) (simp_all only: ex_world_run(3) fst_conv snd_conv)
  have d: "ix_db (snd (ex_index (fails_at CallDependents) ex_opts)) \<noteq> ix_db ex_state" by (rule changed_db) (simp add: ex_world_run(2) ex_heads)
  have e: "ev_is_dir (ex_env (\<lambda>_. None)) = ev_is_dir (ex_env (fails_at CallDependents))"
    "ev_head (ex_env (\<lambda>_. None)) = ev_head (ex_env (fails_at CallDependents))" "op_pg ex_opts" "\<not> op_full ex_opts"
    by (simp_all add: ex_env_def run_options_def)
  from lost_propagation [OF r d e, of 2] r show ?thesis by (auto simp: ex_odoo_def ex_repo_def)
qed

theorem propagation_effect_witness:
  "map r_head_sha (repos (ix_db (snd (ex_index (\<lambda>_. None) ex_opts)))) = [Some ''new'', None] \<and>
     dependents_of ex_odoo ''17.0'' (selected_modules (ex_env (\<lambda>_. None)) ex_opts ex_odoo (Some ''old'')
       (repo_registry (ex_env (\<lambda>_. None)) ex_odoo ''17.0'')) (ix_graph (snd (ex_index (\<lambda>_. None) ex_opts))) \<noteq> []"
proof -
  have "is_ok (fst (ex_index (\<lambda>_. None) ex_opts))" by code_simp
  then obtain c where c: "fst (ex_index (\<lambda>_. None) ex_opts) = Inr c"
    by (cases "fst (ex_index (\<lambda>_. None) ex_opts)") simp_all
  have r: "ex_index (\<lambda>_. None) ex_opts = (Inr c, snd (ex_index (\<lambda>_. None) ex_opts))"
    by (rule prod_eqI) (simp_all only: c fst_conv snd_conv)
  let ?sel = "selected_modules (ex_env (\<lambda>_. None)) ex_opts ex_odoo (Some ''old'') (repo_registry (ex_env (\<lambda>_. None)) ex_odoo (p_version ex_profile))"
  have h: "truthy (ev_head (ex_env (\<lambda>_. None)) (r_local_path ex_odoo)) = Some ''new''" "op_pg ex_opts" "\<not> op_full ex_opts"
    by (simp_all add: ex_env_def truthy_def run_options_def)
  have n: "module_names ?sel \<noteq> {}" using ex_selected(1) by simp
  note t = propagation_effect [OF r ex_plan h(1) h(2) h(3) ex_inv refl n]
  have "\<not> (after_slash (r_local_path (ex_repo 2 ''/b/shop'' ''head'')) \<notin>
      set (dependents_of ex_odoo (p_version ex_profile) ?sel (ix_graph (snd (ex_index (\<lambda>_. None) ex_opts)))))"
  proof
    assume "after_slash (r_local_path (ex_repo 2 ''/b/shop'' ''head'')) \<notin>
      set (dependents_of ex_odoo (p_version ex_profile) ?sel (ix_graph (snd (ex_index (\<lambda>_. None) ex_opts))))"
    then have "map r_head_sha (repos (ix_db (snd (ex_index (\<lambda>_. None) ex_opts)))) ! 1 = Some ''head''"
      using t by (simp add: ex_state_def ex_odoo_def) (simp add: ex_repo_def)
    then show False by (simp add: ex_world_run(1))
  qed
  then show ?thesis using ex_world_run(1) by auto
qed

lemma ex_gc: "is_ok (fst (ex_index (\<lambda>_. None) (run_options True True [])))"
  "live_paths (repo_registry (ex_env (\<lambda>_. None)) ex_odoo ''17.0'') = {''/a/odoo/sale''}"
  by code_simp+

theorem gc_verdict_witness:
  "ex_node 2 ''stock'' ''odoo'' ''/c/odoo/stock'' \<in> set (gnodes (ix_graph ex_state)) \<and>
   ex_node 2 ''stock'' ''odoo'' ''/c/odoo/stock'' \<notin> set (gnodes (ix_graph (snd (ex_index (\<lambda>_. None) (run_options True True [])))))"
proof
  show "ex_node 2 ''stock'' ''odoo'' ''/c/odoo/stock'' \<in> set (gnodes (ix_graph ex_state))"
    by (simp add: ex_state_def ex_graph_def)
  let ?x = "ex_index (\<lambda>_. None) (run_options True True [])"
  have r: "?x = (fst ?x, snd ?x)" by simp
  have p: "plan_repo (ex_env (\<lambda>_. None)) (run_options True True []) ex_odoo ex_state = (Inr (Since None), ex_state)"
    by (simp add: plan_repo_def run_options_def ret_def)
  have g: "graph_ok (ix_graph ex_state)" "op_gc (run_options True True [])" using ex_graph_ok by (simp_all add: ex_state_def run_options_def)
  have "list_all (\<lambda>n. \<not> stale_module (path_name (r_local_path ex_odoo)) ''17.0'' {''/a/odoo/sale''} n) (gnodes (ix_graph (snd ?x)))"
    using gc_verdict [OF r g p refl] ex_gc by (simp add: diff_range_def truthy_def)
  moreover have "path_name (r_local_path ex_odoo) = ''odoo''" by code_simp
  ultimately show "ex_node 2 ''stock'' ''odoo'' ''/c/odoo/stock'' \<notin> set (gnodes (ix_graph (snd ?x)))"
    by (auto simp: list_all_iff stale_module_def is_node_def has_keys_def ex_node_def)
qed

section \<open>Runs over many\<close>

definition no_file :: seed_file where
  "no_file = \<lparr>sf_exists = False, sf_sha = [], sf_patterns = Inr []\<rparr>"

lemma ex_row_ids: "r_id ex_odoo = 1" "r_id (ex_repo i path h) = i"
  by (simp_all add: ex_odoo_def ex_repo_def)

lemma ex_ids: "map (r_id \<circ> fst) (filter (\<lambda>(r, p). p_name p = ''std'') (joined (ix_db ex_state))) = [1, 2]"
  by code_simp

lemma ex_statuses: "statuses (ix_db ex_state) = [(1, ''pending''), (2, ''pending'')]" "rd_up (ix_db ex_state)" "ix_locks ex_state = []"
  by code_simp+

abbreviation ex_failing :: "nat index_env" where
  "ex_failing \<equiv> ex_env (fails_at CallDependents)"

abbreviation ex_rps :: "(repo \<times> profile) list" where
  "ex_rps \<equiv> filter (\<lambda>(r, p). p_name p = ''std'') (joined (ix_db ex_state))"

abbreviation ex_locked :: "nat index_state" where
  "ex_locked \<equiv> ex_state\<lparr>ix_locks := (ev_session ex_failing, profile_lock_id ex_failing ''std'') # ix_locks ex_state\<rparr>"

lemma ex_run_outcomes:
  "get_ancestor_profile_names ''std'' (ix_db ex_state) = Some (Inr [''std''])"
  "failures ex_failing ex_rps (fst (repo_outcomes ex_failing (run_options False False [''std'']) ex_rps ex_locked)) = [(1, ''boom'')]"
  by code_simp+

theorem index_profile_effect_witness:
  "\<exists>s'. index_profile ex_failing no_file False False ''std'' ex_state = Some (Inl (ReposFailed [(1, ''boom'')]), s') \<and>
     statuses (ix_db s') = [(1, ''error''), (2, ''indexed'')]"
proof -
  have c: "ev_password ex_failing" "ev_commits ex_failing CallIndexes \<noteq> Some 0" "ex_rps \<noteq> []"
    using ex_ids by (auto simp: ex_env_def fails_at_def)
  from index_profile_effect [OF ex_inv ex_statuses(2) refl, of ex_failing no_file False False "''std''"]
  obtain res s' outs s2 where w: "index_profile ex_failing no_file False False ''std'' ex_state = Some (res, s')"
    "repo_outcomes ex_failing (run_options False False [''std'']) ex_rps ex_locked = (outs, s2)"
    "res = (if failures ex_failing ex_rps outs = [] then Inr (totals_of outs zero_counters) else Inl (ReposFailed (failures ex_failing ex_rps outs)))"
    "statuses (ix_db s') = outcome (map (r_id \<circ> fst) ex_rps) (failures ex_failing ex_rps outs) (statuses (ix_db ex_state))"
    using c unfolding ex_run_outcomes(1) by (simp only: ex_statuses(3) option.inject sum.inject) auto
  have "failures ex_failing ex_rps outs = [(1, ''boom'')]" using ex_run_outcomes(2) unfolding w(2) by simp
  then show ?thesis using w(1,3,4) unfolding ex_ids ex_statuses(1) by (simp add: outcome_def)
qed

theorem deleted_repo_ends_run_witness:
  "\<exists>s'. index_loop (ex_env (\<lambda>_. None)) ex_opts [(ex_odoo, ex_profile), (ex_repo 9 ''/x'' ''h'', ex_profile), (ex_repo 2 ''/b/shop'' ''head'', ex_profile)] ex_state
      = (Inl (StoreError RepoGone), s') \<and> (2, ''pending'') \<in> set (statuses (ix_db s'))"
proof -
  have h: "r_id ` fst ` set [(ex_odoo, ex_profile)] \<subseteq> r_id ` set (repos (ix_db ex_state))"
    "distinct (map (r_id \<circ> fst) [(ex_odoo, ex_profile)])" "r_id (ex_repo 9 ''/x'' ''h'') \<notin> r_id ` set (repos (ix_db ex_state))"
    by (simp_all add: ex_state_def ex_odoo_def ex_repo_def)
  from deleted_repo_ends_run [OF ex_statuses(2) h, of "ex_env (\<lambda>_. None)" ex_opts ex_profile "[(ex_repo 2 ''/b/shop'' ''head'', ex_profile)]"]
  obtain failed s' where w: "index_loop (ex_env (\<lambda>_. None)) ex_opts [(ex_odoo, ex_profile), (ex_repo 9 ''/x'' ''h'', ex_profile), (ex_repo 2 ''/b/shop'' ''head'', ex_profile)] ex_state
      = (Inl (StoreError RepoGone), s')" "statuses (ix_db s') = outcome [1] failed [(1, ''pending''), (2, ''pending'')]" "fst ` set failed \<subseteq> {1}"
    by (auto simp: ex_row_ids ex_statuses(1))
  then show ?thesis by (auto simp: outcome_def)
qed

lemma ex_all_outcomes:
  "map p_name (sort_key p_id (profiles (ix_db ex_state))) = [''std'']"
  "map_option (map is_ok \<circ> fst) (profile_outcomes ex_failing no_file False False [''std''] ex_state) = Some [False]"
  by code_simp+

theorem index_all_counts_witness:
  "\<exists>acc s'. index_all ex_failing no_file False False ex_state = Some (Inr acc, s') \<and> as_ok acc = 0 \<and> as_failed acc = [''std'']"
proof -
  obtain outs acc s' where w: "profile_outcomes ex_failing no_file False False [''std''] ex_state = Some (outs, s')"
    "index_all ex_failing no_file False False ex_state = Some (Inr acc, s')" "as_ok acc = length (filter is_ok outs)"
    "as_failed acc = map fst (filter (\<lambda>(name, r). \<not> is_ok r) (zip [''std''] outs))"
    using index_all_counts [OF ex_inv ex_statuses(2) ex_all_outcomes(1) [symmetric], of ex_failing no_file False False] by blast
  have "map is_ok outs = [False]" using ex_all_outcomes(2) w(1) by simp
  then obtain r where "outs = [r]" "\<not> is_ok r" by auto
  then show ?thesis using w by simp
qed

theorem peek_refuses_a_run_witness:
  "\<exists>s1. peek_acquire ((ex_env (\<lambda>_. None))\<lparr>ev_session := 2\<rparr>) ''std'' ex_state = (True, s1) \<and>
     index_profile (ex_env (\<lambda>_. None)) no_file False False ''std'' s1 = Some (Inl (IndexerRunning ''std''), s1)"
proof -
  let ?web = "(ex_env (\<lambda>_. None))\<lparr>ev_session := 2\<rparr>"
  have ne: "filter (\<lambda>(r, p). p_name p = ''std'') (joined (ix_db ex_state)) \<noteq> []" using ex_ids by auto
  have h: "ev_session ?web \<noteq> ev_session (ex_env (\<lambda>_. None))" "ev_md5 ?web = ev_md5 (ex_env (\<lambda>_. None))" by (simp_all add: ex_env_def)
  have p: "peek_acquire ?web ''std'' ex_state = (True, snd (peek_acquire ?web ''std'' ex_state))"
    by (simp add: peek_acquire_def try_lock_def ex_statuses(3))
  from peek_refuses_a_run [OF ex_inv ex_statuses(2) h ne p] p show ?thesis by auto
qed

section \<open>The catalogue of patterns\<close>

definition ex_pattern :: "string \<Rightarrow> string \<Rightarrow> pattern_example" where
  "ex_pattern i v = \<lparr>pe_pattern_id = i, pe_intent_keywords = [], pe_file_ref = ''f.py:1'', pe_snippet_text = ''x'', pe_gotchas = [''y''],
     pe_odoo_version_min = v, pe_language = ''python'', pe_core_symbol_names = []\<rparr>"

definition ex_patterns :: "pattern_example list" where
  "ex_patterns = [ex_pattern ''a'' ''16.0'', ex_pattern ''b'' ''17.0'']"

definition ex_file :: seed_file where
  "ex_file = \<lparr>sf_exists = True, sf_sha = ''abc'', sf_patterns = Inr ex_patterns\<rparr>"

abbreviation ex_embedder :: "string list \<Rightarrow> string + nat list" where
  "ex_embedder \<equiv> \<lambda>ts. Inr (map length ts)"

definition ex_embedding :: "nat index_env" where
  "ex_embedding = (ex_env (\<lambda>_. None))\<lparr>ev_embed := Some ex_embedder\<rparr>"

lemma ex_seed_runs:
  "is_ok (fst (run_seed ex_embedding ex_file False None ex_state))"
  "fst (seed_main ex_embedding ex_file ex_embedder (Some ''17.0'') False True ex_state) = Inr 0"
  "stored_sha ''patterns_pgvector'' (ix_graph ex_state) = None"
  "stored_sha ''patterns_pgvector'' (ix_graph (snd (run_seed ex_embedding ex_file False None ex_state))) = Some ''abc''"
  by code_simp+

theorem sentinel_truth_witness:
  "map er_chunk (filter is_pattern_row (ix_table (snd (run_seed ex_embedding ex_file False None ex_state)))) = make_pattern_chunks ex_patterns \<and>
   run_seed ex_embedding ex_file False None (snd (run_seed ex_embedding ex_file False None ex_state))
     = (Inr skipped, snd (run_seed ex_embedding ex_file False None ex_state))"
proof -
  have h: "graph_ok (ix_graph ex_state)" "sf_patterns ex_file = Inr ex_patterns" "vectors_true ex_file ex_patterns ex_state"
    using ex_graph_ok ex_seed_runs(3) by (simp_all add: ex_state_def ex_file_def vectors_true_def)
  have r: "run_seed ex_embedding ex_file False None ex_state = (fst (run_seed ex_embedding ex_file False None ex_state),
      snd (run_seed ex_embedding ex_file False None ex_state))" by simp
  show ?thesis
    using sentinel_truth [OF h r, of None] ex_seed_runs(1,4) by (simp add: vectors_true_def ex_file_def)
qed

theorem filtered_seed_hides_rest_witness:
  "\<exists>s'. seed_main ex_embedding ex_file ex_embedder (Some ''17.0'') False True ex_state = (Inr 0, s') \<and>
     seed_main ex_embedding ex_file ex_embedder None False False s' = (Inr 0, s') \<and>
     map er_chunk (filter is_pattern_row (ix_table s')) = [pattern_chunk (ex_pattern ''b'' ''17.0'')]"
proof -
  let ?x = "seed_main ex_embedding ex_file ex_embedder (Some ''17.0'') False True ex_state"
  have r: "?x = (Inr 0, snd ?x)" by (rule prod_eqI) (simp_all only: ex_seed_runs(2) fst_conv snd_conv)
  have h: "graph_ok (ix_graph ex_state)" "sf_exists ex_file" "ev_password ex_embedding" "sf_patterns ex_file = Inr ex_patterns" "''17.0'' \<noteq> []"
    "list_ex (\<lambda>p. pe_odoo_version_min p = ''17.0'') ex_patterns"
    "list_all (\<lambda>k. ev_commits ex_embedding (CallSeedRead k) \<noteq> Some 0) [''patterns_neo4j'', ''patterns_pgvector'']"
    using ex_graph_ok by (simp_all add: ex_state_def ex_file_def ex_embedding_def ex_env_def ex_patterns_def ex_pattern_def)
  have f: "make_pattern_chunks (filter (\<lambda>p. pe_odoo_version_min p = ''17.0'') ex_patterns) = [pattern_chunk (ex_pattern ''b'' ''17.0'')]"
    by (simp add: make_pattern_chunks_def ex_patterns_def ex_pattern_def)
  from filtered_seed_hides_rest [OF h(1-6) r h(7)] show ?thesis using r f by (intro exI [of _ "snd ?x"]) simp
qed

end
