(* ===== verification/ApiGateway.thy ===== *)
theory ApiGateway
  imports AuthDb SessionState
begin

text \<open>
  What every request of the MCP server passes: the API key check with its cache of verified
  keys and the sliding-window rate limit (\<open>AuthMiddleware\<close> of \<open>src/mcp/middleware.py\<close>), the
  hand-over of the key to the tools (\<open>src/mcp/tool_log_middleware.py\<close>) and the cache of
  resource bodies (\<open>ResourceCache\<close> of \<open>src/mcp/resources.py\<close>).

  The state of the middleware is that of one process: the two dicts of the key cache and the
  buckets of the rate limit. \<open>clock\<close> is \<open>time.monotonic()\<close>, \<open>now\<close> the clock of the database.
  The text of \<open>rate_limit_rpm\<close> in the configuration is an argument.
\<close>

section \<open>State\<close>

record gateway =
  gw_ids :: "(string, int option) pydict"
  gw_ts :: "(string, time) pydict"
  gw_buckets :: "(int, time list) pydict"

definition empty_gateway :: gateway where
  "empty_gateway = \<lparr>gw_ids = [], gw_ts = [], gw_buckets = []\<rparr>"

definition KEY_CACHE_TTL :: time where
  "KEY_CACHE_TTL = 300 * sec"

definition RATE_WINDOW_60 :: time where
  "RATE_WINDOW_60 = 60 * sec"

definition DEFAULT_RATE_LIMIT_RPM :: int where
  "DEFAULT_RATE_LIMIT_RPM = 120"

section \<open>The cache of verified keys\<close>

definition key_cache_get :: "(string \<Rightarrow> string) \<Rightarrow> time \<Rightarrow> string \<Rightarrow> gateway \<Rightarrow> bool \<times> int option" where
  "key_cache_get hash_key clock raw_key g =
     (let h = hash_key raw_key in
      case dget (gw_ts g) h of
        Some ts \<Rightarrow> (if clock - ts < KEY_CACHE_TTL then (True, Option.bind (dget (gw_ids g) h) id) else (False, None))
      | None \<Rightarrow> (False, None))"

definition key_cache_set :: "(string \<Rightarrow> string) \<Rightarrow> time \<Rightarrow> string \<Rightarrow> int option \<Rightarrow> gateway \<Rightarrow> gateway" where
  "key_cache_set hash_key clock raw_key key_id g =
     (let h = hash_key raw_key in g\<lparr>gw_ids := dset h key_id (gw_ids g), gw_ts := dset h clock (gw_ts g)\<rparr>)"

definition key_cache_invalidate :: "(string \<Rightarrow> string) \<Rightarrow> string \<Rightarrow> gateway \<Rightarrow> gateway" where
  "key_cache_invalidate hash_key raw_key g =
     (let h = hash_key raw_key in g\<lparr>gw_ids := ddel h (gw_ids g), gw_ts := ddel h (gw_ts g)\<rparr>)"

definition key_cache_invalidate_by_id :: "int \<Rightarrow> gateway \<Rightarrow> gateway" where
  "key_cache_invalidate_by_id key_id g =
     (let stale = map fst (filter (\<lambda>(h, v). v = Some key_id) (gw_ids g))
      in g\<lparr>gw_ids := fold ddel stale (gw_ids g), gw_ts := fold ddel stale (gw_ts g)\<rparr>)"

section \<open>The rate limit\<close>

definition prune :: "time \<Rightarrow> time list \<Rightarrow> time list" where
  "prune now bucket = dropWhile (\<lambda>t. RATE_WINDOW_60 < now - t) bucket"

definition check_key_rate :: "time \<Rightarrow> int \<Rightarrow> int \<Rightarrow> (int, time list) pydict \<Rightarrow> (bool \<times> int) \<times> (int, time list) pydict" where
  "check_key_rate now api_key_id limit_rpm buckets =
     (let bucket = prune now (case dget buckets api_key_id of None \<Rightarrow> [] | Some b \<Rightarrow> b);
          remaining = max 0 (limit_rpm - int (length bucket))
      in if limit_rpm \<le> int (length bucket) then ((False, 0), dset api_key_id bucket buckets)
         else ((True, remaining - 1), dset api_key_id (bucket @ [now]) buckets))"

section \<open>The middleware\<close>

datatype gw_answer = GwPublic | GwRefused nat string | GwServerError | GwForward int int

definition PUBLIC_PATHS :: "string list" where
  "PUBLIC_PATHS = [''/health'']"

definition PUBLIC_PATH_PREFIXES :: "string list" where
  "PUBLIC_PATH_PREFIXES = [''/install'']"

definition is_public :: "string \<Rightarrow> bool" where
  "is_public path \<longleftrightarrow> path \<in> set PUBLIC_PATHS \<or> list_ex (startswith path) PUBLIC_PATH_PREFIXES"

definition em_dash :: string where
  "em_dash = [CHR 0xE2, CHR 0x80, CHR 0x94]"

text \<open>The limit check of an accepted key; an unreadable limit is an exception no handler catches.\<close>

definition admit :: "string \<Rightarrow> time \<Rightarrow> int \<Rightarrow> gateway \<Rightarrow> gw_answer \<times> gateway" where
  "admit cfg clock key_id g =
     (case py_int cfg of
        None \<Rightarrow> (GwServerError, g)
      | Some limit_rpm \<Rightarrow>
          (case check_key_rate clock key_id limit_rpm (gw_buckets g) of
             ((allowed, remaining), b) \<Rightarrow>
               (if allowed then GwForward key_id remaining
                else GwRefused 429 (''Rate limit exceeded '' @ em_dash @ '' try again in 60 seconds''), g\<lparr>gw_buckets := b\<rparr>)))"

text \<open>\<open>AuthMiddleware.dispatch\<close> up to the call of the server. A database that does not answer is
  the 503, which is not cached; what the query answered is, a refusal too.\<close>

definition gateway_dispatch :: "(string \<Rightarrow> string) \<Rightarrow> (string \<Rightarrow> string) \<Rightarrow> string \<Rightarrow> time \<Rightarrow> time \<Rightarrow> string \<Rightarrow> string option
    \<Rightarrow> gateway \<times> db \<Rightarrow> gw_answer \<times> gateway \<times> db" where
  "gateway_dispatch hash_key legacy_sha256 cfg clock now path header gd =
     (let (g, db) = gd; raw_key = (case header of None \<Rightarrow> [] | Some k \<Rightarrow> k) in
      if is_public path then (GwPublic, g, db)
      else if raw_key = [] then (GwRefused 401 ''Missing X-API-Key header'', g, db)
      else
        (case key_cache_get hash_key clock raw_key g of
           (True, None) \<Rightarrow> (GwRefused 401 ''Invalid or inactive API key'', g, db)
         | (True, Some key_id) \<Rightarrow> (case admit cfg clock key_id g of (a, g) \<Rightarrow> (a, g, db))
         | (False, _) \<Rightarrow>
             (case verify_api_key hash_key legacy_sha256 now raw_key db of
                (Inl e, db) \<Rightarrow> (GwRefused 503 ''degraded'', g, db)
              | (Inr key_id, db) \<Rightarrow>
                  (let g = key_cache_set hash_key clock raw_key key_id g in
                   case key_id of
                     None \<Rightarrow> (GwRefused 401 ''Invalid or inactive API key'', g, db)
                   | Some i \<Rightarrow> (case admit cfg clock i g of (a, g) \<Rightarrow> (a, g, db))))))"

section \<open>The key of a tool call\<close>

text \<open>The thread-local that the synchronous tools read; the body of the call gets the key and
  returns or raises, and the usage row is written after a return only.\<close>

definition set_server_api_key :: "int option \<Rightarrow> int option \<Rightarrow> int option" where
  "set_server_api_key api_key_id loc = api_key_id"

definition get_api_key_id :: "int option \<Rightarrow> string" where
  "get_api_key_id loc = (case loc of None \<Rightarrow> ''default'' | Some i \<Rightarrow> show_int i)"

definition on_call_tool :: "int option \<Rightarrow> string \<Rightarrow> int \<Rightarrow> (string \<Rightarrow> 'e + 'a) \<Rightarrow> int option \<times> db \<Rightarrow> ('e + 'a) \<times> int option \<times> db" where
  "on_call_tool api_key_id tool_name ms call ld =
     (let (loc, db) = ld; loc = set_server_api_key api_key_id loc; result = call (get_api_key_id loc);
          loc = set_server_api_key None loc
      in (result, loc, (case result of Inl _ \<Rightarrow> db | Inr _ \<Rightarrow> log_usage api_key_id tool_name ms db)))"

definition on_read_resource :: "int option \<Rightarrow> (string \<Rightarrow> 'e + 'a) \<Rightarrow> int option \<Rightarrow> ('e + 'a) \<times> int option" where
  "on_read_resource api_key_id call loc =
     (let loc = set_server_api_key api_key_id loc; result = call (get_api_key_id loc)
      in (result, set_server_api_key None loc))"

section \<open>The cache of resource bodies\<close>

text \<open>An \<open>OrderedDict\<close> in the order of use, the least recently used entry first.\<close>

record cache_entry =
  ce_value :: string
  ce_mime :: string
  ce_fetched_at :: time

record resource_cache =
  rc_capacity :: nat
  rc_ttl :: time
  rc_data :: "(string, cache_entry) pydict"

definition new_resource_cache :: "int \<Rightarrow> time \<Rightarrow> (string + resource_cache)" where
  "new_resource_cache capacity ttl =
     (if capacity < 1 then Inl ''capacity''
      else if ttl \<le> 0 then Inl ''ttl''
      else Inr \<lparr>rc_capacity = nat capacity, rc_ttl = ttl, rc_data = []\<rparr>)"

definition move_to_end :: "string \<Rightarrow> cache_entry \<Rightarrow> (string, cache_entry) pydict \<Rightarrow> (string, cache_entry) pydict" where
  "move_to_end k e d = ddel k d @ [(k, e)]"

definition resource_get :: "time \<Rightarrow> string \<Rightarrow> resource_cache \<Rightarrow> (string \<times> string) option \<times> resource_cache" where
  "resource_get now key c =
     (case dget (rc_data c) key of
        None \<Rightarrow> (None, c)
      | Some entry \<Rightarrow>
          (if rc_ttl c < now - ce_fetched_at entry then (None, c\<lparr>rc_data := ddel key (rc_data c)\<rparr>)
           else (Some (ce_value entry, ce_mime entry), c\<lparr>rc_data := move_to_end key entry (rc_data c)\<rparr>)))"

definition evict_lru :: "nat \<Rightarrow> (string, cache_entry) pydict \<Rightarrow> (string, cache_entry) pydict" where
  "evict_lru capacity d = drop (length d - capacity) d"

definition resource_put :: "time \<Rightarrow> string \<Rightarrow> string \<times> string \<Rightarrow> resource_cache \<Rightarrow> resource_cache" where
  "resource_put now key body c =
     (let entry = \<lparr>ce_value = fst body, ce_mime = snd body, ce_fetched_at = now\<rparr> in
      if key \<in> set (dkeys (rc_data c)) then c\<lparr>rc_data := move_to_end key entry (rc_data c)\<rparr>
      else c\<lparr>rc_data := evict_lru (rc_capacity c) (rc_data c @ [(key, entry)])\<rparr>)"

definition get_or_compute :: "time \<Rightarrow> time \<Rightarrow> string \<Rightarrow> ('e + string \<times> string) \<Rightarrow> resource_cache \<Rightarrow> ('e + string \<times> string) \<times> resource_cache" where
  "get_or_compute now later key computed c =
     (case resource_get now key c of
        (Some cached, c) \<Rightarrow> (Inr cached, c)
      | (None, c) \<Rightarrow>
          (case computed of Inl e \<Rightarrow> (Inl e, c) | Inr body \<Rightarrow> (Inr body, resource_put later key body c)))"

definition clear_resources :: "resource_cache \<Rightarrow> resource_cache" where
  "clear_resources c = c\<lparr>rc_data := []\<rparr>"

text \<open>The version of a URI, and the keys of the seven kinds of resources.\<close>

definition resolved_version_for :: "string \<Rightarrow> string \<Rightarrow> graph \<Rightarrow> mcp \<Rightarrow> (mcp_exc + string) \<times> mcp" where
  "resolved_version_for version api_key_id g s =
     (case normalize_version_arg (Some version) of
        Some v \<Rightarrow> (Inr v, s)
      | None \<Rightarrow> resolve_version_v2 (Some version) api_key_id g s)"

datatype resource_ref = ResModel string | ResField string string | ResMethod string string | ResModule string
  | ResView string | ResPattern string | ResStylesheet string string

fun resource_uri :: "string \<Rightarrow> resource_ref \<Rightarrow> string" where
  "resource_uri v (ResModel n) = ''odoo://'' @ v @ ''/model/'' @ n"
| "resource_uri v (ResField m f) = ''odoo://'' @ v @ ''/field/'' @ m @ ''/'' @ f"
| "resource_uri v (ResMethod m f) = ''odoo://'' @ v @ ''/method/'' @ m @ ''/'' @ f"
| "resource_uri v (ResModule n) = ''odoo://'' @ v @ ''/module/'' @ n"
| "resource_uri v (ResView n) = ''odoo://'' @ v @ ''/view/'' @ n"
| "resource_uri v (ResPattern n) = ''odoo://'' @ v @ ''/pattern/'' @ n"
| "resource_uri v (ResStylesheet m p) = ''odoo://'' @ v @ ''/stylesheet/'' @ m @ ''/'' @ p"

text \<open>A resource handler: the version first, then the cache under the URI with that version;
  \<open>render\<close> is the renderer of the kind.\<close>

definition read_resource :: "(string \<Rightarrow> resource_ref \<Rightarrow> mcp_exc + string \<times> string) \<Rightarrow> time \<Rightarrow> string \<Rightarrow> string \<Rightarrow> resource_ref \<Rightarrow> graph
    \<Rightarrow> mcp \<times> resource_cache \<Rightarrow> (mcp_exc + string) \<times> mcp \<times> resource_cache" where
  "read_resource render later version api_key_id r g sc =
     (case resolved_version_for version api_key_id g (fst sc) of
        (Inl e, s) \<Rightarrow> (Inl e, s, snd sc)
      | (Inr v, s) \<Rightarrow>
          (case get_or_compute (mc_mono s) later (resource_uri v r) (render v r) (snd sc) of
             (res, c) \<Rightarrow> (map_sum id fst res, s, c)))"

end
