(* ===== verification/ApiGatewayProps.thy ===== *)
theory ApiGatewayProps
  imports ApiGateway AuthDbProps
begin

text \<open>
  Properties of the gateway: the rate limit is the sliding window it is meant to be, the
  verdict on a key is at most five minutes old whatever other processes do, and the cache of
  resource bodies is bounded, never mixes up keys, and keeps what was used last.
\<close>

section \<open>The rate limit\<close>

text \<open>A run of requests, and what a log of all accepted requests would answer.\<close>

fun rate_run :: "int \<Rightarrow> (int \<times> time) list \<Rightarrow> (int, time list) pydict \<Rightarrow> (bool \<times> int) list" where
  "rate_run limit [] b = []"
| "rate_run limit ((k, t) # rs) b = (case check_key_rate t k limit b of (r, b) \<Rightarrow> r # rate_run limit rs b)"

definition recent :: "int \<Rightarrow> time \<Rightarrow> (int \<times> time) list \<Rightarrow> nat" where
  "recent k t h = length (filter (\<lambda>(k', t'). k' = k \<and> t - t' \<le> RATE_WINDOW_60) h)"

fun rate_spec :: "int \<Rightarrow> (int \<times> time) list \<Rightarrow> (int \<times> time) list \<Rightarrow> (bool \<times> int) list" where
  "rate_spec limit [] h = []"
| "rate_spec limit ((k, t) # rs) h =
     (let n = int (recent k t h)
      in if limit \<le> n then (False, 0) # rate_spec limit rs h
         else (True, limit - n - 1) # rate_spec limit rs (h @ [(k, t)]))"

definition times_of :: "int \<Rightarrow> (int \<times> time) list \<Rightarrow> time list" where
  "times_of k h = map snd (filter (\<lambda>r. fst r = k) h)"

definition bucket_of :: "(int, time list) pydict \<Rightarrow> int \<Rightarrow> time list" where
  "bucket_of b k = (case dget b k of None \<Rightarrow> [] | Some x \<Rightarrow> x)"

text \<open>The buckets hold the accepted requests but for some that have left the window.\<close>

definition buckets_ok :: "time \<Rightarrow> (int \<times> time) list \<Rightarrow> (int, time list) pydict \<Rightarrow> bool" where
  "buckets_ok now h b \<longleftrightarrow> sorted (map snd h) \<and> (\<forall>t \<in> snd ` set h. t \<le> now) \<and>
     (\<forall>k. \<exists>old. times_of k h = old @ bucket_of b k \<and> (\<forall>t \<in> set old. RATE_WINDOW_60 < now - t))"

lemma prune_sorted: "sorted ts \<Longrightarrow> prune now ts = filter (\<lambda>t. now - t \<le> RATE_WINDOW_60) ts"
  unfolding prune_def
proof (induction ts)
  case (Cons a ts)
  show ?case
  proof (cases "RATE_WINDOW_60 < now - a")
    case False
    then have "\<forall>t \<in> set (a # ts). now - t \<le> RATE_WINDOW_60" using Cons.prems by auto
    then have "filter (\<lambda>t. now - t \<le> RATE_WINDOW_60) (a # ts) = a # ts" by (intro filter_True)
    then show ?thesis using False by simp
  qed (use Cons in simp)
qed simp

lemma bucket_split:
  assumes "buckets_ok now h b" "now \<le> t"
  obtains old where "times_of k h = old @ bucket_of b k" "\<forall>x \<in> set old. RATE_WINDOW_60 < t - x"
proof -
  obtain old where "times_of k h = old @ bucket_of b k" "\<forall>x \<in> set old. RATE_WINDOW_60 < now - x"
    using assms(1) unfolding buckets_ok_def by meson
  then show thesis using that assms(2) by fastforce
qed

lemma sorted_times: "sorted (map snd h) \<Longrightarrow> sorted (times_of k h)"
  unfolding times_of_def by (induction h) (auto simp: sorted_append)

lemma recent_times: "recent k t h = length (filter (\<lambda>t'. t - t' \<le> RATE_WINDOW_60) (times_of k h))"
  unfolding recent_def times_of_def by (induction h) auto

lemma pruned_bucket:
  assumes "buckets_ok now h b" "now \<le> t"
  shows "prune t (bucket_of b k) = filter (\<lambda>t'. t - t' \<le> RATE_WINDOW_60) (times_of k h)"
    and "times_of k h = filter (\<lambda>t'. RATE_WINDOW_60 < t - t') (times_of k h) @ prune t (bucket_of b k)"
proof -
  obtain old where o: "times_of k h = old @ bucket_of b k" "\<forall>x \<in> set old. RATE_WINDOW_60 < t - x"
    using assms by (rule bucket_split)
  have s: "sorted (times_of k h)" using assms(1) by (simp add: buckets_ok_def sorted_times)
  have "sorted (bucket_of b k)" using s o(1) by (simp add: sorted_append)
  then have p: "prune t (bucket_of b k) = filter (\<lambda>t'. t - t' \<le> RATE_WINDOW_60) (bucket_of b k)" by (rule prune_sorted)
  have "filter (\<lambda>t'. t - t' \<le> RATE_WINDOW_60) old = []" using o(2) by (auto simp: filter_empty_conv not_le)
  then show 1: "prune t (bucket_of b k) = filter (\<lambda>t'. t - t' \<le> RATE_WINDOW_60) (times_of k h)"
    using o(1) p by simp
  have "sorted ts \<Longrightarrow> ts = filter (\<lambda>t'. RATE_WINDOW_60 < t - t') ts @ filter (\<lambda>t'. t - t' \<le> RATE_WINDOW_60) ts" for ts :: "time list"
  proof (induction ts)
    case (Cons a ts)
    show ?case
    proof (cases "RATE_WINDOW_60 < t - a")
      case False
      then have "filter (\<lambda>t'. RATE_WINDOW_60 < t - t') ts = []" using Cons.prems by (auto simp: filter_empty_conv)
      then show ?thesis using Cons False by simp
    qed (use Cons in auto)
  qed simp
  then show "times_of k h = filter (\<lambda>t'. RATE_WINDOW_60 < t - t') (times_of k h) @ prune t (bucket_of b k)"
    using s unfolding 1 by blast
qed

lemma buckets_ok_step:
  assumes ok: "buckets_ok now h b" and t: "now \<le> t"
  shows "fst (check_key_rate t k limit b) =
      (if limit \<le> int (recent k t h) then (False, 0) else (True, limit - int (recent k t h) - 1))"
    and "buckets_ok t (if limit \<le> int (recent k t h) then h else h @ [(k, t)]) (snd (check_key_rate t k limit b))"
proof -
  let ?p = "prune t (bucket_of b k)"
  have c: "check_key_rate t k limit b =
     (if limit \<le> int (length ?p) then ((False, 0), dset k ?p b)
      else ((True, max 0 (limit - int (length ?p)) - 1), dset k (?p @ [t]) b))"
    by (simp add: check_key_rate_def bucket_of_def Let_def)
  have n: "length ?p = recent k t h" by (simp only: pruned_bucket(1) [OF ok t] recent_times)
  show "fst (check_key_rate t k limit b) =
      (if limit \<le> int (recent k t h) then (False, 0) else (True, limit - int (recent k t h) - 1))"
    by (simp add: c n)
  have keep: "\<exists>old. times_of k' h = old @ bucket_of (dset k ?p b) k' \<and> (\<forall>x \<in> set old. RATE_WINDOW_60 < t - x)" for k'
  proof (cases "k' = k")
    case True
    have "\<forall>x \<in> set (filter (\<lambda>t'. RATE_WINDOW_60 < t - t') (times_of k h)). RATE_WINDOW_60 < t - x" by simp
    then show ?thesis using pruned_bucket(2) [OF ok t, of k] True by (auto simp: bucket_of_def)
  next
    case False
    obtain old where "times_of k' h = old @ bucket_of b k'" "\<forall>x \<in> set old. RATE_WINDOW_60 < t - x"
      using ok t by (rule bucket_split)
    then show ?thesis using False by (auto simp: bucket_of_def)
  qed
  have h: "sorted (map snd h)" "\<forall>x \<in> snd ` set h. x \<le> t" using ok t by (auto simp: buckets_ok_def)
  show "buckets_ok t (if limit \<le> int (recent k t h) then h else h @ [(k, t)]) (snd (check_key_rate t k limit b))"
  proof (cases "limit \<le> int (recent k t h)")
    case True
    then show ?thesis using keep h by (simp add: c n buckets_ok_def)
  next
    case False
    have "\<exists>old. times_of k' (h @ [(k, t)]) = old @ bucket_of (dset k (?p @ [t]) b) k' \<and> (\<forall>x \<in> set old. RATE_WINDOW_60 < t - x)" for k'
      using keep [of k'] by (auto simp: times_of_def bucket_of_def)
    moreover have "sorted (map snd (h @ [(k, t)]))" using h by (auto simp: sorted_append)
    ultimately show ?thesis using False h by (simp add: c n buckets_ok_def)
  qed
qed

lemma rate_run_spec:
  assumes "buckets_ok now h b" "sorted (map snd rs)" "\<forall>t \<in> snd ` set rs. now \<le> t"
  shows "rate_run limit rs b = rate_spec limit rs h"
  using assms
proof (induction rs arbitrary: now h b)
  case Nil
  then show ?case by simp
next
  case (Cons r rs)
  obtain k t where r: "r = (k, t)" by (cases r)
  have t: "now \<le> t" using Cons.prems(3) r by simp
  obtain v b' where c: "check_key_rate t k limit b = (v, b')" by fastforce
  have "rate_run limit rs b' = rate_spec limit rs (if limit \<le> int (recent k t h) then h else h @ [(k, t)])"
    by (rule Cons.IH [where now = t]) (use buckets_ok_step(2) [OF Cons.prems(1) t, of limit k] Cons.prems r c in auto)
  then show ?case using buckets_ok_step(1) [OF Cons.prems(1) t, of k limit] r c by (auto simp: Let_def)
qed

text \<open>The accepted requests of a run.\<close>

definition accepted :: "(int \<times> time) list \<Rightarrow> (bool \<times> int) list \<Rightarrow> (int \<times> time) list" where
  "accepted rs vs = map fst (filter (\<lambda>(r, v). fst v) (zip rs vs))"

lemma rate_spec_length [simp]: "length (rate_spec limit rs h) = length rs"
  by (induction limit rs h rule: rate_spec.induct) (auto simp: Let_def)

lemma length_filter_mono: "(\<And>x. x \<in> set xs \<Longrightarrow> P x \<Longrightarrow> Q x) \<Longrightarrow> length (filter P xs) \<le> length (filter Q xs)"
  by (induction xs) (auto simp: le_SucI)

definition in_window :: "int \<Rightarrow> time \<Rightarrow> (int \<times> time) list \<Rightarrow> nat" where
  "in_window k t h = length (filter (\<lambda>(k', t'). k' = k \<and> t \<le> t' \<and> t' \<le> t + RATE_WINDOW_60) h)"

lemma window_bound:
  assumes "sorted (map snd rs)" "\<forall>t \<in> snd ` set rs. \<forall>s \<in> snd ` set h. s \<le> t" "\<And>t. int (in_window k t h) \<le> max 0 limit"
  shows "int (in_window k t (h @ accepted rs (rate_spec limit rs h))) \<le> max 0 limit"
  using assms
proof (induction limit rs h rule: rate_spec.induct)
  case (1 limit h)
  then show ?case by (simp add: accepted_def)
next
  case (2 limit k' t' rs h)
  show ?case
  proof (cases "limit \<le> int (recent k' t' h)")
    case True
    then show ?thesis using 2 by (auto simp: Let_def accepted_def)
  next
    case False
    have le: "x \<in> set h \<Longrightarrow> snd x \<le> t'" for x using "2.prems"(2) by auto
    have w: "int (in_window k u (h @ [(k', t')])) \<le> max 0 limit" for u
    proof (cases "k' = k \<and> u \<le> t' \<and> t' \<le> u + RATE_WINDOW_60")
      case True
      have "in_window k u h \<le> recent k' t' h"
        unfolding in_window_def recent_def
        by (rule length_filter_mono) (use True le in auto)
      then show ?thesis using True False by (simp add: in_window_def)
    next
      case False
      then show ?thesis using "2.prems"(3) [of u] by (auto simp: in_window_def)
    qed
    have "int (in_window k t ((h @ [(k', t')]) @ accepted rs (rate_spec limit rs (h @ [(k', t')])))) \<le> max 0 limit"
      using "2.prems" False w by (intro "2.IH"(2)) (auto simp: Let_def)
    then show ?thesis using False by (simp add: Let_def accepted_def)
  qed
qed

text \<open>
  C33. The sliding window. As long as the clock does not run backwards, the answers to any sequence of requests are
  those of a log of all accepted requests: a request of a key is refused exactly when \<open>limit\<close>
  requests of the same key were accepted in the 60 seconds up to it, and an accepted one is
  told how many are left. So no window of 60 seconds holds more accepted requests of a key
  than the limit; refused requests do not count, and keys do not affect each other.
\<close>
theorem rate_limit_window:
  assumes "sorted (map snd rs)"
  shows "rate_run limit rs [] = rate_spec limit rs [] \<and>
    int (in_window k t (accepted rs (rate_run limit rs []))) \<le> max 0 limit"
proof -
  have run: "rate_run limit rs [] = rate_spec limit rs []"
  proof (cases rs)
    case (Cons r rs')
    have "\<forall>t \<in> snd ` set rs. snd r \<le> t" using assms Cons by auto
    then show ?thesis
      using assms by (intro rate_run_spec [where now = "snd r"]) (auto simp: buckets_ok_def times_of_def bucket_of_def)
  qed simp
  have "int (in_window k t ([] @ accepted rs (rate_spec limit rs []))) \<le> max 0 limit"
    using assms by (intro window_bound) (auto simp: in_window_def)
  then show ?thesis using run by simp
qed

definition ex_requests :: "(int \<times> time) list" where
  "ex_requests = [(7, 0), (7, 10 * sec), (7, 20 * sec), (8, 30 * sec), (7, 60 * sec), (7, 61 * sec)]"

theorem rate_limit_window_witness:
  "rate_run 2 ex_requests [] = [(True, 1), (True, 0), (False, 0), (True, 1), (False, 0), (True, 0)] \<and>
   int (in_window 7 (5 * sec) (accepted ex_requests (rate_run 2 ex_requests []))) \<le> 2"
proof -
  have "rate_run 2 ex_requests [] = [(True, 1), (True, 0), (False, 0), (True, 1), (False, 0), (True, 0)]" by code_simp
  moreover have "sorted (map snd ex_requests)" by (simp add: ex_requests_def)
  from rate_limit_window [OF this, of 2 7 "5 * sec"]
  have "int (in_window 7 (5 * sec) (accepted ex_requests (rate_run 2 ex_requests []))) \<le> max 0 2" ..
  ultimately show ?thesis by linarith
qed

section \<open>How old the verdict on a key can be\<close>

record gate_world =
  gs_gate :: gateway
  gs_db :: db
  gs_clock :: time
  gs_now :: time

text \<open>
  The life of a process of the MCP server: its requests, the invalidations inside it, time,
  and whatever other processes do to the database.
\<close>

inductive gate_step :: "(string \<Rightarrow> string) \<Rightarrow> (string \<Rightarrow> string) \<Rightarrow> gate_world \<Rightarrow> gate_world \<Rightarrow> bool" for H L where
  gate_request: "gateway_dispatch H L cfg (gs_clock s) (gs_now s) path header (gs_gate s, gs_db s) = (a, g, d)
    \<Longrightarrow> gate_step H L s (s\<lparr>gs_gate := g, gs_db := d\<rparr>)"
| gate_drop: "gate_step H L s (s\<lparr>gs_gate := key_cache_invalidate H k (gs_gate s)\<rparr>)"
| gate_drop_id: "gate_step H L s (s\<lparr>gs_gate := key_cache_invalidate_by_id i (gs_gate s)\<rparr>)"
| gate_tick: "0 \<le> d \<Longrightarrow> gate_step H L s (s\<lparr>gs_clock := gs_clock s + d\<rparr>)"
| gate_foreign: "gate_step H L s (s\<lparr>gs_db := d, gs_now := now\<rparr>)"

inductive gate_history :: "(string \<Rightarrow> string) \<Rightarrow> (string \<Rightarrow> string) \<Rightarrow> gate_world list \<Rightarrow> bool" for H L where
  gate_start: "gs_gate s = empty_gateway \<Longrightarrow> gate_history H L [s]"
| gate_next: "gate_history H L (s # h) \<Longrightarrow> gate_step H L s s' \<Longrightarrow> gate_history H L (s' # s # h)"

text \<open>What the database says of a key in a state.\<close>

definition verdict :: "(string \<Rightarrow> string) \<Rightarrow> (string \<Rightarrow> string) \<Rightarrow> string \<Rightarrow> gate_world \<Rightarrow> exc + int option" where
  "verdict H L k s = fst (verify_api_key H L (gs_now s) k (gs_db s))"

definition keys_explained :: "(string \<Rightarrow> string) \<Rightarrow> (string \<Rightarrow> string) \<Rightarrow> gate_world list \<Rightarrow> gateway \<Rightarrow> bool" where
  "keys_explained H L h g \<longleftrightarrow> (\<forall>x. (dget (gw_ids g) x = None \<longleftrightarrow> dget (gw_ts g) x = None) \<and>
     (\<forall>v ts. dget (gw_ids g) x = Some v \<longrightarrow> dget (gw_ts g) x = Some ts \<longrightarrow>
        (\<exists>s \<in> set h. \<exists>k. gs_clock s = ts \<and> H k = x \<and> verdict H L k s = Inr v)))"

lemma keys_explainedI:
  assumes "\<And>x. dget (gw_ids g) x = None \<longleftrightarrow> dget (gw_ts g) x = None"
    and "\<And>x v ts. dget (gw_ids g) x = Some v \<Longrightarrow> dget (gw_ts g) x = Some ts \<Longrightarrow>
      \<exists>s \<in> set h. \<exists>k. gs_clock s = ts \<and> H k = x \<and> verdict H L k s = Inr v"
  shows "keys_explained H L h g"
  unfolding keys_explained_def using assms by blast

lemma keys_explainedD:
  assumes "keys_explained H L h g"
  shows "dget (gw_ids g) x = None \<longleftrightarrow> dget (gw_ts g) x = None"
    and "dget (gw_ids g) x = Some v \<Longrightarrow> dget (gw_ts g) x = Some ts \<Longrightarrow>
      \<exists>s \<in> set h. \<exists>k. gs_clock s = ts \<and> H k = x \<and> verdict H L k s = Inr v"
  using assms unfolding keys_explained_def by blast+

lemma dget_key: "dget d k = Some e \<Longrightarrow> k \<in> set (dkeys d)"
  by (metis domI dom_map_of_conv_image_fst set_map)

lemma dget_fold_ddel: "dget (fold ddel ks d) x = (if x \<in> set ks then None else dget d x)"
  by (induction ks arbitrary: d) auto

lemma keys_explained_mono: "keys_explained H L h g \<Longrightarrow> set h \<subseteq> set h' \<Longrightarrow> keys_explained H L h' g"
  unfolding keys_explained_def by (meson subsetD)

lemma admit_cache: "admit cfg t i g = (a, g') \<Longrightarrow> gw_ids g' = gw_ids g \<and> gw_ts g' = gw_ts g"
  by (auto simp: admit_def split: option.splits prod.splits if_splits)

text \<open>What a request does to the cache: nothing, or it stores the verdict of this moment.\<close>

lemma dispatch_cache:
  assumes "gateway_dispatch H L cfg (gs_clock s) (gs_now s) path header (gs_gate s, gs_db s) = (a, g, d)"
  shows "(gw_ids g = gw_ids (gs_gate s) \<and> gw_ts g = gw_ts (gs_gate s)) \<or>
    (\<exists>k v. header = Some k \<and> verdict H L k s = Inr v \<and>
       gw_ids g = dset (H k) v (gw_ids (gs_gate s)) \<and> gw_ts g = dset (H k) (gs_clock s) (gw_ts (gs_gate s)))"
proof (cases "is_public path \<or> header = None \<or> header = Some []")
  case True
  then show ?thesis using assms by (auto simp: gateway_dispatch_def Let_def split: if_splits)
next
  case False
  then obtain k where k: "header = Some k" "k \<noteq> []" "\<not> is_public path" by auto
  obtain hit v where get: "key_cache_get H (gs_clock s) k (gs_gate s) = (hit, v)" by fastforce
  show ?thesis
  proof (cases hit)
    case True
    then show ?thesis using assms k get
      by (auto simp: gateway_dispatch_def Let_def split: option.splits prod.splits dest!: admit_cache)
  next
    case False
    obtain r d' where r: "verify_api_key H L (gs_now s) k (gs_db s) = (r, d')" by fastforce
    show ?thesis
    proof (cases r)
      case (Inl e)
      then show ?thesis using assms k get False r by (simp add: gateway_dispatch_def Let_def)
    next
      case (Inr v')
      then have "gw_ids g = dset (H k) v' (gw_ids (gs_gate s))" "gw_ts g = dset (H k) (gs_clock s) (gw_ts (gs_gate s))"
        using assms k get False r
        by (auto simp: gateway_dispatch_def Let_def key_cache_set_def split: option.splits prod.splits dest!: admit_cache)
      moreover have "verdict H L k s = Inr v'" using r Inr by (simp add: verdict_def)
      ultimately show ?thesis using k(1) by blast
    qed
  qed
qed

lemma keys_explained_put:
  assumes ex: "keys_explained H L h g0" and s: "s \<in> set h" "verdict H L k s = Inr v"
    and g: "gw_ids g = dset (H k) v (gw_ids g0)" "gw_ts g = dset (H k) (gs_clock s) (gw_ts g0)"
  shows "keys_explained H L h g"
proof (rule keys_explainedI)
  fix x show "dget (gw_ids g) x = None \<longleftrightarrow> dget (gw_ts g) x = None"
    using keys_explainedD(1) [OF ex, of x] by (simp add: g)
next
  fix x w ts
  assume a: "dget (gw_ids g) x = Some w" "dget (gw_ts g) x = Some ts"
  show "\<exists>s \<in> set h. \<exists>k. gs_clock s = ts \<and> H k = x \<and> verdict H L k s = Inr w"
  proof (cases "x = H k")
    case True
    then have "w = v" "ts = gs_clock s" using a by (simp_all add: g)
    then show ?thesis using s True by blast
  next
    case False
    then show ?thesis using a by (intro keys_explainedD(2) [OF ex]) (simp_all add: g)
  qed
qed

lemma keys_explained_drop:
  assumes ex: "keys_explained H L h g0" and g: "\<And>x. dget (gw_ids g) x = (if p x then None else dget (gw_ids g0) x)"
    "\<And>x. dget (gw_ts g) x = (if p x then None else dget (gw_ts g0) x)"
  shows "keys_explained H L h g"
  using keys_explainedD [OF ex] by (intro keys_explainedI) (auto simp: g split: if_splits)

definition stale_keys :: "int \<Rightarrow> gateway \<Rightarrow> string list" where
  "stale_keys i g = map fst (filter (\<lambda>(h, v). v = Some i) (gw_ids g))"

lemma invalidated_by_id:
  "dget (gw_ids (key_cache_invalidate_by_id i g)) x = (if x \<in> set (stale_keys i g) then None else dget (gw_ids g) x)"
  "dget (gw_ts (key_cache_invalidate_by_id i g)) x = (if x \<in> set (stale_keys i g) then None else dget (gw_ts g) x)"
  unfolding key_cache_invalidate_by_id_def Let_def stale_keys_def [symmetric] by (simp_all add: dget_fold_ddel)

lemma keys_explained_step:
  assumes "gate_step H L s s'" "keys_explained H L h (gs_gate s)" "s \<in> set h"
  shows "keys_explained H L h (gs_gate s')"
  using assms(1)
proof cases
  case (gate_request cfg path header a g d)
  have g: "gs_gate s' = g" using gate_request(1) by simp
  from dispatch_cache [OF gate_request(2)] show ?thesis
  proof
    assume "gw_ids g = gw_ids (gs_gate s) \<and> gw_ts g = gw_ts (gs_gate s)"
    then show ?thesis unfolding g by (intro keys_explained_drop [OF assms(2), where p = "\<lambda>_. False"]) simp_all
  next
    assume "\<exists>k v. header = Some k \<and> verdict H L k s = Inr v \<and>
       gw_ids g = dset (H k) v (gw_ids (gs_gate s)) \<and> gw_ts g = dset (H k) (gs_clock s) (gw_ts (gs_gate s))"
    then show ?thesis unfolding g using keys_explained_put [OF assms(2,3)] by blast
  qed
next
  case (gate_drop k)
  show ?thesis
    by (rule keys_explained_drop [OF assms(2), where p = "\<lambda>x. x = H k"])
      (simp_all add: gate_drop key_cache_invalidate_def Let_def)
next
  case (gate_drop_id i)
  show ?thesis unfolding gate_drop_id
    by (rule keys_explained_drop [OF assms(2), where p = "\<lambda>x. x \<in> set (stale_keys i (gs_gate s))"])
      (simp_all add: invalidated_by_id)
next
  case (gate_tick d)
  then show ?thesis using assms(2) by simp
next
  case (gate_foreign d now)
  then show ?thesis using assms(2) by simp
qed

lemma gate_history_explained: "gate_history H L (s # h) \<Longrightarrow> keys_explained H L (s # h) (gs_gate s)"
proof (induction "s # h" arbitrary: s h rule: gate_history.induct)
  case (gate_start s)
  then have "dget (gw_ids (gs_gate s)) x = None" "dget (gw_ts (gs_gate s)) x = None" for x
    by (simp_all add: empty_gateway_def)
  then show ?case by (intro keys_explainedI) simp_all
next
  case (gate_next s h s')
  have "keys_explained H L (s # h) (gs_gate s')"
    by (rule keys_explained_step [OF gate_next(3) gate_next(2)]) simp_all
  then show ?case by (rule keys_explained_mono) auto
qed

text \<open>
  C34. How long a revoked key lives. Whatever happened to the process and the database before,
  the answer to a request with a key rests on a verdict of the database less than 300 seconds
  old: the key that is let through or limited was valid then (as the owner \<open>i\<close>, for a raw key
  of the same hash), and a key that is refused was invalid then. So a key deactivated or
  expired for 300 seconds is refused, and one created 300 seconds ago is known.
\<close>
theorem key_verdict_age:
  assumes "gate_history H L (s # h)" "\<not> is_public path" "k \<noteq> []"
    and "gateway_dispatch H L cfg (gs_clock s) (gs_now s) path (Some k) (gs_gate s, gs_db s) = (a, g, d)"
    and "a = GwForward i r \<and> v = Some i \<or> a = GwRefused 401 m \<and> v = None"
  shows "\<exists>s' \<in> set (s # h). \<exists>k'. gs_clock s - gs_clock s' < KEY_CACHE_TTL \<and> H k' = H k \<and> verdict H L k' s' = Inr v"
proof -
  have ex: "keys_explained H L (s # h) (gs_gate s)" using assms(1) by (rule gate_history_explained)
  have adm: "admit cfg t j g0 = (a, g') \<Longrightarrow> a = GwForward i r \<Longrightarrow> j = i"
    "admit cfg t j g0 = (a, g') \<Longrightarrow> a \<noteq> GwRefused 401 m" for t j g0 g'
    by (auto simp: admit_def split: option.splits prod.splits if_splits)
  obtain hit w where get: "key_cache_get H (gs_clock s) k (gs_gate s) = (hit, w)" by fastforce
  show ?thesis
  proof (cases hit)
    case True
    then have wv: "w = v" using assms(2-5) get adm
      by (auto simp: gateway_dispatch_def Let_def split: option.splits prod.splits)
    obtain ts where ts: "dget (gw_ts (gs_gate s)) (H k) = Some ts" "gs_clock s - ts < KEY_CACHE_TTL"
      "w = Option.bind (dget (gw_ids (gs_gate s)) (H k)) id"
      using get True by (auto simp: key_cache_get_def Let_def split: option.splits if_splits)
    then obtain u where "dget (gw_ids (gs_gate s)) (H k) = Some u"
      using keys_explainedD(1) [OF ex, of "H k"] by (cases "dget (gw_ids (gs_gate s)) (H k)") auto
    moreover from this have "u = v" using ts(3) wv by simp
    ultimately obtain s' k' where "s' \<in> set (s # h)" "gs_clock s' = ts" "H k' = H k" "verdict H L k' s' = Inr v"
      using keys_explainedD(2) [OF ex _ ts(1)] by blast
    then show ?thesis using ts(2) by blast
  next
    case False
    obtain x d' where x: "verify_api_key H L (gs_now s) k (gs_db s) = (x, d')" by fastforce
    then have "x = Inr v" using assms(2-5) get False adm
      by (auto simp: gateway_dispatch_def Let_def split: option.splits prod.splits sum.splits)
    then have "verdict H L k s = Inr v" using x by (simp add: verdict_def)
    moreover have "gs_clock s - gs_clock s < KEY_CACHE_TTL" by (simp add: KEY_CACHE_TTL_def)
    ultimately show ?thesis by auto
  qed
qed

definition ex_hash :: "string \<Rightarrow> string" where
  "ex_hash k = CHR ''h'' # k"

definition ex_old_hash :: "string \<Rightarrow> string" where
  "ex_old_hash k = CHR ''o'' # k"

definition ex_request :: "gate_world \<Rightarrow> gw_answer \<times> gateway \<times> db" where
  "ex_request s = gateway_dispatch ex_hash ex_old_hash ''120'' (gs_clock s) (gs_now s) ''/mcp'' (Some ''osm_t'') (gs_gate s, gs_db s)"

definition ex_start :: gate_world where
  "ex_start = \<lparr>gs_gate = empty_gateway, gs_db = snd (create_api_key ex_hash 0 ''t'' ''n'' None None empty_db), gs_clock = 0, gs_now = 0\<rparr>"

definition ex_used :: gate_world where
  "ex_used = ex_start\<lparr>gs_gate := fst (snd (ex_request ex_start)), gs_db := snd (snd (ex_request ex_start))\<rparr>"

definition ex_revoked :: gate_world where
  "ex_revoked = ex_used\<lparr>gs_db := snd (deactivate_api_key 1 (gs_db ex_used)), gs_now := 1\<rparr>"

definition ex_late :: gate_world where
  "ex_late = ex_revoked\<lparr>gs_clock := gs_clock ex_revoked + 299 * sec\<rparr>"

theorem key_verdict_age_witness:
  "verdict ex_hash ex_old_hash ''osm_t'' ex_late = Inr None \<and> fst (ex_request ex_late) = GwForward 1 119 \<and>
   (\<exists>s' \<in> set [ex_late, ex_revoked, ex_used, ex_start]. \<exists>k'. gs_clock ex_late - gs_clock s' < KEY_CACHE_TTL \<and>
      ex_hash k' = ex_hash ''osm_t'' \<and> verdict ex_hash ex_old_hash k' s' = Inr (Some 1))"
proof -
  have v: "verdict ex_hash ex_old_hash ''osm_t'' ex_late = Inr None" "fst (ex_request ex_late) = GwForward 1 119"
    by code_simp+
  obtain g d where r0: "ex_request ex_start = (fst (ex_request ex_start), g, d)" by (metis prod.collapse)
  obtain g' d' where r: "ex_request ex_late = (GwForward 1 119, g', d')" using v(2) by (metis prod.collapse)
  have "gate_history ex_hash ex_old_hash [ex_start]" by (rule gate_start) (simp add: ex_start_def)
  moreover have "gate_step ex_hash ex_old_hash ex_start ex_used"
    unfolding ex_used_def using r0 by (metis gate_request ex_request_def fst_conv snd_conv)
  moreover have "gate_step ex_hash ex_old_hash ex_used ex_revoked" unfolding ex_revoked_def by (rule gate_foreign)
  moreover have "gate_step ex_hash ex_old_hash ex_revoked ex_late" unfolding ex_late_def by (rule gate_tick) simp
  ultimately have h: "gate_history ex_hash ex_old_hash [ex_late, ex_revoked, ex_used, ex_start]"
    by (blast intro: gate_next)
  have p: "\<not> is_public ''/mcp''" by code_simp
  show ?thesis
    using v key_verdict_age [OF h p _ r [unfolded ex_request_def], where i = 1 and r = 119 and v = "Some 1" and m = "[]"] by simp
qed

lemma verify_answers:
  assumes "db_up d"
  obtains r where "verify_api_key H L now k d = (Inr r, snd (verify_api_key H L now k d))" "db_up (snd (verify_api_key H L now k d))"
proof -
  have "\<exists>r. fst (verify_api_key H L now k d) = Inr r" "db_up (snd (verify_api_key H L now k d))"
    using assms by (simp_all add: verify_api_key_def checkout_def Let_def split: option.split)
  then show thesis using that by (metis prod.collapse)
qed

text \<open>
  Every key that anybody sends is remembered, a wrong one too, and none is ever evicted by a
  request: as long as the database answers, the cache grows by the hashes of all keys that were
  tried, without an account and before any limit applies.
\<close>
theorem unknown_keys_pile_up:
  assumes "db_up (snd gd)" "[] \<notin> set ks" "\<not> is_public path"
  shows "set (dkeys (gw_ts (fst (fold (\<lambda>k gd. snd (gateway_dispatch H L cfg clock now path (Some k) gd)) ks gd)))) =
    set (dkeys (gw_ts (fst gd))) \<union> H ` set ks"
  using assms
proof (induction ks arbitrary: gd)
  case (Cons k ks)
  obtain g d where gd: "gd = (g, d)" by (cases gd)
  let ?gd = "snd (gateway_dispatch H L cfg clock now path (Some k) gd)"
  obtain hit v where get: "key_cache_get H clock k g = (hit, v)" by fastforce
  have "db_up d" using Cons.prems(1) gd by simp
  then obtain r where r: "verify_api_key H L now k d = (Inr r, snd (verify_api_key H L now k d))" "db_up (snd (verify_api_key H L now k d))"
    by (rule verify_answers)
  have "set (dkeys (gw_ts (fst ?gd))) = insert (H k) (set (dkeys (gw_ts g))) \<and> db_up (snd ?gd)"
  proof (cases hit)
    case True
    then have "H k \<in> set (dkeys (gw_ts g))"
      using get by (auto simp: key_cache_get_def Let_def dget_key simp del: set_map split: option.splits)
    moreover have "gw_ts (fst ?gd) = gw_ts g \<and> snd ?gd = d"
      using Cons.prems gd get True
      by (auto simp: gateway_dispatch_def Let_def split: option.splits prod.splits dest!: admit_cache)
    ultimately show ?thesis using Cons.prems(1) gd by auto
  next
    case False
    then show ?thesis using Cons.prems gd get r
      by (auto simp: gateway_dispatch_def Let_def key_cache_set_def set_dkeys_dset simp del: set_map
          split: option.splits prod.splits dest!: admit_cache)
  qed
  then show ?case using Cons.IH [of ?gd] Cons.prems gd by auto
qed simp

section \<open>The cache of resource bodies\<close>

datatype resource_op = RGet time string | RPut time string "string \<times> string" | RClear

fun rc_step :: "resource_op \<Rightarrow> resource_cache \<Rightarrow> resource_cache" where
  "rc_step (RGet now k) c = snd (resource_get now k c)"
| "rc_step (RPut now k body) c = resource_put now k body c"
| "rc_step RClear c = clear_resources c"

definition rc_inv :: "resource_cache \<Rightarrow> bool" where
  "rc_inv c \<longleftrightarrow> distinct (dkeys (rc_data c)) \<and> length (rc_data c) \<le> rc_capacity c"

lemma dkeys_ddel: "dkeys (ddel k d) = filter (\<lambda>x. x \<noteq> k) (dkeys d)"
  by (induction d) auto

lemma length_ddel_le: "length (ddel k d) \<le> length d"
  by (induction d) auto

lemma length_ddel: "k \<in> set (dkeys d) \<Longrightarrow> length (ddel k d) < length d"
proof (induction d)
  case (Cons x d)
  then show ?case by (cases "fst x = k") (auto simp: length_ddel_le less_Suc_eq_le)
qed simp


lemma dkeys_drop: "dkeys (drop n d) = drop n (dkeys d)"
  by (simp add: drop_map)

lemma rc_inv_step: "rc_inv c \<Longrightarrow> rc_inv (rc_step op c)"
proof (cases op)
  case (RGet now k)
  assume i: "rc_inv c"
  have "(k, x) \<in> set (rc_data c) \<Longrightarrow> Suc (length (ddel k (rc_data c))) \<le> rc_capacity c" for x
    using i length_ddel [of k "rc_data c"] by (force simp: rc_inv_def)
  then show ?thesis using i RGet length_ddel_le [of k "rc_data c"]
    by (auto simp: rc_inv_def resource_get_def move_to_end_def dkeys_ddel split: option.splits)
next
  case (RPut now k body)
  assume i: "rc_inv c"
  have "k \<in> set (dkeys (rc_data c)) \<Longrightarrow> Suc (length (ddel k (rc_data c))) \<le> rc_capacity c"
    using i length_ddel [of k "rc_data c"] by (simp add: rc_inv_def)
  then show ?thesis using i RPut
    by (auto simp: rc_inv_def resource_put_def Let_def move_to_end_def dkeys_ddel evict_lru_def dkeys_drop
        dest!: in_set_dropD split: if_splits)
qed (simp add: rc_inv_def clear_resources_def)

interpretation resources: op_store rc_step "\<lambda>_. True" rc_inv
  by unfold_locales (rule rc_inv_step)

text \<open>What the history says was put last under a key.\<close>

definition last_put :: "string \<Rightarrow> resource_op list \<Rightarrow> (time \<times> string \<times> string) option" where
  "last_put k ops = fold (\<lambda>op r. case op of RPut t k' b \<Rightarrow> if k' = k then Some (t, b) else r
     | RGet _ _ \<Rightarrow> r | RClear \<Rightarrow> None) ops None"

lemma dget_drop: "distinct (dkeys d) \<Longrightarrow> dget (drop n d) k = Some e \<Longrightarrow> dget d k = Some e"
  by (metis in_set_dropD map_of_SomeD map_of_is_SomeI)

lemma dget_move: "dget (move_to_end k e d) k' = (if k' = k then Some e else dget d k')"
  by (simp add: move_to_end_def map_add_def split: option.split)

lemma rc_source:
  assumes "rc_inv c0" "rc_data c0 = []"
  shows "dget (rc_data (fold rc_step ops c0)) k = Some e \<Longrightarrow> last_put k ops = Some (ce_fetched_at e, ce_value e, ce_mime e)"
proof (induction ops arbitrary: k e rule: rev_induct)
  case Nil
  then show ?case by (simp add: assms)
next
  case (snoc op ops)
  let ?c = "fold rc_step ops c0"
  have inv: "rc_inv ?c" using assms(1) by (rule resources.run) simp
  have d: "dget (rc_data (rc_step op ?c)) k = Some e" using snoc.prems by simp
  show ?case
  proof (cases op)
    case (RGet now k')
    then have "dget (rc_data ?c) k = Some e"
      using d by (auto simp: resource_get_def dget_move split: option.splits if_splits)
    then show ?thesis using snoc.IH RGet by (simp add: last_put_def)
  next
    case (RPut now k' body)
    let ?e = "\<lparr>ce_value = fst body, ce_mime = snd body, ce_fetched_at = now\<rparr>"
    have "dget (rc_data (rc_step op ?c)) k = Some e \<Longrightarrow> (if k' = k then Some ?e else dget (rc_data ?c) k) = Some e"
    proof (cases "k' \<in> set (dkeys (rc_data ?c))")
      case True
      then show "dget (rc_data (rc_step op ?c)) k = Some e \<Longrightarrow> ?thesis"
        using RPut by (auto simp: resource_put_def Let_def dget_move simp del: set_map split: if_splits)
    next
      case False
      assume "dget (rc_data (rc_step op ?c)) k = Some e"
      then have "dget (drop (length (rc_data ?c @ [(k', ?e)]) - rc_capacity ?c) (rc_data ?c @ [(k', ?e)])) k = Some e"
        using False RPut by (simp add: resource_put_def Let_def evict_lru_def del: set_map)
      moreover have "distinct (dkeys (rc_data ?c @ [(k', ?e)]))" using inv False by (simp add: rc_inv_def)
      ultimately have "dget (rc_data ?c @ [(k', ?e)]) k = Some e" by (metis dget_drop)
      moreover have "dget (rc_data ?c) k' = None" using False by (simp add: map_of_eq_None_iff)
      ultimately show ?thesis by (auto simp: map_add_def split: option.splits if_splits)
    qed
    then have "(if k' = k then Some ?e else dget (rc_data ?c) k) = Some e" using d .
    then show ?thesis using snoc.IH [of k e] RPut by (auto simp: last_put_def split: if_splits)
  next
    case RClear
    then show ?thesis using d by (simp add: clear_resources_def)
  qed
qed

text \<open>Operations that do not end the life of the entry of \<open>k\<close> put at \<open>t\<close>: they concern the
  keys \<open>ks\<close>, or read \<open>k\<close> within its time.\<close>

definition spares :: "string \<Rightarrow> time \<Rightarrow> time \<Rightarrow> string list \<Rightarrow> resource_op \<Rightarrow> bool" where
  "spares k t ttl ks op \<longleftrightarrow> (case op of RGet now k' \<Rightarrow> (if k' = k then now - t \<le> ttl else k' \<in> set ks)
     | RPut _ k' _ \<Rightarrow> k' \<noteq> k \<and> k' \<in> set ks | RClear \<Rightarrow> False)"

definition placed :: "string \<Rightarrow> cache_entry \<Rightarrow> string list \<Rightarrow> resource_cache \<Rightarrow> bool" where
  "placed k e ks c \<longleftrightarrow> (\<exists>a b. rc_data c = a @ (k, e) # b \<and> set (dkeys b) \<subseteq> set ks)"

lemma ddel_append: "ddel k (a @ b) = ddel k a @ ddel k b"
  by (induction a) auto

lemma ddel_id: "k \<notin> set (dkeys d) \<Longrightarrow> ddel k d = d"
  by (induction d) auto

lemma placed_dget: "rc_inv c \<Longrightarrow> placed k e ks c \<Longrightarrow> dget (rc_data c) k = Some e"
  by (auto simp: placed_def rc_inv_def map_add_def image_iff split: option.splits dest!: map_of_SomeD)

lemma placed_step:
  assumes inv: "rc_inv c" and p: "placed k e ks c" and ks: "card (set ks) < rc_capacity c"
    and s: "spares k (ce_fetched_at e) (rc_ttl c) ks op" 
  shows "placed k e ks (rc_step op c)"
proof -
  obtain a b where ab: "rc_data c = a @ (k, e) # b" "set (dkeys b) \<subseteq> set ks" using p by (auto simp: placed_def)
  have dist: "distinct (dkeys (a @ (k, e) # b))" using inv ab(1) by (simp add: rc_inv_def)
  have move: "placed k e ks (c\<lparr>rc_data := move_to_end k' e' (rc_data c)\<rparr>)" if "k' \<noteq> k" "k' \<in> set ks" for k' e'
  proof -
    have "move_to_end k' e' (rc_data c) = ddel k' a @ (k, e) # ddel k' b @ [(k', e')]"
      using that by (simp add: move_to_end_def ab ddel_append)
    moreover have "set (dkeys (ddel k' b @ [(k', e')])) \<subseteq> set ks"
      using ab(2) that by (auto simp: dkeys_ddel simp del: set_map)
    ultimately show ?thesis unfolding placed_def by (metis resource_cache.select_convs(3) resource_cache.update_convs(3) resource_cache.surjective)
  qed
  have drop: "placed k e ks (c\<lparr>rc_data := ddel k' (rc_data c)\<rparr>)" if "k' \<noteq> k" for k'
  proof -
    have "ddel k' (rc_data c) = ddel k' a @ (k, e) # ddel k' b" using that by (simp add: ab ddel_append)
    moreover have "set (dkeys (ddel k' b)) \<subseteq> set ks" using ab(2) by (auto simp: dkeys_ddel simp del: set_map)
    ultimately show ?thesis unfolding placed_def by (metis resource_cache.select_convs(3) resource_cache.update_convs(3) resource_cache.surjective)
  qed
  show ?thesis
  proof (cases op)
    case (RGet now k')
    show ?thesis
    proof (cases "k' = k")
      case True
      have "dget (rc_data c) k = Some e" using inv p by (rule placed_dget)
      then have "rc_data (rc_step op c) = ddel k (rc_data c) @ [(k, e)]"
        using True RGet s by (simp add: resource_get_def spares_def move_to_end_def)
      then show ?thesis unfolding placed_def by (metis list.simps(8) empty_subsetI empty_set)
    next
      case False
      then have "k' \<in> set ks" using s RGet by (simp add: spares_def)
      then show ?thesis using RGet False p move drop by (auto simp: resource_get_def split: option.splits)
    qed
  next
    case (RPut now k' body)
    let ?e = "\<lparr>ce_value = fst body, ce_mime = snd body, ce_fetched_at = now\<rparr>"
    have k': "k' \<noteq> k" "k' \<in> set ks" using s RPut by (simp_all add: spares_def)
    show ?thesis
    proof (cases "k' \<in> set (dkeys (rc_data c))")
      case True
      then show ?thesis using RPut move [OF k'] by (simp add: resource_put_def Let_def del: set_map)
    next
      case False
      let ?b = "b @ [(k', ?e)]"
      have bk: "set (dkeys ?b) \<subseteq> set ks" "distinct (dkeys ?b)" using ab(2) k' dist False ab(1) by auto
      have "length ?b = card (set (dkeys ?b))" using distinct_card [OF bk(2)] by simp
      also have "\<dots> \<le> card (set ks)" using bk(1) by (simp only: card_mono finite_set)
      finally have "length ?b < rc_capacity c" using ks by simp
      then have n: "length (rc_data c @ [(k', ?e)]) - rc_capacity c \<le> length a" using ab(1) by simp
      have "rc_data (rc_step op c) = drop (length (rc_data c @ [(k', ?e)]) - rc_capacity c) (a @ (k, e) # ?b)"
        using RPut False ab(1) by (simp add: resource_put_def Let_def evict_lru_def del: set_map)
      also have "\<dots> = drop (length (rc_data c @ [(k', ?e)]) - rc_capacity c) a @ (k, e) # ?b" using n by simp
      finally show ?thesis using bk(1) unfolding placed_def by blast
    qed
  next
    case RClear
    then show ?thesis using s by (simp add: spares_def)
  qed
qed

lemma rc_params: "rc_capacity (rc_step op c) = rc_capacity c" "rc_ttl (rc_step op c) = rc_ttl c"
  by (cases op; auto simp: resource_get_def resource_put_def Let_def clear_resources_def split: option.splits)+

lemma rc_params_run: "rc_capacity (fold rc_step ops c) = rc_capacity c" "rc_ttl (fold rc_step ops c) = rc_ttl c"
  by (induction ops arbitrary: c) (simp_all add: rc_params)

lemma placed_run:
  assumes "rc_inv c" "placed k e ks c" "card (set ks) < rc_capacity c" "list_all (spares k (ce_fetched_at e) (rc_ttl c) ks) ops"
  shows "placed k e ks (fold rc_step ops c)"
  using assms
proof (induction ops arbitrary: c)
  case (Cons op ops)
  then have "placed k e ks (rc_step op c)" by (intro placed_step) auto
  then show ?case using Cons by (auto simp: rc_params rc_inv_step)
qed simp

lemma placed_put:
  assumes "rc_inv c" "0 < rc_capacity c"
  shows "placed k \<lparr>ce_value = fst body, ce_mime = snd body, ce_fetched_at = t\<rparr> ks (resource_put t k body c)"
proof (cases "k \<in> set (dkeys (rc_data c))")
  case True
  then show ?thesis unfolding placed_def
    by (intro exI [of _ "ddel k (rc_data c)"] exI [of _ "[]"]) (simp add: resource_put_def Let_def move_to_end_def del: set_map)
next
  case False
  have "length (rc_data c) + 1 - rc_capacity c \<le> length (rc_data c)" using assms by (simp add: rc_inv_def)
  then show ?thesis using False unfolding placed_def
    by (intro exI [of _ "drop (length (rc_data c) + 1 - rc_capacity c) (rc_data c)"] exI [of _ "[]"])
      (simp add: resource_put_def Let_def evict_lru_def del: set_map)
qed

text \<open>
  C35. The cache of resource bodies under any sequence of reads, stores and clearings. It never
  holds more entries than its capacity. A hit returns what was stored last under that key,
  not longer than its time to live ago. And an entry survives as long as fewer than
  \<open>capacity\<close> other keys are used: the least recently used entry goes first.
\<close>
theorem resource_cache_sound:
  assumes "new_resource_cache capacity ttl = Inr c0"
  shows "length (rc_data (fold rc_step ops c0)) \<le> nat capacity \<and>
    (case fst (resource_get now k (fold rc_step ops c0)) of
       None \<Rightarrow> True | Some body \<Rightarrow> \<exists>t. last_put k ops = Some (t, body) \<and> now - t \<le> ttl) \<and>
    (ops = pre @ RPut t k body # post \<and> list_all (spares k t ttl ks) post \<and> card (set ks) < nat capacity \<and> now - t \<le> ttl
       \<longrightarrow> fst (resource_get now k (fold rc_step ops c0)) = Some body)"
proof -
  have c0: "c0 = \<lparr>rc_capacity = nat capacity, rc_ttl = ttl, rc_data = []\<rparr>" "1 \<le> capacity"
    using assms by (auto simp: new_resource_cache_def split: if_splits)
  then have inv0: "rc_inv c0" by (simp add: rc_inv_def)
  then have inv: "rc_inv (fold rc_step os c0)" for os by (rule resources.run) simp
  have par: "rc_capacity (fold rc_step os c0) = nat capacity" "rc_ttl (fold rc_step os c0) = ttl" for os
    by (simp_all add: rc_params_run c0)
  have 1: "length (rc_data (fold rc_step ops c0)) \<le> nat capacity" using inv [of ops] par by (simp add: rc_inv_def)
  have 2: "case fst (resource_get now k (fold rc_step ops c0)) of
       None \<Rightarrow> True | Some body \<Rightarrow> \<exists>t. last_put k ops = Some (t, body) \<and> now - t \<le> ttl"
    using rc_source [OF inv0, of ops k] par(2) [of ops] c0 by (auto simp: resource_get_def split: option.split)
  have 3: "fst (resource_get now k (fold rc_step ops c0)) = Some body"
    if h: "ops = pre @ RPut t k body # post" "list_all (spares k t ttl ks) post" "card (set ks) < nat capacity" "now - t \<le> ttl"
  proof -
    let ?e = "\<lparr>ce_value = fst body, ce_mime = snd body, ce_fetched_at = t\<rparr>"
    let ?c = "rc_step (RPut t k body) (fold rc_step pre c0)"
    have "rc_inv ?c" by (rule rc_inv_step) (rule inv)
    moreover have "placed k ?e ks ?c" using placed_put [OF inv] par h(3) by simp
    ultimately have "placed k ?e ks (fold rc_step post ?c)"
      using h(2,3) par by (intro placed_run) (simp_all only: rc_params cache_entry.simps)
    then have "placed k ?e ks (fold rc_step ops c0)" by (simp add: h(1))
    then have "dget (rc_data (fold rc_step ops c0)) k = Some ?e" using inv by (rule placed_dget [rotated])
    then show ?thesis using h(4) par(2) [of ops] by (simp add: resource_get_def)
  qed
  show ?thesis using 1 2 3 by blast
qed

definition ex_ops :: "resource_op list" where
  "ex_ops = [RPut 0 ''b'' (''B'', ''t''), RPut 1 ''a'' (''old'', ''t'')] @ RPut 2 ''a'' (''A'', ''t'')
     # [RPut 3 ''c'' (''C'', ''t''), RGet 4 ''c'']"

theorem resource_cache_sound_witness:
  "\<exists>c0. new_resource_cache 2 10 = Inr c0 \<and> length (rc_data (fold rc_step ex_ops c0)) = 2 \<and>
     fst (resource_get 9 ''a'' (fold rc_step ex_ops c0)) = Some (''A'', ''t'') \<and>
     fst (resource_get 9 ''b'' (fold rc_step ex_ops c0)) = None"
proof -
  let ?c0 = "\<lparr>rc_capacity = 2, rc_ttl = 10, rc_data = []\<rparr>"
  have n: "new_resource_cache 2 10 = Inr ?c0" by (simp add: new_resource_cache_def)
  have v: "length (rc_data (fold rc_step ex_ops ?c0)) = 2" "fst (resource_get 9 ''b'' (fold rc_step ex_ops ?c0)) = None"
    "list_all (spares ''a'' 2 10 [''c'']) [RPut 3 ''c'' (''C'', ''t''), RGet 4 ''c'']" by code_simp+
  have "fst (resource_get 9 ''a'' (fold rc_step ex_ops ?c0)) = Some (''A'', ''t'')"
    by (rule resource_cache_sound [where pre = "[RPut 0 ''b'' (''B'', ''t''), RPut 1 ''a'' (''old'', ''t'')]" and t = 2 and
          post = "[RPut 3 ''c'' (''C'', ''t''), RGet 4 ''c'']" and ks = "[''c'']", OF n, THEN conjunct2, THEN conjunct2, THEN mp])
      (use v(3) in \<open>simp add: ex_ops_def\<close>)
  then show ?thesis using n v(1,2) by blast
qed

text \<open>The cache key tells resources apart: different versions, kinds or entities never share one,
  when the parts that fill one segment of the URI hold no slash.\<close>

fun segments_ok :: "resource_ref \<Rightarrow> bool" where
  "segments_ok (ResField m f) \<longleftrightarrow> CHR ''/'' \<notin> set m"
| "segments_ok (ResMethod m f) \<longleftrightarrow> CHR ''/'' \<notin> set m"
| "segments_ok (ResStylesheet m p) \<longleftrightarrow> CHR ''/'' \<notin> set m"
| "segments_ok _ \<longleftrightarrow> True"

lemma slash_split: "CHR ''/'' \<notin> set a \<Longrightarrow> CHR ''/'' \<notin> set b \<Longrightarrow> a @ CHR ''/'' # x = b @ CHR ''/'' # y \<longleftrightarrow> a = b \<and> x = y"
  by (metis option.inject prod.inject split1_append)

lemma resource_uri_inject:
  assumes "CHR ''/'' \<notin> set v" "CHR ''/'' \<notin> set v'" "segments_ok r" "segments_ok r'"
  shows "resource_uri v r = resource_uri v' r' \<longleftrightarrow> v = v' \<and> r = r'"
  using assms by (cases r; cases r') (simp_all add: slash_split)

end
