(* ===== verification/AdminRoutes.thy ===== *)
theory AdminRoutes
  imports Accounts ApiGateway Jobs RepoStore
begin

text \<open>
  The console's handlers over accounts, API keys, SSH keys, jobs and feedback
  (\<open>src/web_ui/routes/admin_users.py\<close>, \<open>api_keys.py\<close>, \<open>ssh_keys.py\<close>, \<open>jobs.py\<close>, \<open>feedback.py\<close>,
  \<open>dashboard.py\<close>, \<open>admin_migrations.py\<close>) and the audit decorator around them
  (\<open>src/db/audit.py\<close>). An HTTPException is the response with its status; an exception that
  no handler catches is the 500 of the framework. \<open>es\<close> is \<open>str\<close> of an exception, an instant in a
  response body is a number.
\<close>

section \<open>Audit\<close>

definition resolve_actor :: "string option \<Rightarrow> string option \<Rightarrow> string option \<Rightarrow> cookie option \<Rightarrow> string" where
  "resolve_actor cli api_key_prefix oauth_provider session =
     (case cli of
        Some login \<Rightarrow> ''cli:'' @ login
      | None \<Rightarrow>
         (case non_empty api_key_prefix of
            Some p \<Rightarrow> ''api_key:'' @ p
          | None \<Rightarrow>
             (case non_empty oauth_provider of
                Some p \<Rightarrow> ''oauth:'' @ p
              | None \<Rightarrow>
                 (case session of
                    None \<Rightarrow> ''anonymous''
                  | Some ck \<Rightarrow>
                      (if ck_user_id ck \<noteq> None \<and> ck_user_id ck \<noteq> Some 0 then ''user:'' @ show_int (the (ck_user_id ck))
                       else case non_empty (ck_username ck) of Some u \<Rightarrow> ''user:'' @ u | None \<Rightarrow> ''anonymous'')))))"

definition session_actor :: "cookie \<Rightarrow> string" where
  "session_actor ck = resolve_actor None None None (Some ck)"

type_synonym handler = "db \<Rightarrow> response \<times> db"

text \<open>\<open>audit_action\<close>: one row after the handler returned or raised, the detail column is left out.\<close>

definition audit_action :: "string \<Rightarrow> int option \<Rightarrow> cookie \<Rightarrow> handler \<Rightarrow> handler" where
  "audit_action action target ck h db =
     (case h db of (r, db) \<Rightarrow> (r, write_audit_log (session_actor ck) action (map_option show_int target) (status r < 400) db))"

definition audit_cli :: "string \<Rightarrow> string \<Rightarrow> string option \<Rightarrow> (db \<Rightarrow> ('e + 'a \<times> bool) \<times> db) \<Rightarrow> db \<Rightarrow> ('e + 'a) \<times> db" where
  "audit_cli login action target block db =
     (case block db of
        (Inl e, db) \<Rightarrow> (Inl e, write_audit_log (resolve_actor (Some login) None None None) action target False db)
      | (Inr (x, success), db) \<Rightarrow> (Inr x, write_audit_log (resolve_actor (Some login) None None None) action target success db))"

section \<open>The admin guard\<close>

definition refusal :: "nat \<Rightarrow> response" where
  "refusal n = Resp n [(''detail'', PStr (if n = 401 then ''Authentication required''
     else if n = 403 then ''Admin privilege required'' else ''Failed to verify admin status''))]"

text \<open>\<open>Depends(require_admin)\<close>: the framework resolves it before it calls the (decorated) handler.\<close>

definition with_admin :: "env \<Rightarrow> cookie \<Rightarrow> (int \<Rightarrow> handler) \<Rightarrow> handler" where
  "with_admin e ck h db = (case require_admin e ck db of Inl n \<Rightarrow> (refusal n, db) | Inr actor_id \<Rightarrow> h actor_id db)"

definition detail :: "nat \<Rightarrow> string \<Rightarrow> response" where
  "detail n m = Resp n [(''detail'', PStr m)]"

section \<open>Users\<close>

definition str_pv :: "string option \<Rightarrow> pyval" where
  "str_pv x = (case x of None \<Rightarrow> PNone | Some s \<Rightarrow> PStr s)"

definition int_pv :: "int option \<Rightarrow> pyval" where
  "int_pv x = (case x of None \<Rightarrow> PNone | Some i \<Rightarrow> PInt i)"

definition user_fields :: "user_info \<Rightarrow> (pyval \<times> pyval) list" where
  "user_fields u = [(PStr ''id'', PInt (ui_id u)), (PStr ''username'', PStr (ui_username u)), (PStr ''email'', str_pv (ui_email u)),
     (PStr ''is_admin'', PBool (ui_is_admin u)), (PStr ''is_active'', PBool (ui_is_active u)),
     (PStr ''mfa_enabled'', PBool (ui_mfa_enabled u)), (PStr ''created_at'', int_pv (ui_created_at u))]"

definition list_users_route :: "(exc \<Rightarrow> string) \<Rightarrow> env \<Rightarrow> cookie \<Rightarrow> handler" where
  "list_users_route es e ck = with_admin e ck (\<lambda>actor_id db.
     case list_webui_users db of
       (Inl x, db) \<Rightarrow> (err 500 (es x), db)
     | (Inr us, db) \<Rightarrow>
         (case count_api_keys_per_user db of
            (Inl x, db) \<Rightarrow> (err 500 (es x), db)
          | (Inr counts, db) \<Rightarrow>
              (Resp 200 [(''users'', PList (map (\<lambda>u. PDict (user_fields u @
                 [(PStr ''api_key_count'', PInt (case dget counts (Some (ui_id u)) of None \<Rightarrow> 0 | Some n \<Rightarrow> int n))])) us))], db)))"

definition ok_response :: response where
  "ok_response = Resp 200 [(''ok'', PBool True)]"

text \<open>The common start of the user routes: an exception of the query is not caught.\<close>

definition with_target :: "int \<Rightarrow> (user_info \<Rightarrow> handler) \<Rightarrow> handler" where
  "with_target user_id h db =
     (case get_user_by_id user_id db of
        (Inl x, db) \<Rightarrow> (server_error, db)
      | (Inr None, db) \<Rightarrow> (detail 404 ''User not found'', db)
      | (Inr (Some user), db) \<Rightarrow> h user db)"

definition deactivate_user :: "(exc \<Rightarrow> string) \<Rightarrow> env \<Rightarrow> cookie \<Rightarrow> int \<Rightarrow> handler" where
  "deactivate_user es e ck user_id = with_admin e ck (\<lambda>actor_id db.
     if user_id = actor_id then (detail 403 ''Cannot deactivate your own account'', db)
     else with_target user_id (\<lambda>user db.
       case set_user_active user_id False db of
         (Inl LastAdminProtectedError, db) \<Rightarrow> (err 422 ''last_admin_protected'', db)
       | (Inl x, db) \<Rightarrow> (err 500 (es x), db)
       | (Inr _, db) \<Rightarrow>
           (case revoke_all_sessions user_id db of
              (Inl x, db) \<Rightarrow> (err 500 (es x), db)
            | (Inr _, db) \<Rightarrow>
                (ok_response, write_audit_log (''user:'' @ show_int actor_id) ''user.deactivate'' (Some (show_int user_id)) True db))) db)"

definition reactivate_user :: "(exc \<Rightarrow> string) \<Rightarrow> env \<Rightarrow> cookie \<Rightarrow> int \<Rightarrow> handler" where
  "reactivate_user es e ck user_id = with_admin e ck (\<lambda>actor_id. with_target user_id (\<lambda>user db.
     case set_user_active user_id True db of
       (Inl x, db) \<Rightarrow> (err 500 (es x), db)
     | (Inr _, db) \<Rightarrow>
         (ok_response, write_audit_log (''user:'' @ show_int actor_id) ''user.reactivate'' (Some (show_int user_id)) True db)))"

text \<open>The mail server: its host (empty when not configured), its port as configured, whether
  the delivery works.\<close>

record mail_env =
  smtp_host :: string
  smtp_port :: string
  smtp_works :: bool

definition send_reset_email :: "mail_env \<Rightarrow> string \<Rightarrow> string \<Rightarrow> (string + bool) \<times> (string \<times> string) option" where
  "send_reset_email m to_email reset_link =
     (if smtp_host m = [] then (Inr False, None)
      else case py_int (smtp_port m) of
        None \<Rightarrow> (Inl (''invalid literal for int() with base 10: '' @ repr_str (smtp_port m)), None)
      | Some _ \<Rightarrow> if smtp_works m then (Inr True, Some (to_email, reset_link)) else (Inr False, None))"

definition reset_password_link :: "(exc \<Rightarrow> string) \<Rightarrow> (string \<Rightarrow> string) \<Rightarrow> mail_env \<Rightarrow> string \<Rightarrow> time \<Rightarrow> string \<Rightarrow> env \<Rightarrow> cookie \<Rightarrow> int
    \<Rightarrow> db \<Rightarrow> (response \<times> (string \<times> string) option) \<times> db" where
  "reset_password_link es sha256 m host now raw_token e ck user_id db =
     (case require_admin e ck db of
        Inl n \<Rightarrow> ((refusal n, None), db)
      | Inr actor_id \<Rightarrow>
         (case get_user_by_id user_id db of
            (Inl x, db) \<Rightarrow> ((server_error, None), db)
          | (Inr None, db) \<Rightarrow> ((detail 404 ''User not found'', None), db)
          | (Inr (Some user), db) \<Rightarrow>
             (case create_password_reset_token sha256 now raw_token user_id (3600 * sec) db of
                (Inl x, db) \<Rightarrow> ((err 500 (es x), None), db)
              | (Inr token, db) \<Rightarrow>
                 (let to_email = (case non_empty (ui_email user) of None \<Rightarrow> ui_username user | Some a \<Rightarrow> a) in
                  case send_reset_email m to_email (host @ ''/reset-password?token='' @ token) of
                    (Inl x, mail) \<Rightarrow> ((err 500 x, mail), db)
                  | (Inr email_sent, mail) \<Rightarrow>
                      ((Resp 200 [(''ok'', PBool True), (''email_sent'', PBool email_sent)], mail),
                       write_audit_log (''user:'' @ show_int actor_id) ''user.reset_password'' (Some (show_int user_id)) True db)))))"

definition set_user_admin_route :: "env \<Rightarrow> cookie \<Rightarrow> int \<Rightarrow> bool \<Rightarrow> handler" where
  "set_user_admin_route e ck user_id is_admin = with_admin e ck (\<lambda>_. audit_action ''user.set_admin'' (Some user_id) ck (\<lambda>db.
     case set_user_admin user_id is_admin db of
       (Inl LastAdminProtectedError, db) \<Rightarrow> (err 422 ''last_admin_protected'', db)
     | (Inl UserNotFoundError, db) \<Rightarrow> (err 404 ''user_not_found'', db)
     | (Inl _, db) \<Rightarrow> (server_error, db)
     | (Inr _, db) \<Rightarrow>
         (case get_user_by_id user_id db of
            (Inl _, db) \<Rightarrow> (server_error, db)
          | (Inr user, db) \<Rightarrow>
              (Resp 200 [(''ok'', PBool True), (''user'', case user of None \<Rightarrow> PNone | Some u \<Rightarrow> PDict (user_fields u))], db))))"

definition assign_key_owner_route :: "env \<Rightarrow> cookie \<Rightarrow> int \<Rightarrow> int option \<Rightarrow> handler" where
  "assign_key_owner_route e ck key_id user_id = with_admin e ck (\<lambda>_. audit_action ''api_key.assign_owner'' (Some key_id) ck (\<lambda>db.
     case list_api_keys None True db of
       (Inl _, db) \<Rightarrow> (server_error, db)
     | (Inr existing, db) \<Rightarrow>
         (case assign_key_owner key_id user_id db of
            (Inl UserNotFoundError, db) \<Rightarrow> (err 404 ''user_not_found'', db)
          | (Inl _, db) \<Rightarrow> (server_error, db)
          | (Inr _, db) \<Rightarrow> (ok_response, db))))"

section \<open>API keys\<close>

definition key_fields :: "key_info \<Rightarrow> pyval" where
  "key_fields k = PDict [(PStr ''id'', PInt (ki_id k)), (PStr ''name'', PStr (ki_name k)), (PStr ''key_prefix'', PStr (ki_key_prefix k)),
     (PStr ''active'', PBool (ki_active k)), (PStr ''created_at'', PInt (ki_created_at k)), (PStr ''last_used_at'', int_pv (ki_last_used_at k)),
     (PStr ''user_id'', int_pv (ki_user_id k)), (PStr ''expires_at'', int_pv (ki_expires_at k)),
     (PStr ''owner_username'', str_pv (ki_owner_username k))]"

definition list_api_keys_route :: "(exc \<Rightarrow> string) \<Rightarrow> env \<Rightarrow> cookie \<Rightarrow> handler" where
  "list_api_keys_route es e ck db =
     (case list_api_keys (current_user_id e ck db) (is_admin_session e ck db) db of
        (Inl x, db) \<Rightarrow> (Resp 200 [(''keys'', PList []), (''error'', PStr (es x))], db)
      | (Inr keys, db) \<Rightarrow> (Resp 200 [(''keys'', PList (map key_fields keys)), (''error'', PNone)], db))"

text \<open>\<open>read_iso\<close> is \<open>datetime.fromisoformat\<close>: its message, or the instant. The empty string counts
  as no expiry. The texts of exceptions are not empty.\<close>

definition create_api_key_route :: "(exc \<Rightarrow> string) \<Rightarrow> (string \<Rightarrow> string) \<Rightarrow> (string \<Rightarrow> string + time) \<Rightarrow> time \<Rightarrow> string
    \<Rightarrow> env \<Rightarrow> cookie \<Rightarrow> string \<Rightarrow> string option \<Rightarrow> handler" where
  "create_api_key_route es hash_key read_iso now token e ck name expires_at = audit_action ''api_key.create'' None ck (\<lambda>db.
     let uid = current_user_id e ck db in
     case (case non_empty expires_at of None \<Rightarrow> Inr None | Some t \<Rightarrow> map_sum id Some (read_iso t)) of
       Inl m \<Rightarrow> (err 400 (''Invalid expires_at format: '' @ m), db)
     | Inr expires \<Rightarrow>
         (case create_api_key hash_key now token name uid expires db of
            (Inl x, db) \<Rightarrow> (err 500 (es x), db)
          | (Inr (raw_key, _, _), db) \<Rightarrow>
              (case list_api_keys uid (is_admin_session e ck db) db of
                 (Inl x, db) \<Rightarrow> (err 500 (es x), db)
               | (Inr keys, db) \<Rightarrow>
                   (Resp 200 [(''ok'', PBool True), (''raw_key'', PStr raw_key), (''keys'', PList (map key_fields keys))], db))))"

text \<open>The invalidation concerns the key cache of the console's own process.\<close>

definition deactivate_api_key_route :: "(exc \<Rightarrow> string) \<Rightarrow> env \<Rightarrow> cookie \<Rightarrow> int \<Rightarrow> gateway \<times> db \<Rightarrow> response \<times> gateway \<times> db" where
  "deactivate_api_key_route es e ck key_id gd =
     (let (g, db) = gd; uid = current_user_id e ck db;
          done = (\<lambda>db. (ok_response, key_cache_invalidate_by_id key_id g, db));
          (r, g, db) =
            (if is_admin_session e ck db then
               (case deactivate_api_key key_id db of
                  (Inl x, db) \<Rightarrow> (err 500 (es x), g, db)
                | (Inr _, db) \<Rightarrow> done db)
             else (case uid of
                     None \<Rightarrow> (err 401 ''not_authenticated'', g, db)
                   | Some u \<Rightarrow>
                       (case deactivate_api_key_for_user key_id u db of
                          (Inl x, db) \<Rightarrow> (err 500 (es x), g, db)
                        | (Inr rows, db) \<Rightarrow> if rows = 0 then (err 403 ''not_owner'', g, db) else done db)))
      in (r, g, write_audit_log (session_actor ck) ''api_key.deactivate'' (Some (show_int key_id)) (status r < 400) db))"

section \<open>SSH keys\<close>

text \<open>The environment of the key pairs: FERNET\_KEY, what Fernet makes of a key (its encryption
  and decryption, or a message), the loaders of private keys and a fresh pair. A private key has
  its public text and its text in PEM.\<close>

datatype ssh_exc = RuntimeError string | ValueError string

datatype ssh_private = Ed25519 string string | OtherKey

record ssh_env =
  fernet_key :: "string option"
  fernet :: "string \<Rightarrow> string + (string \<Rightarrow> string) \<times> (string \<Rightarrow> string + string)"
  load_ssh_private_key :: "string \<Rightarrow> string + ssh_private"
  load_pem_private_key :: "string \<Rightarrow> string + ssh_private"
  fresh_pair :: "string \<times> string"

definition fernet_set :: "ssh_env \<Rightarrow> bool" where
  "fernet_set se \<longleftrightarrow> non_empty (fernet_key se) \<noteq> None"

definition get_fernet :: "ssh_env \<Rightarrow> ssh_exc + (string \<Rightarrow> string) \<times> (string \<Rightarrow> string + string)" where
  "get_fernet se =
     (case non_empty (fernet_key se) of
        None \<Rightarrow> Inl (RuntimeError ''FERNET_KEY is not set. SSH key storage requires FERNET_KEY. Generate one: python -c \"from cryptography.fernet import Fernet; print(Fernet.generate_key().decode())\"'')
      | Some k \<Rightarrow> (case fernet se k of Inl m \<Rightarrow> Inl (ValueError m) | Inr f \<Rightarrow> Inr f))"

definition generate_ed25519_keypair :: "ssh_env \<Rightarrow> ssh_exc + string \<times> string" where
  "generate_ed25519_keypair se =
     (case fresh_pair se of (pub, priv_pem) \<Rightarrow> map_sum id (\<lambda>f. (pub, fst f priv_pem)) (get_fernet se))"

definition decrypt_private_key :: "ssh_env \<Rightarrow> string \<Rightarrow> ssh_exc + string" where
  "decrypt_private_key se encrypted =
     (case get_fernet se of Inl e \<Rightarrow> Inl e | Inr f \<Rightarrow> (case snd f encrypted of Inl m \<Rightarrow> Inl (ValueError m) | Inr p \<Rightarrow> Inr p))"

definition parse_ed25519_private_pem :: "ssh_env \<Rightarrow> string \<Rightarrow> ssh_exc + string \<times> string" where
  "parse_ed25519_private_pem se pem =
     (case (case load_ssh_private_key se pem of Inr k \<Rightarrow> Inr k | Inl _ \<Rightarrow> load_pem_private_key se pem) of
        Inl last_err \<Rightarrow> Inl (ValueError (''Could not parse private key PEM: '' @ last_err))
      | Inr OtherKey \<Rightarrow> Inl (ValueError ''Only Ed25519 keys are supported'')
      | Inr (Ed25519 pub priv_pem) \<Rightarrow> map_sum id (\<lambda>f. (pub, fst f priv_pem)) (get_fernet se))"

definition ssh_fields :: "int \<times> string \<times> string \<times> int \<times> time \<Rightarrow> pyval" where
  "ssh_fields k = (case k of (i, n, p, v, t) \<Rightarrow> PDict [(PStr ''id'', PInt i), (PStr ''name'', PStr n), (PStr ''public_key'', PStr p),
     (PStr ''key_version'', PInt v), (PStr ''created_at'', PInt t)])"

definition no_fernet :: response where
  "no_fernet = err 500 ''FERNET_KEY is not set. Cannot store SSH keys securely.''"

definition ssh_error :: "nat \<Rightarrow> string \<Rightarrow> bool \<Rightarrow> response" where
  "ssh_error n m missing = Resp n [(''error'', PStr m), (''fernet_missing'', PBool missing)]"

definition list_ssh_keys_route :: "(exc \<Rightarrow> string) \<Rightarrow> ssh_env \<Rightarrow> handler" where
  "list_ssh_keys_route es se db =
     (case list_ssh_keys db of
        (Inl x, db) \<Rightarrow> (Resp 200 [(''keys'', PList []), (''fernet_missing'', PBool (\<not> fernet_set se)), (''error'', PStr (es x))], db)
      | (Inr keys, db) \<Rightarrow>
          (Resp 200 [(''keys'', PList (map ssh_fields keys)), (''fernet_missing'', PBool (\<not> fernet_set se)), (''error'', PNone)], db))"

definition create_ssh_key :: "(exc \<Rightarrow> string) \<Rightarrow> ssh_env \<Rightarrow> time \<Rightarrow> cookie \<Rightarrow> string \<Rightarrow> handler" where
  "create_ssh_key es se now ck name = audit_action ''ssh_key.create'' None ck (\<lambda>db.
     if \<not> fernet_set se then (no_fernet, db)
     else (case generate_ed25519_keypair se of
             Inl (RuntimeError m) \<Rightarrow> (ssh_error 500 m True, db)
           | Inl (ValueError m) \<Rightarrow> (ssh_error 500 m False, db)
           | Inr (pub, encrypted) \<Rightarrow>
               (case save_ssh_key now name pub encrypted 1 db of
                  (Inl x, db) \<Rightarrow> (ssh_error 500 (es x) False, db)
                | (Inr _, db) \<Rightarrow>
                    (case list_ssh_keys db of
                       (Inl x, db) \<Rightarrow> (ssh_error 500 (es x) False, db)
                     | (Inr keys, db) \<Rightarrow>
                         (Resp 200 [(''ok'', PBool True), (''public_key'', PStr pub), (''keys'', PList (map ssh_fields keys))], db)))))"

definition import_ssh_key :: "(exc \<Rightarrow> string) \<Rightarrow> ssh_env \<Rightarrow> time \<Rightarrow> cookie \<Rightarrow> string \<Rightarrow> string \<Rightarrow> handler" where
  "import_ssh_key es se now ck name private_key_pem = audit_action ''ssh_key.import'' None ck (\<lambda>db.
     if \<not> fernet_set se then (no_fernet, db)
     else if strip name = [] \<or> strip private_key_pem = [] then (err 422 ''Both name and private key PEM are required.'', db)
     else
       let (error, missing, pub, db) =
         (case parse_ed25519_private_pem se private_key_pem of
            Inl (RuntimeError m) \<Rightarrow> (Some m, True, None, db)
          | Inl (ValueError m) \<Rightarrow> (Some m, False, None, db)
          | Inr (pub, encrypted) \<Rightarrow>
              (case save_ssh_key now name pub encrypted 1 db of
                 (Inl x, db) \<Rightarrow> (Some (es x), False, None, db)
               | (Inr _, db) \<Rightarrow> (None, False, Some pub, db)));
           (keys, error, db) =
         (case list_ssh_keys db of
            (Inl x, db) \<Rightarrow> ([], (case error of None \<Rightarrow> Some (es x) | Some m \<Rightarrow> Some m), db)
          | (Inr keys, db) \<Rightarrow> (keys, error, db))
       in (case error of
             Some m \<Rightarrow> (ssh_error 422 m missing, db)
           | None \<Rightarrow> (Resp 200 [(''ok'', PBool True), (''public_key'', str_pv pub), (''keys'', PList (map ssh_fields keys))], db)))"

definition delete_ssh_key_route :: "(exc \<Rightarrow> string) \<Rightarrow> cookie \<Rightarrow> int \<Rightarrow> handler" where
  "delete_ssh_key_route es ck key_id = audit_action ''ssh_key.delete'' (Some key_id) ck (\<lambda>db.
     case delete_ssh_key key_id db of
       (Inl x, db) \<Rightarrow> (err 500 (es x), db)
     | (Inr _, db) \<Rightarrow> (ok_response, db))"

definition ssh_keys_list :: "(exc \<Rightarrow> string) \<Rightarrow> db \<Rightarrow> (response + (int \<times> string) list) \<times> db" where
  "ssh_keys_list es db =
     (case list_ssh_keys db of
        (Inl x, db) \<Rightarrow> (Inl (err 503 (es x)), db)
      | (Inr keys, db) \<Rightarrow> (Inr (map (\<lambda>(i, n, _). (i, n)) keys), db))"

section \<open>Feedback\<close>

definition submit_feedback :: "time \<Rightarrow> cookie \<Rightarrow> int option \<Rightarrow> string \<Rightarrow> string \<Rightarrow> string option \<Rightarrow> handler" where
  "submit_feedback now ck api_key_id pattern_id rating comment = audit_action ''feedback.submit'' None ck (\<lambda>db.
     if rating \<notin> {''up'', ''down''} then
       (detail 422 (''rating must be '' @ repr_str ''up'' @ '' or '' @ repr_str ''down''), db)
     else (case create_feedback now pattern_id api_key_id rating comment db of
             (Inl _, db) \<Rightarrow> (detail 500 ''Failed to store feedback'', db)
           | (Inr i, db) \<Rightarrow> (Resp 200 [(''ok'', PBool True), (''id'', PInt i)], db)))"

definition get_feedback :: "string \<Rightarrow> handler" where
  "get_feedback pattern_id db =
     (case list_feedback pattern_id db of
        (Inl _, db) \<Rightarrow> (detail 500 ''Failed to retrieve feedback'', db)
      | (Inr rows, db) \<Rightarrow>
          (Resp 200 [(''pattern_id'', PStr pattern_id),
             (''feedback'', PList (map (\<lambda>(i, k, r, c, t). PDict [(PStr ''id'', PInt i), (PStr ''api_key_id'', int_pv k),
                (PStr ''rating'', PStr r), (PStr ''comment'', str_pv c), (PStr ''created_at'', PInt t)]) rows))], db))"

section \<open>Jobs\<close>

definition is_pid_alive :: "(int \<Rightarrow> kill_result) \<Rightarrow> int \<Rightarrow> bool" where
  "is_pid_alive kill pid = (case kill pid of ProcessExists \<Rightarrow> True | ProcessLookupError \<Rightarrow> False | PermissionDenied \<Rightarrow> True)"

definition job_status :: "(job_exc \<Rightarrow> string) \<Rightarrow> (int \<Rightarrow> kill_result) \<Rightarrow> int \<Rightarrow> job_db \<Rightarrow> response \<times> job_db" where
  "job_status es kill job_id jd =
     (case get_job job_id jd of
        (Inl x, jd) \<Rightarrow> (err 503 (es x), jd)
      | (Inr None, jd) \<Rightarrow> (err 404 ''job not found'', jd)
      | (Inr (Some job), jd) \<Rightarrow>
          (Resp 200 [(''id'', PInt (j_id job)), (''profile_name'', PStr (j_profile_name job)), (''status'', PStr (j_status job)),
             (''pid'', int_pv (j_pid job)), (''started_at'', int_pv (j_started_at job)), (''finished_at'', int_pv (j_finished_at job)),
             (''error_msg'', str_pv (j_error_msg job)), (''created_at'', PInt (j_created_at job)),
             (''is_alive'', case j_pid job of None \<Rightarrow> PNone
                | Some pid \<Rightarrow> if j_status job = ''running'' then PBool (is_pid_alive kill pid) else PNone)], jd))"

definition reset_stuck_job :: "(job_exc \<Rightarrow> string) \<Rightarrow> (int \<Rightarrow> kill_result) \<Rightarrow> time \<Rightarrow> int \<Rightarrow> job_db \<Rightarrow> response \<times> job_db" where
  "reset_stuck_job es kill now job_id jd =
     (case get_job job_id jd of
        (Inl x, jd) \<Rightarrow> (err 500 (''Reset failed: '' @ es x), jd)
      | (Inr None, jd) \<Rightarrow> (err 404 (''Job '' @ show_int job_id @ '' not found.''), jd)
      | (Inr (Some job), jd) \<Rightarrow>
          (if j_status job \<noteq> ''running'' then
             (err 409 (''Job '' @ show_int job_id @ '' is not in '' @ repr_str ''running'' @ '' state (current: '' @ j_status job @ '').''), jd)
           else if (case j_pid job of None \<Rightarrow> False | Some pid \<Rightarrow> is_pid_alive kill pid) then
             (err 409 (''Job '' @ show_int job_id @ '' process (PID '' @ show_int (the (j_pid job)) @ '') is still alive '' @ dash8 @ '' cannot reset.''), jd)
           else (case update_job job_id (Some ''error'') None None (Some now) (Some ''Reset by admin (process not found)'') jd of
                   (Inl x, jd) \<Rightarrow> (err 500 (''Reset failed: '' @ es x), jd)
                 | (Inr _, jd) \<Rightarrow>
                     (Resp 200 [(''ok'', PBool True), (''message'', PStr (''Job '' @ show_int job_id @ '' has been reset to error state.''))], jd))))"

section \<open>Dashboard and migrations\<close>

text \<open>The numbers of the dashboard: profiles with their repositories, keys, embeddings (None
  when the table cannot be counted). What was gathered before an exception is kept.\<close>

record stats =
  st_profiles :: "(profile \<times> (repo \<times> profile) list) list"
  st_api_keys :: nat
  st_ssh_keys :: nat
  st_embeddings :: "nat option"
  st_error :: bool

fun gather_profiles_repos :: "profile list \<Rightarrow> repo_db \<Rightarrow> (profile \<times> (repo \<times> profile) list) list \<times> bool" where
  "gather_profiles_repos [] rd = ([], False)"
| "gather_profiles_repos (p # ps) rd =
     (case fst (get_repos_for_profile (p_name p) rd) of
        Inl _ \<Rightarrow> ([], True)
      | Inr rs \<Rightarrow> (case gather_profiles_repos ps rd of (rest, error) \<Rightarrow> ((p, rs) # rest, error)))"

definition dashboard_stats :: "nat option \<Rightarrow> repo_db \<Rightarrow> db \<Rightarrow> stats" where
  "dashboard_stats embeddings rd db =
     (let none = \<lparr>st_profiles = [], st_api_keys = 0, st_ssh_keys = 0, st_embeddings = None, st_error = True\<rparr> in
      case fst (list_profiles rd) of
        Inl _ \<Rightarrow> none
      | Inr ps \<Rightarrow>
          (case gather_profiles_repos ps rd of
             (rows, True) \<Rightarrow> none\<lparr>st_profiles := rows\<rparr>
           | (rows, False) \<Rightarrow>
               (case fst (list_api_keys None False db) of
                  Inl _ \<Rightarrow> none\<lparr>st_profiles := rows\<rparr>
                | Inr keys \<Rightarrow>
                    (case fst (list_ssh_keys db) of
                       Inl _ \<Rightarrow> none\<lparr>st_profiles := rows, st_api_keys := length keys\<rparr>
                     | Inr ssh \<Rightarrow> \<lparr>st_profiles = rows, st_api_keys = length keys, st_ssh_keys = length ssh,
                         st_embeddings = embeddings, st_error = False\<rparr>))))"

text \<open>The table of applied migrations: an exception, no such table, or its rows, newest first.\<close>

definition list_migrations :: "env \<Rightarrow> cookie \<Rightarrow> string + (string \<times> time) list option \<Rightarrow> handler" where
  "list_migrations e ck table = with_admin e ck (\<lambda>_ db.
     (case table of
        Inl m \<Rightarrow> err 500 m
      | Inr None \<Rightarrow> Resp 200 [(''ok'', PBool True), (''migrations'', PList []), (''count'', PInt 0)]
      | Inr (Some rows) \<Rightarrow>
          Resp 200 [(''ok'', PBool True),
            (''migrations'', PList (map (\<lambda>(i, t). PDict [(PStr ''id'', PStr i), (PStr ''applied_at'', PInt t)]) rows)),
            (''count'', PInt (int (length rows)))], db))"

end
