(* ===== verification/RepoRoutes.thy ===== *)
theory RepoRoutes
  imports AdminRoutes IndexState
begin

text \<open>
  The console's handlers over profiles and repositories (\<open>src/web_ui/routes/repos.py\<close>), the
  helper that starts an indexer process for a job (\<open>helpers/subprocess_runner.py\<close>) and the
  target directory of a clone (\<open>src/git_utils.py\<close>).

  The state of the site is that of the stores with the advisory locks, the jobs, the accounts
  (for the audit log) and the command lines of the processes started so far. What the file
  system, git, Neo4j and \<open>Popen\<close> answer is the environment. None as the result of a handler is
  a request whose query over the profiles does not return.
\<close>

section \<open>URLs and clone directories\<close>

definition is_ssh_url :: "string \<Rightarrow> bool" where
  "is_ssh_url url \<longleftrightarrow> startswith (strip url) ''git@'' \<or> startswith (strip url) ''ssh://''"

definition endswith :: "string \<Rightarrow> string \<Rightarrow> bool" where
  "endswith s p \<longleftrightarrow> startswith (rev s) (rev p)"

text \<open>\<open>urlparse\<close>: scheme, network location and path; an unpaired bracket in the location is its
  ValueError (None); what stands between a pair of brackets is not checked here.\<close>

definition scheme_char :: "char \<Rightarrow> bool" where
  "scheme_char c \<longleftrightarrow> (let n = (of_char c :: nat) in is_digit c \<or> 65 \<le> n \<and> n \<le> 90 \<or> 97 \<le> n \<and> n \<le> 122 \<or> c \<in> {CHR ''+'', CHR ''-'', CHR ''.''})"

definition split_scheme :: "string \<Rightarrow> string \<times> string" where
  "split_scheme u =
     (case split1 (CHR '':'') u of
        None \<Rightarrow> ([], u)
      | Some (a, b) \<Rightarrow>
          (if a \<noteq> [] \<and> \<not> is_digit (hd a) \<and> hd a \<notin> {CHR ''+'', CHR ''-'', CHR ''.''} \<and> list_all scheme_char a
           then (lower a, b) else ([], u)))"

definition before :: "char \<Rightarrow> string \<Rightarrow> string" where
  "before c s = takeWhile (\<lambda>x. x \<noteq> c) s"

definition USES_PARAMS :: "string list" where
  "USES_PARAMS = ['''', ''ftp'', ''hdl'', ''prospero'', ''http'', ''https'', ''shttp'', ''rtsp'', ''rtsps'', ''rtspu'', ''sip'', ''sips'',
     ''mms'', ''sftp'', ''tel'']"

definition drop_params :: "string \<Rightarrow> string" where
  "drop_params p = (case rsplit1 (CHR ''/'') p of None \<Rightarrow> before (CHR '';'') p | Some (a, b) \<Rightarrow> a @ ''/'' @ before (CHR '';'') b)"

definition urlparse :: "string \<Rightarrow> (string \<times> string \<times> string) option" where
  "urlparse url =
     (let u = filter (\<lambda>c. c \<notin> {CHR 0x09, CHR 0x0A, CHR 0x0D}) (dropWhile (\<lambda>c. (of_char c :: nat) \<le> 32) url);
          (scheme, rest) = split_scheme u;
          (netloc, rest) = (if startswith rest ''//''
             then (takeWhile (\<lambda>c. c \<notin> {CHR ''/'', CHR ''?'', CHR ''#''}) (drop 2 rest), dropWhile (\<lambda>c. c \<notin> {CHR ''/'', CHR ''?'', CHR ''#''}) (drop 2 rest))
             else ([], rest));
          path = before (CHR ''?'') (before (CHR ''#'') rest)
      in if (CHR ''['' \<in> set netloc) \<noteq> (CHR '']'' \<in> set netloc) then None
         else Some (scheme, netloc, if scheme \<in> set USES_PARAMS then drop_params path else path))"

text \<open>The slug of a repository, and the directory it is cloned to under \<open>base\<close>. The name of the
  profile and the slug are joined as path components, so an absolute name replaces the base.\<close>

definition strip_slashes :: "string \<Rightarrow> string" where
  "strip_slashes s = rev (dropWhile (\<lambda>c. c = CHR ''/'') (rev s))"

definition repo_slug :: "string \<Rightarrow> string option" where
  "repo_slug url =
     (let cleaned = strip url in
      map_option (\<lambda>(scheme, netloc, p).
        let path = (if scheme \<noteq> [] then p else before (CHR ''#'') (before (CHR ''?'') cleaned));
            name = last (split_on (CHR '':'') (last (split_on (CHR ''/'') (strip_slashes path))));
            slug = (if endswith name ''.git'' then take (length name - 4) name else name)
        in if slug = [] then ''repo'' else slug) (urlparse cleaned))"

definition default_clone_dir :: "string \<Rightarrow> string \<Rightarrow> string \<Rightarrow> string option" where
  "default_clone_dir base profile_name url =
     map_option (\<lambda>slug. path_join (path_join base profile_name) slug) (repo_slug url)"

section \<open>The site\<close>

record 'v site =
  ws_ix :: "'v index_state"
  ws_jobs :: job_db
  ws_auth :: db
  ws_procs :: "string list list"

text \<open>The pairs for which a call of Neo4j fails, and the versions for which the deletion of the
  embeddings does.\<close>

record 'v site_env =
  we_index :: "'v index_env"
  we_base :: string
  we_now :: time
  we_neo4j :: bool
  we_collect_fails :: "string \<times> string \<Rightarrow> bool"
  we_delete_fails :: "string \<times> string \<Rightarrow> bool"
  we_embed_fails :: "string \<Rightarrow> bool"
  we_popen :: "string list \<Rightarrow> string option"
  we_is_dir :: "string \<Rightarrow> bool"
  we_estr :: "repo_exc \<Rightarrow> string"
  we_jstr :: "job_exc \<Rightarrow> string"

definition site_db :: "'a rio \<Rightarrow> 'v site \<Rightarrow> (repo_exc + 'a) \<times> 'v site" where
  "site_db f s = (case f (ix_db (ws_ix s)) of (r, d) \<Rightarrow> (r, s\<lparr>ws_ix := (ws_ix s)\<lparr>ix_db := d\<rparr>\<rparr>))"

definition site_running :: "'v site_env \<Rightarrow> string \<Rightarrow> 'v site \<Rightarrow> bool" where
  "site_running w name s = fst (indexer_is_running (we_index w) name (ws_ix s))"

text \<open>A handler under the audit decorator.\<close>

definition site_audit :: "string \<Rightarrow> int option \<Rightarrow> cookie \<Rightarrow> ('v site \<Rightarrow> response \<times> 'v site) \<Rightarrow> 'v site \<Rightarrow> response \<times> 'v site" where
  "site_audit action target ck h s =
     (case h s of (r, s) \<Rightarrow>
        (r, s\<lparr>ws_auth := write_audit_log (session_actor ck) action (map_option show_int target) (status r < 400) (ws_auth s)\<rparr>))"

definition site_audit_opt :: "string \<Rightarrow> int option \<Rightarrow> cookie \<Rightarrow> ('v site \<Rightarrow> (response \<times> 'v site) option) \<Rightarrow> 'v site \<Rightarrow> (response \<times> 'v site) option" where
  "site_audit_opt action target ck h s =
     map_option (\<lambda>(r, s). (r, s\<lparr>ws_auth := write_audit_log (session_actor ck) action (map_option show_int target) (status r < 400) (ws_auth s)\<rparr>)) (h s)"

section \<open>Starting an indexer\<close>

text \<open>\<open>spawn_indexer_subcommand\<close>: the row of the job first, then the process (an exception of
  \<open>open\<close> or \<open>Popen\<close> is its message).\<close>

definition indexer_argv :: "string list \<Rightarrow> int \<Rightarrow> string list" where
  "indexer_argv args job_id = [''python'', ''-m'', ''src.indexer''] @ args @ [''--job-id'', show_int job_id]"

definition spawn_indexer_subcommand :: "'v site_env \<Rightarrow> string list \<Rightarrow> string \<Rightarrow> 'v site \<Rightarrow> (string + int) \<times> 'v site" where
  "spawn_indexer_subcommand w args job_label s =
     (case create_job (we_now w) job_label (ws_jobs s) of
        (Inl e, jd) \<Rightarrow> (Inl (we_jstr w e), s\<lparr>ws_jobs := jd\<rparr>)
      | (Inr job_id, jd) \<Rightarrow>
          (let s = s\<lparr>ws_jobs := jd\<rparr>; argv = indexer_argv args job_id in
           case we_popen w argv of
             Some m \<Rightarrow> (Inl m, s)
           | None \<Rightarrow> (Inr job_id, s\<lparr>ws_procs := ws_procs s @ [argv]\<rparr>)))"

section \<open>Profiles\<close>

definition is_value_error :: "repo_exc \<Rightarrow> bool" where
  "is_value_error e \<longleftrightarrow> e \<notin> {DbFailure, ProfileNotFound, RepoNotFound}"

definition create_profile :: "'v site_env \<Rightarrow> cookie \<Rightarrow> string \<Rightarrow> string \<Rightarrow> string \<Rightarrow> int option \<Rightarrow> 'v site \<Rightarrow> response \<times> 'v site" where
  "create_profile w ck name version description parent_id = site_audit ''profile.create'' None ck (\<lambda>s.
     case site_db (add_profile name version description parent_id) s of
       (Inl e, s) \<Rightarrow> (err (if is_value_error e then 400 else 500) (we_estr w e), s)
     | (Inr _, s) \<Rightarrow> (ok_response, s))"

definition set_profile_parent_route :: "'v site_env \<Rightarrow> cookie \<Rightarrow> int \<Rightarrow> int option \<Rightarrow> 'v site \<Rightarrow> (response \<times> 'v site) option" where
  "set_profile_parent_route w ck profile_id parent_id = site_audit_opt ''profile.set_parent'' (Some profile_id) ck (\<lambda>s.
     map_option (\<lambda>(r, d). ((case r of
         Inl ProfileNotFound \<Rightarrow> detail 404 ''Profile not found''
       | Inl ProfileCycle \<Rightarrow> detail 422 (we_estr w ProfileCycle)
       | Inl ProfileVersionMismatch \<Rightarrow> detail 422 (we_estr w ProfileVersionMismatch)
       | Inl e \<Rightarrow> err 500 (we_estr w e)
       | Inr changed \<Rightarrow> Resp 200 [(''ok'', PBool True), (''profile_id'', PInt profile_id), (''parent_id'', int_pv parent_id),
           (''changed'', PBool changed)]), s\<lparr>ws_ix := (ws_ix s)\<lparr>ix_db := d\<rparr>\<rparr>))
       (set_profile_parent profile_id parent_id (ix_db (ws_ix s))))"

definition update_profile_route :: "'v site_env \<Rightarrow> cookie \<Rightarrow> int \<Rightarrow> string option \<Rightarrow> string option \<Rightarrow> string option \<Rightarrow> 'v site \<Rightarrow> (response \<times> 'v site) option" where
  "update_profile_route w ck profile_id name version description = site_audit_opt ''profile.update'' (Some profile_id) ck (\<lambda>s.
     case site_db (get_profile_by_id profile_id) s of
       (Inl e, s) \<Rightarrow> Some (err 500 (we_estr w e), s)
     | (Inr existing, s) \<Rightarrow>
         map_option (\<lambda>(r, d). ((case r of
             Inl ProfileNotFound \<Rightarrow> detail 404 ''Profile not found''
           | Inl ProfileNameConflict \<Rightarrow> detail 409 (we_estr w ProfileNameConflict)
           | Inl (ProfileIndexed n fs) \<Rightarrow> detail 409 (we_estr w (ProfileIndexed n fs))
           | Inl ProfileVersionMismatch \<Rightarrow> detail 422 (we_estr w ProfileVersionMismatch)
           | Inl e \<Rightarrow> err 500 (we_estr w e)
           | Inr fs \<Rightarrow> Resp 200 [(''ok'', PBool True), (''profile_id'', PInt profile_id),
               (''updated_fields'', PList (map PStr fs))]), s\<lparr>ws_ix := (ws_ix s)\<lparr>ix_db := d\<rparr>\<rparr>))
           (update_profile profile_id name version description (ix_db (ws_ix s))))"

text \<open>The clean-up after a deletion, per pair of directory name and version. A call that fails is
  logged and skipped. The versions form a set; they are cleaned in the order of the pairs.\<close>

definition site_graph :: "'v site \<Rightarrow> pgraph" where
  "site_graph s = ix_graph (ws_ix s)"

definition module_names_of :: "string \<Rightarrow> string \<Rightarrow> pgraph \<Rightarrow> string list" where
  "module_names_of basename version g =
     List.map_filter (\<lambda>n. str_prop (g_props n) ''name'')
       (filter (is_node ''Module'' [(''repo'', GStr basename), (''odoo_version'', GStr version)]) (gnodes g))"

definition collect_module_names :: "'v site_env \<Rightarrow> (string \<times> string) list \<Rightarrow> pgraph \<Rightarrow> (string \<times> string list) list" where
  "collect_module_names w pairs g =
     (if \<not> we_neo4j w then []
      else fold (\<lambda>(basename, version) by_version.
        if we_collect_fails w (basename, version) then by_version
        else dset version ((case dget by_version version of None \<Rightarrow> [] | Some ns \<Rightarrow> ns) @ module_names_of basename version g) by_version) pairs [])"

definition delete_neo4j_for_repos :: "'v site_env \<Rightarrow> (string \<times> string) list \<Rightarrow> 'v site \<Rightarrow> (nat \<times> nat) \<times> 'v site" where
  "delete_neo4j_for_repos w pairs s =
     (if \<not> we_neo4j w then ((0, 0), s)
      else fold (\<lambda>(basename, version) ((modules, children), s).
        if we_delete_fails w (basename, version) then ((modules, children), s)
        else (case delete_modules_scoped basename version (site_graph s) of
          ((m, c), g) \<Rightarrow> ((modules + m, children + c), s\<lparr>ws_ix := (ws_ix s)\<lparr>ix_graph := g\<rparr>\<rparr>))) pairs ((0, 0), s))"

definition of_modules :: "string \<Rightarrow> string list \<Rightarrow> 'v embedding_row \<Rightarrow> bool" where
  "of_modules version names r \<longleftrightarrow> ec_odoo_version (er_chunk r) = version \<and> ec_module (er_chunk r) \<in> set names"

definition delete_embeddings_for_repos :: "'v site_env \<Rightarrow> (string \<times> string) list \<Rightarrow> (string \<times> string list) list \<Rightarrow> 'v site \<Rightarrow> nat \<times> 'v site" where
  "delete_embeddings_for_repos w pairs names_by_version s =
     fold (\<lambda>version (total, s).
       let names = (case dget names_by_version version of None \<Rightarrow> [] | Some ns \<Rightarrow> ns); table = ix_table (ws_ix s)
       in if names = [] \<or> we_embed_fails w version then (total, s)
          else (total + tcount (of_modules version names) table,
                s\<lparr>ws_ix := (ws_ix s)\<lparr>ix_table := tdelete (of_modules version names) table\<rparr>\<rparr>))
     (remdups (map snd pairs)) (0, s)"

definition clean_up :: "'v site_env \<Rightarrow> (string \<times> string) list \<Rightarrow> 'v site \<Rightarrow> (nat \<times> nat \<times> nat) \<times> 'v site" where
  "clean_up w pairs s =
     (let names = collect_module_names w pairs (site_graph s);
          ((modules, children), s) = delete_neo4j_for_repos w pairs s;
          (embeddings, s) = delete_embeddings_for_repos w pairs names s
      in ((modules, children, embeddings), s))"

definition cannot_delete :: "string \<Rightarrow> response" where
  "cannot_delete name = err 409 (''Cannot delete: indexer running for profile '' @ name)"

definition delete_failed :: "'v site_env \<Rightarrow> repo_exc \<Rightarrow> response" where
  "delete_failed w e = err 500 (''Delete failed: '' @ we_estr w e)"

definition totals :: "nat \<times> nat \<times> nat \<Rightarrow> (string \<times> pyval) list" where
  "totals t = (case t of (m, c, e) \<Rightarrow> [(''neo4j_modules'', PInt (int m)), (''neo4j_children'', PInt (int c)), (''embeddings'', PInt (int e))])"

definition delete_profile_route :: "'v site_env \<Rightarrow> cookie \<Rightarrow> int \<Rightarrow> 'v site \<Rightarrow> response \<times> 'v site" where
  "delete_profile_route w ck profile_id = site_audit ''profile.delete'' (Some profile_id) ck (\<lambda>s.
     case site_db list_profiles s of
       (Inl e, s) \<Rightarrow> (delete_failed w e, s)
     | (Inr ps, s) \<Rightarrow>
         (case find (\<lambda>p. p_id p = profile_id) ps of
            None \<Rightarrow> (err 404 ''Profile not found.'', s)
          | Some profile \<Rightarrow>
              (if site_running w (p_name profile) s then (cannot_delete (p_name profile), s)
               else (case site_db (get_repos_for_profile (p_name profile)) s of
                  (Inl e, s) \<Rightarrow> (delete_failed w e, s)
                | (Inr rows, s) \<Rightarrow>
                    (case site_db (delete_profile profile_id) s of
                       (Inl e, s) \<Rightarrow> (delete_failed w e, s)
                     | (Inr infos, s) \<Rightarrow>
                         (case clean_up w (map (\<lambda>(r, p). (path_name (r_local_path r), p_version p)) rows) s of
                            (t, s) \<Rightarrow> (Resp 200 ([(''ok'', PBool True), (''profile_name'', PStr (p_name profile)),
                               (''repo_count'', PInt (int (length infos)))] @ totals t), s)))))))"

section \<open>Repositories\<close>

text \<open>The name under which a repository without a profile is looked up is the text of None.\<close>

definition profile_label :: "profile option \<Rightarrow> string" where
  "profile_label p = (case p of None \<Rightarrow> ''None'' | Some p \<Rightarrow> p_name p)"

definition cloner_argv :: "int \<Rightarrow> string list" where
  "cloner_argv repo_id = [''python'', ''-m'', ''src.cloner'', ''--repo-id'', show_int repo_id]"

definition find_profile :: "string \<Rightarrow> 'v site \<Rightarrow> (repo_exc + profile option) \<times> 'v site" where
  "find_profile name s = (case site_db list_profiles s of (r, s) \<Rightarrow> (map_sum id (find (\<lambda>p. p_name p = name)) r, s))"

definition add_ssh_repo :: "'v site_env \<Rightarrow> string \<Rightarrow> string \<Rightarrow> string \<Rightarrow> int \<Rightarrow> 'v site \<Rightarrow> int option \<times> 'v site" where
  "add_ssh_repo w profile url branch key s =
     (case find_profile profile s of
        (Inl e, s) \<Rightarrow> (None, s)
      | (Inr None, s) \<Rightarrow> (None, s)
      | (Inr (Some p), s) \<Rightarrow>
          (case default_clone_dir (we_base w) profile url of
             None \<Rightarrow> (None, s)
           | Some target_dir \<Rightarrow>
               (case site_db (add_repo (p_id p) url branch target_dir (Some key) ''manual'') s of
                  (Inl e, s) \<Rightarrow> (None, s)
                | (Inr repo_id, s) \<Rightarrow> (Some repo_id, s))))"

definition add_repo_route :: "'v site_env \<Rightarrow> cookie \<Rightarrow> string \<Rightarrow> string \<Rightarrow> string \<Rightarrow> string \<Rightarrow> string \<Rightarrow> 'v site \<Rightarrow> response \<times> 'v site" where
  "add_repo_route w ck profile url branch local_path ssh_key_id = site_audit ''repo.create'' None ck (\<lambda>s.
     if is_ssh_url url then
       (if strip ssh_key_id = [] \<or> \<not> list_all is_digit (strip ssh_key_id) then
          (err 400 ''SSH URL requires an SSH key. Select one from the dropdown.'', s)
        else (case add_ssh_repo w profile url branch (the (py_int (strip ssh_key_id))) s of
                (None, s) \<Rightarrow> (Resp 500 [(''ok'', PBool False), (''error'', PStr ''Failed to add SSH repo'')], s)
              | (Some repo_id, s) \<Rightarrow>
                  (case we_popen w (cloner_argv repo_id) of
                     Some m \<Rightarrow> (server_error, s)
                   | None \<Rightarrow> (Resp 200 [(''ok'', PBool True), (''repo_id'', PInt repo_id), (''clone_status'', PStr ''pending'')],
                       s\<lparr>ws_procs := ws_procs s @ [cloner_argv repo_id]\<rparr>))))
     else (case find_profile profile s of
             (Inl e, s) \<Rightarrow> (err 500 (we_estr w e), s)
           | (Inr None, s) \<Rightarrow> (ok_response, s)
           | (Inr (Some p), s) \<Rightarrow>
               (case site_db (add_repo (p_id p) url branch local_path None ''manual'') s of
                  (Inl e, s) \<Rightarrow> (err 500 (we_estr w e), s)
                | (Inr _, s) \<Rightarrow> (ok_response, s))))"

record repo_update =
  up_url :: "string option"
  up_branch :: "string option"
  up_ssh_key_id :: "int option"
  up_clear_ssh_key :: bool
  up_local_path :: "string option"

definition effective_key :: "repo_update \<Rightarrow> repo \<Rightarrow> int option" where
  "effective_key u existing = (if up_clear_ssh_key u then None
     else case up_ssh_key_id u of None \<Rightarrow> r_ssh_key_id existing | Some k \<Rightarrow> Some k)"

definition update_repo_route :: "'v site_env \<Rightarrow> cookie \<Rightarrow> int \<Rightarrow> repo_update \<Rightarrow> 'v site \<Rightarrow> response \<times> 'v site" where
  "update_repo_route w ck repo_id u = site_audit ''repo.update'' (Some repo_id) ck (\<lambda>s.
     case site_db (get_repo_by_id repo_id) s of
       (Inl e, s) \<Rightarrow> (err 500 (we_estr w e), s)
     | (Inr None, s) \<Rightarrow> (err 404 ''Repo not found.'', s)
     | (Inr (Some (existing, _)), s) \<Rightarrow>
         (if is_ssh_url (case up_url u of None \<Rightarrow> r_url existing | Some x \<Rightarrow> x) \<and> effective_key u existing \<in> {None, Some 0} then
            (err 400 ''SSH URL requires an SSH key. Provide ssh_key_id or select one.'', s)
          else (case site_db (update_repo repo_id (up_url u) (up_branch u) (up_ssh_key_id u) (up_clear_ssh_key u) (up_local_path u)) s of
                  (Inl RepoNotFound, s) \<Rightarrow> (err 404 ''Repo not found.'', s)
                | (Inl RepoConflict, s) \<Rightarrow> (err 409 (we_estr w RepoConflict), s)
                | (Inl e, s) \<Rightarrow> (err 500 (we_estr w e), s)
                | (Inr fs, s) \<Rightarrow> (Resp 200 [(''ok'', PBool True), (''repo_id'', PInt repo_id), (''updated_fields'', PList (map PStr fs))], s))))"

definition delete_repo_route :: "'v site_env \<Rightarrow> cookie \<Rightarrow> int \<Rightarrow> 'v site \<Rightarrow> response \<times> 'v site" where
  "delete_repo_route w ck repo_id = site_audit ''repo.delete'' (Some repo_id) ck (\<lambda>s.
     case site_db (get_repo_by_id repo_id) s of
       (Inl e, s) \<Rightarrow> (delete_failed w e, s)
     | (Inr None, s) \<Rightarrow> (err 404 ''Repo not found.'', s)
     | (Inr (Some (repo, p)), s) \<Rightarrow>
         (if site_running w (profile_label p) s then (cannot_delete (profile_label p), s)
          else (case site_db (delete_repo repo_id) s of
                  (Inl e, s) \<Rightarrow> (delete_failed w e, s)
                | (Inr _, s) \<Rightarrow>
                    (let basename = path_name (r_local_path repo) in
                     case clean_up w [(basename, p_version (the p))] s of
                       (t, s) \<Rightarrow> (Resp 200 ([(''ok'', PBool True), (''basename'', PStr basename)] @ totals t), s)))))"

section \<open>Cloning\<close>

text \<open>The loop of \<open>clone_all_pending\<close>; a URL that \<open>urlparse\<close> refuses ends it with an exception.\<close>

definition file_path_of :: "string \<times> string \<times> string \<Rightarrow> string" where
  "file_path_of u = (case u of (_, netloc, path) \<Rightarrow> if netloc = [] then path else netloc @ path)"

definition mark_local :: "int \<Rightarrow> string \<Rightarrow> 'v site \<Rightarrow> bool \<times> 'v site" where
  "mark_local repo_id local_path s =
     (case site_db (update_repo_local_path repo_id local_path) s of
        (Inl e, s) \<Rightarrow> (False, s)
      | (Inr _, s) \<Rightarrow> (case site_db (set_clone_status repo_id ''cloned'' None) s of (r, s) \<Rightarrow> (\<not> isl r, s)))"

fun clone_pending :: "'v site_env \<Rightarrow> repo list \<Rightarrow> nat \<times> nat \<Rightarrow> 'v site \<Rightarrow> (nat \<times> nat) option \<times> 'v site" where
  "clone_pending w [] n s = (Some n, s)"
| "clone_pending w (r # rs) (spawned, short) s =
     (case urlparse (r_url r) of
        None \<Rightarrow> (None, s)
      | Some u \<Rightarrow>
          (if fst u = ''file'' \<and> we_is_dir w (file_path_of u) then
             (case mark_local (r_id r) (file_path_of u) s of
                (ok, s) \<Rightarrow> clone_pending w rs (spawned, if ok then short + 1 else short) s)
           else (case we_popen w (cloner_argv (r_id r)) of
                   Some m \<Rightarrow> clone_pending w rs (spawned, short) s
                 | None \<Rightarrow> clone_pending w rs (spawned + 1, short) (s\<lparr>ws_procs := ws_procs s @ [cloner_argv (r_id r)]\<rparr>))))"

definition pending_statuses :: "string list" where
  "pending_statuses = [''manual'', ''pending'', ''error'']"

definition cloned_counts :: "int \<Rightarrow> nat \<Rightarrow> nat \<Rightarrow> (string \<times> pyval) list" where
  "cloned_counts profile_id spawned short = [(''ok'', PBool True), (''profile_id'', PInt profile_id), (''spawned'', PInt (int spawned)),
     (''short_circuited'', PInt (int short)), (''total'', PInt (int (spawned + short)))]"

text \<open>\<open>bracket\<close> is the message of the ValueError that \<open>urlparse\<close> raises.\<close>

definition clone_all_pending :: "'v site_env \<Rightarrow> string \<Rightarrow> cookie \<Rightarrow> int \<Rightarrow> 'v site \<Rightarrow> response \<times> 'v site" where
  "clone_all_pending w bracket ck profile_id = site_audit ''profile.clone_all'' (Some profile_id) ck (\<lambda>s.
     case site_db (get_profile_by_id profile_id) s of
       (Inl e, s) \<Rightarrow> (err 500 (we_estr w e), s)
     | (Inr None, s) \<Rightarrow> (detail 404 ''Profile not found'', s)
     | (Inr (Some _), s) \<Rightarrow>
         (case site_db (get_repos_for_profile_by_id profile_id) s of
            (Inl e, s) \<Rightarrow> (err 500 (we_estr w e), s)
          | (Inr rows, s) \<Rightarrow>
              (let todo = filter (\<lambda>r. r_clone_status r \<in> set pending_statuses) (map fst rows) in
               if todo = [] then (Resp 200 (cloned_counts profile_id 0 0 @ [(''message'', PStr ''No pending repos to clone.'')]), s)
               else (case clone_pending w todo (0, 0) s of
                       (None, s) \<Rightarrow> (err 500 bracket, s)
                     | (Some (spawned, short), s) \<Rightarrow> (Resp 200 (cloned_counts profile_id spawned short), s)))))"

definition clone_status :: "'v site_env \<Rightarrow> int \<Rightarrow> 'v site \<Rightarrow> response \<times> 'v site" where
  "clone_status w repo_id s =
     (case site_db (get_repo_by_id repo_id) s of
        (Inl e, s) \<Rightarrow> (err 503 (we_estr w e), s)
      | (Inr None, s) \<Rightarrow> (err 404 ''repo not found'', s)
      | (Inr (Some (r, _)), s) \<Rightarrow>
          (Resp 200 [(''id'', PInt (r_id r)), (''clone_status'', PStr (r_clone_status r)), (''error_msg'', str_pv (r_clone_error_msg r))], s))"

section \<open>Starting runs\<close>

text \<open>A number of workers from a form field, in [1, \<open>n\<close>]; \<open>text\<close> starts the message for one that is no number.\<close>

definition workers_of :: "string \<Rightarrow> string \<Rightarrow> int \<Rightarrow> string \<Rightarrow> response + int" where
  "workers_of field text n s =
     (case py_int s of
        None \<Rightarrow> Inl (err 422 (text @ '' '' @ CHR 0x27 # s @ [CHR 0x27] @ '': must be an integer between 1 and '' @ show_int n @ ''.''))
      | Some i \<Rightarrow> (if 1 \<le> i \<and> i \<le> n then Inr i
          else Inl (err 422 (field @ '' must be between 1 and '' @ show_int n @ '' (got '' @ show_int i @ '').''))))"

definition flag :: "string \<Rightarrow> string \<Rightarrow> string list" where
  "flag field name = (if field = [] then [] else [name])"

definition count_flag :: "string \<Rightarrow> int \<Rightarrow> string list" where
  "count_flag name n = (if n = 1 then [] else [name, show_int n])"

definition index_repo_route :: "'v site_env \<Rightarrow> cookie \<Rightarrow> int \<Rightarrow> string \<Rightarrow> string \<Rightarrow> string \<Rightarrow> string \<Rightarrow> 'v site \<Rightarrow> response \<times> 'v site" where
  "index_repo_route w ck repo_id no_embed full gc max_workers = site_audit ''operations.index_repo'' (Some repo_id) ck (\<lambda>s.
     case workers_of ''max_workers'' ''Invalid max_workers value'' 8 max_workers of
       Inl r \<Rightarrow> (r, s)
     | Inr n \<Rightarrow>
         (case site_db list_repos s of
            (Inl e, s) \<Rightarrow> (err 500 (we_estr w e), s)
          | (Inr rows, s) \<Rightarrow>
              (case find (\<lambda>(r, p). r_id r = repo_id) rows of
                 None \<Rightarrow> (err 404 ''Repo not found.'', s)
               | Some (r, p) \<Rightarrow>
                   (case non_empty (map_option p_name p) of
                      None \<Rightarrow> (err 400 ''Repo is not attached to a profile.'', s)
                    | Some name \<Rightarrow>
                        (if site_running w name s then
                           (err 409 (''Indexer already running for profile '' @ name @ ''. Wait for it to finish.''), s)
                         else (case spawn_indexer_subcommand w ([''index-repo'', ''--profile'', name] @ flag no_embed ''--no-embed''
                                     @ flag full ''--full'' @ flag gc ''--gc'' @ count_flag ''--max-workers'' n) name s of
                                 (Inl m, s) \<Rightarrow> (err 500 m, s)
                               | (Inr job_id, s) \<Rightarrow> (Resp 200 [(''ok'', PBool True), (''job_id'', PInt job_id)], s)))))))"

text \<open>A job needs a profile name (NOT NULL), so a repository without one fails after its reset.\<close>

definition reset_embed :: "'v site_env \<Rightarrow> cookie \<Rightarrow> int \<Rightarrow> 'v site \<Rightarrow> response \<times> 'v site" where
  "reset_embed w ck repo_id = site_audit ''operations.reset_embed'' (Some repo_id) ck (\<lambda>s.
     let failed = (\<lambda>m. err 500 (''Reset embed failed: '' @ m)) in
     case site_db (get_repo_by_id repo_id) s of
       (Inl e, s) \<Rightarrow> (failed (we_estr w e), s)
     | (Inr None, s) \<Rightarrow> (err 404 ''Repo not found.'', s)
     | (Inr (Some (r, p)), s) \<Rightarrow>
         (if site_running w (profile_label p) s then
            (err 409 (''Cannot reset embed state: indexer already running for profile '' @ profile_label p @ ''. Wait for it to finish.''), s)
          else (case site_db (reset_repo_head_sha repo_id) s of
                  (Inl e, s) \<Rightarrow> (failed (we_estr w e), s)
                | (Inr _, s) \<Rightarrow>
                    (case p of
                       None \<Rightarrow> (failed (we_jstr w JobDbFailure), s)
                     | Some p \<Rightarrow>
                         (case spawn_indexer_subcommand w [''index-repo'', ''--profile'', p_name p] (p_name p) s of
                            (Inl m, s) \<Rightarrow> (failed m, s)
                          | (Inr job_id, s) \<Rightarrow> (Resp 200 [(''ok'', PBool True), (''profile_name'', PStr (p_name p)), (''job_id'', PInt job_id)], s))))))"

definition index_all_route :: "'v site_env \<Rightarrow> string \<Rightarrow> string \<Rightarrow> string \<Rightarrow> string \<Rightarrow> 'v site \<Rightarrow> response \<times> 'v site" where
  "index_all_route w no_embed full max_workers profile_workers s =
     (case workers_of ''max_workers'' ''Invalid max_workers'' 8 max_workers of
        Inl r \<Rightarrow> (r, s)
      | Inr n \<Rightarrow>
          (case workers_of ''profile_workers'' ''Invalid profile_workers'' 4 profile_workers of
             Inl r \<Rightarrow> (r, s)
           | Inr k \<Rightarrow>
               (case site_db list_profiles s of
                  (Inl e, s) \<Rightarrow> (err 500 (''index-all failed: '' @ we_estr w e), s)
                | (Inr ps, s) \<Rightarrow>
                    (case filter (\<lambda>name. site_running w name s) (map p_name ps) of
                       [] \<Rightarrow>
                         (case spawn_indexer_subcommand w ([''index-repo'', ''--all''] @ flag no_embed ''--no-embed'' @ flag full ''--full''
                                 @ count_flag ''--max-workers'' n @ count_flag ''--profile-workers'' k) ''all'' s of
                            (Inl m, s) \<Rightarrow> (err 500 (''index-all failed: '' @ m), s)
                          | (Inr job_id, s) \<Rightarrow> (Resp 200 [(''ok'', PBool True), (''job_id'', PInt job_id)], s))
                     | blocked \<Rightarrow> (err 409 (''Cannot start index-all: indexer running for: '' @ join '', '' blocked), s)))))"

section \<open>The list of profiles\<close>

text \<open>Profiles with their repositories, each with the last job of the profile; the last job over all
  profiles; an error text. What was gathered before an exception is kept, but for the profile at hand.\<close>

type_synonym profile_rows = "(profile \<times> ((repo \<times> profile) \<times> job option) list) list"

fun attach_jobs :: "string \<Rightarrow> (repo \<times> profile) list \<Rightarrow> job_db \<Rightarrow> job_exc + ((repo \<times> profile) \<times> job option) list" where
  "attach_jobs name [] jd = Inr []"
| "attach_jobs name (r # rs) jd =
     (case fst (get_last_job name jd) of
        Inl e \<Rightarrow> Inl e
      | Inr j \<Rightarrow> map_sum id ((#) (r, j)) (attach_jobs name rs jd))"

fun gather_profiles :: "'v site_env \<Rightarrow> profile list \<Rightarrow> 'v site \<Rightarrow> profile_rows \<times> string option" where
  "gather_profiles w [] s = ([], None)"
| "gather_profiles w (p # ps) s =
     (case fst (site_db (get_repos_for_profile (p_name p)) s) of
        Inl e \<Rightarrow> ([], Some (we_estr w e))
      | Inr rs \<Rightarrow>
          (case attach_jobs (p_name p) rs (ws_jobs s) of
             Inl e \<Rightarrow> ([], Some (we_jstr w e))
           | Inr rows \<Rightarrow> (case gather_profiles w ps s of (rest, e) \<Rightarrow> ((p, rows) # rest, e))))"

definition list_profiles_route :: "'v site_env \<Rightarrow> 'v site \<Rightarrow> profile_rows \<times> string option \<times> (int \<times> string) option" where
  "list_profiles_route w s =
     (case fst (site_db list_profiles s) of
        Inl e \<Rightarrow> ([], Some (we_estr w e), None)
      | Inr ps \<Rightarrow>
          (case gather_profiles w ps s of
             (rows, Some e) \<Rightarrow> (rows, Some e, None)
           | (rows, None) \<Rightarrow>
               (case fst (get_last_job ''all'' (ws_jobs s)) of
                  Inl e \<Rightarrow> (rows, Some (we_jstr w e), None)
                | Inr j \<Rightarrow> (rows, None, map_option (\<lambda>j. (j_id j, j_status j)) j))))"

section \<open>The router behind the guard\<close>

datatype repo_op = CreateProfile string string string "int option" | SetParent int "int option"
  | UpdateProfile int "string option" "string option" "string option" | DeleteProfile int
  | AddRepo string string string string string | UpdateRepo int repo_update | DeleteRepo int
  | CloneAll string int | CloneStatus int | IndexRepo int string string string string | ResetEmbed int
  | IndexAll string string string string

fun site_step :: "'v site_env \<Rightarrow> cookie \<Rightarrow> repo_op \<Rightarrow> 'v site \<Rightarrow> (response \<times> 'v site) option" where
  "site_step w ck (CreateProfile n v d p) s = Some (create_profile w ck n v d p s)"
| "site_step w ck (SetParent i p) s = set_profile_parent_route w ck i p s"
| "site_step w ck (UpdateProfile i n v d) s = update_profile_route w ck i n v d s"
| "site_step w ck (DeleteProfile i) s = Some (delete_profile_route w ck i s)"
| "site_step w ck (AddRepo p u b l k) s = Some (add_repo_route w ck p u b l k s)"
| "site_step w ck (UpdateRepo i u) s = Some (update_repo_route w ck i u s)"
| "site_step w ck (DeleteRepo i) s = Some (delete_repo_route w ck i s)"
| "site_step w ck (CloneAll m i) s = Some (clone_all_pending w m ck i s)"
| "site_step w ck (CloneStatus i) s = Some (clone_status w i s)"
| "site_step w ck (IndexRepo i a b c d) s = Some (index_repo_route w ck i a b c d s)"
| "site_step w ck (ResetEmbed i) s = Some (reset_embed w ck i s)"
| "site_step w ck (IndexAll a b c d) s = Some (index_all_route w a b c d s)"

fun op_path :: "repo_op \<Rightarrow> string" where
  "op_path (CreateProfile n v d p) = ''/api/repos/profiles''"
| "op_path (SetParent i p) = ''/api/repos/profiles/'' @ show_int i @ ''/parent''"
| "op_path (UpdateProfile i n v d) = ''/api/repos/profiles/'' @ show_int i"
| "op_path (DeleteProfile i) = ''/api/repos/profiles/'' @ show_int i"
| "op_path (AddRepo p u b l k) = ''/api/repos/repos''"
| "op_path (UpdateRepo i u) = ''/api/repos/repos/'' @ show_int i"
| "op_path (DeleteRepo i) = ''/api/repos/repos/'' @ show_int i"
| "op_path (CloneAll m i) = ''/api/repos/profiles/'' @ show_int i @ ''/clone-all''"
| "op_path (CloneStatus i) = ''/api/repos/repos/'' @ show_int i @ ''/clone-status''"
| "op_path (IndexRepo i a b c d) = ''/api/repos/repos/'' @ show_int i @ ''/index''"
| "op_path (ResetEmbed i) = ''/api/repos/repos/'' @ show_int i @ ''/reset-embed''"
| "op_path (IndexAll a b c d) = ''/api/repos/index-all''"

text \<open>A request that the guard hands on reaches its handler, with the session it came with.\<close>

definition serve :: "guard_query set \<Rightarrow> env \<Rightarrow> time \<Rightarrow> request \<Rightarrow> 'v site_env \<Rightarrow> repo_op \<Rightarrow> 'v site \<Rightarrow> (response \<times> 'v site) option" where
  "serve fails e now rq w op s =
     (case guard fails e now rq (ws_auth s) of
        (Some r, db) \<Rightarrow> Some (r, s\<lparr>ws_auth := db\<rparr>)
      | (None, db) \<Rightarrow> site_step w (rq_cookie rq) op (s\<lparr>ws_auth := db\<rparr>))"

end
