(* ===== verification/Cloner.thy ===== *)
theory Cloner
  imports RepoRoutes
begin

text \<open>
  The clone of a repository (\<open>clone_repo\<close> of \<open>src/git_utils.py\<close>) and the clone job the console
  starts (\<open>src/cloner/__main__.py\<close>). The temporary key files that exist and the git processes that
  ran, each with its GIT\_SSH\_COMMAND, are a state of their own.
\<close>

section \<open>A clone\<close>

text \<open>What the system answers: an exception is its message.\<close>

record git_env =
  ge_nonempty :: "string \<Rightarrow> bool"
  ge_mkdir :: "string \<Rightarrow> string option"
  ge_mkstemp :: "string + string"
  ge_write :: "string option"
  ge_known_hosts :: "string + string"
  ge_git :: "string list \<Rightarrow> string option \<Rightarrow> string option"

record clone_state =
  cl_keys :: "(string \<times> string) list"
  cl_runs :: "(string list \<times> string option) list"

definition clone_argv :: "string \<Rightarrow> string \<Rightarrow> string \<Rightarrow> string list" where
  "clone_argv url branch target = [''git'', ''clone'', ''--branch'', branch, ''--single-branch'', url, target]"

definition run_git :: "git_env \<Rightarrow> string list \<Rightarrow> string option \<Rightarrow> clone_state \<Rightarrow> (string + unit) \<times> clone_state" where
  "run_git ge argv ssh cs =
     (case ge_git ge argv ssh of
        Some m \<Rightarrow> (Inl m, cs\<lparr>cl_runs := cl_runs cs @ [(argv, ssh)]\<rparr>)
      | None \<Rightarrow> (Inr (), cs\<lparr>cl_runs := cl_runs cs @ [(argv, ssh)]\<rparr>))"

definition ssh_command :: "string \<Rightarrow> string \<Rightarrow> string" where
  "ssh_command tmp_path kh = ''ssh -i '' @ tmp_path @ '' -o StrictHostKeyChecking=accept-new -o UserKnownHostsFile='' @ kh"

text \<open>The key with a newline at its end.\<close>

definition key_text :: "string \<Rightarrow> string" where
  "key_text pem = (if pem \<noteq> [] \<and> last pem = CHR 0x0A then pem else pem @ [CHR 0x0A])"

text \<open>The body of the \<open>try\<close> once the temporary file exists.\<close>

definition with_key :: "git_env \<Rightarrow> string list \<Rightarrow> string \<Rightarrow> string \<Rightarrow> clone_state \<Rightarrow> (string + unit) \<times> clone_state" where
  "with_key ge argv tmp_path pem cs =
     (case ge_write ge of
        Some m \<Rightarrow> (Inl m, cs)
      | None \<Rightarrow>
          (let cs = cs\<lparr>cl_keys := dset tmp_path (key_text pem) (cl_keys cs)\<rparr> in
           case ge_known_hosts ge of
             Inl m \<Rightarrow> (Inl m, cs)
           | Inr kh \<Rightarrow> run_git ge argv (Some (ssh_command tmp_path kh)) cs))"

definition unlink :: "string \<Rightarrow> clone_state \<Rightarrow> clone_state" where
  "unlink tmp_path cs = cs\<lparr>cl_keys := filter (\<lambda>(p, _). p \<noteq> tmp_path) (cl_keys cs)\<rparr>"

definition clone_repo :: "git_env \<Rightarrow> string \<Rightarrow> string \<Rightarrow> string \<Rightarrow> string option \<Rightarrow> clone_state \<Rightarrow> (string + unit) \<times> clone_state" where
  "clone_repo ge url branch target_dir private_key_pem cs =
     (if ge_nonempty ge target_dir then (Inl (''target dir non-empty: '' @ target_dir), cs)
      else case ge_mkdir ge target_dir of
        Some m \<Rightarrow> (Inl m, cs)
      | None \<Rightarrow>
          (case (if is_ssh_url url then private_key_pem else None) of
             None \<Rightarrow> run_git ge (clone_argv url branch target_dir) None cs
           | Some pem \<Rightarrow>
               (case ge_mkstemp ge of
                  Inl m \<Rightarrow> (Inl m, cs)
                | Inr tmp_path \<Rightarrow>
                    (case with_key ge (clone_argv url branch target_dir) tmp_path pem (cs\<lparr>cl_keys := dset tmp_path [] (cl_keys cs)\<rparr>) of
                       (r, cs) \<Rightarrow> (r, unlink tmp_path cs)))))"

section \<open>The clone job\<close>

text \<open>The private key of an SSH URL.\<close>

definition private_key_for :: "ssh_env \<Rightarrow> (exc \<Rightarrow> string) \<Rightarrow> string \<Rightarrow> int option \<Rightarrow> db \<Rightarrow> string + string option" where
  "private_key_for se es url ssh_key_id adb =
     (if \<not> is_ssh_url url then Inr None
      else case fst (get_ssh_key_by_id (the ssh_key_id) adb) of
        Inl e \<Rightarrow> Inl (es e)
      | Inr None \<Rightarrow> Inl (''ssh_key_id='' @ show_int (the ssh_key_id) @ '' not found'')
      | Inr (Some row) \<Rightarrow>
          (case decrypt_private_key se (sk_private_key_encrypted row) of
             Inl (RuntimeError m) \<Rightarrow> Inl m
           | Inl (ValueError m) \<Rightarrow> Inl m
           | Inr pem \<Rightarrow> Inr (Some pem)))"

definition clone_job :: "git_env \<Rightarrow> ssh_env \<Rightarrow> (exc \<Rightarrow> string) \<Rightarrow> repo \<Rightarrow> string \<Rightarrow> db \<Rightarrow> clone_state \<Rightarrow> (string + unit) \<times> clone_state" where
  "clone_job ge se es r target_dir adb cs =
     (case private_key_for se es (r_url r) (r_ssh_key_id r) adb of
        Inl m \<Rightarrow> (Inl m, cs)
      | Inr pem \<Rightarrow> clone_repo ge (r_url r) (r_branch r) target_dir pem cs)"

text \<open>The exit code, or the exception that ends the process with a traceback (Inl).\<close>

datatype crash = CrashDb repo_exc | CrashUrl | CrashNoProfile

definition cloner_db :: "unit rio \<Rightarrow> ('v site \<Rightarrow> (crash + int) \<times> 'v site) \<Rightarrow> 'v site \<Rightarrow> (crash + int) \<times> 'v site" where
  "cloner_db f k s = (case site_db f s of (Inl e, s) \<Rightarrow> (Inl (CrashDb e), s) | (Inr _, s) \<Rightarrow> k s)"

definition cloner_main :: "'v site_env \<Rightarrow> git_env \<Rightarrow> ssh_env \<Rightarrow> (exc \<Rightarrow> string) \<Rightarrow> int \<Rightarrow> clone_state \<Rightarrow> 'v site
    \<Rightarrow> ((crash + int) \<times> 'v site) \<times> clone_state" where
  "cloner_main w ge se es repo_id cs s =
     (case site_db (get_repo_by_id repo_id) s of
        (Inl e, s) \<Rightarrow> ((Inl (CrashDb e), s), cs)
      | (Inr None, s) \<Rightarrow> ((Inr 2, s), cs)
      | (Inr (Some (r, p)), s) \<Rightarrow>
          (if is_ssh_url (r_url r) \<and> r_ssh_key_id r = None then
             (cloner_db (set_clone_status repo_id ''error'' (Some ''SSH URL but no ssh_key_id'')) (Pair (Inr 2)) s, cs)
           else (case site_db (set_clone_status repo_id ''pending'' None) s of
              (Inl e, s) \<Rightarrow> ((Inl (CrashDb e), s), cs)
            | (Inr _, s) \<Rightarrow>
                (case p of
                   None \<Rightarrow> ((Inl (if repo_slug (r_url r) = None then CrashUrl else CrashNoProfile), s), cs)
                 | Some p \<Rightarrow>
                     (case default_clone_dir (we_base w) (p_name p) (r_url r) of
                        None \<Rightarrow> ((Inl CrashUrl, s), cs)
                      | Some target_dir \<Rightarrow>
                          (case clone_job ge se es r target_dir (ws_auth s) cs of
                             (Inl m, cs) \<Rightarrow>
                               (cloner_db (set_clone_status repo_id ''error'' (Some (clip 500 m))) (Pair (Inr 1)) s, cs)
                           | (Inr _, cs) \<Rightarrow>
                               (cloner_db (update_repo_local_path repo_id target_dir)
                                  (cloner_db (set_clone_status repo_id ''cloned'' None) (Pair (Inr 0))) s, cs)))))))"

end
