(* ===== verification/AdminProps.thy ===== *)
theory AdminProps
  imports AdminRoutes AuthDbProps
begin

text \<open>
  Who may do what at the console's account routes: what a session without admin rights can
  change, what deactivating a user does and does not, what leaves a row in the audit log, and
  when a stuck job can be reset.
\<close>

section \<open>The console as a store of operations\<close>

datatype console_op = ListUsers | Deactivate int | Reactivate int | ResetLink int | SetAdmin int bool
  | AssignOwner int "int option" | ListKeys | CreateKey string "string option" | DeactivateKey int
  | ListSsh | CreateSsh string | ImportSsh string string | DeleteSsh int
  | SubmitFeedback string string "string option" | ListFeedback string

text \<open>What an operation needs of its surroundings.\<close>

record console =
  co_str :: "exc \<Rightarrow> string"
  co_hash :: "string \<Rightarrow> string"
  co_sha256 :: "string \<Rightarrow> string"
  co_iso :: "string \<Rightarrow> string + time"
  co_mail :: mail_env
  co_ssh :: ssh_env
  co_now :: time
  co_token :: string

definition put_gate :: "gateway \<Rightarrow> response \<times> db \<Rightarrow> response \<times> gateway \<times> db" where
  "put_gate g rd = (fst rd, g, snd rd)"

fun console_step :: "console \<Rightarrow> env \<Rightarrow> cookie \<Rightarrow> console_op \<Rightarrow> gateway \<times> db \<Rightarrow> response \<times> gateway \<times> db" where
  "console_step c e ck ListUsers gd = put_gate (fst gd) (list_users_route (co_str c) e ck (snd gd))"
| "console_step c e ck (Deactivate i) gd = put_gate (fst gd) (deactivate_user (co_str c) e ck i (snd gd))"
| "console_step c e ck (Reactivate i) gd = put_gate (fst gd) (reactivate_user (co_str c) e ck i (snd gd))"
| "console_step c e ck (ResetLink i) gd =
     (case reset_password_link (co_str c) (co_sha256 c) (co_mail c) ''http://localhost:4321'' (co_now c) (co_token c) e ck i (snd gd) of
        ((r, mail), db) \<Rightarrow> (r, fst gd, db))"
| "console_step c e ck (SetAdmin i b) gd = put_gate (fst gd) (set_user_admin_route e ck i b (snd gd))"
| "console_step c e ck (AssignOwner k u) gd = put_gate (fst gd) (assign_key_owner_route e ck k u (snd gd))"
| "console_step c e ck ListKeys gd = put_gate (fst gd) (list_api_keys_route (co_str c) e ck (snd gd))"
| "console_step c e ck (CreateKey n x) gd =
     put_gate (fst gd) (create_api_key_route (co_str c) (co_hash c) (co_iso c) (co_now c) (co_token c) e ck n x (snd gd))"
| "console_step c e ck (DeactivateKey k) gd = deactivate_api_key_route (co_str c) e ck k gd"
| "console_step c e ck ListSsh gd = put_gate (fst gd) (list_ssh_keys_route (co_str c) (co_ssh c) (snd gd))"
| "console_step c e ck (CreateSsh n) gd = put_gate (fst gd) (create_ssh_key (co_str c) (co_ssh c) (co_now c) ck n (snd gd))"
| "console_step c e ck (ImportSsh n p) gd = put_gate (fst gd) (import_ssh_key (co_str c) (co_ssh c) (co_now c) ck n p (snd gd))"
| "console_step c e ck (DeleteSsh k) gd = put_gate (fst gd) (delete_ssh_key_route (co_str c) ck k (snd gd))"
| "console_step c e ck (SubmitFeedback p r t) gd = put_gate (fst gd) (submit_feedback (co_now c) ck None p r t (snd gd))"
| "console_step c e ck (ListFeedback p) gd = put_gate (fst gd) (get_feedback p (snd gd))"

fun admin_only :: "console_op \<Rightarrow> bool" where
  "admin_only ListUsers = True" | "admin_only (Deactivate _) = True" | "admin_only (Reactivate _) = True"
| "admin_only (ResetLink _) = True" | "admin_only (SetAdmin _ _) = True" | "admin_only (AssignOwner _ _) = True"
| "admin_only _ = False"

section \<open>What a session without admin rights can change\<close>

lemma not_admin_refused:
  assumes "\<not> test_bypass e" "\<not> is_admin_session e ck db"
  obtains n where "require_admin e ck db = Inl n" "n \<in> {401, 403, 500}"
proof (cases "current_user_id e ck db")
  case None
  then show ?thesis using that by (simp add: require_admin_def)
next
  case (Some u)
  obtain r where r: "fst (get_user_field u ''is_admin'' db) = r" by simp
  then have "r \<noteq> Inr (PBool True)" using assms Some by (simp add: is_admin_session_def)
  then have "require_admin e ck db = Inl (case r of Inl _ \<Rightarrow> 500 | Inr _ \<Rightarrow> 403)"
    using assms(1) Some r by (cases r) (simp_all add: require_admin_def)
  then show ?thesis using that by (cases r) simp_all
qed

lemma admin_only_refused:
  assumes "\<not> test_bypass e" "\<not> is_admin_session e ck db" "admin_only op"
  shows "snd (console_step c e ck op (g, db)) = (g, db)" "status (fst (console_step c e ck op (g, db))) \<in> {401, 403, 500}"
proof -
  obtain n where "require_admin e ck db = Inl n" "n \<in> {401, 403, 500}"
    using not_admin_refused [OF assms(1,2)] .
  then have "console_step c e ck op (g, db) = (refusal n, g, db)"
    using assms(3)
    by (cases op) (simp_all add: put_gate_def list_users_route_def deactivate_user_def reactivate_user_def reset_password_link_def
        set_user_admin_route_def assign_key_owner_route_def with_admin_def)
  then show "snd (console_step c e ck op (g, db)) = (g, db)" "status (fst (console_step c e ck op (g, db))) \<in> {401, 403, 500}"
    using \<open>n \<in> _\<close> by (simp_all add: refusal_def)
qed

lemma audit_keeps [simp]:
  "users (write_audit_log a b t s db) = users db" "api_keys (write_audit_log a b t s db) = api_keys db"
  "sessions (write_audit_log a b t s db) = sessions db" "verifications (write_audit_log a b t s db) = verifications db"
  "totps (write_audit_log a b t s db) = totps db" "ssh_keys (write_audit_log a b t s db) = ssh_keys db"
  "db_up (write_audit_log a b t s db) = db_up db"
  by (simp_all add: write_audit_log_def)

text \<open>The tables of accounts, and that of API keys.\<close>

definition accounts_of :: "db \<Rightarrow> user list \<times> session_row list \<times> verification list \<times> totp_row list" where
  "accounts_of db = (users db, sessions db, verifications db, totps db)"

definition own :: "int option \<Rightarrow> api_key \<Rightarrow> bool" where
  "own uid k \<longleftrightarrow> uid \<noteq> None \<and> k_user_id k = uid"

text \<open>What is not the business of a session: the accounts, and the rows of other owners' keys.\<close>

definition keys_of_others :: "int option \<Rightarrow> db \<Rightarrow> api_key list" where
  "keys_of_others uid db = filter (\<lambda>k. \<not> own uid k) (api_keys db)"

definition others :: "int option \<Rightarrow> db \<Rightarrow> (user list \<times> session_row list \<times> verification list \<times> totp_row list) \<times> api_key list" where
  "others uid db = (accounts_of db, keys_of_others uid db)"

text \<open>An operation that leaves them alone.\<close>

definition spares_others :: "int option \<Rightarrow> 'a io \<Rightarrow> bool" where
  "spares_others uid f \<longleftrightarrow> (\<forall>db. others uid (snd (f db)) = others uid db)"

lemma spares_othersD: "spares_others uid f \<Longrightarrow> f db = (r, db') \<Longrightarrow> others uid db' = others uid db"
  by (metis spares_others_def snd_conv)

lemma others_audit [simp]: "others uid (write_audit_log a b t s db) = others uid db"
  by (simp add: others_def accounts_of_def keys_of_others_def)

lemma filter_tupdate_out: "(\<And>r. p r \<Longrightarrow> \<not> q r \<and> \<not> q (f r)) \<Longrightarrow> filter q (tupdate p f t) = filter q t"
  by (induction t) (auto simp: tupdate_def)

lemma spares_others_basic:
  "spares_others uid (list_api_keys v a)" "spares_others uid list_ssh_keys" "spares_others uid (list_feedback p)"
  "spares_others uid (save_ssh_key now n p x ver)" "spares_others uid (delete_ssh_key k)"
  "spares_others uid (create_feedback now p i r t)"
  by (auto simp: spares_others_def others_def accounts_of_def keys_of_others_def own_def list_api_keys_def list_ssh_keys_def list_feedback_def
      save_ssh_key_def delete_ssh_key_def create_feedback_def create_api_key_def checkout_def Let_def)

lemma spares_others_create: "spares_others (Some u) (create_api_key H now tok n (Some u) y)"
  by (auto simp: spares_others_def others_def accounts_of_def keys_of_others_def own_def create_api_key_def checkout_def Let_def)

lemma spares_others_deactivate: "spares_others (Some u) (deactivate_api_key_for_user k u)"
  by (auto simp: spares_others_def others_def accounts_of_def keys_of_others_def own_def deactivate_api_key_for_user_def checkout_def Let_def
      intro!: filter_tupdate_out)

lemma create_key_route_spares:
  assumes "current_user_id e ck db = Some u"
  shows "others (Some u) (snd (create_api_key_route es H rd now tok e ck n x db)) = others (Some u) db"
  using assms
  by (auto simp: create_api_key_route_def audit_action_def Let_def split: prod.splits sum.splits
      dest!: spares_othersD [OF spares_others_create] spares_others_basic [where uid = "Some u", THEN spares_othersD])

lemma routes_spare:
  "others uid (snd (create_ssh_key es se now ck n db)) = others uid db"
  "others uid (snd (import_ssh_key es se now ck n p db)) = others uid db"
  "others uid (snd (delete_ssh_key_route es ck k db)) = others uid db"
  "others uid (snd (submit_feedback now ck a p r t db)) = others uid db"
  "others uid (snd (list_api_keys_route es e ck db)) = others uid db"
  "others uid (snd (list_ssh_keys_route es se db)) = others uid db"
  "others uid (snd (get_feedback p db)) = others uid db"
  by (auto simp: create_ssh_key_def import_ssh_key_def delete_ssh_key_route_def submit_feedback_def
      list_api_keys_route_def list_ssh_keys_route_def get_feedback_def audit_action_def Let_def
      split: prod.splits sum.splits option.splits ssh_exc.splits dest!: spares_others_basic [where uid = uid, THEN spares_othersD])

lemma deactivate_route_spares:
  assumes "\<not> is_admin_session e ck db" "current_user_id e ck db = Some u"
  shows "others (Some u) (snd (snd (deactivate_api_key_route es e ck k (g, db)))) = others (Some u) db"
  using assms by (auto simp: deactivate_api_key_route_def Let_def split: prod.splits sum.splits if_splits
      dest!: spares_othersD [OF spares_others_deactivate])

text \<open>
  C36. What a session without admin rights can do at the account routes. It cannot change any
  account, session, verification or second factor, nor any API key but those of its own user:
  creating, listing and deactivating keys stays within them. The admin routes answer 401,
  403 or (when the rights cannot be looked up) 500 and change nothing, and a key list shows
  own keys only.
\<close>
theorem console_authorization:
  assumes "\<not> test_bypass e" "\<not> is_admin_session e ck db" "current_user_id e ck db = Some u"
    and "console_step c e ck op (g, db) = (r, g', db')"
  shows "others (Some u) db' = others (Some u) db \<and>
    (if admin_only op then status r \<in> {401, 403, 500} \<and> (g', db') = (g, db)
     else if op = ListKeys \<and> db_up db
     then r = Resp 200 [(''keys'', PList (map key_fields (filter (\<lambda>k. ki_user_id k = Some u)
            (case fst (list_api_keys None True db) of Inl _ \<Rightarrow> [] | Inr ks \<Rightarrow> ks)))), (''error'', PNone)]
     else True)"
proof (cases "admin_only op")
  case True
  then show ?thesis using admin_only_refused [OF assms(1,2), of op c g] assms(4) by simp
next
  case False
  have db': "db' = snd (snd (console_step c e ck op (g, db)))" and r: "r = fst (console_step c e ck op (g, db))"
    using assms(4) by simp_all
  have "others (Some u) db' = others (Some u) db"
    unfolding db' using False
    by (cases op) (simp_all add: put_gate_def create_key_route_spares [OF assms(3)] deactivate_route_spares [OF assms(2,3)] routes_spare)
  moreover have "op = ListKeys \<Longrightarrow> db_up db \<Longrightarrow>
    r = Resp 200 [(''keys'', PList (map key_fields (filter (\<lambda>k. ki_user_id k = Some u)
            (case fst (list_api_keys None True db) of Inl _ \<Rightarrow> [] | Inr ks \<Rightarrow> ks)))), (''error'', PNone)]"
    unfolding r using assms(2,3)
    by (simp add: put_gate_def list_api_keys_route_def list_api_keys_def checkout_def filter_map comp_def filter_sort)
  ultimately show ?thesis using False by simp
qed

definition ex_env0 :: env where
  "ex_env0 = \<lparr>test_bypass = False, has_proxies = False, in_proxies = (\<lambda>_. None)\<rparr>"

definition ex_cookie :: "int \<Rightarrow> string \<Rightarrow> cookie" where
  "ex_cookie i n = \<lparr>ck_username = Some n, ck_session_id = Some ''s'', ck_user_id = Some i, ck_session_at = Some 1, ck_mfa_verified_at = None\<rparr>"

text \<open>Ann is an admin, Bob is not; each has a key, and there is a key without an owner.\<close>

definition ex_console_db :: db where
  "ex_console_db = fold (auth_step ex_hashes) [SetUserPassword 0 ''ann'' ''h1'' True, SetUserPassword 0 ''bob'' ''h2'' False,
     CreateApiKey 1 ''ta'' ''ann key'' (Some 1) None, CreateApiKey 2 ''tb'' ''bob key'' (Some 2) None,
     CreateApiKey 3 ''tc'' ''old key'' None None] empty_db"

definition ex_console :: console where
  "ex_console = \<lparr>co_str = (\<lambda>_. ''failed''), co_hash = h_key ex_hashes, co_sha256 = h_sha256 ex_hashes, co_iso = (\<lambda>_. Inl ''bad''),
     co_mail = \<lparr>smtp_host = [], smtp_port = ''587'', smtp_works = False\<rparr>,
     co_ssh = \<lparr>fernet_key = Some ''key'', fernet = (\<lambda>k. Inr (rev, Inr \<circ> rev)),
       load_ssh_private_key = (\<lambda>_. Inl ''no''), load_pem_private_key = (\<lambda>p. Inr (Ed25519 ''pub'' p)), fresh_pair = (''pub'', ''pem'')\<rparr>, co_now = 5, co_token = ''t''\<rparr>"

theorem console_authorization_witness:
  "status (fst (console_step ex_console ex_env0 (ex_cookie 2 ''bob'') (DeactivateKey 1) (empty_gateway, ex_console_db))) = 403 \<and>
   status (fst (console_step ex_console ex_env0 (ex_cookie 2 ''bob'') (DeactivateKey 2) (empty_gateway, ex_console_db))) = 200 \<and>
   others (Some 2) (snd (snd (console_step ex_console ex_env0 (ex_cookie 2 ''bob'') (DeactivateKey 2) (empty_gateway, ex_console_db))))
     = others (Some 2) ex_console_db"
proof -
  let ?s = "\<lambda>op. console_step ex_console ex_env0 (ex_cookie 2 ''bob'') op (empty_gateway, ex_console_db)"
  have f: "\<not> test_bypass ex_env0" "\<not> is_admin_session ex_env0 (ex_cookie 2 ''bob'') ex_console_db"
    "current_user_id ex_env0 (ex_cookie 2 ''bob'') ex_console_db = Some 2"
    "status (fst (?s (DeactivateKey 1))) = 403" "status (fst (?s (DeactivateKey 2))) = 200" by code_simp+
  obtain r g' db' where s: "?s (DeactivateKey 2) = (r, g', db')" by (metis prod.collapse)
  from console_authorization [OF f(1-3) s] show ?thesis using f(4,5) s by simp
qed

section \<open>Deactivating a user\<close>

lemma verify_same_keys: "api_keys db' = api_keys db \<Longrightarrow> db_up db' = db_up db \<Longrightarrow> fst (verify_api_key H L now k db') = fst (verify_api_key H L now k db)"
  by (simp add: verify_api_key_def checkout_def Let_def split: option.split)

lemma deactivate_user_eq:
  assumes "db_up db"
  shows "deactivate_user es e ck i db =
    (case require_admin e ck db of Inl n \<Rightarrow> (refusal n, db)
     | Inr a \<Rightarrow>
        (if i = a then (detail 403 ''Cannot deactivate your own account'', db)
         else (case tselect (\<lambda>u. u_id u = i) (users db) of
            None \<Rightarrow> (detail 404 ''User not found'', db)
          | Some u \<Rightarrow>
             (if u_is_admin u \<and> other_admin_count i db = 0 then (err 422 ''last_admin_protected'', db)
              else (ok_response, write_audit_log (''user:'' @ show_int a) ''user.deactivate'' (Some (show_int i)) True
                (db\<lparr>users := tupdate (\<lambda>u. u_id u = i) (\<lambda>u. u\<lparr>u_is_active := False\<rparr>) (users db),
                    sessions := tdelete (\<lambda>s. s_user_id s = i) (sessions db)\<rparr>))))))"
  using assms
  by (auto simp: deactivate_user_def with_admin_def with_target_def get_user_by_id_def set_user_active_def revoke_all_sessions_def
      checkout_def Let_def split: sum.split option.split)

text \<open>
  Deactivating a user, with the database up. It succeeds exactly for an admin, on another
  existing user who is not the last active admin; then the user is inactive and has no session
  left, and nothing else in the accounts changes. In every other case nothing changes at all.
  The API keys of the user are not touched, and what the database says of any key afterwards
  is what it said before: a deactivated user keeps using the MCP server.
\<close>
theorem deactivate_user_effect:
  assumes "\<not> test_bypass e" "db_up db" "deactivate_user es e ck i db = (r, db')"
  shows "(r = ok_response \<longleftrightarrow> (\<exists>a. require_admin e ck db = Inr a \<and> a \<noteq> i) \<and>
      (case tselect (\<lambda>u. u_id u = i) (users db) of None \<Rightarrow> False
       | Some u \<Rightarrow> \<not> (u_is_admin u \<and> other_admin_count i db = 0))) \<and>
    (if r = ok_response
     then users db' = tupdate (\<lambda>u. u_id u = i) (\<lambda>u. u\<lparr>u_is_active := False\<rparr>) (users db) \<and>
       sessions db' = tdelete (\<lambda>s. s_user_id s = i) (sessions db) \<and> verifications db' = verifications db \<and> totps db' = totps db
     else db' = db) \<and>
    fst (verify_api_key H L now k db') = fst (verify_api_key H L now k db)"
proof -
  have ne: "refusal n \<noteq> ok_response" "detail n m \<noteq> ok_response \<or> n = 200" "err n m \<noteq> ok_response \<or> n = 200" for n m
    by (auto simp: refusal_def ok_response_def detail_def err_def)
  have r: "(r, db') = deactivate_user es e ck i db" using assms(3) by simp
  have k: "api_keys db' = api_keys db \<and> db_up db' = db_up db"
    using r unfolding deactivate_user_eq [OF assms(2)] by (auto split: sum.splits option.splits if_splits)
  show ?thesis
  proof (cases "require_admin e ck db")
    case (Inl n)
    then show ?thesis using r ne by (simp add: deactivate_user_eq [OF assms(2)])
  next
    case (Inr a)
    show ?thesis
    proof (cases "i = a \<or> tselect (\<lambda>u. u_id u = i) (users db) = None")
      case True
      then show ?thesis using r Inr
        by (cases "i = a") (simp_all add: deactivate_user_eq [OF assms(2)] detail_def ok_response_def)
    next
      case False
      then obtain x where "tselect (\<lambda>u. u_id u = i) (users db) = Some x" "a \<noteq> i" by auto
      then show ?thesis using r Inr k verify_same_keys [of db' db H L now k]
        by (simp add: deactivate_user_eq [OF assms(2)] err_def ok_response_def split: if_splits)
    qed
  qed
qed

theorem deactivate_user_effect_witness:
  "\<exists>db'. deactivate_user (\<lambda>_. ''failed'') ex_env0 (ex_cookie 1 ''ann'') 2 ex_console_db = (ok_response, db') \<and>
     map u_is_active (users db') = [True, False] \<and>
     fst (verify_api_key (h_key ex_hashes) (h_legacy ex_hashes) 9 ''osm_tb'' db') = Inr (Some 2)"
proof -
  let ?d = "deactivate_user (\<lambda>_. ''failed'') ex_env0 (ex_cookie 1 ''ann'') 2 ex_console_db"
  have f: "\<not> test_bypass ex_env0" "db_up ex_console_db" "fst ?d = ok_response" "map u_is_active (users (snd ?d)) = [True, False]"
    "fst (verify_api_key (h_key ex_hashes) (h_legacy ex_hashes) 9 ''osm_tb'' ex_console_db) = Inr (Some 2)" by code_simp+
  then obtain db' where d: "?d = (ok_response, db')" by (metis prod.collapse)
  have "fst (verify_api_key (h_key ex_hashes) (h_legacy ex_hashes) 9 ''osm_tb'' db') =
      fst (verify_api_key (h_key ex_hashes) (h_legacy ex_hashes) 9 ''osm_tb'' ex_console_db)"
    by (rule deactivate_user_effect [OF f(1,2) d, THEN conjunct2, THEN conjunct2])
  then show ?thesis using d f(4,5) by (intro exI [of _ db']) simp
qed

section \<open>Stuck jobs\<close>

text \<open>
  Resetting a job, with the database up. It succeeds exactly for a job that is running and whose
  process is unknown or gone; then this job and no other is set to error. A job that is still
  queued and never got a process (its start failed after the row was written) is refused here
  and passed over by the cleanup of dead jobs: it stays queued for ever.
\<close>
theorem reset_stuck_job_effect:
  assumes "job_inv jd" "jd_up jd" "reset_stuck_job es kill now i jd = (r, jd')"
  shows "(case tselect (\<lambda>j. j_id j = i) (jobs jd) of
      None \<Rightarrow> status r = 404 \<and> jd' = jd
    | Some j \<Rightarrow>
       (if j_status j = ''running'' \<and> list_all (\<lambda>p. \<not> is_pid_alive kill p) (case j_pid j of None \<Rightarrow> [] | Some p \<Rightarrow> [p])
        then status r = 200 \<and> jobs jd' = map (\<lambda>x. if x = j then set_job (Some ''error'') None None (Some now)
            (Some ''Reset by admin (process not found)'') x else x) (jobs jd)
        else status r = 409 \<and> jd' = jd) \<and>
       (if j_status j = ''queued'' \<and> j_pid j = None
        then jd' = jd \<and> j \<in> set (jobs (snd (mark_dead_jobs kill2 now2 jd'))) else True))"
proof (cases "tselect (\<lambda>j. j_id j = i) (jobs jd)")
  case None
  then show ?thesis using assms(2,3) by (auto simp: reset_stuck_job_def get_job_def checkout_job_def err_def)
next
  case (Some j)
  have j: "j \<in> set (jobs jd)" "j_id j = i" using Some by (auto dest: tselect_Some)
  have d: "distinct (map j_id (jobs jd))" using assms(1) by (simp add: job_inv_def)
  have one: "tupdate (\<lambda>x. j_id x = i) f (jobs jd) = map (\<lambda>x. if x = j then f x else x) (jobs jd)" for f
    unfolding tupdate_def using j d by (auto simp: distinct_map inj_on_def)
  have n: "tcount (\<lambda>x. j_id x = i) (jobs jd) \<noteq> 0" using j by (auto simp: tcount_def filter_empty_conv)
  have stay: "j \<in> set (jobs (snd (mark_dead_jobs kill2 now2 jd)))" if "j_status j = ''queued''" "j_pid j = None"
  proof -
    obtain r2 jd2 where m: "mark_dead_jobs kill2 now2 jd = (r2, jd2)" by (metis prod.collapse)
    have "\<not> dead kill2 j" using that by (simp add: dead_def)
    then show ?thesis using mark_dead_jobs_effect [OF assms(1,2) m] j(1) m by force
  qed
  show ?thesis
    using assms(2,3) Some one n stay
    by (auto simp: reset_stuck_job_def get_job_def checkout_job_def err_def update_job_def VALID_STATUSES_def split: option.splits if_splits)
qed

end
