(* ===== verification/RepoRouteProps.thy ===== *)
theory RepoRouteProps
  imports Cloner PipelineExamples AdminProps
begin

text \<open>
  What the console's repository handlers do: who may call them, what the deletion of a repository
  takes along, when a run is started, what a bad URL does to a clone of all, where clones go,
  and how a clone job ends.
\<close>

section \<open>Who may call them\<close>

datatype repo_op = CreateProfile string string string "int option" | SetParent int "int option"
  | UpdateProfile int "string option" "string option" "string option" | DeleteProfile int
  | AddRepo string string string string string | UpdateRepo int repo_update | DeleteRepo int
  | CloneAll string int | IndexRepo int string string string string | ResetEmbed int
  | IndexAll string string string string

fun site_step :: "'v site_env \<Rightarrow> cookie \<Rightarrow> repo_op \<Rightarrow> 'v site \<Rightarrow> (response \<times> 'v site) option" where
  "site_step w ck (CreateProfile n v d p) s = Some (create_profile w ck n v d p s)"
| "site_step w ck (SetParent i p) s = set_profile_parent_route w ck i p s"
| "site_step w ck (UpdateProfile i n v d) s = update_profile_route w ck i n v d s"
| "site_step w ck (DeleteProfile i) s = Some (delete_profile_route w ck i s)"
| "site_step w ck (AddRepo p u b l k) s = Some (add_repo_route w ck p u b l k s)"
| "site_step w ck (UpdateRepo i u) s = Some (update_repo_route w ck i u s)"
| "site_step w ck (DeleteRepo i) s = Some (delete_repo_route w ck i s)"
| "site_step w ck (CloneAll m i) s = Some (clone_all_pending w m ck i s)"
| "site_step w ck (IndexRepo i a b c d) s = Some (index_repo_route w ck i a b c d s)"
| "site_step w ck (ResetEmbed i) s = Some (reset_embed w ck i s)"
| "site_step w ck (IndexAll a b c d) s = Some (index_all_route w a b c d s)"

text \<open>A result without the audit log.\<close>

definition unlogged :: "response \<times> 'v site \<Rightarrow> response \<times> 'v site" where
  "unlogged rs = (fst rs, snd rs\<lparr>ws_auth := empty_db\<rparr>)"

lemma unlogged_audit: "unlogged (site_audit action target ck h s) = unlogged (h s)"
  by (simp add: unlogged_def site_audit_def split: prod.split)

lemma unlogged_audit_opt: "map_option unlogged (site_audit_opt action target ck h s) = map_option unlogged (h s)"
  by (cases "h s") (simp_all add: unlogged_def site_audit_opt_def split: prod.split)


section \<open>Deleting a repository\<close>

text \<open>The stores of a site without jobs, accounts and processes.\<close>

lemma site_db_eq: "site_db f s = (fst (f (ix_db (ws_ix s))), s\<lparr>ws_ix := (ws_ix s)\<lparr>ix_db := snd (f (ix_db (ws_ix s)))\<rparr>\<rparr>)"
  by (simp add: site_db_def split: prod.split)

lemma clean_up_one:
  assumes "we_neo4j w" "\<not> we_collect_fails w (b, v)" "\<not> we_delete_fails w (b, v)" "\<not> we_embed_fails w v"
  shows "snd (clean_up w [(b, v)] s) = s\<lparr>ws_ix := (ws_ix s)\<lparr>
      ix_graph := snd (delete_modules_scoped b v (ix_graph (ws_ix s))),
      ix_table := tdelete (of_modules v (module_names_of b v (ix_graph (ws_ix s)))) (ix_table (ws_ix s))\<rparr>\<rparr>"
proof (cases "module_names_of b v (ix_graph (ws_ix s)) = []")
  case True
  then have "tdelete (of_modules v (module_names_of b v (ix_graph (ws_ix s)))) (ix_table (ws_ix s)) = ix_table (ws_ix s)"
    by (simp add: tdelete_def of_modules_def)
  then show ?thesis using assms True
    by (simp add: clean_up_def collect_module_names_def delete_neo4j_for_repos_def delete_embeddings_for_repos_def site_graph_def Let_def
        dget_dset split: prod.split)
next
  case False
  then show ?thesis using assms
    by (simp add: clean_up_def collect_module_names_def delete_neo4j_for_repos_def delete_embeddings_for_repos_def site_graph_def Let_def
        dget_dset split: prod.split)
qed

lemma module_names_gone:
  assumes "graph_ok g" "list_all (\<lambda>n. g_label n = ''Module'' \<longrightarrow> g_props n ''name'' \<noteq> None) (gnodes g)"
  shows "module_names_of b v (snd (delete_modules_scoped b v g)) = []"
proof -
  obtain m c g' where d: "delete_modules_scoped b v g = ((m, c), g')" by (metis prod.collapse)
  have "is_node ''Module'' [(''repo'', GStr b), (''odoo_version'', GStr v)] = module_in b v" by (simp add: module_in_def fun_eq_iff)
  then show ?thesis using delete_modules_nodes [OF assms d] d
    by (simp add: module_names_of_def filter_filter filter_False List.map_filter_def)
qed

lemma delete_repo_ok:
  assumes "rd_up db" "repo_by_id db i = Some x" "left_join db x = (x, Some p)"
  shows "delete_repo i db = (Inr (path_name (r_local_path x), p_version p), db\<lparr>repos := tdelete (\<lambda>r. r_id r = i) (repos db)\<rparr>) \<or>
    \<not> repo_inv db"
proof (cases "repo_inv db")
  case True
  have x: "x \<in> set (repos db)" "r_id x = i" using assms(2) by (auto simp: repo_by_id_def dest: tselect_Some)
  obtain j where j: "r_profile_id x = Some j" "profile_by_id db j = Some p"
    using assms(3) by (auto simp: left_join_def bind_eq_Some_conv)
  have "(x, p) \<in> set (joined db)" using x j by (auto simp: in_joined)
  then obtain y where y: "tselect (\<lambda>(r, p). r_id r = i) (joined db) = Some y"
    using x(2) by (cases "tselect (\<lambda>(r, p). r_id r = i) (joined db)") (auto simp: tselect_None)
  moreover obtain r q where rq: "y = (r, q)" by (metis prod.collapse)
  moreover have "r \<in> set (repos db)" "r_id r = i" "Option.bind (r_profile_id r) (profile_by_id db) = Some q"
    using tselect_Some [OF y] rq by (auto simp: in_joined)
  moreover have "r = x" using x calculation(3,4) True by (auto simp: repo_inv_def distinct_map inj_on_def)
  ultimately have "y = (x, p)" using j by simp
  then show ?thesis using y assms(1) by (simp add: delete_repo_def checkout_repo_def)
qed simp

text \<open>
  C38. What the deletion of a repository takes along, when every store answers. While a run holds
  the lock of its profile it is refused and nothing changes. Otherwise its row goes, and every
  node of the graph that belongs to a module of the directory name and version of the
  repository, with all embeddings of these modules. The identity of the repository plays no part
  in that: another checkout in a directory of the same name (the clones of two profiles are
  called alike) loses its modules too, while its row keeps the indexed commit, so the next run
  finds it unchanged.
\<close>
theorem delete_repo_effect:
  assumes "delete_repo_route w ck i s = (r, s')" "rd_up (ix_db (ws_ix s))" "repo_inv (ix_db (ws_ix s))"
    and "graph_ok (site_graph s)" "list_all (\<lambda>n. g_label n = ''Module'' \<longrightarrow> g_props n ''name'' \<noteq> None) (gnodes (site_graph s))"
    and "we_neo4j w" "we_collect_fails w = (\<lambda>_. False)" "we_delete_fails w = (\<lambda>_. False)" "we_embed_fails w = (\<lambda>_. False)"
    and "repo_by_id (ix_db (ws_ix s)) i = Some x" "left_join (ix_db (ws_ix s)) x = (x, Some p)"
    and "b = path_name (r_local_path x)" "v = p_version p"
  shows "if site_running w (p_name p) s then status r = 409 \<and> ws_ix s' = ws_ix s
    else status r = 200 \<and> repos (ix_db (ws_ix s')) = tdelete (\<lambda>r. r_id r = i) (repos (ix_db (ws_ix s))) \<and>
      gnodes (site_graph s') = filter (\<lambda>n. \<not> module_in b v n \<and> \<not> child_in b v (site_graph s) n) (gnodes (site_graph s)) \<and>
      module_names_of b v (site_graph s') = [] \<and>
      ix_table (ws_ix s') = tdelete (of_modules v (module_names_of b v (site_graph s))) (ix_table (ws_ix s))"
proof -
  let ?db = "ix_db (ws_ix s)"
  have g: "get_repo_by_id i ?db = (Inr (Some (x, Some p)), ?db)"
    using assms(2,10,11) by (simp add: get_repo_by_id_def checkout_repo_def)
  have d: "delete_repo i ?db = (Inr (b, v), ?db\<lparr>repos := tdelete (\<lambda>r. r_id r = i) (repos ?db)\<rparr>)"
    using delete_repo_ok [OF assms(2,10,11)] assms(3,12,13) by simp
  show ?thesis
  proof (cases "site_running w (p_name p) s")
    case True
    then show ?thesis using assms(1) g
      by (auto simp: delete_repo_route_def site_audit_def site_db_eq profile_label_def cannot_delete_def err_def)
  next
    case False
    let ?s = "s\<lparr>ws_ix := (ws_ix s)\<lparr>ix_db := ?db\<lparr>repos := tdelete (\<lambda>r. r_id r = i) (repos ?db)\<rparr>\<rparr>\<rparr>"
    obtain t s2 where c: "clean_up w [(b, v)] ?s = (t, s2)" by (metis prod.collapse)
    have "ws_ix s' = ws_ix s2" "status r = 200" using assms(1) False g d c assms(12,13)
      by (auto simp: delete_repo_route_def site_audit_def site_db_eq profile_label_def Let_def)
    moreover have "s2 = snd (clean_up w [(b, v)] ?s)" using c by simp
    moreover obtain m k g' where e: "delete_modules_scoped b v (site_graph s) = ((m, k), g')" by (metis prod.collapse)
    ultimately show ?thesis
      using False clean_up_one [of w b v ?s] assms(6-9) delete_modules_nodes [OF assms(4,5) e] module_names_gone [OF assms(4,5), of b v]
      by (simp add: site_graph_def)
  qed
qed

text \<open>Two clones in directories called \<open>odoo\<close>, one version; the first is deleted.\<close>

definition ex_site :: "nat site" where
  "ex_site = \<lparr>ws_ix = ex_state\<lparr>ix_db := (ix_db ex_state)\<lparr>repos := [ex_repo 1 ''/p1/odoo'' ''h1'', ex_repo 2 ''/p2/odoo'' ''h2'']\<rparr>\<rparr>,
     ws_jobs = empty_jobs, ws_auth = ex_console_db, ws_procs = []\<rparr>"

definition ex_site_env :: "(string list \<Rightarrow> string option) \<Rightarrow> nat site_env" where
  "ex_site_env popen = \<lparr>we_index = ex_env (\<lambda>_. None), we_base = ''/clones'', we_now = 5, we_neo4j = True,
     we_collect_fails = (\<lambda>_. False), we_delete_fails = (\<lambda>_. False), we_embed_fails = (\<lambda>_. False), we_popen = popen,
     we_is_dir = (\<lambda>_. True), we_estr = (\<lambda>_. ''failed''), we_jstr = (\<lambda>_. ''failed'')\<rparr>"

theorem delete_repo_effect_witness:
  "\<exists>r s'. delete_repo_route (ex_site_env (\<lambda>_. None)) (ex_cookie 2 ''bob'') 1 ex_site = (r, s') \<and> status r = 200 \<and>
     map (\<lambda>x. (r_id x, r_head_sha x)) (repos (ix_db (ws_ix s'))) = [(2, Some ''h2'')] \<and>
     module_names_of ''odoo'' ''17.0'' (site_graph ex_site) = [''sale'', ''stock''] \<and> module_names_of ''odoo'' ''17.0'' (site_graph s') = []"
proof -
  let ?w = "ex_site_env (\<lambda>_. None)" and ?x = "ex_repo 1 ''/p1/odoo'' ''h1''"
  obtain r s' where d: "delete_repo_route ?w (ex_cookie 2 ''bob'') 1 ex_site = (r, s')" by (metis prod.collapse)
  have inv: "repo_inv (ix_db (ws_ix ex_site))"
    by (auto simp: repo_inv_def forest_def parent_edges_def ex_site_def ex_state_def ex_profile_def ex_repo_def acyclic_def)
  have g: "graph_ok (site_graph ex_site)" using ex_graph_ok by (simp add: site_graph_def ex_site_def ex_state_def)
  have v: "rd_up (ix_db (ws_ix ex_site))" "list_all (\<lambda>n. g_label n = ''Module'' \<longrightarrow> g_props n ''name'' \<noteq> None) (gnodes (site_graph ex_site))"
    "\<not> site_running ?w (p_name ex_profile) ex_site" "path_name (r_local_path ?x) = ''odoo''" "p_version ex_profile = ''17.0''"
    "module_names_of ''odoo'' ''17.0'' (site_graph ex_site) = [''sale'', ''stock'']"
    "map (\<lambda>x. (r_id x, r_head_sha x)) (tdelete (\<lambda>r. r_id r = 1) (repos (ix_db (ws_ix ex_site)))) = [(2, Some ''h2'')]"
    by code_simp+
  have k: "repo_by_id (ix_db (ws_ix ex_site)) 1 = Some ?x" "left_join (ix_db (ws_ix ex_site)) ?x = (?x, Some ex_profile)"
    by (simp_all add: repo_by_id_def left_join_def profile_by_id_def tselect_def ex_site_def ex_state_def ex_repo_def ex_profile_def)
  have w: "we_neo4j ?w" "we_collect_fails ?w = (\<lambda>_. False)" "we_delete_fails ?w = (\<lambda>_. False)" "we_embed_fails ?w = (\<lambda>_. False)"
    by (simp_all add: ex_site_env_def)
  note e = delete_repo_effect [OF d v(1) inv g v(2) w k v(4)[symmetric] v(5)[symmetric], unfolded if_not_P [OF v(3)]]
  then show ?thesis using d v(6,7) by (intro exI [of _ r] exI [of _ s']) simp
qed

section \<open>Starting runs\<close>

definition enqueue :: "'v site_env \<Rightarrow> string \<Rightarrow> job_db \<Rightarrow> job_db" where
  "enqueue w name jd = jd\<lparr>jobs := jobs jd @ [\<lparr>j_id = next_job jd, j_profile_name = name, j_status = ''queued'', j_pid = None,
     j_started_at = None, j_finished_at = None, j_error_msg = None, j_created_at = we_now w\<rparr>], next_job := next_job jd + 1\<rparr>"

fun trigger :: "repo_op \<Rightarrow> bool" where
  "trigger (IndexRepo _ _ _ _ _) = True" | "trigger (ResetEmbed _) = True" | "trigger (IndexAll _ _ _ _) = True" | "trigger _ = False"

text \<open>What a trigger leaves: nothing new, a job with its process, or a job without one.\<close>

definition started :: "'v site_env \<Rightarrow> 'v site \<Rightarrow> response \<times> 'v site \<Rightarrow> bool" where
  "started w s rs \<longleftrightarrow>
     (if status (fst rs) = 200
      then \<exists>args name. ws_procs (snd rs) = ws_procs s @ [indexer_argv args (next_job (ws_jobs s))] \<and>
             ws_jobs (snd rs) = enqueue w name (ws_jobs s)
      else ws_procs (snd rs) = ws_procs s \<and>
        (ws_jobs (snd rs) = ws_jobs s \<or>
         (\<exists>args name. we_popen w (indexer_argv args (next_job (ws_jobs s))) \<noteq> None \<and> ws_jobs (snd rs) = enqueue w name (ws_jobs s))))"

lemma started_spawn:
  assumes "jd_up (ws_jobs s)" "spawn_indexer_subcommand w args name s = (x, s')"
    and "\<And>m. status (bad m) \<noteq> 200" "\<And>i. status (good i) = 200"
  shows "started w s (case x of Inl m \<Rightarrow> (bad m, s') | Inr i \<Rightarrow> (good i, s'))"
  using assms
  by (auto simp: spawn_indexer_subcommand_def create_job_def checkout_job_def Let_def started_def enqueue_def split: option.splits)

lemma started_same:
  "status r \<noteq> 200 \<Longrightarrow> ws_procs s' = ws_procs s \<Longrightarrow> ws_jobs s' = ws_jobs s \<Longrightarrow> started w s (r, s')"
  by (simp add: started_def)

lemma started_cong: "ws_procs s = ws_procs s0 \<Longrightarrow> ws_jobs s = ws_jobs s0 \<Longrightarrow> started w s rs \<Longrightarrow> started w s0 rs"
  by (simp only: started_def)

lemma started_audit: "started w s (site_audit action target ck h s) \<longleftrightarrow> started w s (h s)"
  by (simp add: started_def site_audit_def split: prod.split)

lemma workers_refused: "workers_of f t n x = Inl r \<Longrightarrow> status r \<noteq> 200"
  by (auto simp: workers_of_def err_def split: option.splits if_splits)

lemma status_err [simp]: "status (err n m) = n" "status (Resp n b) = n"
  by (simp_all add: err_def)

text \<open>A site that differs in the tables of the index only.\<close>

lemma started_spawn':
  assumes "jd_up (ws_jobs s)" "ws_procs t = ws_procs s" "ws_jobs t = ws_jobs s"
    and "\<And>m. status (bad m) \<noteq> 200" "\<And>i. status (good i) = 200"
  shows "started w s (case spawn_indexer_subcommand w args name t of (Inl m, s') \<Rightarrow> (bad m, s') | (Inr i, s') \<Rightarrow> (good i, s'))"
proof -
  obtain x s' where e: "spawn_indexer_subcommand w args name t = (x, s')" by (metis prod.collapse)
  have "started w t (case x of Inl m \<Rightarrow> (bad m, s') | Inr i \<Rightarrow> (good i, s'))"
    by (rule started_spawn [OF _ e assms(4,5)]) (simp add: assms(1,3))
  then show ?thesis using started_cong [OF assms(2,3)] by (cases x) (simp_all add: e)
qed

lemma started_index_all: "jd_up (ws_jobs s) \<Longrightarrow> started w s (index_all_route w a b c d s)"
  unfolding index_all_route_def site_db_eq
  by (auto intro!: started_same started_spawn' dest: workers_refused split: sum.split list.split)

lemma started_index_repo: "jd_up (ws_jobs s) \<Longrightarrow> started w s (index_repo_route w ck i a b c d s)"
  unfolding index_repo_route_def site_db_eq started_audit
  by (auto intro!: started_same started_spawn' dest: workers_refused split: sum.split option.split)

lemma started_reset_embed: "jd_up (ws_jobs s) \<Longrightarrow> started w s (reset_embed w ck i s)"
  unfolding reset_embed_def site_db_eq started_audit Let_def
  by (auto intro!: started_same started_spawn' split: sum.split option.split)

lemma orphan_not_reset:
  assumes "job_inv jd" "jd_up jd"
  shows "status (fst (reset_stuck_job es kill now (next_job jd) (enqueue w name jd))) = 409"
proof -
  have "j_id j \<noteq> next_job jd" if "j \<in> set (jobs jd)" for j using assms(1) that by (auto simp: job_inv_def)
  then have "tselect (\<lambda>j. j_id j = next_job jd) (jobs jd) = None" by (simp add: tselect_None)
  then show ?thesis using assms(2)
    by (simp add: reset_stuck_job_def get_job_def checkout_job_def enqueue_def tselect_append tselect_Cons err_def)
qed

lemma orphan_not_dead:
  assumes "job_inv jd" "jd_up jd"
  shows "list_ex (\<lambda>j. j_id j = next_job jd \<and> j_status j = ''queued'') (jobs (snd (mark_dead_jobs kill now (enqueue w name jd))))"
proof -
  let ?jd = "enqueue w name jd"
  have inv: "job_inv ?jd" using assms(1) by (auto simp: job_inv_def enqueue_def VALID_STATUSES_def)
  have up: "jd_up ?jd" using assms(2) by (simp add: enqueue_def)
  obtain r jd' where m: "mark_dead_jobs kill now ?jd = (r, jd')" by (metis prod.collapse)
  show ?thesis
    unfolding m snd_conv mark_dead_jobs_effect [OF inv up m, THEN conjunct1]
    by (simp add: enqueue_def dead_def list_ex_iff)
qed

text \<open>
  C39. What the three handlers that start an indexer leave behind, with the job table reachable. An
  answer of 200 means one new process and one new queued job, whose number is the last argument
  of the process. Any other answer starts no process and adds no job, with one exception: when
  the process cannot be started the job is there already. Nothing ever ends this job: the
  reset of stuck jobs refuses it and the cleanup of dead jobs leaves it queued.
\<close>
theorem trigger_effect:
  assumes "trigger op" "job_inv (ws_jobs s)" "jd_up (ws_jobs s)" "site_step w ck op s = Some (r, s')"
  shows "if status r = 200
    then \<exists>args name. ws_procs s' = ws_procs s @ [indexer_argv args (next_job (ws_jobs s))] \<and> ws_jobs s' = enqueue w name (ws_jobs s)
    else ws_procs s' = ws_procs s \<and> (ws_jobs s' = ws_jobs s \<or>
      (\<exists>args. we_popen w (indexer_argv args (next_job (ws_jobs s))) \<noteq> None) \<and> (\<exists>name. ws_jobs s' = enqueue w name (ws_jobs s)) \<and>
      status (fst (reset_stuck_job es kill now (next_job (ws_jobs s)) (ws_jobs s'))) = 409 \<and>
      list_ex (\<lambda>j. j_id j = next_job (ws_jobs s) \<and> j_status j = ''queued'') (jobs (snd (mark_dead_jobs kill now (ws_jobs s')))))"
proof -
  have "started w s (r, s')"
    using assms(1,4) started_index_all [OF assms(3)] started_index_repo [OF assms(3)] started_reset_embed [OF assms(3)]
    by (cases op) (simp_all, metis+)
  then show ?thesis
    using orphan_not_reset [OF assms(2,3)] orphan_not_dead [OF assms(2,3)] by (auto simp: started_def)
qed

theorem trigger_effect_witness:
  "\<exists>s'. site_step (ex_site_env (\<lambda>_. Some ''no memory'')) (ex_cookie 2 ''bob'') (IndexRepo 1 [] ''1'' [] ''2'') ex_site = Some (err 500 ''no memory'', s') \<and>
     map j_status (jobs (ws_jobs s')) = [''queued''] \<and> ws_procs s' = [] \<and>
     status (fst (reset_stuck_job (\<lambda>_. ''failed'') (\<lambda>_. ProcessLookupError) 9 1 (ws_jobs s'))) = 409"
proof -
  let ?d = "site_step (ex_site_env (\<lambda>_. Some ''no memory'')) (ex_cookie 2 ''bob'') (IndexRepo 1 [] ''1'' [] ''2'') ex_site"
  have v: "map_option fst ?d = Some (err 500 ''no memory'')" "map_option (map j_status \<circ> jobs \<circ> ws_jobs \<circ> snd) ?d = Some [''queued'']"
    "next_job (ws_jobs ex_site) = 1" "jd_up (ws_jobs ex_site)" "job_inv (ws_jobs ex_site)" "ws_procs ex_site = []" "jobs (ws_jobs ex_site) = []"
    by code_simp+
  obtain s' where d: "?d = Some (err 500 ''no memory'', s')" using v(1) by (cases ?d) auto
  have t: "trigger (IndexRepo 1 [] ''1'' [] ''2'')" by simp
  have "ws_jobs s' \<noteq> ws_jobs ex_site" using v(2,7) d by auto
  then show ?thesis
    using trigger_effect [OF t v(5,4) d, of "\<lambda>_. ''failed''" "\<lambda>_. ProcessLookupError" 9] d v(2,3,6) by simp
qed

end
