(* ===== verification/ClonerProps.thy ===== *)
theory ClonerProps
  imports RepoRouteProps
begin

text \<open>
  Clones: where they go, what a URL that cannot be parsed does to the clone of all
  repositories of a profile, what a clone leaves of the private key, and how a clone job ends.
\<close>

section \<open>Where a clone goes\<close>

definition comps :: "string \<Rightarrow> string list" where
  "comps p = filter (\<lambda>c. c \<noteq> [] \<and> c \<noteq> ''.'') (split_on (CHR ''/'') p)"

lemma split_on_sep: "split_on c (p @ c # q) = split_on c p @ split_on c q"
proof (induction p)
  case (Cons x p)
  obtain y ys where "split_on c p = y # ys" by (cases "split_on c p") auto
  then show ?case using Cons by auto
qed simp

lemma split_on_sub: "p \<in> set (split_on c s) \<Longrightarrow> set p \<subseteq> set s"
proof (induction s arbitrary: p)
  case (Cons x s)
  obtain y ys where s: "split_on c s = y # ys" by (cases "split_on c s") auto
  have "set q \<subseteq> set s" if "q = y \<or> q \<in> set ys" for q using Cons.IH [of q] that s by auto
  then show ?case using Cons.prems s by (auto split: if_splits) blast+
qed simp

lemma comps_append: "comps (p @ ''/'' @ q) = comps p @ comps q"
  by (simp add: comps_def split_on_sep)

lemma comps_pieces: "c \<in> set (comps p) \<Longrightarrow> CHR ''/'' \<notin> set c \<and> c \<noteq> [] \<and> c \<noteq> ''.''"
  by (auto simp: comps_def dest: split_on_pieces)

lemma comps_join:
  assumes "\<And>c. c \<in> set cs \<Longrightarrow> CHR ''/'' \<notin> set c \<and> c \<noteq> [] \<and> c \<noteq> ''.''"
  shows "comps (join ''/'' cs) = cs"
proof (cases "cs = []")
  case False
  then have "split_on (CHR ''/'') (join ''/'' cs) = cs" using assms by (intro split_on_join) auto
  then show ?thesis using assms by (simp add: comps_def filter_id_conv)
qed (simp add: comps_def)

lemma comps_path_str: "comps (path_str p) = comps p"
proof -
  have j: "comps (join ''/'' (comps p)) = comps p" by (rule comps_join) (rule comps_pieces)
  have s: "comps (CHR ''/'' # q) = comps q" for q using comps_append [of "[]" q] by (simp add: comps_def)
  have "comps ''.'' = []" by (simp add: comps_def)
  then show ?thesis unfolding path_str_def Let_def using j s
    by (auto simp flip: comps_def simp: comps_def [of "[]"])
qed

lemma comps_path_join: "comps (path_join p q) = (if startswith q ''/'' then comps q else comps p @ comps q)"
proof -
  have "comps [] = []" by (simp add: comps_def)
  then show ?thesis using comps_append [of p q] by (simp add: path_join_def comps_path_str)
qed

lemma repo_slug_shape:
  assumes "repo_slug url = Some slug"
  shows "slug \<noteq> [] \<and> CHR ''/'' \<notin> set slug"
proof -
  obtain scheme netloc p where u: "urlparse (strip url) = Some (scheme, netloc, p)"
    using assms by (cases "urlparse (strip url)") (auto simp: repo_slug_def Let_def)
  define path where "path = (if scheme \<noteq> [] then p else before (CHR ''#'') (before (CHR ''?'') (strip url)))"
  define piece where "piece = last (split_on (CHR ''/'') (strip_slashes path))"
  define name where "name = last (split_on (CHR '':'') piece)"
  have "CHR ''/'' \<notin> set piece" unfolding piece_def by (rule split_on_pieces) (rule last_in_set, simp)
  moreover have "set name \<subseteq> set piece"
    by (rule split_on_sub [where c = "CHR '':''"]) (simp add: name_def)
  moreover define cut where "cut = (if endswith name ''.git'' then take (length name - 4) name else name)"
  ultimately have c: "CHR ''/'' \<notin> set cut" by (auto dest: in_set_takeD)
  have "slug = (if cut = [] then ''repo'' else cut)"
    using assms u unfolding repo_slug_def cut_def name_def piece_def path_def by (simp add: Let_def)
  then show ?thesis using c by auto
qed

text \<open>
  Where a clone goes, component by component: the components of the base, those of the name of
  the profile, then the slug of the URL, which is never empty and has no slash. The name of
  the profile is not checked by anybody: one that starts with a slash replaces the base, one that
  contains \<open>..\<close> climbs out of it, and so does a URL whose last piece is \<open>..\<close>.
\<close>
theorem clone_dir_components:
  assumes "default_clone_dir base profile url = Some d"
  shows "(\<exists>slug. repo_slug url = Some slug \<and> slug \<noteq> [] \<and> CHR ''/'' \<notin> set slug \<and>
    comps d = (if startswith profile ''/'' then comps profile else comps base @ comps profile) @ (if slug = ''.'' then [] else [slug]))"
proof -
  obtain slug where s: "repo_slug url = Some slug" "d = path_join (path_join base profile) slug"
    using assms by (auto simp: default_clone_dir_def)
  note n = repo_slug_shape [OF s(1)]
  have "comps slug = (if slug = ''.'' then [] else [slug])" using n by (simp add: comps_def split_on_no_sep)
  moreover have "\<not> startswith slug ''/''" using n by (cases slug) (auto simp: startswith_def)
  ultimately show ?thesis using s n by (simp add: comps_path_join)
qed

theorem clone_dir_components_witness:
  "default_clone_dir ''/srv/clones'' ''/etc'' ''git@host:me/cron.d.git'' = Some ''/etc/cron.d'' \<and>
   comps ''/etc/cron.d'' = [''etc'', ''cron.d''] \<and>
   default_clone_dir ''/srv/clones'' ''shop'' ''https://host/me/odoo.git?x=1'' = Some ''/srv/clones/shop/odoo''"
proof -
  have v: "default_clone_dir ''/srv/clones'' ''/etc'' ''git@host:me/cron.d.git'' = Some ''/etc/cron.d''"
    "default_clone_dir ''/srv/clones'' ''shop'' ''https://host/me/odoo.git?x=1'' = Some ''/srv/clones/shop/odoo''"
    "repo_slug ''git@host:me/cron.d.git'' = Some ''cron.d''" "startswith ''/etc'' ''/''" "comps ''/etc'' = [''etc'']"
    unfolding comps_def by code_simp+
  then show ?thesis using clone_dir_components [OF v(1)] by auto
qed

section \<open>Cloning all repositories\<close>

definition parses :: "repo \<Rightarrow> bool" where
  "parses r \<longleftrightarrow> urlparse (r_url r) \<noteq> None"

definition local_dir :: "'v site_env \<Rightarrow> repo \<Rightarrow> bool" where
  "local_dir w r \<longleftrightarrow> (case urlparse (r_url r) of None \<Rightarrow> False | Some u \<Rightarrow> fst u = ''file'' \<and> we_is_dir w (file_path_of u))"

definition spawns :: "'v site_env \<Rightarrow> repo \<Rightarrow> bool" where
  "spawns w r \<longleftrightarrow> \<not> local_dir w r \<and> we_popen w (cloner_argv (r_id r)) = None"

lemma mark_local_procs: "mark_local i p s = (ok, s') \<Longrightarrow> ws_procs s' = ws_procs s"
  by (auto simp: mark_local_def site_db_eq split: sum.splits)

lemma clone_pending_good:
  assumes "list_all parses rs"
  shows "fst (clone_pending w rs (a, b) s) \<noteq> None \<and>
    ws_procs (snd (clone_pending w rs (a, b) s)) = ws_procs s @ map (cloner_argv \<circ> r_id) (filter (spawns w) rs) \<and>
    fst (the (fst (clone_pending w rs (a, b) s))) = a + length (filter (spawns w) rs)"
  using assms
proof (induction rs arbitrary: a b s)
  case (Cons r rs)
  then obtain u where u: "urlparse (r_url r) = Some u" by (auto simp: parses_def)
  show ?case
  proof (cases "fst u = ''file'' \<and> we_is_dir w (file_path_of u)")
    case True
    obtain ok s' where m: "mark_local (r_id r) (file_path_of u) s = (ok, s')" by (metis prod.collapse)
    have "\<not> spawns w r" using u True by (simp add: spawns_def local_dir_def)
    then show ?thesis using Cons u True m mark_local_procs [OF m] by simp
  next
    case False
    then have "\<not> local_dir w r" using u by (auto simp: local_dir_def)
    then show ?thesis using Cons u False by (auto simp: spawns_def split: option.splits)
  qed
qed simp

lemma clone_pending_bad:
  assumes "list_all parses as" "\<not> parses r"
  shows "fst (clone_pending w (as @ r # bs) n s) = None \<and> snd (clone_pending w (as @ r # bs) n s) = snd (clone_pending w as n s)"
  using assms
proof (induction as arbitrary: n s)
  case Nil
  then have "urlparse (r_url r) = None" unfolding parses_def by blast
  then show ?case by (cases n) simp
next
  case (Cons x as)
  then show ?case by (cases n) (auto simp: parses_def split: option.splits prod.splits)
qed

text \<open>
  Cloning everything that is pending starts the clone jobs in the order of the repositories, one
  for each that is not a local directory (and whose process can be started), up to the first
  repository whose URL cannot be parsed. There it ends with an error, and what follows is never
  cloned, on this attempt or any later one, as the URL stays: adding a repository does not
  check it.
\<close>
theorem clone_all_stops_at_bad_url:
  "ws_procs (snd (clone_pending w rs (0, 0) s)) = ws_procs s @ map (cloner_argv \<circ> r_id) (filter (spawns w) (takeWhile parses rs)) \<and>
   (case fst (clone_pending w rs (0, 0) s) of None \<Rightarrow> \<not> list_all parses rs
    | Some n \<Rightarrow> list_all parses rs \<and> fst n = length (filter (spawns w) rs))"
proof (cases "list_all parses rs")
  case True
  then have "takeWhile parses rs = rs" by (simp add: takeWhile_eq_all_conv list_all_iff)
  then show ?thesis using clone_pending_good [OF True, of w 0 0 s] True by (simp only: option.case_eq_if) simp
next
  case False
  then have "dropWhile parses rs \<noteq> []" by (simp add: dropWhile_eq_Nil_conv list_all_iff)
  then obtain r bs where r: "dropWhile parses rs = r # bs" by (cases "dropWhile parses rs") auto
  then have "\<not> parses r" by (metis dropWhile_eq_Cons_conv)
  moreover have g: "list_all parses (takeWhile parses rs)" by (auto simp: list_all_iff dest: set_takeWhileD)
  moreover have "rs = takeWhile parses rs @ r # bs" using r by (metis takeWhile_dropWhile_id)
  ultimately have "fst (clone_pending w rs (0, 0) s) = None"
    "snd (clone_pending w rs (0, 0) s) = snd (clone_pending w (takeWhile parses rs) (0, 0) s)"
    using clone_pending_bad [of "takeWhile parses rs" r w bs "(0, 0)" s] by metis+
  then show ?thesis using clone_pending_good [OF g, of w 0 0 s] False by simp
qed

section \<open>The private key of a clone\<close>

lemma cl_keys_run: "cl_keys (snd (run_git ge argv ssh cs)) = cl_keys cs"
  by (simp add: run_git_def split: option.split)

lemma cl_runs_run: "cl_runs (snd (run_git ge argv ssh cs)) = cl_runs cs @ [(argv, ssh)]"
  by (simp add: run_git_def split: option.split)

lemma filter_dset: "filter (\<lambda>(k, _). k \<noteq> x) (dset x v d) = filter (\<lambda>(k, _). k \<noteq> x) d"
  by (induction d) auto

text \<open>
  What a clone leaves, whatever fails on the way: the temporary file with the private key is gone
  (its name being new), at most one git process ran, with exactly the arguments of the
  clone, and the key file is named in its environment only. It succeeds exactly if the git
  process ran and ended well.
\<close>
theorem clone_repo_effect:
  assumes "clone_repo ge url branch target pem cs = (r, cs')"
    and "list_all (\<lambda>t. t \<notin> fst ` set (cl_keys cs)) (case ge_mkstemp ge of Inl _ \<Rightarrow> [] | Inr t \<Rightarrow> [t])"
  shows "cl_keys cs' = cl_keys cs \<and>
    (\<exists>new. cl_runs cs' = cl_runs cs @ new \<and> length new \<le> 1 \<and> list_all (\<lambda>(argv, ssh). argv = clone_argv url branch target \<and>
        (ssh = None \<longleftrightarrow> \<not> is_ssh_url url \<or> pem = None)) new \<and>
      (r = Inr () \<longleftrightarrow> new \<noteq> [] \<and> list_all (\<lambda>(argv, ssh). ge_git ge argv ssh = None) new))"
proof -
  have id: "filter (\<lambda>(k, _). k \<noteq> t) (cl_keys cs) = cl_keys cs" if "ge_mkstemp ge = Inr t" for t
    using assms(2) that by (auto simp: filter_id_conv image_iff)
  show ?thesis
    using assms(1) id
    by (auto simp: clone_repo_def with_key_def run_git_def unlink_def filter_dset Let_def split: if_splits option.splits sum.splits prod.splits)
qed

section \<open>How a clone job ends\<close>

lemma tselect_update_same: "(\<And>r. p (f r) \<longleftrightarrow> p r) \<Longrightarrow> tselect p (tupdate p f t) = map_option f (tselect p t)"
  by (induction t) (auto simp: tselect_def tupdate_def)

lemma filter_tupdate_other: "(\<And>r. p (f r) \<longleftrightarrow> p r) \<Longrightarrow> filter (\<lambda>r. \<not> p r) (tupdate p f t) = filter (\<lambda>r. \<not> p r) t"
  by (induction t) (auto simp: tupdate_def)

text \<open>The row of one repository, with the other rows as they were.\<close>

definition row_now :: "int \<Rightarrow> repo_db \<Rightarrow> repo_db \<Rightarrow> repo \<Rightarrow> bool" where
  "row_now i db0 db y \<longleftrightarrow> rd_up db \<and> repo_by_id db i = Some y \<and>
     filter (\<lambda>r. r_id r \<noteq> i) (repos db) = filter (\<lambda>r. r_id r \<noteq> i) (repos db0)"

lemma row_now_update:
  assumes "row_now i db0 db y" "\<And>r. r_id (f r) = r_id r"
  shows "\<exists>db'. update_row i f db = (Inr (), db') \<and> row_now i db0 db' (f y)"
proof -
  have "tcount (\<lambda>r. r_id r = i) (repos db) \<noteq> 0"
    using assms(1) by (auto simp: row_now_def repo_by_id_def tcount_def filter_empty_conv dest: tselect_Some)
  then have "update_row i f db = (Inr (), db\<lparr>repos := tupdate (\<lambda>r. r_id r = i) f (repos db)\<rparr>)"
    using assms(1) by (simp add: update_row_def checkout_repo_def row_now_def)
  then show ?thesis using assms
    by (auto simp: row_now_def repo_by_id_def tselect_update_same filter_tupdate_other)
qed

lemma row_now_status:
  assumes "row_now i db0 db y" "st \<in> set clone_statuses"
  shows "\<exists>db'. set_clone_status i st m db = (Inr (), db') \<and> row_now i db0 db' (y\<lparr>r_clone_status := st, r_clone_error_msg := m\<rparr>)"
  using row_now_update [OF assms(1), of "\<lambda>r. r\<lparr>r_clone_status := st, r_clone_error_msg := m\<rparr>"] assms(2)
  by (simp add: set_clone_status_def)

lemma row_now_path:
  assumes "row_now i db0 db y"
  shows "\<exists>db'. update_repo_local_path i path db = (Inr (), db') \<and> row_now i db0 db' (y\<lparr>r_local_path := path\<rparr>)"
  using row_now_update [OF assms, of "\<lambda>r. r\<lparr>r_local_path := path\<rparr>"] by (simp add: update_repo_local_path_def)

text \<open>
  C40. How a clone job ends when the database answers. The code 0 goes with the status cloned and the
  directory of the clone as the local path, the codes 1 and 2 with the status error and the old
  path; no other row changes. A job whose URL has no slug (\<open>urlparse\<close> refuses it), or
  whose repository has no profile, dies between the two: its status is pending for good.
\<close>
theorem clone_job_outcome:
  assumes "cloner_main w ge se es i cs s = ((r, s'), cs')" "rd_up (ix_db (ws_ix s))" "repo_by_id (ix_db (ws_ix s)) i = Some x"
  shows "\<exists>y. row_now i (ix_db (ws_ix s)) (ix_db (ws_ix s')) y \<and>
    (case r of
       Inr n \<Rightarrow> n \<in> {0, 1, 2} \<and> r_clone_status y = (if n = 0 then ''cloned'' else ''error'') \<and>
         (n = 2 \<longleftrightarrow> is_ssh_url (r_url x) \<and> r_ssh_key_id x = None) \<and>
         (if n = 0 then (case snd (left_join (ix_db (ws_ix s)) x) of None \<Rightarrow> False
            | Some p \<Rightarrow> default_clone_dir (we_base w) (p_name p) (r_url x) = Some (r_local_path y))
          else r_local_path y = r_local_path x)
     | Inl _ \<Rightarrow> r_clone_status y = ''pending'' \<and> r_local_path y = r_local_path x \<and>
         (repo_slug (r_url x) = None \<or> snd (left_join (ix_db (ws_ix s)) x) = None))"
proof -
  let ?db = "ix_db (ws_ix s)"
  obtain p where p: "left_join ?db x = (x, p)" by (simp add: left_join_def)
  have get: "get_repo_by_id i ?db = (Inr (Some (x, p)), ?db)" using assms(2,3) p by (simp add: get_repo_by_id_def checkout_repo_def)
  have x: "row_now i ?db ?db x" using assms(2,3) by (simp add: row_now_def)
  have st: "''error'' \<in> set clone_statuses" "''pending'' \<in> set clone_statuses" "''cloned'' \<in> set clone_statuses"
    by (simp_all add: clone_statuses_def)
  show ?thesis
  proof (cases "is_ssh_url (r_url x) \<and> r_ssh_key_id x = None")
    case True
    obtain db' where "set_clone_status i ''error'' (Some ''SSH URL but no ssh_key_id'') ?db = (Inr (), db')"
        "row_now i ?db db' (x\<lparr>r_clone_status := ''error'', r_clone_error_msg := Some ''SSH URL but no ssh_key_id''\<rparr>)"
      using row_now_status [OF x st(1)] by blast
    then show ?thesis using assms(1) get True by (auto simp: cloner_main_def site_db_eq cloner_db_def)
  next
    case False
    obtain db1 where d1: "set_clone_status i ''pending'' None ?db = (Inr (), db1)"
        "row_now i ?db db1 (x\<lparr>r_clone_status := ''pending'', r_clone_error_msg := None\<rparr>)" (is "row_now _ _ _ ?y1")
      using row_now_status [OF x st(2)] by blast
    show ?thesis
    proof (cases "\<exists>q target. p = Some q \<and> default_clone_dir (we_base w) (p_name q) (r_url x) = Some target")
      case no: False
      then have "repo_slug (r_url x) = None \<or> p = None"
        by (cases p) (auto simp: default_clone_dir_def)
      then show ?thesis using assms(1) get False no d1 p
        by (intro exI [of _ ?y1]) (cases p; auto simp: cloner_main_def site_db_eq split: option.splits)
    next
      case True
      then obtain q target where q: "p = Some q" "default_clone_dir (we_base w) (p_name q) (r_url x) = Some target" by blast
      obtain res cs2 where j: "clone_job ge se es x target (ws_auth s) cs = (res, cs2)" by (metis prod.collapse)
      show ?thesis
      proof (cases res)
        case (Inl m)
        obtain db2 where "set_clone_status i ''error'' (Some (clip 500 m)) db1 = (Inr (), db2)"
            "row_now i ?db db2 (?y1\<lparr>r_clone_status := ''error'', r_clone_error_msg := Some (clip 500 m)\<rparr>)"
          using row_now_status [OF d1(2) st(1)] by blast
        then show ?thesis using assms(1) get False d1(1) q j Inl
          by (auto simp: cloner_main_def site_db_eq cloner_db_def)
      next
        case (Inr u)
        obtain db2 where d2: "update_repo_local_path i target db1 = (Inr (), db2)" "row_now i ?db db2 (?y1\<lparr>r_local_path := target\<rparr>)"
          using row_now_path [OF d1(2)] by blast
        obtain db3 where "set_clone_status i ''cloned'' None db2 = (Inr (), db3)"
            "row_now i ?db db3 (?y1\<lparr>r_local_path := target, r_clone_status := ''cloned'', r_clone_error_msg := None\<rparr>)"
          using row_now_status [OF d2(2) st(3)] by blast
        then show ?thesis using assms(1) get False d1(1) d2(1) q j Inr p
          by (auto simp: cloner_main_def site_db_eq cloner_db_def)
      qed
    qed
  qed
qed

definition ex_git :: git_env where
  "ex_git = \<lparr>ge_nonempty = (\<lambda>_. False), ge_mkdir = (\<lambda>_. None), ge_mkstemp = Inr ''/tmp/k'', ge_write = None,
     ge_known_hosts = Inr ''/home/known_hosts'', ge_git = (\<lambda>_ _. None)\<rparr>"

theorem clone_repo_effect_witness:
  "\<exists>cs'. clone_repo ex_git ''git@h:me/odoo.git'' ''17.0'' ''/c/odoo'' (Some ''KEY'') \<lparr>cl_keys = [], cl_runs = []\<rparr> = (Inr (), cs') \<and>
     cl_keys cs' = [] \<and> length (cl_runs cs') = 1"
proof -
  let ?d = "clone_repo ex_git ''git@h:me/odoo.git'' ''17.0'' ''/c/odoo'' (Some ''KEY'') \<lparr>cl_keys = [], cl_runs = []\<rparr>"
  have f: "fst ?d = Inr ()" by code_simp
  then obtain cs' where d: "?d = (Inr (), cs')" by (metis prod.collapse)
  have "list_all (\<lambda>t. t \<notin> fst ` set (cl_keys \<lparr>cl_keys = [], cl_runs = []\<rparr>)) (case ge_mkstemp ex_git of Inl _ \<Rightarrow> [] | Inr t \<Rightarrow> [t])"
    by (simp add: ex_git_def)
  from clone_repo_effect [OF d this] obtain new where "cl_keys cs' = []" "cl_runs cs' = new" "length new \<le> 1" "new \<noteq> []" by auto
  moreover from this have "length new = 1" by (cases new) auto
  ultimately show ?thesis using d by (intro exI [of _ cs']) simp
qed

theorem clone_job_outcome_witness:
  "\<exists>s' cs' y. cloner_main (ex_site_env (\<lambda>_. None)) ex_git (co_ssh ex_console) (\<lambda>_. ''failed'') 1 \<lparr>cl_keys = [], cl_runs = []\<rparr> ex_site = ((Inr 0, s'), cs') \<and>
     repo_by_id (ix_db (ws_ix s')) 1 = Some y \<and> r_clone_status y = ''cloned'' \<and> r_local_path y = ''/clones/std/odoo''"
proof -
  let ?m = "cloner_main (ex_site_env (\<lambda>_. None)) ex_git (co_ssh ex_console) (\<lambda>_. ''failed'') 1 \<lparr>cl_keys = [], cl_runs = []\<rparr> ex_site"
  let ?x = "ex_repo 1 ''/p1/odoo'' ''h1''"
  have f: "fst (fst ?m) = Inr 0" "rd_up (ix_db (ws_ix ex_site))"
    "default_clone_dir (we_base (ex_site_env (\<lambda>_. None))) (p_name ex_profile) (r_url ?x) = Some ''/clones/std/odoo''" by code_simp+
  have k: "repo_by_id (ix_db (ws_ix ex_site)) 1 = Some ?x" "left_join (ix_db (ws_ix ex_site)) ?x = (?x, Some ex_profile)"
    by (simp_all add: repo_by_id_def left_join_def profile_by_id_def tselect_def ex_site_def ex_state_def ex_repo_def ex_profile_def)
  obtain s' cs' where d: "?m = ((Inr 0, s'), cs')" using f(1) by (metis prod.collapse)
  from clone_job_outcome [OF d f(2) k(1)] show ?thesis using d f(3) k(2) by (auto simp: row_now_def)
qed

end
