(* ===== verification/Spec2Isabelle.thy ===== *)
theory Spec2Isabelle
  imports TreeBuilder Versions Hints Graph OrmProps SessionProps RefsProps Resolver Indexer
    AuthDbProps AuthConcurrency WebAuthProps AccountsProps RepoProps Jobs
    Embeddings WriterProps PipelineExamples ApiGatewayProps ClonerProps
begin

text \<open>
  A model of the Odoo semantic MCP server (\<open>src/src/\<close> of the repository): an indexer that reads
  Odoo source trees into a property graph, an MCP server whose tools query that graph, and a web
  console with its own accounts, sessions and API keys. This theory only collects the others.

  \<^bold>\<open>Shared.\<close> \<open>Prelude\<close>: tables as lists of rows (\<open>tselect\<close>, \<open>tupdate\<close>, \<open>tdelete\<close>, \<open>tcount\<close> for
  SELECT, UPDATE, DELETE, COUNT), Python dicts as association lists in insertion order, and the
  locale \<open>op_store\<close>: a store whose operations keep an invariant, with the lemma that every run
  of operations does. \<open>PyText\<close> and \<open>PyVal\<close>: \<open>str\<close> methods, \<open>int()\<close>, \<open>repr\<close>, and Python values.

  \<^bold>\<open>Indexer.\<close> \<open>Versions\<close>: \<open>constants.py\<close>, \<open>version_registry.py\<close>, the finder dispatch and
  \<open>resolve_odoo_version\<close> of \<open>registry.py\<close>. \<open>Indexer\<close>: \<open>build_registry\<close>, the version diff
  (\<open>diff_engine.py\<close>), changed modules and dependent repositories. \<open>Resolver\<close>: \<open>topological_sort\<close>;
  its loop ends because the sum of the positive in-degrees and the queue length falls.
  \<open>PropertyGraph\<close>: nodes, relationships and the Cypher clauses MATCH, MERGE, SET and DETACH
  DELETE, with the laws that keys stay unique. \<open>Writer\<close>: the parsers' results (\<open>models.py\<close>) and the
  statements of \<open>writer_neo4j.py\<close> that store them; \<open>SpecWriter\<close>: core symbols, lint rules and
  command lines per version, and \<open>index_core\<close>. \<open>WriterProps\<close>: unique keys over every history, what a
  deletion takes, the symbols read back, and views whose base comes later. \<open>Embeddings\<close>: \<open>writer_pgvector.py\<close>, the windows of a
  text and the table that a module's chunks replace. \<open>IndexState\<close>: the stores and the world of a
  run, operations that may raise, and the advisory locks of PostgreSQL. \<open>Pipeline\<close>: \<open>_index_repo\<close> of
  \<open>pipeline.py\<close>, phase by phase; \<open>Seeding\<close>: \<open>seed_patterns.py\<close>; \<open>PipelineRuns\<close>: \<open>index_profile\<close>, \<open>index_all\<close>, the
  catch-up of embeddings and the audit. \<open>PipelineProps\<close>: when the indexed commit of a repository moves, what
  reaches its dependents, what the collection removes, how failures are accounted for; \<open>SeedingProps\<close>:
  what the sentinels of the catalogue say;
  \<open>PipelineExamples\<close>: a small world in which all of it happens.

  \<^bold>\<open>MCP tools.\<close> \<open>Graph\<close>: the nodes and edges the tools query, with the Cypher clauses of
  \<open>mcp/orm.py\<close> as list functions; variable-length patterns \<open>*1..n\<close> are walked for n rounds, the
  bound the query states. \<open>Orm\<close>, \<open>OrmProps\<close>: field lookup, path walk and the four validation
  tools with their texts. \<open>TreeBuilder\<close>, \<open>Hints\<close>: output layer. \<open>SessionState\<close>, \<open>SessionProps\<close>:
  \<open>mcp/session.py\<close>, the one-minute cache in front of the table \<open>api_key_session_state\<close>, with the
  rest of the world as steps of a history. \<open>Refs\<close>, \<open>RefsProps\<close>: \<open>mcp/refs.py\<close>.
  \<open>ApiGateway\<close>: the key cache and the rate limit of \<open>mcp/middleware.py\<close>, the hand-over of the key to the
  tools (\<open>tool_log_middleware.py\<close>) and the cache of resource bodies (\<open>resources.py\<close>); \<open>ApiGatewayProps\<close>: the
  limit against a log of all accepted requests, the age of a verdict, the bounds of both caches.

  \<^bold>\<open>Accounts.\<close> \<open>AuthDb\<close>: the tables and every method of \<open>AuthStore\<close> (\<open>db/auth_registry.py\<close>);
  \<open>AuthDbProps\<close>: their integrity, the last admin, the life of a key, as interpretations of
  \<open>op_store\<close>. \<open>AuthConcurrency\<close>: two methods as interleaved transactions at READ COMMITTED.
  \<open>WebAuth\<close>: the handlers of \<open>web_ui/routes/login.py\<close> and \<open>totp.py\<close>, the rate limit, the guard
  middleware and the FastAPI dependencies; a request carries its cookie and a handler returns
  response, cookie and database. \<open>WebAuthProps\<close>: what a login, a second factor, a reset and a
  revocation guarantee, and where they do not. \<open>Accounts\<close>: registration and verification
  (\<open>routes/signup.py\<close>), the OAuth endpoint (\<open>routes/oauth.py\<close>) and the outer middlewares of
  \<open>web_ui/app.py\<close>; \<open>AccountsProps\<close>: the invariant of the accounts over the store and the public
  endpoints, the linking policy, the use of tokens, and ways into an account without its password.
  \<open>AdminRoutes\<close>: the console's handlers over users, API keys, SSH keys, jobs and feedback with the
  audit decorator; \<open>AdminProps\<close>: what a session without admin rights can change, what deactivating a
  user leaves, when a stuck job can be reset.

  \<^bold>\<open>Repositories and jobs.\<close> \<open>RepoStore\<close>: the tables \<open>profiles\<close> and \<open>repos\<close> and every method of
  \<open>db/repo_registry.py\<close>. The recursive queries (UNION ALL, no cycle guard) are a partial function:
  None is a query that does not return. \<open>RepoProps\<close>: the profiles stay a forest, so no query
  hangs in a sequential history; two concurrent re-parentings can make one that does; and what
  each operation decides. \<open>Jobs\<close>: \<open>db/job_registry.py\<close>, its statuses and the cleanup of dead jobs.
  \<open>RepoRoutes\<close>: the console's handlers over both (\<open>routes/repos.py\<close>) on a site of the stores, the graph, the
  embeddings, the jobs and the processes started so far; \<open>RepoRouteProps\<close>: who may call them, what a
  deletion takes along, what starting a run leaves. \<open>Cloner\<close>: the target directory and the clone of
  \<open>git_utils.py\<close> and the clone job; \<open>ClonerProps\<close>: where clones go, what is left of the key, how a job ends.

  \<^bold>\<open>Parameters.\<close> Hash functions, bcrypt, HMAC, TOTP, Fernet, the INET parser, random tokens, the
  clock, \<open>ast.literal_eval\<close> and \<open>difflib\<close> are arguments; what is assumed of them is a premise of
  the theorem that needs it. Times are integers (micro- or milliseconds as the source counts).

  \<^bold>\<open>Not modelled.\<close> The parsers built on lxml, tree-sitter and CPython's \<open>ast\<close>; the embedding service; the migrations' SQL; the framework
  set-up, e-mail and command-line code. The tools of \<open>mcp/server.py\<close> beyond \<open>_latest_version\<close>
  are Cypher and text.
\<close>

end
